(* ===== verification/Nanasa_Prelude.thy ===== *)
theory Nanasa_Prelude
  imports Main "HOL-Library.Char_ord" "HOL-Library.List_Lexorder" "HOL-Library.Product_Lexorder"
begin

text \<open>
  The vocabulary the components share: timestamps, results of fallible operations, the
  JavaScript list and string helpers the sources use, tables of rows as SQLite keeps them,
  and the interfaces (locales) of state machines and keyed tables.

  Timestamps. The sources carry ISO-8601 strings and compare them through
  \<open>Date.parse\<close> (milliseconds since the epoch) or, inside SQL, as strings that
  \<open>toISOString\<close> made, whose lexical order is the order of their milliseconds. The model
  keeps the milliseconds as an \<open>int\<close>. Every schema that admits a timestamp rejects text
  that \<open>Date.parse\<close> cannot read, so no NaN arises.

  Strings are lists of ASCII characters, ordered as SQLite's BINARY collation orders them.
\<close>

type_synonym timestamp = int

text \<open>
  Errors as values. A DomainError keeps its code and HTTP status; a failed Zod parse, a
  violated SQLite constraint and a plain JavaScript Error are the other ways an operation ends.
\<close>

datatype error =
    DomainError string nat
  | SchemaError
  | ConstraintError
  | PlainError string

type_synonym 'a result = "error + 'a"

definition rbind :: "'a result \<Rightarrow> ('a \<Rightarrow> 'b result) \<Rightarrow> 'b result" where
  "rbind m k = (case m of Inl e \<Rightarrow> Inl e | Inr a \<Rightarrow> k a)"

lemma rbind_simps [simp]:
  "rbind (Inl e) k = Inl e"
  "rbind (Inr a) k = k a"
  by (simp_all add: rbind_def)

lemma rbind_eq_Inr: "rbind m k = Inr b \<longleftrightarrow> (\<exists>a. m = Inr a \<and> k a = Inr b)"
  by (cases m) auto

lemma rbind_eq_Inl: "rbind m k = Inl e \<longleftrightarrow> m = Inl e \<or> (\<exists>a. m = Inr a \<and> k a = Inl e)"
  by (cases m) auto

text \<open>A loop whose body may throw.\<close>

fun fold_r :: "('a \<Rightarrow> 's \<Rightarrow> 's result) \<Rightarrow> 'a list \<Rightarrow> 's \<Rightarrow> 's result" where
  "fold_r f [] s = Inr s"
| "fold_r f (x # xs) s = rbind (f x s) (fold_r f xs)"

subsection \<open>JavaScript helpers\<close>

text \<open>\<open>items.slice(-n)\<close> and \<open>[...new Set(items)]\<close> (first occurrences, in order).\<close>

definition last_n :: "nat \<Rightarrow> 'a list \<Rightarrow> 'a list" where
  "last_n n xs = drop (length xs - n) xs"

lemma length_last_n [simp]: "length (last_n n xs) = min n (length xs)"
  by (auto simp: last_n_def)

lemma set_last_n: "set (last_n n xs) \<subseteq> set xs"
  by (auto simp: last_n_def dest: in_set_dropD)

lemma last_n_all: "length xs \<le> n \<Longrightarrow> last_n n xs = xs"
  by (simp add: last_n_def)

definition js_uniq :: "'a list \<Rightarrow> 'a list" where
  "js_uniq xs = rev (remdups (rev xs))"

lemma set_js_uniq [simp]: "set (js_uniq xs) = set xs"
  by (simp add: js_uniq_def)

lemma distinct_js_uniq [simp]: "distinct (js_uniq xs)"
  by (simp add: js_uniq_def)

lemma js_uniq_snoc: "distinct xs \<Longrightarrow> js_uniq (xs @ [x]) = (if x \<in> set xs then xs else xs @ [x])"
  by (simp add: js_uniq_def distinct_remdups_id)

definition js_space :: "char \<Rightarrow> bool" where
  "js_space c \<longleftrightarrow> c \<in> {CHR 0x09, CHR 0x0A, CHR 0x0B, CHR 0x0C, CHR 0x0D, CHR '' ''}"

definition js_trim :: "string \<Rightarrow> string" where
  "js_trim s = rev (dropWhile js_space (rev (dropWhile js_space s)))"

lemma length_dropWhile_le': "length (dropWhile P xs) \<le> length xs"
  by (induction xs) auto

lemma length_js_trim: "length (js_trim s) \<le> length s"
  by (metis js_trim_def length_dropWhile_le' length_rev le_trans)

text \<open>A number in a template string, \<open>`${n}`\<close>.\<close>

fun show_nat :: "nat \<Rightarrow> string" where
  "show_nat n =
     (if n < 10 then [char_of (48 + n)] else show_nat (n div 10) @ [char_of (48 + n mod 10)])"

declare show_nat.simps [simp del]

definition show_int :: "int \<Rightarrow> string" where
  "show_int i = (if i < 0 then CHR ''-'' # show_nat (nat (- i)) else show_nat (nat i))"

definition ascii_lower :: "char \<Rightarrow> char" where
  "ascii_lower c =
     (let n = of_char c :: nat in if 65 \<le> n \<and> n \<le> 90 then char_of (n + 32) else c)"

text \<open>A trimmed string field of a schema with \<open>min(1).max(n)\<close>: the value the parse returns.\<close>

definition parse_text :: "nat \<Rightarrow> string \<Rightarrow> string result" where
  "parse_text n s =
     (let t = js_trim s in if 1 \<le> length t \<and> length t \<le> n then Inr t else Inl SchemaError)"

definition parse_opt :: "('a \<Rightarrow> 'b result) \<Rightarrow> 'a option \<Rightarrow> 'b option result" where
  "parse_opt p v = (case v of None \<Rightarrow> Inr None | Some a \<Rightarrow> rbind (p a) (\<lambda>b. Inr (Some b)))"

lemma parse_opt_simps [simp]:
  "parse_opt p None = Inr None"
  "parse_opt p (Some a) = rbind (p a) (\<lambda>b. Inr (Some b))"
  by (simp_all add: parse_opt_def)

lemma parse_text_InrD: "parse_text n s = Inr t \<Longrightarrow> t = js_trim s \<and> 1 \<le> length t \<and> length t \<le> n"
  by (auto simp: parse_text_def Let_def split: if_splits)

subsection \<open>Tables\<close>

text \<open>
  An SQL table is the list of its rows in insertion order. \<open>update_where p f\<close> is
  \<open>UPDATE ... SET f WHERE p\<close>, \<open>count_where p\<close> its number of changes, and
  \<open>find_where p\<close> the first row of \<open>SELECT ... WHERE p\<close>.
\<close>

definition find_where :: "('r \<Rightarrow> bool) \<Rightarrow> 'r list \<Rightarrow> 'r option" where
  "find_where p rs = List.find p rs"

definition update_where :: "('r \<Rightarrow> bool) \<Rightarrow> ('r \<Rightarrow> 'r) \<Rightarrow> 'r list \<Rightarrow> 'r list" where
  "update_where p f rs = map (\<lambda>r. if p r then f r else r) rs"

definition count_where :: "('r \<Rightarrow> bool) \<Rightarrow> 'r list \<Rightarrow> nat" where
  "count_where p rs = length (filter p rs)"

definition delete_where :: "('r \<Rightarrow> bool) \<Rightarrow> 'r list \<Rightarrow> 'r list" where
  "delete_where p rs = filter (\<lambda>r. \<not> p r) rs"

lemma find_where_simps [simp]:
  "find_where p [] = None"
  "find_where p (r # rs) = (if p r then Some r else find_where p rs)"
  by (simp_all add: find_where_def)

lemma find_where_SomeD: "find_where p rs = Some r \<Longrightarrow> r \<in> set rs \<and> p r"
  by (induction rs) (auto split: if_splits)

lemma find_where_None_iff: "find_where p rs = None \<longleftrightarrow> (\<forall>r\<in>set rs. \<not> p r)"
  by (induction rs) auto

lemma find_where_append:
  "find_where p (xs @ ys) = (case find_where p xs of None \<Rightarrow> find_where p ys | Some r \<Rightarrow> Some r)"
  by (induction xs) auto

lemma find_where_exists: "r \<in> set rs \<Longrightarrow> p r \<Longrightarrow> \<exists>r'. find_where p rs = Some r'"
  by (induction rs) auto

lemma update_where_simps [simp]:
  "update_where p f [] = []"
  "update_where p f (r # rs) = (if p r then f r else r) # update_where p f rs"
  by (simp_all add: update_where_def)

lemma length_update_where [simp]: "length (update_where p f rs) = length rs"
  by (simp add: update_where_def)

lemma set_update_where: "set (update_where p f rs) = f ` {r \<in> set rs. p r} \<union> {r \<in> set rs. \<not> p r}"
  by (induction rs) auto

lemma update_where_none: "\<forall>r\<in>set rs. \<not> p r \<Longrightarrow> update_where p f rs = rs"
  by (induction rs) auto

lemma count_where_0: "count_where p rs = 0 \<longleftrightarrow> (\<forall>r\<in>set rs. \<not> p r)"
  by (auto simp: count_where_def filter_empty_conv)

lemma map_update_where:
  assumes "\<And>r. g (f r) = g r"
  shows "map g (update_where p f rs) = map g rs"
  using assms by (induction rs) auto

lemma count_where_le_1:
  assumes "distinct (map key rs)" and "\<And>r. p r \<Longrightarrow> key r = k"
  shows "count_where p rs \<le> 1"
  using assms(1)
proof (induction rs)
  case (Cons r rs)
  show ?case
  proof (cases "p r")
    case True
    have none: "\<not> p r'" if r': "r' \<in> set rs" for r'
    proof
      assume "p r'"
      then have "key r' = key r" using True assms(2) by metis
      moreover have "key r' \<in> key ` set rs" using r' by blast
      ultimately show False using Cons.prems by simp
    qed
    then have "filter p rs = []" by (simp add: filter_empty_conv)
    then show ?thesis using True by (simp add: count_where_def)
  next
    case False
    then show ?thesis using Cons by (simp add: count_where_def)
  qed
qed (simp add: count_where_def)

text \<open>
  The interface of a table with a primary key: reading a row back after an update, the rows an
  update leaves alone, insertion of a fresh key. Each table of the store interprets it.
\<close>

locale keyed_table =
  fixes key :: "'r \<Rightarrow> 'k"
    and get :: "'k \<Rightarrow> 'r list \<Rightarrow> 'r option"
    and put :: "'k \<Rightarrow> ('r \<Rightarrow> 'r) \<Rightarrow> 'r list \<Rightarrow> 'r list"
    and add :: "'r \<Rightarrow> 'r list \<Rightarrow> 'r list"
  assumes get_put_same: "(\<And>r. key (f r) = key r) \<Longrightarrow> get k (put k f rs) = map_option f (get k rs)"
    and get_put_other: "(\<And>r. key (f r) = key r) \<Longrightarrow> k' \<noteq> k \<Longrightarrow> get k' (put k f rs) = get k' rs"
    and get_add_fresh: "get (key r) rs = None \<Longrightarrow> get (key r) (add r rs) = Some r"
    and get_add_other: "key r \<noteq> k \<Longrightarrow> get k (add r rs) = get k rs"
    and get_key: "get k rs = Some r \<Longrightarrow> key r = k"
begin

lemma put_put:
  assumes f: "\<And>r. key (f r) = key r" and g: "\<And>r. key (g r) = key r"
  shows "get k' (put k g (put k f rs)) = get k' (put k (\<lambda>r. g (f r)) rs)"
proof (cases "k' = k")
  case True
  then show ?thesis using f g by (simp add: get_put_same option.map_comp comp_def)
next
  case False
  then show ?thesis using f g by (simp add: get_put_other)
qed

lemma get_add_known: "get k rs = Some r' \<Longrightarrow> key r \<noteq> k \<Longrightarrow> get k (add r rs) = Some r'"
  by (simp add: get_add_other)

end

lemma find_where_key_update:
  assumes "\<And>r. key (f r) = key r"
  shows "find_where (\<lambda>r. key r = k) (update_where (\<lambda>r. key r = k) f rs) =
         map_option f (find_where (\<lambda>r. key r = k) rs)"
  by (induction rs) (auto simp: assms)

lemma find_where_key_update_other:
  assumes "\<And>r. key (f r) = key r" and "k' \<noteq> k"
  shows "find_where (\<lambda>r. key r = k') (update_where (\<lambda>r. key r = k) f rs) =
         find_where (\<lambda>r. key r = k') rs"
  using assms(2) by (induction rs) (auto simp: assms(1))

lemma keyed_table_rows:
  "keyed_table key (\<lambda>k. find_where (\<lambda>r. key r = k)) (\<lambda>k. update_where (\<lambda>r. key r = k))
     (\<lambda>r rs. rs @ [r])"
proof (unfold_locales, goal_cases)
  case (1 f k rs)
  then show ?case by (rule find_where_key_update)
next
  case (2 f k' k rs)
  then show ?case by (rule find_where_key_update_other)
next
  case (3 r rs)
  then show ?case by (simp add: find_where_append)
next
  case (4 r k rs)
  then show ?case by (simp add: find_where_append split: option.splits)
next
  case (5 k rs r)
  then show ?case by (blast dest: find_where_SomeD)
qed

subsection \<open>State machines\<close>

text \<open>
  The contract of a deterministic machine that keeps an invariant, of one whose measure never
  goes down, and of one with final states it never leaves.
\<close>

locale invariant_machine =
  fixes step :: "'s \<Rightarrow> 'e \<Rightarrow> 's"
    and inv :: "'s \<Rightarrow> bool"
  assumes step_inv: "inv s \<Longrightarrow> inv (step s e)"
begin

lemma run_inv: "inv s \<Longrightarrow> inv (foldl step s es)"
  by (induction es arbitrary: s) (auto intro: step_inv)

lemma run_all_inv: "inv s \<Longrightarrow> inv (foldl step s (take n es))"
  by (rule run_inv)

end

locale monotone_machine =
  fixes step :: "'s \<Rightarrow> 'e \<Rightarrow> 's"
    and level :: "'s \<Rightarrow> nat"
  assumes step_mono: "level s \<le> level (step s e)"
begin

lemma run_mono: "level s \<le> level (foldl step s es)"
  by (induction es arbitrary: s) (auto intro: order_trans [OF step_mono])

lemma run_prefix_mono: "level (foldl step s es) \<le> level (foldl step s (es @ fs))"
  by (simp add: run_mono)

end

locale absorbing_machine = invariant_machine step inv
  for step :: "'s \<Rightarrow> 'e \<Rightarrow> 's" and inv :: "'s \<Rightarrow> bool" +
  fixes view :: "'s \<Rightarrow> 'v"
    and final :: "'v \<Rightarrow> bool"
  assumes final_stays: "inv s \<Longrightarrow> final (view s) \<Longrightarrow> view (step s e) = view s"
begin

lemma run_final: "inv s \<Longrightarrow> final (view s) \<Longrightarrow> view (foldl step s es) = view s"
proof (induction es arbitrary: s)
  case (Cons e es)
  then show ?case using final_stays [of s e] step_inv [of s e] by simp
qed simp

end

sublocale absorbing_machine \<subseteq> final_inv: invariant_machine step "\<lambda>s. inv s \<and> final (view s)"
  by unfold_locales (simp add: final_stays step_inv)

text \<open>
  The contract of a step relation that keeps an invariant and moves the state only along a
  preorder; every sequence of steps then does so too.
\<close>

locale moving_machine =
  fixes step :: "'s \<Rightarrow> 's \<Rightarrow> bool"
    and inv :: "'s \<Rightarrow> bool"
    and moves :: "'s \<Rightarrow> 's \<Rightarrow> bool"
  assumes step_moves: "step s s' \<Longrightarrow> inv s \<Longrightarrow> moves s s'"
    and moves_inv: "moves s s' \<Longrightarrow> inv s'"
    and moves_refl: "inv s \<Longrightarrow> moves s s"
    and moves_trans: "moves s t \<Longrightarrow> moves t u \<Longrightarrow> moves s u"
begin

lemma steps_move: "step\<^sup>*\<^sup>* s s' \<Longrightarrow> inv s \<Longrightarrow> moves s s'"
proof (induction rule: rtranclp_induct)
  case (step t u)
  then show ?case using step_moves moves_inv moves_trans by blast
qed (rule moves_refl)

lemma steps_inv: "step\<^sup>*\<^sup>* s s' \<Longrightarrow> inv s \<Longrightarrow> inv s'"
  using steps_move moves_inv by blast

end

end
