(* ===== verification/Status_Types.thy ===== *)
theory Status_Types
  imports Nanasa_Prelude
begin

text \<open>
  The data of the agent status protocol, \<open>packages/contracts/src/status.ts\<close>: its enums, its
  records, and the schemas that admit a reporter event or a progress report.
\<close>

subsection \<open>Enums\<close>

datatype agent_status_state =
  St_starting | St_idle | St_working | St_waiting | St_blocked
| St_suspected_stuck | St_stopped | St_failed | St_unknown

datatype agent_status_phase =
  Ph_startup | Ph_model | Ph_tool | Ph_retry | Ph_compaction | Ph_permission
| Ph_question | Ph_plan_approval | Ph_settled | Ph_exited

datatype agent_status_outcome = Oc_unknown | Oc_succeeded | Oc_failed | Oc_cancelled

datatype agent_status_confidence = Cf_high | Cf_medium | Cf_low

datatype agent_status_attention =
  At_none | At_input_required | At_decision_required | At_reporter_stale
| At_progress_stale | At_process_failed

datatype agent_status_source = Src_claude_code | Src_copilot | Src_pi | Src_opencode

datatype event_kind =
  Ev_reporter_ready | Ev_session_ready | Ev_turn_started | Ev_turn_waiting | Ev_turn_settled
| Ev_tool_started | Ev_tool_finished | Ev_tool_failed | Ev_wait_opened | Ev_wait_closed
| Ev_compaction_started | Ev_compaction_finished | Ev_retry_observed | Ev_failure_observed
| Ev_session_ended | Ev_heartbeat

datatype wait_kind = Wk_permission | Wk_question | Wk_elicitation | Wk_plan_approval

datatype reply_channel = Rch_terminal | Rch_hook | Rch_rpc | Rch_acp | Rch_api

datatype readiness_coverage = Rc_full | Rc_partial | Rc_session_only

datatype authority_kind = Ak_process | Ak_reporter | Ak_screen | Ak_none

datatype process_state = Ps_present | Ps_dead | Ps_missing | Ps_indeterminate

datatype screen_classification =
  Sc_blocked | Sc_working_hint | Sc_idle_hint | Sc_unknown | Sc_skip

datatype provider_match = Pm_match | Pm_mismatch | Pm_unknown

datatype evidence_source =
  Es_scheduler | Es_process | Es_reporter | Es_screen | Es_status_api

text \<open>The wire names of event kinds and screen classes, which the evidence log keeps as text.\<close>

fun event_kind_name :: "event_kind \<Rightarrow> string" where
  "event_kind_name Ev_reporter_ready = ''reporter.ready''"
| "event_kind_name Ev_session_ready = ''session.ready''"
| "event_kind_name Ev_turn_started = ''turn.started''"
| "event_kind_name Ev_turn_waiting = ''turn.waiting''"
| "event_kind_name Ev_turn_settled = ''turn.settled''"
| "event_kind_name Ev_tool_started = ''tool.started''"
| "event_kind_name Ev_tool_finished = ''tool.finished''"
| "event_kind_name Ev_tool_failed = ''tool.failed''"
| "event_kind_name Ev_wait_opened = ''wait.opened''"
| "event_kind_name Ev_wait_closed = ''wait.closed''"
| "event_kind_name Ev_compaction_started = ''compaction.started''"
| "event_kind_name Ev_compaction_finished = ''compaction.finished''"
| "event_kind_name Ev_retry_observed = ''retry.observed''"
| "event_kind_name Ev_failure_observed = ''failure.observed''"
| "event_kind_name Ev_session_ended = ''session.ended''"
| "event_kind_name Ev_heartbeat = ''heartbeat''"

fun screen_class_name :: "screen_classification \<Rightarrow> string" where
  "screen_class_name Sc_blocked = ''blocked''"
| "screen_class_name Sc_working_hint = ''working_hint''"
| "screen_class_name Sc_idle_hint = ''idle_hint''"
| "screen_class_name Sc_unknown = ''unknown''"
| "screen_class_name Sc_skip = ''skip''"

subsection \<open>Records\<close>

record native_session_ref =
  ns_isPath :: bool
  ns_value :: string

record event_data =
  d_tool :: "string option"
  d_waitKind :: "wait_kind option"
  d_summary :: "string option"
  d_replyChannel :: "reply_channel option"
  d_errorClass :: "string option"
  d_retryAt :: "timestamp option"
  d_activeCount :: "nat option"
  d_fatal :: "bool option"
  d_nativeSession :: "native_session_ref option"
  d_effectiveModel :: "string option"

record event_input =
  in_version :: nat
  in_eventId :: string
  in_providerId :: string
  in_adapterId :: string
  in_reporterId :: string
  in_source :: agent_status_source
  in_protocolVersion :: nat
  in_reporterVersion :: string
  in_runId :: string
  in_generation :: nat
  in_reporterEpoch :: string
  in_sourceSequence :: nat
  in_nativeSessionId :: "string option"
  in_event :: event_kind
  in_occurredAt :: "timestamp option"
  in_actionId :: "string option"
  in_turnId :: "string option"
  in_operationId :: "string option"
  in_requestId :: "string option"
  in_data :: event_data

text \<open>
  A progress report as parsed: its blocker is present only when it names an actual blocker, and
  its outcome is one of the two the schema leaves (\<open>exclude(["unknown", "cancelled"])\<close>).
\<close>

record progress_report =
  p_stage :: string
  p_summary :: string
  p_nextStep :: "string option"
  p_blocker :: "string option"
  p_outcome :: "agent_status_outcome option"

record agent_wait =
  w_requestId :: string
  w_kind :: wait_kind
  w_summary :: string
  w_replyChannel :: reply_channel
  w_openedAt :: timestamp

record evidence =
  e_source :: evidence_source
  e_kind :: string
  e_observedAt :: timestamp
  e_confidence :: agent_status_confidence
  e_summary :: "string option"

record status_transition =
  t_from :: agent_status_state
  t_to :: agent_status_state
  t_phase :: agent_status_phase
  t_attention :: agent_status_attention
  t_occurredAt :: timestamp

record process_identity =
  pi_foregroundPgid :: nat
  pi_leaderPid :: nat
  pi_pidStartIdentity :: string
  pi_executableFingerprint :: string
  pi_argvFingerprint :: string
  pi_processFingerprint :: string
  pi_expectedProviderMatch :: provider_match
  pi_wrapperChain :: "string list"

record screen_observation =
  so_runId :: string
  so_generation :: nat
  so_paneId :: string
  so_observedAt :: timestamp
  so_captureHash :: string
  so_rows :: nat
  so_bytes :: nat
  so_truncated :: bool
  so_alternateScreen :: bool
  so_manifestId :: string
  so_manifestVersion :: string
  so_manifestDigest :: string
  so_ruleId :: "string option"
  so_classification :: screen_classification
  so_confidence :: agent_status_confidence
  so_visibleBlocker :: bool

subsection \<open>Schemas\<close>

text \<open>
  \<open>IdentifierSchema\<close> and the regular expressions of the identity schemas, as recognisers:
  lower-case alphanumeric runs joined by single separators.
\<close>

definition parse_identifier :: "string \<Rightarrow> string result" where
  "parse_identifier = parse_text 128"

definition lower_alnum :: "char \<Rightarrow> bool" where
  "lower_alnum c =
     (let n = of_char c :: nat in (97 \<le> n \<and> n \<le> 122) \<or> (48 \<le> n \<and> n \<le> 57))"

fun joined_runs :: "(char \<Rightarrow> bool) \<Rightarrow> bool \<Rightarrow> string \<Rightarrow> bool" where
  "joined_runs sep inrun [] = inrun"
| "joined_runs sep inrun (c # cs) =
     (if lower_alnum c then joined_runs sep True cs
      else inrun \<and> sep c \<and> joined_runs sep False cs)"

definition parse_integration_id :: "string \<Rightarrow> string result" where
  "parse_integration_id s =
     rbind (parse_text 64 s) (\<lambda>t.
       if joined_runs (\<lambda>c. c = CHR ''-'') False t then Inr t else Inl SchemaError)"

definition parse_event_data :: "event_data \<Rightarrow> event_data result" where
  "parse_event_data d =
     rbind (parse_opt (parse_text 128) (d_tool d)) (\<lambda>tool.
     rbind (parse_opt (parse_text 512) (d_summary d)) (\<lambda>summary.
     rbind (parse_opt (parse_text 128) (d_errorClass d)) (\<lambda>errorClass.
     rbind (parse_opt (\<lambda>n. if n \<le> 10000 then Inr n else Inl SchemaError) (d_activeCount d))
       (\<lambda>activeCount.
     rbind (parse_opt (\<lambda>s. rbind (parse_text 4096 (ns_value s)) (\<lambda>v. Inr (s\<lparr>ns_value := v\<rparr>)))
       (d_nativeSession d)) (\<lambda>nativeSession.
     rbind (parse_opt (parse_text 256) (d_effectiveModel d)) (\<lambda>effectiveModel.
       Inr (d\<lparr>d_tool := tool, d_summary := summary, d_errorClass := errorClass,
              d_activeCount := activeCount, d_nativeSession := nativeSession,
              d_effectiveModel := effectiveModel\<rparr>)))))))"

text \<open>The three cross-field rules of \<open>AgentStatusEventInputSchema.superRefine\<close>.\<close>

definition event_rules :: "event_input \<Rightarrow> bool" where
  "event_rules i \<longleftrightarrow>
     (in_event i \<in> {Ev_tool_started, Ev_tool_finished, Ev_tool_failed} \<longrightarrow> in_operationId i \<noteq> None) \<and>
     (in_event i \<in> {Ev_wait_opened, Ev_wait_closed} \<longrightarrow> in_requestId i \<noteq> None) \<and>
     (in_event i = Ev_wait_opened \<longrightarrow>
        d_waitKind (in_data i) \<noteq> None \<and> d_summary (in_data i) \<noteq> None \<and>
        d_replyChannel (in_data i) \<noteq> None)"

definition parse_adapter_id :: "string \<Rightarrow> string result" where
  "parse_adapter_id s =
     (if 1 \<le> length s \<and> length s \<le> 128 \<and> joined_runs (\<lambda>c. c = CHR ''.'' \<or> c = CHR ''-'') False s
      then Inr s else Inl SchemaError)"

definition parse_event_input :: "event_input \<Rightarrow> event_input result" where
  "parse_event_input i =
     (if in_version i \<noteq> 2 \<or> in_protocolVersion i \<noteq> 2 \<or> in_generation i = 0
         \<or> in_sourceSequence i = 0 then Inl SchemaError else
     rbind (parse_identifier (in_eventId i)) (\<lambda>eventId.
     rbind (parse_integration_id (in_providerId i)) (\<lambda>providerId.
     rbind (parse_adapter_id (in_adapterId i)) (\<lambda>adapterId.
     rbind (parse_identifier (in_reporterId i)) (\<lambda>reporterId.
     rbind (parse_text 32 (in_reporterVersion i)) (\<lambda>reporterVersion.
     rbind (parse_identifier (in_runId i)) (\<lambda>runId.
     rbind (parse_identifier (in_reporterEpoch i)) (\<lambda>reporterEpoch.
     rbind (parse_opt (parse_text 4096) (in_nativeSessionId i)) (\<lambda>nativeSessionId.
     rbind (parse_opt parse_identifier (in_actionId i)) (\<lambda>actionId.
     rbind (parse_opt parse_identifier (in_turnId i)) (\<lambda>turnId.
     rbind (parse_opt parse_identifier (in_operationId i)) (\<lambda>operationId.
     rbind (parse_opt parse_identifier (in_requestId i)) (\<lambda>requestId.
     rbind (parse_event_data (in_data i)) (\<lambda>dat.
       let parsed = i\<lparr>in_eventId := eventId, in_providerId := providerId, in_adapterId := adapterId,
          in_reporterId := reporterId, in_reporterVersion := reporterVersion, in_runId := runId,
          in_reporterEpoch := reporterEpoch, in_nativeSessionId := nativeSessionId,
          in_actionId := actionId, in_turnId := turnId, in_operationId := operationId,
          in_requestId := requestId, in_data := dat\<rparr>
       in if event_rules parsed then Inr parsed else Inl SchemaError))))))))))))))"

lemma parse_event_input_rules: "parse_event_input i = Inr j \<Longrightarrow> event_rules j"
  by (auto simp: parse_event_input_def Let_def rbind_eq_Inr split: if_splits)

text \<open>
  The raw progress command: its blocker may be missing, \<open>null\<close> (the inner \<open>None\<close>) or text, and
  empty text or any casing of "none" means no blocker.
\<close>

record progress_command =
  pc_stage :: string
  pc_summary :: string
  pc_nextStep :: "string option"
  pc_blocker :: "string option option"
  pc_outcome :: "agent_status_outcome option"

definition parse_blocker :: "string option option \<Rightarrow> string option result" where
  "parse_blocker b =
     (case b of
        None \<Rightarrow> Inr None
      | Some None \<Rightarrow> Inr None
      | Some (Some s) \<Rightarrow>
          let t = js_trim s
          in if 1000 < length t then Inl SchemaError
             else if t = [] \<or> map ascii_lower t = ''none'' then Inr None
             else Inr (Some t))"

definition parse_progress :: "progress_command \<Rightarrow> progress_report result" where
  "parse_progress c =
     rbind (parse_text 100 (pc_stage c)) (\<lambda>stage.
     rbind (parse_text 1000 (pc_summary c)) (\<lambda>summary.
     rbind (parse_opt (parse_text 1000) (pc_nextStep c)) (\<lambda>nextStep.
     rbind (parse_blocker (pc_blocker c)) (\<lambda>blocker.
       if pc_outcome c \<in> {Some Oc_unknown, Some Oc_cancelled} then Inl SchemaError
       else Inr \<lparr>p_stage = stage, p_summary = summary, p_nextStep = nextStep,
                  p_blocker = blocker, p_outcome = pc_outcome c\<rparr>))))"

text \<open>\<open>AgentStatusEvidenceSchema\<close>, which every evidence entry of a status detail must meet.\<close>

definition evidence_ok :: "evidence \<Rightarrow> bool" where
  "evidence_ok e \<longleftrightarrow>
     parse_text 100 (e_kind e) \<noteq> Inl SchemaError \<and>
     (case e_summary e of None \<Rightarrow> True | Some s \<Rightarrow> parse_text 512 s \<noteq> Inl SchemaError)"

end
