(* ===== verification/Status_Reducer.thy ===== *)
theory Status_Reducer
  imports Status_Types
begin

text \<open>
  The agent status reducer, \<open>apps/daemon/src/agent-status-reducer.ts\<close>: the state of one run's
  status, the observations (process probes, reporter events, progress reports, screen
  classifications) and \<open>reduceAgentStatus\<close>, one definition per observation kind.
\<close>

subsection \<open>Observations and state\<close>

definition SEMANTIC_LEASE_MS :: int where "SEMANTIC_LEASE_MS = 45000"
definition TRANSPORT_LEASE_MS :: int where "TRANSPORT_LEASE_MS = 45000"
definition MAX_HISTORY :: nat where "MAX_HISTORY = 20"

datatype process_observation =
  ProcessAlive string timestamp "process_identity option" bool
    \<comment> \<open>eventId, observedAt, process, reporterAuthorityInvalid === true\<close>
| ProcessMissing string timestamp
| ProcessIndeterminate string timestamp
| ProcessExited string timestamp "int option" "string option" bool
    \<comment> \<open>eventId, observedAt, exitCode, signal, operatorStopped === true\<close>
| LeaseProbed string timestamp

record reporter_authority =
  ra_sessionId :: string
  ra_reporterEpoch :: string
  ra_readinessCoverage :: readiness_coverage
  ra_leaseExpiresAt :: timestamp

datatype observation =
  ReporterEvent timestamp event_input reporter_authority
| ProcessObs process_observation
| ProgressReported string timestamp progress_report
| ScreenClassified string timestamp screen_observation

record reducer_state =
  st_runId :: string
  st_generation :: nat
  st_state :: agent_status_state
  st_phase :: agent_status_phase
  st_outcome :: agent_status_outcome
  st_confidence :: agent_status_confidence
  st_attention :: agent_status_attention
  st_observedAt :: timestamp
  st_stateChangedAt :: timestamp
  st_lastActivityAt :: "timestamp option"
  st_lastActivityKind :: "string option"
  st_semanticLease :: "timestamp option"
  st_transportLease :: "timestamp option"
  st_lastProgressSummary :: "string option"
  st_progressStage :: "string option"
  st_nextStep :: "string option"
  st_blocker :: "string option"
  st_processExitCode :: "int option"
  st_processSignal :: "string option"
  st_cleanEndSeen :: bool
  st_openTools :: "string list"
  st_openWaits :: "agent_wait list"
  st_staleProbeCount :: nat
  st_evidence :: "evidence list"
  st_recentTransitions :: "status_transition list"
  st_statusRevision :: nat
  st_completionRevision :: nat
  st_interactiveReady :: bool
  st_staleAuthority :: bool
  st_authorityKind :: authority_kind
  st_authorityId :: "string option"
  st_processState :: process_state
  st_processFingerprint :: "string option"
  st_reporterEpoch :: "string option"
  st_reporterLease :: "timestamp option"
  st_readinessCoverage :: "readiness_coverage option"
  st_lastScreen :: "screen_observation option"

subsection \<open>Helpers\<close>

definition addMilliseconds :: "timestamp \<Rightarrow> int \<Rightarrow> timestamp" where
  "addMilliseconds t ms = t + ms"

definition appendLimited :: "'a list \<Rightarrow> 'a \<Rightarrow> 'a list" where
  "appendLimited items item = last_n MAX_HISTORY (items @ [item])"

definition evidenceSource :: "agent_status_source \<Rightarrow> evidence_source" where
  "evidenceSource source = Es_reporter"

definition waitPhase :: "agent_wait \<Rightarrow> agent_status_phase" where
  "waitPhase w =
     (case w_kind w of
        Wk_elicitation \<Rightarrow> Ph_question
      | Wk_permission \<Rightarrow> Ph_permission
      | Wk_question \<Rightarrow> Ph_question
      | Wk_plan_approval \<Rightarrow> Ph_plan_approval)"

definition waitAttention :: "agent_wait \<Rightarrow> agent_status_attention" where
  "waitAttention w =
     (if w_kind w = Wk_permission \<or> w_kind w = Wk_plan_approval
      then At_decision_required else At_input_required)"

definition transition :: "reducer_state \<Rightarrow> reducer_state \<Rightarrow> bool \<Rightarrow> reducer_state" where
  "transition current next completion =
     (let revised = next\<lparr>
            st_statusRevision := st_statusRevision current + 1,
            st_completionRevision := st_completionRevision current + (if completion then 1 else 0)\<rparr>
      in if st_state current = st_state revised \<and> st_phase current = st_phase revised \<and>
            st_attention current = st_attention revised \<and> st_outcome current = st_outcome revised
         then revised
         else revised\<lparr>
            st_stateChangedAt := st_observedAt revised,
            st_recentTransitions := appendLimited (st_recentTransitions revised)
              \<lparr>t_from = st_state current, t_to = st_state revised, t_phase = st_phase revised,
               t_attention = st_attention revised, t_occurredAt = st_observedAt revised\<rparr>\<rparr>)"

definition withEvidence :: "reducer_state \<Rightarrow> evidence \<Rightarrow> reducer_state" where
  "withEvidence current ev = current\<lparr>st_evidence := appendLimited (st_evidence current) ev\<rparr>"

definition resumeAfterWait :: "reducer_state \<Rightarrow> reducer_state" where
  "resumeAfterWait current =
     (case st_openWaits current of
        wait # _ \<Rightarrow> current\<lparr>
          st_state := St_blocked, st_phase := waitPhase wait,
          st_attention := waitAttention wait, st_confidence := Cf_high\<rparr>
      | [] \<Rightarrow> current\<lparr>
          st_state := St_working,
          st_phase := (if 0 < length (st_openTools current) then Ph_tool else Ph_model),
          st_attention := At_none, st_confidence := Cf_high\<rparr>)"

definition createAgentStatusReducerState :: "string \<Rightarrow> nat \<Rightarrow> timestamp \<Rightarrow> reducer_state" where
  "createAgentStatusReducerState runId generation observedAt =
     \<lparr>st_runId = runId, st_generation = generation, st_state = St_starting,
      st_phase = Ph_startup, st_outcome = Oc_unknown, st_confidence = Cf_low,
      st_attention = At_none, st_observedAt = observedAt, st_stateChangedAt = observedAt,
      st_lastActivityAt = None, st_lastActivityKind = None, st_semanticLease = None,
      st_transportLease = None, st_lastProgressSummary = None, st_progressStage = None,
      st_nextStep = None, st_blocker = None, st_processExitCode = None,
      st_processSignal = None, st_cleanEndSeen = False, st_openTools = [],
      st_openWaits = [], st_staleProbeCount = 0,
      st_evidence = [\<lparr>e_source = Es_scheduler, e_kind = ''spawn.requested'',
         e_observedAt = observedAt, e_confidence = Cf_high, e_summary = None\<rparr>],
      st_recentTransitions = [], st_statusRevision = 0, st_completionRevision = 0,
      st_interactiveReady = False, st_staleAuthority = True, st_authorityKind = Ak_none,
      st_authorityId = None, st_processState = Ps_indeterminate,
      st_processFingerprint = None, st_reporterEpoch = None, st_reporterLease = None,
      st_readinessCoverage = None, st_lastScreen = None\<rparr>"

subsection \<open>Process observations\<close>

definition processFallback ::
  "reducer_state \<Rightarrow> process_identity option \<Rightarrow> bool \<Rightarrow> bool" where
  "processFallback current process invalid \<longleftrightarrow>
     map_option pi_expectedProviderMatch process = Some Pm_match \<and> \<not> invalid \<and>
     length (st_openWaits current) = 0 \<and>
     (st_state current = St_starting \<or> st_state current = St_unknown)"

definition reduce_process_alive ::
  "reducer_state \<Rightarrow> string \<Rightarrow> timestamp \<Rightarrow> process_identity option \<Rightarrow> bool \<Rightarrow> reducer_state" where
  "reduce_process_alive current eventId observedAt process invalid =
     (let next = current\<lparr>st_observedAt := observedAt, st_processState := Ps_present,
            st_processFingerprint := map_option pi_processFingerprint process,
            st_transportLease := Some (addMilliseconds observedAt TRANSPORT_LEASE_MS)\<rparr>;
          next = (if processFallback current process invalid then next\<lparr>
              st_state := St_idle, st_phase := Ph_settled, st_confidence := Cf_low,
              st_attention := At_none, st_authorityKind := Ak_process,
              st_authorityId := Some eventId, st_staleAuthority := False,
              st_interactiveReady := True\<rparr> else next);
          next = (if invalid then next\<lparr>
              st_state := St_unknown, st_phase := Ph_startup, st_outcome := Oc_unknown,
              st_confidence := Cf_low, st_attention := At_reporter_stale,
              st_authorityKind := Ak_none, st_authorityId := None, st_staleAuthority := True,
              st_interactiveReady := False, st_reporterEpoch := None, st_reporterLease := None,
              st_readinessCoverage := None, st_semanticLease := None, st_lastActivityAt := None,
              st_lastActivityKind := None, st_lastProgressSummary := None,
              st_progressStage := None, st_nextStep := None, st_blocker := None,
              st_cleanEndSeen := False, st_openTools := [], st_openWaits := [],
              st_staleProbeCount := 0\<rparr> else next)
      in transition current (withEvidence next
           \<lparr>e_source = Es_process, e_kind = ''process.alive'', e_observedAt = observedAt,
            e_confidence = Cf_high, e_summary = None\<rparr>) False)"

definition reduce_process_indeterminate ::
  "reducer_state \<Rightarrow> timestamp \<Rightarrow> reducer_state" where
  "reduce_process_indeterminate current observedAt =
     (let next = current\<lparr>st_observedAt := observedAt, st_processState := Ps_indeterminate,
            st_interactiveReady := False\<rparr>;
          next = (if (case st_reporterLease current of None \<Rightarrow> True | Some l \<Rightarrow> l < observedAt)
                  then next\<lparr>st_state := St_unknown, st_authorityKind := Ak_none,
                    st_staleAuthority := True, st_attention := At_reporter_stale\<rparr>
                  else next)
      in transition current (withEvidence next
           \<lparr>e_source = Es_process, e_kind = ''process.indeterminate'', e_observedAt = observedAt,
            e_confidence = Cf_low, e_summary = None\<rparr>) False)"

definition reduce_process_exited ::
  "reducer_state \<Rightarrow> string \<Rightarrow> timestamp \<Rightarrow> int option \<Rightarrow> string option \<Rightarrow> bool \<Rightarrow> reducer_state" where
  "reduce_process_exited current eventId observedAt exitCode signal operatorStopped =
     (let stopped = (operatorStopped \<or> st_cleanEndSeen current);
          next = current\<lparr>st_observedAt := observedAt,
            st_state := (if stopped then St_stopped else St_failed), st_phase := Ph_exited,
            st_outcome := (if operatorStopped then Oc_cancelled
                           else if stopped then st_outcome current else Oc_failed),
            st_confidence := Cf_high, st_authorityKind := Ak_process,
            st_authorityId := Some eventId, st_processState := Ps_dead,
            st_interactiveReady := False, st_staleAuthority := False,
            st_attention := (if stopped then At_none else At_process_failed),
            st_processExitCode := exitCode, st_processSignal := signal,
            st_openTools := [], st_openWaits := [], st_staleProbeCount := 0\<rparr>
      in transition current (withEvidence next
           \<lparr>e_source = Es_process, e_kind = ''process.exited'', e_observedAt = observedAt,
            e_confidence = Cf_high,
            e_summary = (case signal of Some s \<Rightarrow> Some s
                         | None \<Rightarrow> map_option (\<lambda>c. ''exit '' @ show_int c) exitCode)\<rparr>) False)"

definition reduce_process_missing ::
  "reducer_state \<Rightarrow> string \<Rightarrow> timestamp \<Rightarrow> reducer_state" where
  "reduce_process_missing current eventId observedAt =
     (let next = current\<lparr>st_observedAt := observedAt, st_state := St_failed,
            st_phase := Ph_exited, st_outcome := Oc_failed, st_confidence := Cf_medium,
            st_authorityKind := Ak_process, st_authorityId := Some eventId,
            st_processState := Ps_missing, st_interactiveReady := False,
            st_staleAuthority := False, st_attention := At_process_failed,
            st_openTools := [], st_openWaits := [], st_staleProbeCount := 0\<rparr>
      in transition current (withEvidence next
           \<lparr>e_source = Es_process, e_kind = ''process.missing'', e_observedAt = observedAt,
            e_confidence = Cf_medium, e_summary = None\<rparr>) False)"

definition reduce_lease_probed :: "reducer_state \<Rightarrow> timestamp \<Rightarrow> reducer_state" where
  "reduce_lease_probed current observedAt =
     (let semanticExpired =
            (case st_semanticLease current of None \<Rightarrow> False | Some l \<Rightarrow> l < observedAt);
          next = current\<lparr>st_observedAt := observedAt\<rparr>
      in if 0 < length (st_openWaits current) then transition current next False
         else if st_state current = St_working \<and> semanticExpired then
           let staleProbeCount = st_staleProbeCount current + 1;
               next = next\<lparr>st_staleProbeCount := staleProbeCount\<rparr>;
               next = (if 2 \<le> staleProbeCount then next\<lparr>st_state := St_suspected_stuck,
                         st_attention := At_progress_stale, st_confidence := Cf_low\<rparr> else next)
           in transition current next False
         else transition current next False)"

definition reduce_process :: "reducer_state \<Rightarrow> process_observation \<Rightarrow> reducer_state" where
  "reduce_process current obs =
     (case obs of
        ProcessAlive eventId t process invalid \<Rightarrow> reduce_process_alive current eventId t process invalid
      | ProcessIndeterminate eventId t \<Rightarrow> reduce_process_indeterminate current t
      | ProcessExited eventId t code signal stopped \<Rightarrow>
          reduce_process_exited current eventId t code signal stopped
      | ProcessMissing eventId t \<Rightarrow> reduce_process_missing current eventId t
      | LeaseProbed eventId t \<Rightarrow> reduce_lease_probed current t)"

subsection \<open>Progress reports and screen classifications\<close>

definition reduce_progress :: "reducer_state \<Rightarrow> timestamp \<Rightarrow> progress_report \<Rightarrow> reducer_state" where
  "reduce_progress current observedAt report =
     (let next = current\<lparr>st_observedAt := observedAt,
            st_state := (if p_blocker report \<noteq> None then St_blocked
                         else if p_outcome report = None then St_working else St_idle),
            st_phase := (if p_outcome report = None then Ph_model else Ph_settled),
            st_outcome := (case p_outcome report of None \<Rightarrow> st_outcome current | Some oc \<Rightarrow> oc),
            st_confidence := Cf_high, st_authorityKind := Ak_reporter,
            st_authorityId := Some ''status-api'', st_staleAuthority := False,
            st_attention := (if p_blocker report = None then At_none else At_input_required),
            st_lastActivityAt := Some observedAt,
            st_lastActivityKind := Some ''progress.reported'',
            st_semanticLease := Some (addMilliseconds observedAt SEMANTIC_LEASE_MS),
            st_lastProgressSummary := Some (p_summary report),
            st_progressStage := Some (p_stage report), st_nextStep := p_nextStep report,
            st_blocker := p_blocker report, st_cleanEndSeen := False, st_staleProbeCount := 0\<rparr>;
          next = withEvidence next
            \<lparr>e_source = Es_status_api, e_kind = ''progress.reported'', e_observedAt = observedAt,
             e_confidence = Cf_high, e_summary = Some (p_summary report)\<rparr>;
          next = (if 0 < length (st_openWaits current)
                  then resumeAfterWait (next\<lparr>st_openWaits := st_openWaits current\<rparr>) else next)
      in transition current next False)"

definition screenCanBlock :: "reducer_state \<Rightarrow> screen_observation \<Rightarrow> bool" where
  "screenCanBlock current screen \<longleftrightarrow>
     so_classification screen = Sc_blocked \<and> so_visibleBlocker screen \<and>
     (st_staleAuthority current \<or> st_readinessCoverage current \<noteq> Some Rc_full)"

definition reduce_screen :: "reducer_state \<Rightarrow> timestamp \<Rightarrow> screen_observation \<Rightarrow> reducer_state" where
  "reduce_screen current observedAt screen =
     (let next = current\<lparr>st_observedAt := observedAt, st_lastScreen := Some screen\<rparr>;
          next = (if screenCanBlock current screen then next\<lparr>
              st_state := St_blocked, st_authorityKind := Ak_screen,
              st_authorityId := so_ruleId screen, st_confidence := Cf_medium,
              st_attention := At_input_required, st_staleAuthority := False\<rparr> else next)
      in transition current (withEvidence next
           \<lparr>e_source = Es_screen, e_kind = ''screen.'' @ screen_class_name (so_classification screen),
            e_observedAt = observedAt, e_confidence = so_confidence screen, e_summary = None\<rparr>) False)"

subsection \<open>Reporter events\<close>

definition reporter_common ::
  "reducer_state \<Rightarrow> timestamp \<Rightarrow> event_input \<Rightarrow> reporter_authority \<Rightarrow> reducer_state" where
  "reporter_common current observedAt input authority =
     (let next = current\<lparr>st_observedAt := observedAt, st_authorityKind := Ak_reporter,
            st_authorityId := Some (ra_sessionId authority),
            st_reporterEpoch := Some (ra_reporterEpoch authority),
            st_reporterLease := Some (ra_leaseExpiresAt authority),
            st_readinessCoverage := Some (ra_readinessCoverage authority),
            st_staleAuthority := False\<rparr>;
          next = (if in_event input = Ev_heartbeat then next else next\<lparr>
              st_lastActivityAt := Some observedAt,
              st_lastActivityKind := Some (event_kind_name (in_event input)),
              st_staleProbeCount := 0\<rparr>)
      in withEvidence next
           \<lparr>e_source = evidenceSource (in_source input), e_kind = event_kind_name (in_event input),
            e_observedAt = observedAt, e_confidence = Cf_high,
            e_summary = d_summary (in_data input)\<rparr>)"

definition settle_turn ::
  "reducer_state \<Rightarrow> timestamp \<Rightarrow> nat option \<Rightarrow> reducer_state" where
  "settle_turn next observedAt activeCount =
     (let next = (if activeCount = Some 0 then next\<lparr>st_openTools := []\<rparr> else next)
      in if 0 < length (st_openWaits next) then resumeAfterWait next
         else if 0 < (case activeCount of None \<Rightarrow> 0 | Some n \<Rightarrow> n) \<or> 0 < length (st_openTools next)
         then next\<lparr>st_state := St_working,
                st_phase := (if 0 < length (st_openTools next) then Ph_tool else Ph_model),
                st_semanticLease := Some (addMilliseconds observedAt SEMANTIC_LEASE_MS)\<rparr>
         else next\<lparr>st_state := St_idle, st_phase := Ph_settled, st_confidence := Cf_high,
                st_attention := At_none, st_semanticLease := None\<rparr>)"

text \<open>
  The switch over the event kind. \<open>input.operationId!\<close> and the fields of a wait are present by
  \<open>event_rules\<close>, which the schema checked before the reducer runs; where one is missing the
  model leaves the state as the switch found it, a case no parsed event reaches.
\<close>

definition apply_event ::
  "reducer_state \<Rightarrow> timestamp \<Rightarrow> event_input \<Rightarrow> reducer_state" where
  "apply_event next observedAt input =
     (let lease = Some (addMilliseconds observedAt SEMANTIC_LEASE_MS) in
      case in_event input of
        Ev_reporter_ready \<Rightarrow> next
      | Ev_session_ready \<Rightarrow> next\<lparr>st_state := St_idle, st_phase := Ph_settled,
          st_confidence := Cf_high, st_attention := At_none, st_cleanEndSeen := False,
          st_interactiveReady := (st_processState next = Ps_present), st_semanticLease := None\<rparr>
      | Ev_turn_waiting \<Rightarrow> next\<lparr>st_state := St_waiting, st_phase := Ph_model,
          st_confidence := Cf_high, st_attention := At_none, st_semanticLease := lease\<rparr>
      | Ev_turn_started \<Rightarrow> next\<lparr>st_state := St_working, st_phase := Ph_model,
          st_confidence := Cf_high, st_attention := At_none, st_cleanEndSeen := False,
          st_semanticLease := lease\<rparr>
      | Ev_tool_started \<Rightarrow>
          (case in_operationId input of None \<Rightarrow> next | Some op \<Rightarrow>
           next\<lparr>st_state := St_working, st_phase := Ph_tool, st_confidence := Cf_high,
             st_attention := At_none, st_cleanEndSeen := False,
             st_openTools := js_uniq (st_openTools next @ [op]), st_semanticLease := lease\<rparr>)
      | Ev_tool_finished \<Rightarrow> resumeAfterWait (next\<lparr>
          st_openTools := filter (\<lambda>t. Some t \<noteq> in_operationId input) (st_openTools next),
          st_openWaits := filter (\<lambda>w. Some (w_requestId w) \<noteq> in_operationId input) (st_openWaits next),
          st_semanticLease := lease\<rparr>)
      | Ev_tool_failed \<Rightarrow> resumeAfterWait (next\<lparr>
          st_openTools := filter (\<lambda>t. Some t \<noteq> in_operationId input) (st_openTools next),
          st_openWaits := filter (\<lambda>w. Some (w_requestId w) \<noteq> in_operationId input) (st_openWaits next),
          st_semanticLease := lease\<rparr>)
      | Ev_wait_opened \<Rightarrow>
          (case (in_requestId input, d_waitKind (in_data input), d_summary (in_data input),
                 d_replyChannel (in_data input)) of
             (Some r, Some k, Some s, Some c) \<Rightarrow>
               let wait = \<lparr>w_requestId = r, w_kind = k, w_summary = s, w_replyChannel = c,
                           w_openedAt = observedAt\<rparr>
               in next\<lparr>st_state := St_blocked, st_phase := waitPhase wait,
                    st_confidence := Cf_high, st_attention := waitAttention wait,
                    st_openWaits :=
                      filter (\<lambda>i. w_requestId i \<noteq> r) (st_openWaits next) @ [wait],
                    st_semanticLease := None\<rparr>
           | _ \<Rightarrow> next)
      | Ev_wait_closed \<Rightarrow>
          (if \<exists>w \<in> set (st_openWaits next). Some (w_requestId w) = in_requestId input
           then resumeAfterWait (next\<lparr>
             st_openWaits := filter (\<lambda>w. Some (w_requestId w) \<noteq> in_requestId input) (st_openWaits next),
             st_semanticLease := lease\<rparr>)
           else next)
      | Ev_compaction_started \<Rightarrow> next\<lparr>st_state := St_working, st_phase := Ph_compaction,
          st_attention := At_none, st_semanticLease := lease\<rparr>
      | Ev_compaction_finished \<Rightarrow> next\<lparr>st_state := St_working, st_phase := Ph_model,
          st_semanticLease := lease\<rparr>
      | Ev_retry_observed \<Rightarrow> next\<lparr>st_state := St_working, st_phase := Ph_retry,
          st_attention := At_none,
          st_semanticLease := (case d_retryAt (in_data input) of Some t \<Rightarrow> Some t | None \<Rightarrow> lease)\<rparr>
      | Ev_failure_observed \<Rightarrow>
          (if d_fatal (in_data input) = Some True
           then next\<lparr>st_state := St_failed, st_phase := Ph_settled, st_outcome := Oc_failed,
                  st_attention := At_process_failed\<rparr>
           else next\<lparr>st_attention := At_none\<rparr>)
      | Ev_turn_settled \<Rightarrow> settle_turn next observedAt (d_activeCount (in_data input))
      | Ev_session_ended \<Rightarrow> next\<lparr>st_state := St_idle, st_phase := Ph_settled,
          st_confidence := Cf_high, st_attention := At_none, st_cleanEndSeen := True,
          st_openTools := [], st_openWaits := [], st_semanticLease := None\<rparr>
      | Ev_heartbeat \<Rightarrow> next)"

definition reduce_reporter ::
  "reducer_state \<Rightarrow> timestamp \<Rightarrow> event_input \<Rightarrow> reporter_authority \<Rightarrow> reducer_state" where
  "reduce_reporter current observedAt input authority =
     (let next = apply_event (reporter_common current observedAt input authority) observedAt input;
          next = (if 0 < length (st_openWaits next) \<and> in_event input \<noteq> Ev_wait_closed \<and>
                     in_event input \<noteq> Ev_session_ended \<and>
                     \<not> (in_event input = Ev_failure_observed \<and> d_fatal (in_data input) = Some True)
                  then resumeAfterWait next else next);
          completed = (in_event input = Ev_turn_settled \<and>
                       st_state current \<in> {St_working, St_suspected_stuck} \<and>
                       st_state next = St_idle)
      in transition current next completed)"

definition reduceAgentStatus :: "reducer_state \<Rightarrow> observation \<Rightarrow> reducer_state" where
  "reduceAgentStatus current obs =
     (case obs of
        ProcessObs p \<Rightarrow> reduce_process current p
      | ProgressReported eventId t report \<Rightarrow> reduce_progress current t report
      | ScreenClassified eventId t screen \<Rightarrow> reduce_screen current t screen
      | ReporterEvent t input authority \<Rightarrow> reduce_reporter current t input authority)"

subsection \<open>Well-formedness\<close>

lemma transition_keeps [simp]:
  "st_state (transition c n b) = st_state n"
  "st_phase (transition c n b) = st_phase n"
  "st_outcome (transition c n b) = st_outcome n"
  "st_attention (transition c n b) = st_attention n"
  "st_confidence (transition c n b) = st_confidence n"
  "st_openTools (transition c n b) = st_openTools n"
  "st_openWaits (transition c n b) = st_openWaits n"
  "st_evidence (transition c n b) = st_evidence n"
  "st_interactiveReady (transition c n b) = st_interactiveReady n"
  "st_processState (transition c n b) = st_processState n"
  "st_staleAuthority (transition c n b) = st_staleAuthority n"
  "st_authorityKind (transition c n b) = st_authorityKind n"
  "st_observedAt (transition c n b) = st_observedAt n"
  "st_staleProbeCount (transition c n b) = st_staleProbeCount n"
  "st_semanticLease (transition c n b) = st_semanticLease n"
  "st_statusRevision (transition c n b) = Suc (st_statusRevision c)"
  "st_completionRevision (transition c n b) = st_completionRevision c + (if b then 1 else 0)"
  by (simp_all add: transition_def Let_def)

definition reducer_wf :: "reducer_state \<Rightarrow> bool" where
  "reducer_wf s \<longleftrightarrow>
     length (st_evidence s) \<le> MAX_HISTORY \<and>
     length (st_recentTransitions s) \<le> MAX_HISTORY \<and>
     distinct (st_openTools s) \<and>
     distinct (map w_requestId (st_openWaits s)) \<and>
     (st_openWaits s \<noteq> [] \<longrightarrow> st_state s \<in> {St_blocked, St_unknown, St_failed}) \<and>
     (st_interactiveReady s \<longrightarrow> st_processState s = Ps_present) \<and>
     (st_staleAuthority s \<longleftrightarrow> st_authorityKind s = Ak_none) \<and>
     st_completionRevision s \<le> st_statusRevision s"

text \<open>What a reduction must establish before \<open>transition\<close> closes it.\<close>

definition draft_wf :: "reducer_state \<Rightarrow> bool" where
  "draft_wf s \<longleftrightarrow>
     length (st_evidence s) \<le> MAX_HISTORY \<and>
     length (st_recentTransitions s) \<le> MAX_HISTORY \<and>
     distinct (st_openTools s) \<and>
     distinct (map w_requestId (st_openWaits s)) \<and>
     (st_openWaits s \<noteq> [] \<longrightarrow> st_state s \<in> {St_blocked, St_unknown, St_failed}) \<and>
     (st_interactiveReady s \<longrightarrow> st_processState s = Ps_present) \<and>
     (st_staleAuthority s \<longleftrightarrow> st_authorityKind s = Ak_none)"

lemma length_appendLimited [simp]: "length (appendLimited xs x) = min MAX_HISTORY (Suc (length xs))"
  by (simp add: appendLimited_def)

lemma transition_history:
  "length (st_recentTransitions n) \<le> MAX_HISTORY \<Longrightarrow>
   length (st_recentTransitions (transition c n b)) \<le> MAX_HISTORY"
  by (simp add: transition_def Let_def)

lemma transition_wf:
  assumes "reducer_wf c" and "draft_wf n"
  shows "reducer_wf (transition c n b)"
  using assms transition_history [of n c b] by (auto simp: reducer_wf_def draft_wf_def)

lemma withEvidence_keeps [simp]:
  "draft_wf (withEvidence n e) \<longleftrightarrow> draft_wf (n\<lparr>st_evidence := []\<rparr>)"
  by (simp add: withEvidence_def draft_wf_def)

lemma distinct_filter_ids:
  "distinct (map f xs) \<Longrightarrow> distinct (map f (filter p xs))"
  by (induction xs) auto


lemma reduce_process_alive_wf:
  assumes "reducer_wf c" shows "reducer_wf (reduce_process_alive c i t p v)"
  unfolding reduce_process_alive_def Let_def withEvidence_def
proof (rule transition_wf [OF assms])
qed (use assms in \<open>simp add: draft_wf_def reducer_wf_def processFallback_def\<close>)

lemma reduce_process_missing_wf:
  assumes "reducer_wf c" shows "reducer_wf (reduce_process_missing c i t)"
  unfolding reduce_process_missing_def Let_def withEvidence_def
  by (rule transition_wf [OF assms]) (use assms in \<open>simp add: draft_wf_def reducer_wf_def\<close>)

lemma reduce_process_indeterminate_wf:
  assumes "reducer_wf c" shows "reducer_wf (reduce_process_indeterminate c t)"
  unfolding reduce_process_indeterminate_def Let_def withEvidence_def
  by (rule transition_wf [OF assms]) (use assms in \<open>simp add: draft_wf_def reducer_wf_def\<close>)

lemma reduce_process_exited_wf:
  assumes "reducer_wf c" shows "reducer_wf (reduce_process_exited c i t x y z)"
  unfolding reduce_process_exited_def Let_def withEvidence_def
  by (rule transition_wf [OF assms]) (use assms in \<open>simp add: draft_wf_def reducer_wf_def\<close>)

lemma reduce_lease_probed_wf:
  assumes "reducer_wf c" shows "reducer_wf (reduce_lease_probed c t)"
  using assms unfolding reduce_lease_probed_def Let_def
  by (auto simp: draft_wf_def reducer_wf_def transition_history)

lemma reduce_process_wf:
  assumes "reducer_wf c" shows "reducer_wf (reduce_process c obs)"
  using assms by (cases obs) (simp_all add: reduce_process_def reduce_process_alive_wf
    reduce_process_missing_wf reduce_process_indeterminate_wf reduce_process_exited_wf
    reduce_lease_probed_wf)


lemma resumeAfterWait_keeps [simp]:
  "st_openTools (resumeAfterWait s) = st_openTools s"
  "st_openWaits (resumeAfterWait s) = st_openWaits s"
  "st_evidence (resumeAfterWait s) = st_evidence s"
  "st_recentTransitions (resumeAfterWait s) = st_recentTransitions s"
  "st_interactiveReady (resumeAfterWait s) = st_interactiveReady s"
  "st_processState (resumeAfterWait s) = st_processState s"
  "st_staleAuthority (resumeAfterWait s) = st_staleAuthority s"
  "st_authorityKind (resumeAfterWait s) = st_authorityKind s"
  "st_cleanEndSeen (resumeAfterWait s) = st_cleanEndSeen s"
  "st_outcome (resumeAfterWait s) = st_outcome s"
  "st_state (resumeAfterWait s) = (if st_openWaits s = [] then St_working else St_blocked)"
  by (simp_all add: resumeAfterWait_def split: list.splits)

lemma reduce_progress_wf:
  assumes "reducer_wf c" shows "reducer_wf (reduce_progress c t r)"
  unfolding reduce_progress_def Let_def withEvidence_def
  by (rule transition_wf [OF assms])
    (use assms in \<open>simp add: draft_wf_def reducer_wf_def\<close>)

lemma reduce_screen_wf:
  assumes "reducer_wf c" shows "reducer_wf (reduce_screen c t s)"
  unfolding reduce_screen_def Let_def withEvidence_def
  by (rule transition_wf [OF assms]) (use assms in \<open>simp add: draft_wf_def reducer_wf_def\<close>)

lemma reporter_common_wf:
  assumes "reducer_wf c" shows "draft_wf (reporter_common c t i a)"
  using assms by (simp add: reporter_common_def Let_def withEvidence_def draft_wf_def reducer_wf_def)

text \<open>
  What the switch may leave before the closing \<open>resumeAfterWait\<close>: as \<open>draft_wf\<close>, except that
  open waits may coexist with any state.
\<close>

definition event_wf :: "reducer_state \<Rightarrow> bool" where
  "event_wf s \<longleftrightarrow>
     length (st_evidence s) \<le> MAX_HISTORY \<and>
     length (st_recentTransitions s) \<le> MAX_HISTORY \<and>
     distinct (st_openTools s) \<and>
     distinct (map w_requestId (st_openWaits s)) \<and>
     (st_interactiveReady s \<longrightarrow> st_processState s = Ps_present) \<and>
     (st_staleAuthority s \<longleftrightarrow> st_authorityKind s = Ak_none)"

lemma draft_wf_event: "draft_wf s \<longleftrightarrow> event_wf s \<and>
   (st_openWaits s \<noteq> [] \<longrightarrow> st_state s \<in> {St_blocked, St_unknown, St_failed})"
  by (auto simp: draft_wf_def event_wf_def)

lemma resume_wf: "event_wf s \<Longrightarrow> draft_wf (resumeAfterWait s)"
  by (simp add: draft_wf_def event_wf_def)

lemma settle_wf: "event_wf s \<Longrightarrow> event_wf (settle_turn s t n)"
  by (auto simp: settle_turn_def resumeAfterWait_def Let_def event_wf_def split: list.splits option.splits)

lemma distinct_replace_wait:
  "distinct (map w_requestId ws) \<Longrightarrow>
   distinct (map w_requestId (filter (\<lambda>i. w_requestId i \<noteq> r) ws))"
  by (rule distinct_filter_ids)

lemma apply_event_wf:
  assumes "event_wf s" shows "event_wf (apply_event s t i)"
proof (cases "in_event i")
  case Ev_turn_settled
  then show ?thesis using assms by (simp add: apply_event_def settle_wf)
next
  case Ev_wait_opened
  then show ?thesis using assms
    by (auto simp: apply_event_def event_wf_def distinct_filter_ids Let_def split: option.splits)
qed (use assms in \<open>simp_all add: apply_event_def event_wf_def distinct_filter_ids split: option.splits\<close>)

text \<open>The events after which open waits keep the state the switch gave.\<close>

definition keeps_waits_state :: "event_input \<Rightarrow> bool" where
  "keeps_waits_state i \<longleftrightarrow> in_event i = Ev_wait_closed \<or> in_event i = Ev_session_ended \<or>
     (in_event i = Ev_failure_observed \<and> d_fatal (in_data i) = Some True)"

lemma apply_event_keeps_wf:
  assumes "draft_wf s" and "keeps_waits_state i"
  shows "draft_wf (apply_event s t i)"
proof -
  consider "in_event i = Ev_wait_closed" | "in_event i = Ev_session_ended"
    | "in_event i = Ev_failure_observed" "d_fatal (in_data i) = Some True"
    using assms(2) by (auto simp: keeps_waits_state_def)
  then show ?thesis
    by cases (use assms(1) in \<open>simp_all add: apply_event_def draft_wf_def distinct_filter_ids\<close>)
qed

lemma reduce_reporter_wf:
  assumes "reducer_wf c" shows "reducer_wf (reduce_reporter c t i a)"
proof -
  let ?m = "reporter_common c t i a"
  let ?n = "apply_event ?m t i"
  have m: "draft_wf ?m" using assms by (rule reporter_common_wf)
  then have n: "event_wf ?n" by (simp add: draft_wf_event apply_event_wf)
  have "draft_wf (if 0 < length (st_openWaits ?n) \<and> \<not> keeps_waits_state i
                  then resumeAfterWait ?n else ?n)"
    using n resume_wf [OF n] apply_event_keeps_wf [OF m] by (auto simp: draft_wf_event)
  then show ?thesis
    unfolding reduce_reporter_def Let_def
    by (intro transition_wf [OF assms]) (simp add: keeps_waits_state_def)
qed

lemma reduceAgentStatus_wf: "reducer_wf c \<Longrightarrow> reducer_wf (reduceAgentStatus c obs)"
  by (cases obs) (simp_all add: reduceAgentStatus_def reduce_process_wf reduce_progress_wf
    reduce_screen_wf reduce_reporter_wf)

lemma create_wf: "reducer_wf (createAgentStatusReducerState r g t)"
  by (simp add: createAgentStatusReducerState_def reducer_wf_def MAX_HISTORY_def)

interpretation reducer: invariant_machine reduceAgentStatus reducer_wf
  by unfold_locales (rule reduceAgentStatus_wf)

lemma reduce_revision: "st_statusRevision (reduceAgentStatus c obs) = Suc (st_statusRevision c)"
proof (cases obs)
  case (ProcessObs p)
  then show ?thesis
    by (cases p) (simp_all add: reduceAgentStatus_def reduce_process_def reduce_process_alive_def
      reduce_process_missing_def reduce_process_indeterminate_def reduce_process_exited_def
      reduce_lease_probed_def Let_def)
qed (simp_all add: reduceAgentStatus_def reduce_progress_def reduce_screen_def reduce_reporter_def Let_def)

interpretation status_revision: monotone_machine reduceAgentStatus st_statusRevision
  by unfold_locales (simp add: reduce_revision)

subsection \<open>Completions\<close>

text \<open>The observations that complete work: a settled turn with nothing open behind it.\<close>

definition completes :: "reducer_state \<Rightarrow> observation \<Rightarrow> bool" where
  "completes c obs =
     (case obs of
        ReporterEvent t i a \<Rightarrow>
          in_event i = Ev_turn_settled \<and> st_state c \<in> {St_working, St_suspected_stuck} \<and>
          st_openWaits c = [] \<and>
          (d_activeCount (in_data i) = Some 0 \<or>
           d_activeCount (in_data i) = None \<and> st_openTools c = [])
      | _ \<Rightarrow> False)"

lemma reporter_common_keeps [simp]:
  "st_openTools (reporter_common c t i a) = st_openTools c"
  "st_openWaits (reporter_common c t i a) = st_openWaits c"
  "st_state (reporter_common c t i a) = st_state c"
  "st_processState (reporter_common c t i a) = st_processState c"
  by (simp_all add: reporter_common_def Let_def withEvidence_def)

lemma settle_idle:
  "st_openWaits s = [] \<Longrightarrow>
   st_state (settle_turn s t n) = St_idle \<longleftrightarrow> n = Some 0 \<or> n = None \<and> st_openTools s = []"
  by (cases n) (auto simp: settle_turn_def Let_def)

lemma settle_waits [simp]: "st_openWaits (settle_turn s t n) = st_openWaits s"
  by (simp add: settle_turn_def Let_def)

lemma completion_step:
  "st_completionRevision (reduceAgentStatus c obs) =
   st_completionRevision c + (if completes c obs then 1 else 0)"
proof (cases obs)
  case (ReporterEvent t i a)
  show ?thesis
  proof (cases "in_event i = Ev_turn_settled")
    case True
    then show ?thesis using ReporterEvent
      by (cases "st_openWaits c = []")
        (auto simp: reduceAgentStatus_def reduce_reporter_def completes_def apply_event_def
           settle_idle Let_def)
  qed (use ReporterEvent in \<open>simp add: reduceAgentStatus_def reduce_reporter_def completes_def Let_def\<close>)
next
  case (ProcessObs p)
  then show ?thesis
    by (cases p) (simp_all add: completes_def reduceAgentStatus_def reduce_process_def
      reduce_process_alive_def reduce_process_missing_def reduce_process_indeterminate_def
      reduce_process_exited_def reduce_lease_probed_def Let_def)
qed (simp_all add: completes_def reduceAgentStatus_def reduce_progress_def reduce_screen_def Let_def)

fun completions :: "reducer_state \<Rightarrow> observation list \<Rightarrow> nat" where
  "completions c [] = 0"
| "completions c (obs # os) =
     (if completes c obs then 1 else 0) + completions (reduceAgentStatus c obs) os"

subsection \<open>Lease probes\<close>

definition probe :: "string \<times> timestamp \<Rightarrow> observation" where
  "probe p = ProcessObs (LeaseProbed (fst p) (snd p))"

definition lease_view :: "reducer_state \<Rightarrow>
    agent_status_state \<times> agent_wait list \<times> timestamp option \<times> nat" where
  "lease_view s = (st_state s, st_openWaits s, st_semanticLease s, st_staleProbeCount s)"

lemma probe_step:
  "lease_view (reduceAgentStatus s (probe p)) =
     (if st_openWaits s = [] \<and> st_state s = St_working \<and>
         (\<exists>l. st_semanticLease s = Some l \<and> l < snd p)
      then (if 1 \<le> st_staleProbeCount s then St_suspected_stuck else St_working, [],
            st_semanticLease s, Suc (st_staleProbeCount s))
      else lease_view s)"
  by (auto simp: lease_view_def probe_def reduceAgentStatus_def reduce_process_def
      reduce_lease_probed_def Let_def split: option.splits)

lemma probes_run:
  assumes "st_openWaits s = []" and "st_semanticLease s = Some l"
    and "st_state s = (if st_staleProbeCount s < 2 then St_working else St_suspected_stuck)"
  shows "let r = foldl reduceAgentStatus s (map probe ps);
             n = st_staleProbeCount s + length (filter (\<lambda>p. l < snd p) ps)
         in st_state r = (if n < 2 then St_working else St_suspected_stuck) \<and>
            st_openWaits r = []"
  using assms
proof (induction ps arbitrary: s)
  case Nil
  then show ?case by (simp add: Let_def)
next
  case (Cons p ps)
  let ?s = "reduceAgentStatus s (probe p)"
  have view: "lease_view ?s = (if st_state s = St_working \<and> l < snd p
      then (if 1 \<le> st_staleProbeCount s then St_suspected_stuck else St_working, [],
            Some l, Suc (st_staleProbeCount s))
      else (st_state s, [], Some l, st_staleProbeCount s))"
    using Cons.prems by (simp add: probe_step) (simp add: lease_view_def)
  show ?case
  proof (cases "st_state s = St_working \<or> \<not> l < snd p")
    case True
    have "let r = foldl reduceAgentStatus ?s (map probe ps);
             n = st_staleProbeCount ?s + length (filter (\<lambda>p. l < snd p) ps)
         in st_state r = (if n < 2 then St_working else St_suspected_stuck) \<and>
            st_openWaits r = []"
      by (rule Cons.IH) (use view True Cons.prems(3) in \<open>auto simp: lease_view_def split: if_splits\<close>)
    then show ?thesis using view True
      by (auto simp: lease_view_def Let_def split: if_splits)
  next
    case False
    have "let r = foldl reduceAgentStatus ?s (map probe ps);
             n = st_staleProbeCount ?s + length (filter (\<lambda>p. l < snd p) ps)
         in st_state r = (if n < 2 then St_working else St_suspected_stuck) \<and>
            st_openWaits r = []"
      by (rule Cons.IH) (use view False Cons.prems(3) in \<open>auto simp: lease_view_def split: if_splits\<close>)
    then show ?thesis using view False Cons.prems(3)
      by (auto simp: lease_view_def Let_def split: if_splits)
  qed
qed

subsection \<open>Abstract open work\<close>

text \<open>
  What the reducer promises about open work: the set of tool operations and the set of wait
  requests that are open, whatever the rest of the status says.
\<close>

type_synonym open_work = "string set \<times> string set"

definition open_work :: "reducer_state \<Rightarrow> open_work" where
  "open_work s = (set (st_openTools s), w_requestId ` set (st_openWaits s))"

definition opt_set :: "'a option \<Rightarrow> 'a set" where
  "opt_set x = (case x of None \<Rightarrow> {} | Some a \<Rightarrow> {a})"

fun open_work_step :: "open_work \<Rightarrow> observation \<Rightarrow> open_work" where
  "open_work_step (T, W) (ProcessObs p) =
     (case p of
        ProcessAlive _ _ _ invalid \<Rightarrow> if invalid then ({}, {}) else (T, W)
      | ProcessExited _ _ _ _ _ \<Rightarrow> ({}, {})
      | ProcessMissing _ _ \<Rightarrow> ({}, {})
      | _ \<Rightarrow> (T, W))"
| "open_work_step (T, W) (ProgressReported _ _ _) = (T, W)"
| "open_work_step (T, W) (ScreenClassified _ _ _) = (T, W)"
| "open_work_step (T, W) (ReporterEvent _ i _) =
     (case in_event i of
        Ev_tool_started \<Rightarrow> (T \<union> opt_set (in_operationId i), W)
      | Ev_tool_finished \<Rightarrow> (T - opt_set (in_operationId i), W - opt_set (in_operationId i))
      | Ev_tool_failed \<Rightarrow> (T - opt_set (in_operationId i), W - opt_set (in_operationId i))
      | Ev_wait_opened \<Rightarrow> (T, W \<union> opt_set (in_requestId i))
      | Ev_wait_closed \<Rightarrow> (T, W - opt_set (in_requestId i))
      | Ev_turn_settled \<Rightarrow> (if d_activeCount (in_data i) = Some 0 then {} else T, W)
      | Ev_session_ended \<Rightarrow> ({}, {})
      | _ \<Rightarrow> (T, W))"

definition obs_rules :: "observation \<Rightarrow> bool" where
  "obs_rules obs = (case obs of ReporterEvent _ i _ \<Rightarrow> event_rules i | _ \<Rightarrow> True)"

lemma open_work_transition [simp]: "open_work (transition c n b) = open_work n"
  by (simp add: open_work_def)

lemma open_work_resume [simp]: "open_work (resumeAfterWait s) = open_work s"
  by (simp add: open_work_def)

lemma open_work_common [simp]: "open_work (reporter_common c t i a) = open_work c"
  by (simp add: open_work_def)

lemma filter_ids_opt:
  "w_requestId ` {w \<in> A. Some (w_requestId w) \<noteq> x} = w_requestId ` A - opt_set x"
  by (auto simp: opt_set_def split: option.splits)

lemma filter_tools_opt: "{t \<in> A. Some t \<noteq> x} = A - opt_set x"
  by (auto simp: opt_set_def split: option.splits)

lemma open_work_apply_event:
  assumes "event_rules i"
  shows "open_work (apply_event s t i) = open_work_step (open_work s) (ReporterEvent t i a)"
proof (cases "in_event i")
  case Ev_wait_closed
  show ?thesis
  proof (cases "\<exists>w \<in> set (st_openWaits s). Some (w_requestId w) = in_requestId i")
    case True
    with Ev_wait_closed show ?thesis
      by (simp add: apply_event_def open_work_def filter_ids_opt)
  next
    case False
    then have "w_requestId ` set (st_openWaits s) - opt_set (in_requestId i) =
               w_requestId ` set (st_openWaits s)"
      by (auto simp: opt_set_def split: option.splits)
    with False Ev_wait_closed show ?thesis by (simp add: apply_event_def open_work_def)
  qed
next
  case Ev_wait_opened
  with assms obtain r k su ch where
    "in_requestId i = Some r" "d_waitKind (in_data i) = Some k"
    "d_summary (in_data i) = Some su" "d_replyChannel (in_data i) = Some ch"
    by (auto simp: event_rules_def)
  with Ev_wait_opened show ?thesis
    by (auto simp: apply_event_def open_work_def opt_set_def Let_def image_iff)
next
  case Ev_tool_started
  with assms show ?thesis
    by (auto simp: apply_event_def open_work_def opt_set_def event_rules_def)
qed (simp_all add: apply_event_def open_work_def filter_ids_opt filter_tools_opt settle_turn_def Let_def)

lemma open_work_simulates:
  assumes "obs_rules obs"
  shows "open_work (reduceAgentStatus c obs) = open_work_step (open_work c) obs"
proof (cases obs)
  case (ReporterEvent t i a)
  then show ?thesis using assms open_work_apply_event [of i "reporter_common c t i a" t a]
    by (simp add: reduceAgentStatus_def reduce_reporter_def obs_rules_def Let_def)
next
  case (ProcessObs p)
  then show ?thesis
    by (cases p) (simp_all add: reduceAgentStatus_def reduce_process_def open_work_def
      reduce_process_alive_def reduce_process_missing_def reduce_process_indeterminate_def
      reduce_process_exited_def reduce_lease_probed_def Let_def withEvidence_def)
qed (simp_all add: reduceAgentStatus_def reduce_progress_def reduce_screen_def Let_def
      withEvidence_def open_work_def)

lemma open_work_run:
  "list_all obs_rules os \<Longrightarrow>
   open_work (foldl reduceAgentStatus c os) = foldl open_work_step (open_work c) os"
  by (induction os arbitrary: c) (simp_all add: open_work_simulates)

subsection \<open>Blocking on open waits\<close>

definition blocked_on :: "reducer_state \<Rightarrow> agent_wait \<Rightarrow> bool" where
  "blocked_on s w \<longleftrightarrow> st_state s = St_blocked \<and> st_phase s = waitPhase w \<and>
     st_attention s = waitAttention w \<and> st_confidence s = Cf_high"

lemma blocked_on_transition [simp]: "blocked_on (transition c n b) w = blocked_on n w"
  by (simp add: blocked_on_def)

lemma resume_blocks: "st_openWaits s = w # ws \<Longrightarrow> blocked_on (resumeAfterWait s) w"
  by (simp add: blocked_on_def resumeAfterWait_def)

lemma reporter_waits_block:
  assumes "st_openWaits (reduce_reporter c t i a) = w # ws" and "\<not> keeps_waits_state i"
  shows "blocked_on (reduce_reporter c t i a) w"
proof -
  let ?n = "apply_event (reporter_common c t i a) t i"
  have cond: "(0 < length (st_openWaits ?n) \<and> in_event i \<noteq> Ev_wait_closed \<and>
      in_event i \<noteq> Ev_session_ended \<and>
      \<not> (in_event i = Ev_failure_observed \<and> d_fatal (in_data i) = Some True)) \<longleftrightarrow>
      st_openWaits ?n \<noteq> []"
    using assms(2) by (auto simp: keeps_waits_state_def)
  have waits: "st_openWaits ?n = w # ws"
    using assms(1) unfolding reduce_reporter_def Let_def cond by (simp split: if_splits)
  then show ?thesis
    unfolding reduce_reporter_def Let_def cond by (simp add: resume_blocks)
qed

text \<open>
  A run waiting for the request \<open>r\<close>: the wait is open, and the run is blocked in the phase of its
  oldest wait. \<open>releases_wait\<close> lists the observations that may end this: the events that close this
  wait, the end of the session, a fatal failure, an exit, a missing process, an invalidated reporter,
  and an indeterminate process once the reporter's lease has run out (a fatal failure and an
  indeterminate process change the state and leave the wait open).
\<close>

definition waiting_for :: "string \<Rightarrow> reducer_state \<Rightarrow> bool" where
  "waiting_for r s \<longleftrightarrow> r \<in> w_requestId ` set (st_openWaits s) \<and>
     st_state s = St_blocked \<and> st_phase s = waitPhase (hd (st_openWaits s))"

definition releases_wait :: "string \<Rightarrow> reducer_state \<Rightarrow> observation \<Rightarrow> bool" where
  "releases_wait r c obs =
     (case obs of
        ProcessObs p \<Rightarrow>
          (case p of
             ProcessAlive _ _ _ invalid \<Rightarrow> invalid
           | ProcessIndeterminate _ t \<Rightarrow>
               (case st_reporterLease c of None \<Rightarrow> True | Some l \<Rightarrow> l < t)
           | LeaseProbed _ _ \<Rightarrow> False
           | _ \<Rightarrow> True)
      | ReporterEvent _ i _ \<Rightarrow>
          in_event i = Ev_session_ended \<or>
          in_event i = Ev_failure_observed \<and> d_fatal (in_data i) = Some True \<or>
          in_event i = Ev_wait_closed \<and> in_requestId i = Some r \<or>
          (in_event i = Ev_tool_finished \<or> in_event i = Ev_tool_failed) \<and> in_operationId i = Some r
      | _ \<Rightarrow> False)"

fun unreleased :: "string \<Rightarrow> reducer_state \<Rightarrow> observation list \<Rightarrow> bool" where
  "unreleased r c [] = True"
| "unreleased r c (obs # os) =
     (\<not> releases_wait r c obs \<and> unreleased r (reduceAgentStatus c obs) os)"

definition screen_report :: "observation \<Rightarrow> bool" where
  "screen_report obs = (case obs of ScreenClassified _ _ _ \<Rightarrow> True | _ \<Rightarrow> False)"

lemma waiting_for_transition [simp]: "waiting_for r (transition c n b) = waiting_for r n"
  by (simp add: waiting_for_def)

lemma waiting_for_resume:
  "waiting_for r (resumeAfterWait s) \<longleftrightarrow> r \<in> w_requestId ` set (st_openWaits s)"
  by (auto simp: waiting_for_def resumeAfterWait_def split: list.splits)

lemma blocked_on_resume: "st_openWaits s \<noteq> [] \<Longrightarrow> blocked_on (resumeAfterWait s) (hd (st_openWaits s))"
  by (cases "st_openWaits s") (auto simp: resume_blocks)

text \<open>The wait with the given request stays open in the switch over the events that do not close it.\<close>

lemma apply_event_waits:
  assumes "r \<in> w_requestId ` set (st_openWaits s)"
    and "\<not> releases_wait r c (ReporterEvent t i a)"
  shows "r \<in> w_requestId ` set (st_openWaits (apply_event s t i))"
proof (cases "in_event i")
  case Ev_wait_opened
  then show ?thesis using assms
    by (auto simp: apply_event_def Let_def split: option.splits)
qed (use assms in \<open>auto simp: apply_event_def releases_wait_def Let_def split: option.splits if_splits\<close>)

lemma reporter_keeps_waiting:
  assumes "waiting_for r c" and "\<not> releases_wait r c (ReporterEvent t i a)"
  shows "waiting_for r (reduce_reporter c t i a)"
proof -
  let ?m = "reporter_common c t i a"
  let ?n = "apply_event ?m t i"
  have open_wait: "r \<in> w_requestId ` set (st_openWaits ?n)"
    by (rule apply_event_waits [OF _ assms(2)]) (use assms(1) in \<open>simp add: waiting_for_def\<close>)
  have phase: "st_phase ?m = st_phase c"
    by (simp add: reporter_common_def Let_def withEvidence_def)
  show ?thesis
  proof (cases "in_event i = Ev_wait_closed")
    case True
    have "waiting_for r ?n"
    proof (cases "\<exists>w\<in>set (st_openWaits ?m). Some (w_requestId w) = in_requestId i")
      case True
      with open_wait \<open>in_event i = Ev_wait_closed\<close> show ?thesis
        by (simp add: apply_event_def waiting_for_resume)
    next
      case False
      then have "?n = ?m" using \<open>in_event i = Ev_wait_closed\<close> by (auto simp: apply_event_def)
      then show ?thesis using assms(1) phase by (simp add: waiting_for_def)
    qed
    then show ?thesis using True by (simp add: reduce_reporter_def Let_def)
  next
    case False
    then have "\<not> keeps_waits_state i"
      using assms(2) by (auto simp: keeps_waits_state_def releases_wait_def)
    then have cond: "(0 < length (st_openWaits ?n) \<and> in_event i \<noteq> Ev_wait_closed \<and>
        in_event i \<noteq> Ev_session_ended \<and>
        \<not> (in_event i = Ev_failure_observed \<and> d_fatal (in_data i) = Some True)) = True"
      using open_wait by (auto simp: keeps_waits_state_def)
    show ?thesis
      unfolding reduce_reporter_def Let_def cond using open_wait by (simp add: waiting_for_resume)
  qed
qed

lemma process_keeps_waiting:
  assumes "waiting_for r c" and "\<not> releases_wait r c (ProcessObs p)"
  shows "waiting_for r (reduce_process c p)"
    and "blocked_on c w \<Longrightarrow> blocked_on (reduce_process c p) w"
    and "st_openWaits (reduce_process c p) = st_openWaits c"
  using assms
  by (cases p; auto simp: releases_wait_def reduce_process_def reduce_process_alive_def
      reduce_process_indeterminate_def reduce_lease_probed_def processFallback_def
      waiting_for_def blocked_on_def withEvidence_def Let_def split: option.splits)+


definition blocked_for :: "string \<Rightarrow> reducer_state \<Rightarrow> bool" where
  "blocked_for r s \<longleftrightarrow> r \<in> w_requestId ` set (st_openWaits s) \<and> blocked_on s (hd (st_openWaits s))"

lemma blocked_for_transition [simp]: "blocked_for r (transition c n b) = blocked_for r n"
  by (simp add: blocked_for_def)

lemma blocked_for_resume:
  "blocked_for r (resumeAfterWait s) \<longleftrightarrow> r \<in> w_requestId ` set (st_openWaits s)"
  by (auto simp: blocked_for_def resumeAfterWait_def blocked_on_def split: list.splits)

lemma blocked_for_waiting: "blocked_for r s \<Longrightarrow> waiting_for r s"
  by (simp add: blocked_for_def waiting_for_def blocked_on_def)

lemma reporter_blocks_for:
  assumes "r \<in> w_requestId ` set (st_openWaits (reduce_reporter c t i a))"
    and "\<not> keeps_waits_state i"
  shows "blocked_for r (reduce_reporter c t i a)"
proof -
  obtain w ws where w: "st_openWaits (reduce_reporter c t i a) = w # ws"
    using assms(1) by (cases "st_openWaits (reduce_reporter c t i a)") auto
  with reporter_waits_block [OF w assms(2)] assms(1) show ?thesis by (simp add: blocked_for_def)
qed

lemma reporter_keeps_blocked:
  assumes "blocked_for r c" and "\<not> releases_wait r c (ReporterEvent t i a)"
  shows "blocked_for r (reduce_reporter c t i a)"
proof -
  let ?m = "reporter_common c t i a"
  let ?n = "apply_event ?m t i"
  have still: "r \<in> w_requestId ` set (st_openWaits (reduce_reporter c t i a))"
    using reporter_keeps_waiting [OF blocked_for_waiting [OF assms(1)] assms(2)]
    by (simp add: waiting_for_def)
  show ?thesis
  proof (cases "keeps_waits_state i")
    case True
    then have closed: "in_event i = Ev_wait_closed"
      using assms(2) by (auto simp: keeps_waits_state_def releases_wait_def)
    show ?thesis
    proof (cases "\<exists>w\<in>set (st_openWaits ?m). Some (w_requestId w) = in_requestId i")
      case True
      with closed have "\<exists>n. ?n = resumeAfterWait n" by (auto simp: apply_event_def)
      then show ?thesis
        using still closed by (auto simp: reduce_reporter_def Let_def blocked_for_resume)
    next
      case False
      then have "?n = ?m" using closed by (auto simp: apply_event_def)
      moreover have "blocked_for r ?m"
        using assms(1)
        by (simp add: reporter_common_def Let_def withEvidence_def blocked_for_def blocked_on_def)
      ultimately show ?thesis using closed by (simp add: reduce_reporter_def Let_def)
    qed
  qed (rule reporter_blocks_for [OF still])
qed

lemma step_keeps_waiting:
  assumes "waiting_for r c" and "\<not> releases_wait r c obs"
  shows "waiting_for r (reduceAgentStatus c obs)"
    and "blocked_for r c \<Longrightarrow> \<not> screen_report obs \<Longrightarrow> blocked_for r (reduceAgentStatus c obs)"
proof -
  have some: "st_openWaits c \<noteq> []" using assms(1) by (auto simp: waiting_for_def)
  show "waiting_for r (reduceAgentStatus c obs)"
  proof (cases obs)
    case (ProgressReported e t p)
    then show ?thesis using assms(1) some
      by (simp add: reduceAgentStatus_def reduce_progress_def Let_def waiting_for_resume withEvidence_def)
        (simp add: waiting_for_def)
  next
    case (ScreenClassified e t x)
    then show ?thesis using assms(1)
      by (simp add: reduceAgentStatus_def reduce_screen_def Let_def waiting_for_def withEvidence_def)
  qed (use assms in \<open>simp_all add: reduceAgentStatus_def reporter_keeps_waiting process_keeps_waiting(1)\<close>)
  show "blocked_for r (reduceAgentStatus c obs)" if b: "blocked_for r c" and n: "\<not> screen_report obs"
  proof (cases obs)
    case (ProgressReported e t p)
    then show ?thesis using b some
      by (simp add: reduceAgentStatus_def reduce_progress_def Let_def blocked_for_resume withEvidence_def)
        (simp add: blocked_for_def)
  next
    case (ProcessObs p)
    then show ?thesis using b process_keeps_waiting [of r c p] assms
      by (simp add: reduceAgentStatus_def blocked_for_def)
  qed (use b n assms(2) in \<open>simp_all add: reduceAgentStatus_def reporter_keeps_blocked screen_report_def\<close>)
qed

lemma run_keeps_waiting:
  assumes "waiting_for r c" and "unreleased r c os"
  shows "waiting_for r (foldl reduceAgentStatus c os)"
    and "blocked_for r c \<Longrightarrow> \<not> list_ex screen_report os \<Longrightarrow> blocked_for r (foldl reduceAgentStatus c os)"
  using assms by (induction os arbitrary: c) (simp_all add: step_keeps_waiting)


subsection \<open>History\<close>

definition obs_time :: "observation \<Rightarrow> timestamp" where
  "obs_time obs =
     (case obs of
        ProcessObs p \<Rightarrow> (case p of ProcessAlive _ t _ _ \<Rightarrow> t | ProcessMissing _ t \<Rightarrow> t
          | ProcessIndeterminate _ t \<Rightarrow> t | ProcessExited _ t _ _ _ \<Rightarrow> t | LeaseProbed _ t \<Rightarrow> t)
      | ProgressReported _ t _ \<Rightarrow> t
      | ScreenClassified _ t _ \<Rightarrow> t
      | ReporterEvent t _ _ \<Rightarrow> t)"

text \<open>The material part of a status, whose change is what a transition records.\<close>

definition material :: "reducer_state \<Rightarrow>
    agent_status_state \<times> agent_status_phase \<times> agent_status_attention \<times> agent_status_outcome" where
  "material s = (st_state s, st_phase s, st_attention s, st_outcome s)"

definition history :: "reducer_state \<Rightarrow> status_transition list \<times> timestamp" where
  "history s = (st_recentTransitions s, st_stateChangedAt s)"

definition same_history :: "reducer_state \<Rightarrow> reducer_state \<Rightarrow> timestamp \<Rightarrow> bool" where
  "same_history n c t \<longleftrightarrow> history n = history c \<and> st_observedAt n = t"

lemma same_history_resume [simp]: "same_history (resumeAfterWait n) c t = same_history n c t"
  by (simp add: same_history_def history_def resumeAfterWait_def split: list.splits)

lemma same_history_common [simp]: "same_history (reporter_common c t i a) c t"
  by (simp add: same_history_def history_def reporter_common_def Let_def withEvidence_def)

lemma same_history_event: "same_history n c t \<Longrightarrow> same_history (apply_event n t i) c t"
proof (cases "in_event i")
  case Ev_turn_settled
  assume "same_history n c t"
  with Ev_turn_settled show ?thesis
    by (simp add: apply_event_def settle_turn_def Let_def)
      (simp add: same_history_def history_def)
qed (simp_all add: apply_event_def same_history_def history_def resumeAfterWait_def Let_def
       split: list.splits option.splits)

lemma reduce_as_transition:
  "\<exists>n b. reduceAgentStatus c obs = transition c n b \<and> same_history n c (obs_time obs)"
proof (cases obs)
  case (ReporterEvent t i a)
  let ?n = "apply_event (reporter_common c t i a) t i"
  have "same_history ?n c t" by (rule same_history_event) simp
  then show ?thesis using ReporterEvent
    unfolding reduceAgentStatus_def reduce_reporter_def Let_def
    by (auto simp: obs_time_def)
next
  case (ProcessObs p)
  show ?thesis
  proof (cases p)
    case (LeaseProbed e t)
    then show ?thesis using ProcessObs
      unfolding reduceAgentStatus_def reduce_process_def reduce_lease_probed_def Let_def
      by (auto simp: obs_time_def same_history_def history_def intro!: exI)
  next
    case (ProcessAlive e t pr inv)
    then show ?thesis using ProcessObs
      unfolding reduceAgentStatus_def reduce_process_def reduce_process_alive_def Let_def
        withEvidence_def obs_time_def same_history_def history_def
      by (intro exI conjI) (simp, simp_all)
  next
    case (ProcessMissing e t)
    then show ?thesis using ProcessObs
      unfolding reduceAgentStatus_def reduce_process_def reduce_process_missing_def Let_def
        withEvidence_def obs_time_def same_history_def history_def
      by (intro exI conjI) (simp, simp_all)
  next
    case (ProcessIndeterminate e t)
    then show ?thesis using ProcessObs
      unfolding reduceAgentStatus_def reduce_process_def reduce_process_indeterminate_def Let_def
        withEvidence_def obs_time_def same_history_def history_def
      by (intro exI conjI) (simp, simp_all)
  next
    case (ProcessExited e t x y z)
    then show ?thesis using ProcessObs
      unfolding reduceAgentStatus_def reduce_process_def reduce_process_exited_def Let_def
        withEvidence_def obs_time_def same_history_def history_def
      by (intro exI conjI) (simp, simp_all)
  qed
next
  case (ProgressReported e t r)
  then show ?thesis
    unfolding reduceAgentStatus_def reduce_progress_def Let_def withEvidence_def obs_time_def
    by (intro exI conjI) (simp, simp add: same_history_def history_def resumeAfterWait_def split: list.splits)
next
  case (ScreenClassified e t sc)
  then show ?thesis
    unfolding reduceAgentStatus_def reduce_screen_def Let_def withEvidence_def obs_time_def
      same_history_def history_def
    by (intro exI conjI) (simp, simp_all)
qed

lemma history_step:
  "history (reduceAgentStatus c obs) =
     (let r = reduceAgentStatus c obs in
      if material r = material c then history c
      else (appendLimited (st_recentTransitions c)
              \<lparr>t_from = st_state c, t_to = st_state r, t_phase = st_phase r,
               t_attention = st_attention r, t_occurredAt = obs_time obs\<rparr>, obs_time obs))"
proof -
  obtain n b where r: "reduceAgentStatus c obs = transition c n b"
    and h: "same_history n c (obs_time obs)"
    using reduce_as_transition by blast
  then have "st_recentTransitions n = st_recentTransitions c"
    "st_stateChangedAt n = st_stateChangedAt c" "st_observedAt n = obs_time obs"
    by (simp_all add: same_history_def history_def)
  then show ?thesis
    unfolding r by (auto simp: transition_def history_def material_def Let_def)
qed

fun linked :: "status_transition list \<Rightarrow> bool" where
  "linked [] = True"
| "linked [t] = True"
| "linked (t # u # ts) = (t_to t = t_from u \<and> linked (u # ts))"

lemma linked_snoc: "linked (ts @ [u]) \<longleftrightarrow> linked ts \<and> (ts \<noteq> [] \<longrightarrow> t_to (last ts) = t_from u)"
  by (induction ts rule: linked.induct) auto

lemma linked_tl: "linked ts \<Longrightarrow> linked (tl ts)"
  by (cases ts rule: linked.cases) auto

lemma linked_drop: "linked ts \<Longrightarrow> linked (drop n ts)"
  by (induction n arbitrary: ts) (simp_all add: drop_Suc linked_tl)

definition history_ok :: "reducer_state \<Rightarrow> bool" where
  "history_ok s \<longleftrightarrow> linked (st_recentTransitions s) \<and>
     (st_recentTransitions s \<noteq> [] \<longrightarrow>
        t_to (last (st_recentTransitions s)) = st_state s \<and>
        t_occurredAt (last (st_recentTransitions s)) = st_stateChangedAt s)"

lemma last_appendLimited [simp]: "appendLimited xs x \<noteq> []" "last (appendLimited xs x) = x"
  by (simp_all add: appendLimited_def last_n_def MAX_HISTORY_def last_drop)

lemma history_ok_step: "history_ok c \<Longrightarrow> history_ok (reduceAgentStatus c obs)"
  using history_step [of c obs]
  by (auto simp: history_ok_def history_def material_def Let_def appendLimited_def last_n_def
      MAX_HISTORY_def linked_drop linked_snoc last_drop split: if_splits)

interpretation history_machine: invariant_machine reduceAgentStatus history_ok
  by unfold_locales (rule history_ok_step)

subsection \<open>Properties\<close>

text \<open>A reporter event of a given kind and the authority it arrives under, for the witnesses.\<close>

definition sample_event :: "event_kind \<Rightarrow> string option \<Rightarrow> string option \<Rightarrow> event_input" where
  "sample_event kind operation request =
     \<lparr>in_version = 2, in_eventId = ''e'', in_providerId = ''pi'', in_adapterId = ''pi'',
      in_reporterId = ''rep'', in_source = Src_pi, in_protocolVersion = 2,
      in_reporterVersion = ''1'', in_runId = ''run'', in_generation = 1,
      in_reporterEpoch = ''ep'', in_sourceSequence = 1, in_nativeSessionId = None,
      in_event = kind, in_occurredAt = None, in_actionId = None, in_turnId = None,
      in_operationId = operation, in_requestId = request,
      in_data = \<lparr>d_tool = None, d_waitKind = Some Wk_permission, d_summary = Some ''ok?'',
        d_replyChannel = Some Rch_terminal, d_errorClass = None, d_retryAt = None,
        d_activeCount = None, d_fatal = None, d_nativeSession = None, d_effectiveModel = None\<rparr>\<rparr>"

definition sample_authority :: reporter_authority where
  "sample_authority = \<lparr>ra_sessionId = ''s'', ra_reporterEpoch = ''ep'',
     ra_readinessCoverage = Rc_full, ra_leaseExpiresAt = 90000\<rparr>"

text \<open>
  C34. From a fresh run, any sequence of observations leaves a well-formed status: at most 20
  evidence entries and 20 transitions, no tool operation or wait request open twice, a run with
  an open wait is blocked, unknown or failed and never reported idle or working, a run is
  interactive only while its process is present, authority is stale exactly when nothing holds
  it, and completions never outnumber revisions.
\<close>

theorem reducer_run_well_formed:
  "reducer_wf (foldl reduceAgentStatus (createAgentStatusReducerState runId gen at) observations)"
  by (rule reducer.run_inv) (rule create_wf)

lemma completions_run:
  "st_completionRevision (foldl reduceAgentStatus c os) = st_completionRevision c + completions c os"
  by (induction os arbitrary: c) (simp_all add: completion_step)

lemma revisions_run:
  "st_statusRevision (foldl reduceAgentStatus c os) = st_statusRevision c + length os"
  by (induction os arbitrary: c) (simp_all add: reduce_revision)

text \<open>
  C37. The status revision counts the observations, and the completion revision counts exactly the
  turn-settled events that found the run working (or suspected stuck) with no wait and no tool
  left open: no other observation completes work.
\<close>

theorem reducer_counts_revisions:
  "st_statusRevision (foldl reduceAgentStatus (createAgentStatusReducerState r g t) os) = length os \<and>
   st_completionRevision (foldl reduceAgentStatus (createAgentStatusReducerState r g t) os) =
     completions (createAgentStatusReducerState r g t) os"
  by (simp add: completions_run revisions_run) (simp add: createAgentStatusReducerState_def)

text \<open>
  C38. Stuck detection: a working run with no open wait and no stale probe behind it is suspected
  stuck by the second lease probe that comes after its semantic lease, and by no fewer; probes up
  to and at the lease's expiry do not count.
\<close>

theorem stuck_after_two_expired_probes:
  assumes "st_state s = St_working" and "st_openWaits s = []"
    and "st_semanticLease s = Some l" and "st_staleProbeCount s = 0"
  shows "st_state (foldl reduceAgentStatus s (map probe ps)) =
           (if 2 \<le> length (filter (\<lambda>p. l < snd p) ps) then St_suspected_stuck else St_working)"
  using probes_run [of s l ps] assms by (auto simp: Let_def)

theorem stuck_after_two_expired_probes_witness:
  "st_state (foldl reduceAgentStatus
     ((createAgentStatusReducerState ''r'' 1 0)\<lparr>st_state := St_working, st_semanticLease := Some 100\<rparr>)
     (map probe [(''a'', 100), (''b'', 101), (''c'', 150)])) = St_suspected_stuck"
  by (subst stuck_after_two_expired_probes [where l = 100])
    (simp_all add: createAgentStatusReducerState_def)

text \<open>
  C35. The reducer refines the abstract tracker of open work: the tools and the waits it holds open
  after any sequence of schema-valid observations are those the set-based specification computes,
  so a tool or wait is open exactly from its opening event to the event, exit or invalidation that
  closes it.
\<close>

theorem reducer_tracks_open_work:
  assumes "list_all obs_rules os"
  shows "open_work (foldl reduceAgentStatus (createAgentStatusReducerState r g t) os) =
         foldl open_work_step ({}, {}) os"
  using open_work_run [OF assms, of "createAgentStatusReducerState r g t"]
  by (simp add: createAgentStatusReducerState_def open_work_def)

theorem reducer_tracks_open_work_witness:
  "open_work (foldl reduceAgentStatus (createAgentStatusReducerState ''r'' 1 0)
     [ReporterEvent 1 (sample_event Ev_tool_started (Some ''t1'') None) sample_authority,
      ReporterEvent 2 (sample_event Ev_wait_opened None (Some ''w1'')) sample_authority,
      ReporterEvent 3 (sample_event Ev_tool_finished (Some ''t1'') None) sample_authority])
   = ({}, {''w1''})"
  by (subst reducer_tracks_open_work)
    (simp_all add: obs_rules_def event_rules_def sample_event_def opt_set_def)

text \<open>
  C36. An open wait decides the state until something releases it: from any reporter event that is
  no wait closure, session end or fatal failure and leaves the wait \<open>r\<close> open (its opening, or any
  later event), and over every following run of observations none of which releases \<open>r\<close>
  (\<open>releases_wait\<close>: its closure, a finished or failed tool of its id, a session end, a fatal
  failure, an exited, missing or invalidated process, an indeterminate process after the reporter's
  lease), the wait stays open and the run stays blocked in the phase of its oldest open wait,
  whatever turns, tools, progress reports and probes say; while no screen has been classified since,
  it also keeps that wait's attention and high confidence.
\<close>

theorem open_wait_dominates:
  assumes "\<not> keeps_waits_state i"
    and "r \<in> w_requestId ` set (st_openWaits (reduceAgentStatus c (ReporterEvent t i a)))"
    and "unreleased r (reduceAgentStatus c (ReporterEvent t i a)) os"
  shows "let s = foldl reduceAgentStatus c (ReporterEvent t i a # os) in
           r \<in> w_requestId ` set (st_openWaits s) \<and> st_state s = St_blocked \<and>
           st_phase s = waitPhase (hd (st_openWaits s)) \<and>
           (list_ex screen_report os \<or> blocked_on s (hd (st_openWaits s)))"
proof -
  let ?c = "reduceAgentStatus c (ReporterEvent t i a)"
  have b: "blocked_for r ?c"
    using reporter_blocks_for assms(1,2) by (simp add: reduceAgentStatus_def)
  note run = run_keeps_waiting [OF blocked_for_waiting [OF b] assms(3)]
  show ?thesis
    using run(1) run(2) [OF b] by (auto simp: Let_def waiting_for_def blocked_for_def)
qed

theorem open_wait_dominates_witness:
  "let s = foldl reduceAgentStatus (createAgentStatusReducerState ''r'' 1 0)
      [ReporterEvent 1 (sample_event Ev_wait_opened None (Some ''w1'')) sample_authority,
       ReporterEvent 2 (sample_event Ev_turn_started None None) sample_authority,
       ProcessObs (ProcessIndeterminate ''p'' 3),
       ReporterEvent 4 (sample_event Ev_wait_closed None (Some ''w2'')) sample_authority] in
   ''w1'' \<in> w_requestId ` set (st_openWaits s) \<and> st_state s = St_blocked \<and>
   blocked_on s (hd (st_openWaits s))"
proof -
  let ?c = "createAgentStatusReducerState ''r'' 1 0"
  let ?o = "sample_event Ev_wait_opened None (Some ''w1'')"
  let ?os = "[ReporterEvent 2 (sample_event Ev_turn_started None None) sample_authority,
       ProcessObs (ProcessIndeterminate ''p'' 3),
       ReporterEvent 4 (sample_event Ev_wait_closed None (Some ''w2'')) sample_authority]"
  have 1: "\<not> keeps_waits_state ?o" by code_simp
  have 2: "''w1'' \<in> w_requestId ` set (st_openWaits (reduceAgentStatus ?c (ReporterEvent 1 ?o sample_authority)))"
    by code_simp
  have 3: "unreleased ''w1'' (reduceAgentStatus ?c (ReporterEvent 1 ?o sample_authority)) ?os"
    by code_simp
  have 4: "\<not> list_ex screen_report ?os" by (simp add: screen_report_def)
  show ?thesis using open_wait_dominates [OF 1 2 3] 4 by (simp only: Let_def)  blast
qed

text \<open>
  C39. The transition log of every reachable status is a connected path: each recorded transition
  starts in the state the previous one reached, and the last one ends in the current state at the
  recorded time of change, so no change of state goes unrecorded.
\<close>

theorem transition_log_linked:
  "history_ok (foldl reduceAgentStatus (createAgentStatusReducerState r g t) os)"
  by (rule history_machine.run_inv) (simp add: history_ok_def createAgentStatusReducerState_def)

end
