(* ===== verification/Store_Types.thy ===== *)
theory Store_Types
  imports Status_Reducer
begin

text \<open>
  The rows of the daemon's SQLite store (\<open>apps/daemon/src/store.ts\<close>,
  \<open>packages/contracts/src/actions.ts\<close>, \<open>packages/contracts/src/control.ts\<close>) and the store
  itself: one list of rows per table, in insertion order, and the domain event log.

  A JSON column whose content the store never inspects (an action's result, an
  acknowledgement's data) is its text. Columns joined from tables outside this model
  (\<open>providerUpdate\<close>, role and group display names) are left out.
\<close>

subsection \<open>Runs\<close>

datatype run_status = Rs_starting | Rs_running | Rs_stopping | Rs_stopped | Rs_failed
datatype desired_state = Ds_running | Ds_stopped
datatype recovery_phase =
  Rp_idle | Rp_reconciling | Rp_resuming | Rp_restarting | Rp_recovered | Rp_failed
datatype launch_kind = Lk_fresh | Lk_adopted | Lk_resuming | Lk_restarted
datatype model_source = Ms_membership | Ms_foreman | Ms_integration | Ms_provider_default
datatype recovery_outcome = Ro_retained | Ro_resumed | Ro_restarted | Ro_failed

text \<open>A runtime run belongs to a group member (\<open>AgentRun\<close>) or to a foreman (\<open>ForemanRun\<close>).\<close>

datatype run_owner = MemberRun string string | ForemanRun string

record terminal_binding =
  tb_serverName :: string
  tb_sessionId :: string
  tb_windowId :: string
  tb_paneId :: string

record run =
  r_id :: string
  r_owner :: run_owner
  r_agentProfileId :: string
  r_checkoutId :: "string option"
  r_resolvedWorkingDirectory :: "string option"
  r_generation :: nat
  r_status :: run_status
  r_desiredState :: desired_state
  r_recoveryPhase :: recovery_phase
  r_recoveryAttempts :: nat
  r_recoveryNotBefore :: "timestamp option"
  r_recoveryReason :: "string option"
  r_launchKind :: launch_kind
  r_requestedModel :: "string option"
  r_requestedModelSource :: model_source
  r_effectiveModel :: "string option"
  r_nativeSessionId :: "string option"
  r_recoveryOutcome :: "recovery_outcome option"
  r_terminal :: "terminal_binding option"
  r_startedAt :: timestamp
  r_stoppedAt :: "timestamp option"

subsection \<open>Reporter sessions and observations\<close>

record reporter_session =
  rs_id :: string
  rs_providerId :: string
  rs_adapterId :: string
  rs_reporterId :: string
  rs_source :: agent_status_source
  rs_protocolVersion :: nat
  rs_reporterVersion :: string
  rs_runId :: string
  rs_generation :: nat
  rs_reporterEpoch :: string
  rs_sourceSequence :: nat
  rs_nativeSessionId :: "string option"
  rs_readinessCoverage :: readiness_coverage
  rs_processFingerprint :: "string option"
  rs_openedAt :: timestamp
  rs_leaseExpiresAt :: timestamp
  rs_revokedAt :: "timestamp option"
  rs_closedAt :: "timestamp option"

text \<open>
  A row of \<open>runtime_observations\<close>; of its payload the store reads back only the process identity
  of a \<open>process.alive\<close> observation.
\<close>

record runtime_observation =
  ro_sequence :: nat
  ro_eventId :: string
  ro_runId :: string
  ro_generation :: nat
  ro_source :: string
  ro_kind :: string
  ro_sourceOccurredAt :: "timestamp option"
  ro_observedAt :: timestamp
  ro_process :: "process_identity option"

subsection \<open>Actions\<close>

datatype action_kind = Akd_prompt | Akd_wait | Akd_wait_reply | Akd_cancel

datatype action_state =
  As_created | As_deferred | As_submitted | As_accepted | As_started | As_blocked
| As_completed | As_settled_unverified | As_failed | As_stalled | As_timed_out
| As_cancelled | As_expired | As_superseded | As_rejected

fun action_state_name :: "action_state \<Rightarrow> string" where
  "action_state_name As_created = ''created''"
| "action_state_name As_deferred = ''deferred''"
| "action_state_name As_submitted = ''submitted''"
| "action_state_name As_accepted = ''accepted''"
| "action_state_name As_started = ''started''"
| "action_state_name As_blocked = ''blocked''"
| "action_state_name As_completed = ''completed''"
| "action_state_name As_settled_unverified = ''settled-unverified''"
| "action_state_name As_failed = ''failed''"
| "action_state_name As_stalled = ''stalled''"
| "action_state_name As_timed_out = ''timed-out''"
| "action_state_name As_cancelled = ''cancelled''"
| "action_state_name As_expired = ''expired''"
| "action_state_name As_superseded = ''superseded''"
| "action_state_name As_rejected = ''rejected''"

text \<open>\<open>AgentActionPrincipalSchema\<close>, its fields in order.\<close>

datatype principal =
  Operator string
| ForemanConversation string string nat nat string
    \<comment> \<open>foremanId, runId, generation, authorityRevision, conversationRequestId\<close>
| Foreman string string nat nat string string nat
    \<comment> \<open>foremanId, runId, generation, authorityRevision, goalId, delegationId, goalRevision\<close>
| Agent string string string nat
    \<comment> \<open>groupId, memberId, runId, generation\<close>

record action_target =
  tg_groupId :: string
  tg_memberId :: string
  tg_runId :: string
  tg_generation :: nat
  tg_daemonEpoch :: nat
  tg_reporterSessionId :: string
  tg_reporterId :: string
  tg_reporterEpoch :: string
  tg_nativeSessionId :: "string option"
  tg_baselineStatusRevision :: nat
  tg_baselineCompletionRevision :: nat

record action_error =
  ae_code :: string
  ae_message :: string
  ae_retryable :: bool

record agent_action =
  a_id :: string
  a_kind :: action_kind
  a_principal :: principal
  a_target :: action_target
  a_messageId :: "string option"
  a_conversationId :: "string option"
  a_replyToActionId :: "string option"
  a_causationId :: "string option"
  a_idempotencyKey :: string
  a_requestDigest :: string
  a_prompt :: "string option"
  a_allowWorking :: bool
  a_state :: action_state
  a_queueDeadlineAt :: timestamp
  a_acceptanceDeadlineAt :: "timestamp option"
  a_completionDeadlineAt :: "timestamp option"
  a_acceptedProviderTurnId :: "string option"
  a_acceptedProviderRequestId :: "string option"
  a_result :: "string option"
  a_error :: "action_error option"
  a_createdAt :: timestamp
  a_updatedAt :: timestamp

datatype attempt_effect = Ef_provider_api | Ef_terminal_injection | Ef_logical_reply

datatype attempt_state =
  At_submitting | At_submitted | At_failed | At_stalled | At_cancelled | At_superseded | At_rejected

record action_attempt =
  at_id :: string
  at_actionId :: string
  at_attempt :: nat
  at_effect :: attempt_effect
  at_state :: attempt_state
  at_daemonEpoch :: nat
  at_groupId :: string
  at_memberId :: string
  at_runId :: string
  at_generation :: nat
  at_reporterSessionId :: string
  at_reporterId :: string
  at_reporterEpoch :: string
  at_nativeSessionId :: "string option"
  at_baselineStatusRevision :: nat
  at_baselineCompletionRevision :: nat
  at_terminalBinding :: terminal_binding
  at_terminalBindingFingerprint :: string
  at_providerTurnId :: "string option"
  at_providerRequestId :: "string option"
  at_leaseOwner :: string
  at_leaseExpiresAt :: timestamp
  at_createdAt :: timestamp
  at_updatedAt :: timestamp
  at_submittedAt :: "timestamp option"
  at_failureCode :: "string option"

datatype ack_kind =
  Ack_accepted | Ack_started | Ack_blocked | Ack_completed
| Ack_settled_unverified | Ack_failed | Ack_cancelled

record action_ack =
  ack_id :: string
  ack_actionId :: string
  ack_attemptId :: string
  ack_kind :: ack_kind
  ack_runId :: string
  ack_generation :: nat
  ack_reporterSessionId :: string
  ack_reporterId :: string
  ack_reporterEpoch :: string
  ack_sourceSequence :: nat
  ack_nativeSessionId :: "string option"
  ack_providerTurnId :: "string option"
  ack_providerRequestId :: "string option"
  ack_completionRevision :: nat
  ack_acknowledgedAt :: timestamp
  ack_data :: string

subsection \<open>Open waits\<close>

datatype open_wait_state =
  Ow_open | Ow_replying | Ow_answered | Ow_expired | Ow_cancelled | Ow_superseded

record open_wait =
  ow_id :: string
  ow_actionId :: "string option"
  ow_groupId :: string
  ow_memberId :: string
  ow_runId :: string
  ow_generation :: nat
  ow_reporterSessionId :: string
  ow_reporterId :: string
  ow_reporterEpoch :: string
  ow_nativeSessionId :: "string option"
  ow_providerRequestId :: string
  ow_kind :: wait_kind
  ow_summary :: string
  ow_replyChannel :: reply_channel
  ow_openedStatusRevision :: nat
  ow_state :: open_wait_state
  ow_expiresAt :: "timestamp option"
  ow_openedAt :: timestamp
  ow_updatedAt :: timestamp
  ow_answeredAt :: "timestamp option"

subsection \<open>Groups, members, messages and deliveries\<close>

record group_row =
  g_id :: string
  g_name :: string
  g_order :: nat
  g_membershipRevision :: nat
  g_messageSequence :: nat
  g_createdAt :: timestamp
  g_updatedAt :: timestamp

record membership_row =
  m_id :: string
  m_groupId :: string
  m_memberId :: string
  m_agentProfileId :: string
  m_alias :: string
  m_roleId :: "string option"
  m_order :: nat
  m_active :: bool
  m_joinedAt :: timestamp
  m_removedAt :: "timestamp option"

record agent_profile =
  ap_id :: string
  ap_agentType :: string

record foreman_actor =
  f_id :: string
  f_agentProfileId :: string
  f_enabled :: bool
  f_authorityRevision :: nat

datatype message_intent = Mi_inform | Mi_request | Mi_response | Mi_control

datatype message_sender = FromOperator string | FromAgent string string

datatype audience = Dm string | Multicast "string list" | GroupBroadcast nat

record message_body =
  b_markdown :: bool
  b_text :: string

record message =
  msg_id :: string
  msg_groupId :: string
  msg_groupSeq :: nat
  msg_conversationId :: string
  msg_intent :: message_intent
  msg_sender :: message_sender
  msg_audience :: audience
  msg_body :: message_body
  msg_expiresAt :: "timestamp option"
  msg_replyTo :: "string option"
  msg_rootId :: "string option"
  msg_causationId :: "string option"
  msg_hop :: nat
  msg_createdAt :: timestamp

datatype delivery_status =
  Dv_queued | Dv_received | Dv_delivering | Dv_terminal_injected | Dv_processed
| Dv_retrying | Dv_dead_letter | Dv_revoked | Dv_rejected | Dv_failed

record delivery =
  dv_messageId :: string
  dv_recipient :: string
  dv_reason :: "string option"
  dv_status :: delivery_status
  dv_attempts :: nat
  dv_leaseOwner :: "string option"
  dv_leaseExpiresAt :: "timestamp option"
  dv_nextAttemptAt :: "timestamp option"
  dv_runId :: "string option"
  dv_runGeneration :: "nat option"
  dv_updatedAt :: timestamp

text \<open>
  What the API shows of a delivery (\<open>DeliveryOutcomeSchema\<close>), the message state of a group, and
  the result of clearing its history.
\<close>

record delivery_outcome =
  do_messageId :: string
  do_recipient :: string
  do_reason :: "string option"
  do_status :: delivery_status
  do_attempts :: nat
  do_updatedAt :: timestamp

record group_message_state =
  gm_groupId :: string
  gm_latestGroupSeq :: nat
  gm_oldestRetainedGroupSeq :: "nat option"
  gm_retainedMessageCount :: nat
  gm_activeDeliveryCount :: nat
  gm_failedRecipients :: "string list"
  gm_failedDeliveries :: "delivery_outcome list"

record cleared_history =
  ch_groupId :: string
  ch_deletedMessages :: nat
  ch_deletedDeliveries :: nat
  ch_state :: group_message_state

record deleted_group =
  dg_groupId :: string
  dg_memberships :: nat
  dg_runs :: nat
  dg_messages :: nat
  dg_deliveries :: nat

subsection \<open>Idempotency\<close>

text \<open>
  A retained response of \<open>idempotency_keys\<close>: the result of the operation, or \<open>null\<close> once the
  message it holds has been deleted.
\<close>

datatype idem_response =
  Ir_message message "delivery_outcome list"
| Ir_cleared cleared_history
| Ir_group group_row
| Ir_membership membership_row
| Ir_deleted_group deleted_group
| Ir_null

record idempotency_row =
  ik_scope :: string
  ik_key :: string
  ik_requestDigest :: "string option"
  ik_response :: idem_response
  ik_eventSequence :: nat
  ik_createdAt :: timestamp
  ik_invalidatedAt :: "timestamp option"

text \<open>A row of \<open>http_idempotency_keys\<close>; the response is its JSON text.\<close>

record http_row =
  hk_principalId :: string
  hk_routeId :: string
  hk_key :: string
  hk_requestDigest :: string
  hk_completed :: bool
  hk_statusCode :: "nat option"
  hk_response :: string
  hk_createdAt :: timestamp
  hk_updatedAt :: timestamp
  hk_expiresAt :: timestamp

subsection \<open>Domain events and the store\<close>

text \<open>
  The payloads of the domain events the modelled operations append. The random id of an event is
  not modelled: its sequence number identifies it.
\<close>

datatype event_payload =
  Pl_action_created string string action_state
| Pl_attempt string attempt_state
| Pl_action_submitted string
| Pl_action_failed string action_state action_error
| Pl_action_state action_state
| Pl_ack string ack_kind
| Pl_wait open_wait
| Pl_run run
| Pl_run_status run run_status "string option"
| Pl_recovery run recovery_phase "string option"
| Pl_desired run desired_state string
| Pl_status string nat agent_status_state agent_status_attention
| Pl_foreman_status string string nat nat
| Pl_delivery string string delivery_status "string option" "nat option"
| Pl_message_submitted string nat group_message_state
| Pl_history_cleared cleared_history
| Pl_group group_row "string option"
| Pl_group_deleted deleted_group
| Pl_membership_added membership_row nat
| Pl_membership_updated membership_row string
| Pl_membership_removed membership_row nat nat
| Pl_order "string list" nat
| Pl_reparented string string string nat
| Pl_id string
| Pl_agent string string

record domain_event =
  ev_sequence :: nat
  ev_type :: string
  ev_aggregateType :: string
  ev_aggregateId :: string
  ev_occurredAt :: timestamp
  ev_payload :: event_payload

record db =
  db_groups :: "group_row list"
  db_orderRevision :: nat
  db_memberships :: "membership_row list"
  db_profiles :: "agent_profile list"
  db_foremen :: "foreman_actor list"
  db_runs :: "run list"
  db_statuses :: "(string \<times> reducer_state) list"
  db_sessions :: "reporter_session list"
  db_observations :: "runtime_observation list"
  db_observationSeq :: nat
  db_screens :: "(nat \<times> screen_observation) list"
    \<comment> \<open>sequence and classification; the run and generation are in the classification\<close>
  db_screenSeq :: nat
  db_progressReports :: "(string \<times> string \<times> nat \<times> progress_report \<times> timestamp) list"
    \<comment> \<open>id, runId, generation, report, reportedAt\<close>
  db_actions :: "agent_action list"
  db_attempts :: "action_attempt list"
  db_acks :: "action_ack list"
  db_waits :: "open_wait list"
  db_completionAcks :: "((string \<times> string \<times> nat) \<times> nat) list"
  db_messages :: "message list"
  db_deliveries :: "delivery list"
  db_idempotency :: "idempotency_row list"
  db_http :: "http_row list"
  db_events :: "domain_event list"
  db_eventSeq :: nat

definition empty_db :: db where
  "empty_db = \<lparr>db_groups = [], db_orderRevision = 0, db_memberships = [], db_profiles = [], db_foremen = [],
     db_runs = [], db_statuses = [], db_sessions = [], db_observations = [],
     db_observationSeq = 0, db_screens = [], db_screenSeq = 0, db_progressReports = [],
     db_actions = [], db_attempts = [], db_acks = [], db_waits = [],
     db_completionAcks = [], db_messages = [], db_deliveries = [], db_idempotency = [],
     db_http = [], db_events = [], db_eventSeq = 0\<rparr>"

end
