(* ===== verification/Action_Schemas.thy ===== *)
theory Action_Schemas
  imports Store_Types
begin

text \<open>
  The Zod schemas of \<open>packages/contracts/src/actions.ts\<close> that the store applies to an action, an
  attempt and an acknowledgement before it writes them. A parse returns the value with its text
  fields trimmed. A timestamp field is a parsed timestamp already, and an action's result and an
  acknowledgement's data, which are open records, are kept as their JSON text.
\<close>

subsection \<open>Text formats\<close>

definition digit_char :: "char \<Rightarrow> bool" where
  "digit_char c = (let n = of_char c :: nat in 48 \<le> n \<and> n \<le> 57)"

definition hex_char :: "char \<Rightarrow> bool" where
  "hex_char c = (let n = of_char c :: nat in (48 \<le> n \<and> n \<le> 57) \<or> (97 \<le> n \<and> n \<le> 102))"

text \<open>\<open>/^[0-9a-f]{64}$/\<close>, \<open>/^@[0-9]+$/\<close> and \<open>/^%[0-9]+$/\<close>.\<close>

definition is_digest :: "string \<Rightarrow> bool" where
  "is_digest s \<longleftrightarrow> length s = 64 \<and> list_all hex_char s"

definition tagged_number :: "char \<Rightarrow> string \<Rightarrow> bool" where
  "tagged_number c s = (case s of [] \<Rightarrow> False | h # t \<Rightarrow> h = c \<and> t \<noteq> [] \<and> list_all digit_char t)"

definition guarded :: "bool \<Rightarrow> 'a result \<Rightarrow> 'a result" where
  "guarded b r = (if b then r else Inl SchemaError)"

lemma guarded_eq_Inr [simp]: "guarded b r = Inr a \<longleftrightarrow> b \<and> r = Inr a"
  by (simp add: guarded_def)

definition nonempty_text :: "string \<Rightarrow> string result" where
  "nonempty_text s = (let t = js_trim s in if t = [] then Inl SchemaError else Inr t)"

definition parse_terminal_binding :: "terminal_binding \<Rightarrow> terminal_binding result" where
  "parse_terminal_binding b =
     rbind (nonempty_text (tb_serverName b)) (\<lambda>serverName.
     rbind (nonempty_text (tb_sessionId b)) (\<lambda>sessionId.
       guarded (tagged_number CHR ''@'' (tb_windowId b) \<and> tagged_number CHR ''%'' (tb_paneId b))
         (Inr (b\<lparr>tb_serverName := serverName, tb_sessionId := sessionId\<rparr>))))"

subsection \<open>Actions\<close>

definition MAX_MESSAGE_TEXT_BYTES :: nat where "MAX_MESSAGE_TEXT_BYTES = 1048576"

fun parse_principal :: "principal \<Rightarrow> principal result" where
  "parse_principal (Operator i) = rbind (parse_identifier i) (\<lambda>i'. Inr (Operator i'))"
| "parse_principal (ForemanConversation f r g a c) =
     rbind (parse_identifier f) (\<lambda>f'. rbind (parse_identifier r) (\<lambda>r'.
     rbind (parse_identifier c) (\<lambda>c'.
       guarded (0 < g) (Inr (ForemanConversation f' r' g a c')))))"
| "parse_principal (Foreman f r g a gl dl n) =
     rbind (parse_identifier f) (\<lambda>f'. rbind (parse_identifier r) (\<lambda>r'.
     rbind (parse_identifier gl) (\<lambda>gl'. rbind (parse_identifier dl) (\<lambda>dl'.
       guarded (0 < g \<and> 0 < n) (Inr (Foreman f' r' g a gl' dl' n))))))"
| "parse_principal (Agent gr m r g) =
     rbind (parse_identifier gr) (\<lambda>gr'. rbind (parse_identifier m) (\<lambda>m'.
     rbind (parse_identifier r) (\<lambda>r'. guarded (0 < g) (Inr (Agent gr' m' r' g)))))"

definition parse_action_target :: "action_target \<Rightarrow> action_target result" where
  "parse_action_target t =
     rbind (parse_identifier (tg_groupId t)) (\<lambda>groupId.
     rbind (parse_identifier (tg_memberId t)) (\<lambda>memberId.
     rbind (parse_identifier (tg_runId t)) (\<lambda>runId.
     rbind (parse_identifier (tg_reporterSessionId t)) (\<lambda>reporterSessionId.
     rbind (parse_identifier (tg_reporterId t)) (\<lambda>reporterId.
     rbind (parse_identifier (tg_reporterEpoch t)) (\<lambda>reporterEpoch.
     rbind (parse_opt (parse_text 4096) (tg_nativeSessionId t)) (\<lambda>nativeSessionId.
       guarded (0 < tg_generation t \<and> 0 < tg_daemonEpoch t)
         (Inr (t\<lparr>tg_groupId := groupId, tg_memberId := memberId, tg_runId := runId,
            tg_reporterSessionId := reporterSessionId, tg_reporterId := reporterId,
            tg_reporterEpoch := reporterEpoch, tg_nativeSessionId := nativeSessionId\<rparr>)))))))))"

definition parse_action_error :: "action_error \<Rightarrow> action_error result" where
  "parse_action_error e =
     rbind (parse_text 100 (ae_code e)) (\<lambda>code.
     rbind (parse_text 1000 (ae_message e)) (\<lambda>message.
       Inr (e\<lparr>ae_code := code, ae_message := message\<rparr>)))"

definition parse_agent_action :: "agent_action \<Rightarrow> agent_action result" where
  "parse_agent_action a =
     rbind (parse_identifier (a_id a)) (\<lambda>id'.
     rbind (parse_principal (a_principal a)) (\<lambda>principal.
     rbind (parse_action_target (a_target a)) (\<lambda>target.
     rbind (parse_opt parse_identifier (a_messageId a)) (\<lambda>messageId.
     rbind (parse_opt parse_identifier (a_conversationId a)) (\<lambda>conversationId.
     rbind (parse_opt parse_identifier (a_replyToActionId a)) (\<lambda>replyToActionId.
     rbind (parse_opt parse_identifier (a_causationId a)) (\<lambda>causationId.
     rbind (parse_text 256 (a_idempotencyKey a)) (\<lambda>idempotencyKey.
     rbind (parse_opt parse_identifier (a_acceptedProviderTurnId a)) (\<lambda>turnId.
     rbind (parse_opt parse_identifier (a_acceptedProviderRequestId a)) (\<lambda>requestId.
     rbind (parse_opt parse_action_error (a_error a)) (\<lambda>err.
       guarded
         (is_digest (a_requestDigest a) \<and>
          (case a_prompt a of None \<Rightarrow> a_kind a \<noteq> Akd_prompt
           | Some p \<Rightarrow> 1 \<le> length p \<and> length p \<le> MAX_MESSAGE_TEXT_BYTES))
         (Inr (a\<lparr>a_id := id', a_principal := principal, a_target := target,
            a_messageId := messageId, a_conversationId := conversationId,
            a_replyToActionId := replyToActionId, a_causationId := causationId,
            a_idempotencyKey := idempotencyKey, a_acceptedProviderTurnId := turnId,
            a_acceptedProviderRequestId := requestId, a_error := err\<rparr>)))))))))))))"

subsection \<open>Attempts and acknowledgements\<close>

definition parse_action_attempt :: "action_attempt \<Rightarrow> action_attempt result" where
  "parse_action_attempt t =
     rbind (parse_identifier (at_id t)) (\<lambda>id'.
     rbind (parse_identifier (at_actionId t)) (\<lambda>actionId.
     rbind (parse_identifier (at_groupId t)) (\<lambda>groupId.
     rbind (parse_identifier (at_memberId t)) (\<lambda>memberId.
     rbind (parse_identifier (at_runId t)) (\<lambda>runId.
     rbind (parse_identifier (at_reporterSessionId t)) (\<lambda>reporterSessionId.
     rbind (parse_identifier (at_reporterId t)) (\<lambda>reporterId.
     rbind (parse_identifier (at_reporterEpoch t)) (\<lambda>reporterEpoch.
     rbind (parse_opt (parse_text 4096) (at_nativeSessionId t)) (\<lambda>nativeSessionId.
     rbind (parse_terminal_binding (at_terminalBinding t)) (\<lambda>terminalBinding.
     rbind (parse_opt parse_identifier (at_providerTurnId t)) (\<lambda>turnId.
     rbind (parse_opt parse_identifier (at_providerRequestId t)) (\<lambda>requestId.
     rbind (parse_identifier (at_leaseOwner t)) (\<lambda>leaseOwner.
     rbind (parse_opt (parse_text 100) (at_failureCode t)) (\<lambda>failureCode.
       guarded (0 < at_attempt t \<and> 0 < at_daemonEpoch t \<and> 0 < at_generation t \<and>
                is_digest (at_terminalBindingFingerprint t))
         (Inr (t\<lparr>at_id := id', at_actionId := actionId, at_groupId := groupId,
            at_memberId := memberId, at_runId := runId,
            at_reporterSessionId := reporterSessionId, at_reporterId := reporterId,
            at_reporterEpoch := reporterEpoch, at_nativeSessionId := nativeSessionId,
            at_terminalBinding := terminalBinding, at_providerTurnId := turnId,
            at_providerRequestId := requestId, at_leaseOwner := leaseOwner,
            at_failureCode := failureCode\<rparr>))))))))))))))))"

definition parse_action_ack :: "action_ack \<Rightarrow> action_ack result" where
  "parse_action_ack k =
     rbind (parse_identifier (ack_id k)) (\<lambda>id'.
     rbind (parse_identifier (ack_actionId k)) (\<lambda>actionId.
     rbind (parse_identifier (ack_attemptId k)) (\<lambda>attemptId.
     rbind (parse_identifier (ack_runId k)) (\<lambda>runId.
     rbind (parse_identifier (ack_reporterSessionId k)) (\<lambda>reporterSessionId.
     rbind (parse_identifier (ack_reporterId k)) (\<lambda>reporterId.
     rbind (parse_identifier (ack_reporterEpoch k)) (\<lambda>reporterEpoch.
     rbind (parse_opt (parse_text 4096) (ack_nativeSessionId k)) (\<lambda>nativeSessionId.
     rbind (parse_opt parse_identifier (ack_providerTurnId k)) (\<lambda>turnId.
     rbind (parse_opt parse_identifier (ack_providerRequestId k)) (\<lambda>requestId.
       guarded (0 < ack_generation k \<and> 0 < ack_sourceSequence k)
         (Inr (k\<lparr>ack_id := id', ack_actionId := actionId, ack_attemptId := attemptId,
            ack_runId := runId, ack_reporterSessionId := reporterSessionId,
            ack_reporterId := reporterId, ack_reporterEpoch := reporterEpoch,
            ack_nativeSessionId := nativeSessionId, ack_providerTurnId := turnId,
            ack_providerRequestId := requestId\<rparr>))))))))))))"

text \<open>What the parses leave alone: everything that is not text.\<close>

lemma parse_agent_action_keeps:
  assumes "parse_agent_action a = Inr b"
  shows "a_kind b = a_kind a" "a_state b = a_state a" "a_requestDigest b = a_requestDigest a"
    "a_prompt b = a_prompt a" "a_allowWorking b = a_allowWorking a"
  using assms by (auto simp: parse_agent_action_def rbind_eq_Inr)

lemma parse_action_attempt_keeps:
  assumes "parse_action_attempt t = Inr u"
  shows "at_state u = at_state t" "at_attempt u = at_attempt t" "at_effect u = at_effect t"
    "at_leaseExpiresAt u = at_leaseExpiresAt t"
  using assms by (auto simp: parse_action_attempt_def rbind_eq_Inr)

lemma parse_action_ack_keeps:
  assumes "parse_action_ack k = Inr l"
  shows "ack_kind l = ack_kind k" "ack_sourceSequence l = ack_sourceSequence k"
    "ack_completionRevision l = ack_completionRevision k" "ack_generation l = ack_generation k"
  using assms by (auto simp: parse_action_ack_def rbind_eq_Inr)

end
