(* ===== verification/Store_Core.thy ===== *)
theory Store_Core
  imports Action_Schemas
begin

text \<open>
  The reads and the small writes of \<open>apps/daemon/src/store.ts\<close> that its operations share: rows by
  key, the active and the latest run of a member, the current reporter session, the status of a
  run and the status detail the API returns, and the domain event log. Each table interprets the
  keyed-table contract of the prelude.
\<close>

subsection \<open>Rows by key\<close>

text \<open>\<open>ORDER BY k DESC LIMIT 1\<close>: the first row with the largest key.\<close>

fun max_by :: "('r \<Rightarrow> 'k::linorder) \<Rightarrow> 'r list \<Rightarrow> 'r option" where
  "max_by k [] = None"
| "max_by k (r # rs) =
     (case max_by k rs of None \<Rightarrow> Some r | Some q \<Rightarrow> Some (if k r < k q then q else r))"

lemma max_by_in: "max_by k rs = Some r \<Longrightarrow> r \<in> set rs"
  by (induction rs arbitrary: r) (auto split: option.splits if_splits)

lemma max_by_None_iff [simp]: "max_by k rs = None \<longleftrightarrow> rs = []"
  by (cases rs) (auto split: option.splits)

lemma max_by_max: "max_by k rs = Some r \<Longrightarrow> q \<in> set rs \<Longrightarrow> k q \<le> k r"
proof (induction rs arbitrary: r)
  case (Cons x xs)
  then show ?case
    by (cases "max_by k xs") (auto split: if_splits intro: order.trans less_imp_le)
qed simp

abbreviation find_run :: "string \<Rightarrow> run list \<Rightarrow> run option" where
  "find_run i \<equiv> find_where (\<lambda>r. r_id r = i)"

abbreviation find_action :: "string \<Rightarrow> agent_action list \<Rightarrow> agent_action option" where
  "find_action i \<equiv> find_where (\<lambda>a. a_id a = i)"

abbreviation find_attempt :: "string \<Rightarrow> action_attempt list \<Rightarrow> action_attempt option" where
  "find_attempt i \<equiv> find_where (\<lambda>a. at_id a = i)"

abbreviation find_wait :: "string \<Rightarrow> open_wait list \<Rightarrow> open_wait option" where
  "find_wait i \<equiv> find_where (\<lambda>w. ow_id w = i)"

interpretation runs: keyed_table r_id find_run "\<lambda>k. update_where (\<lambda>r. r_id r = k)" "\<lambda>r rs. rs @ [r]"
  by (rule keyed_table_rows)

interpretation actions: keyed_table a_id find_action "\<lambda>k. update_where (\<lambda>r. a_id r = k)" "\<lambda>r rs. rs @ [r]"
  by (rule keyed_table_rows)

interpretation attempts: keyed_table at_id find_attempt "\<lambda>k. update_where (\<lambda>r. at_id r = k)" "\<lambda>r rs. rs @ [r]"
  by (rule keyed_table_rows)

interpretation waits: keyed_table ow_id find_wait "\<lambda>k. update_where (\<lambda>r. ow_id r = k)" "\<lambda>r rs. rs @ [r]"
  by (rule keyed_table_rows)

definition require :: "error \<Rightarrow> 'a option \<Rightarrow> 'a result" where
  "require e v = (case v of None \<Rightarrow> Inl e | Some a \<Rightarrow> Inr a)"

lemma require_simps [simp]: "require e None = Inl e" "require e (Some a) = Inr a"
  by (simp_all add: require_def)

lemma require_eq_Inr [simp]: "require e v = Inr a \<longleftrightarrow> v = Some a"
  by (cases v) auto

definition getRuntimeRun :: "db \<Rightarrow> string \<Rightarrow> run result" where
  "getRuntimeRun d runId = require (DomainError ''run_not_found'' 404) (find_run runId (db_runs d))"

definition getRun :: "db \<Rightarrow> string \<Rightarrow> run result" where
  "getRun d runId =
     rbind (getRuntimeRun d runId) (\<lambda>run.
       case r_owner run of
         ForemanRun _ \<Rightarrow> Inl (DomainError ''run_not_found'' 404)
       | MemberRun _ _ \<Rightarrow> Inr run)"

definition active_status :: "run_status \<Rightarrow> bool" where
  "active_status s \<longleftrightarrow> s = Rs_starting \<or> s = Rs_running \<or> s = Rs_stopping"

definition getActiveRun :: "db \<Rightarrow> string \<Rightarrow> string \<Rightarrow> run option" where
  "getActiveRun d groupId memberId =
     max_by r_generation
       (filter (\<lambda>r. r_owner r = MemberRun groupId memberId \<and> active_status (r_status r)) (db_runs d))"

definition getLatestRunForMembership :: "db \<Rightarrow> string \<Rightarrow> string \<Rightarrow> run option" where
  "getLatestRunForMembership d groupId memberId =
     max_by r_generation (filter (\<lambda>r. r_owner r = MemberRun groupId memberId) (db_runs d))"

definition getActiveForemanRun :: "db \<Rightarrow> string \<Rightarrow> run option" where
  "getActiveForemanRun d foremanId =
     max_by r_generation
       (filter (\<lambda>r. r_owner r = ForemanRun foremanId \<and> active_status (r_status r)) (db_runs d))"

definition getMembershipRow :: "db \<Rightarrow> string \<Rightarrow> string \<Rightarrow> membership_row option" where
  "getMembershipRow d groupId memberId =
     find_where (\<lambda>m. m_groupId m = groupId \<and> m_memberId m = memberId) (db_memberships d)"

definition requireAgentProfile :: "db \<Rightarrow> string \<Rightarrow> agent_profile result" where
  "requireAgentProfile d profileId =
     require (DomainError ''agent_profile_not_found'' 404)
       (find_where (\<lambda>p. ap_id p = profileId) (db_profiles d))"

definition requireGroup :: "db \<Rightarrow> string \<Rightarrow> group_row result" where
  "requireGroup d groupId =
     require (DomainError ''group_not_found'' 404) (find_where (\<lambda>g. g_id g = groupId) (db_groups d))"

definition getForeman :: "db \<Rightarrow> string \<Rightarrow> foreman_actor result" where
  "getForeman d foremanId =
     require (DomainError ''foreman_not_found'' 404) (find_where (\<lambda>f. f_id f = foremanId) (db_foremen d))"

text \<open>
  \<open>ORDER BY opened_at DESC LIMIT 1\<close> leaves the choice among sessions opened in the same
  millisecond to SQLite; the model takes the first.
\<close>

definition session_current :: "string \<Rightarrow> nat \<Rightarrow> reporter_session \<Rightarrow> bool" where
  "session_current runId generation s \<longleftrightarrow>
     rs_runId s = runId \<and> rs_generation s = generation \<and>
     rs_revokedAt s = None \<and> rs_closedAt s = None"

definition getCurrentReporterSession :: "db \<Rightarrow> string \<Rightarrow> nat \<Rightarrow> reporter_session option" where
  "getCurrentReporterSession d runId generation =
     max_by rs_openedAt (filter (session_current runId generation) (db_sessions d))"

definition getAgentAction :: "db \<Rightarrow> string \<Rightarrow> agent_action result" where
  "getAgentAction d actionId =
     require (DomainError ''agent_action_not_found'' 404) (find_action actionId (db_actions d))"

definition getOpenWait :: "db \<Rightarrow> string \<Rightarrow> open_wait result" where
  "getOpenWait d waitId =
     require (DomainError ''open_wait_not_found'' 404) (find_wait waitId (db_waits d))"

definition listAgentActions :: "db \<Rightarrow> agent_action list" where
  "listAgentActions d = sort_key (\<lambda>a. (a_createdAt a, a_id a)) (db_actions d)"

definition listActionAttempts :: "db \<Rightarrow> string \<Rightarrow> action_attempt list" where
  "listActionAttempts d actionId =
     sort_key at_attempt (filter (\<lambda>t. at_actionId t = actionId) (db_attempts d))"

subsection \<open>Status of a run\<close>

definition agentStatusState :: "db \<Rightarrow> run \<Rightarrow> reducer_state" where
  "agentStatusState d run =
     (case map_of (db_statuses d) (r_id run) of
        None \<Rightarrow> createAgentStatusReducerState (r_id run) (r_generation run) (r_startedAt run)
      | Some s \<Rightarrow> s)"

definition upsertAgentStatusState :: "run \<Rightarrow> reducer_state \<Rightarrow> db \<Rightarrow> db" where
  "upsertAgentStatusState run s d =
     d\<lparr>db_statuses := (r_id run, s) # filter (\<lambda>p. fst p \<noteq> r_id run) (db_statuses d)\<rparr>"

lemma map_of_filter_neq:
  "k' \<noteq> k \<Longrightarrow> map_of (filter (\<lambda>p. fst p \<noteq> k) xs) k' = map_of xs k'"
  by (induction xs) auto

lemma agentStatusState_upsert:
  "agentStatusState (upsertAgentStatusState run s d) run' =
     (if r_id run' = r_id run then s else agentStatusState d run')"
  by (cases "r_id run' = r_id run")
    (simp_all add: agentStatusState_def upsertAgentStatusState_def map_of_filter_neq)

text \<open>
  \<open>AgentStatusDetail\<close>: the run's reducer state with what the run row, the membership and the
  operator's acknowledgement add. Every other field of the detail is the reducer field of the
  same name, kept in \<open>sd_body\<close>; without a run the body holds the constants the code returns.
\<close>

record status_detail =
  sd_groupId :: string
  sd_memberId :: string
  sd_alias :: string
  sd_agentType :: string
  sd_runId :: "string option"
  sd_generation :: "nat option"
  sd_runStatus :: "run_status option"
  sd_state :: agent_status_state
  sd_phase :: agent_status_phase
  sd_outcome :: agent_status_outcome
  sd_attention :: agent_status_attention
  sd_acknowledgedRevision :: nat
  sd_completionPending :: bool
  sd_openWait :: "agent_wait option"
  sd_body :: reducer_state

text \<open>The bounds \<open>AgentStatusDetailSchema.parse\<close> puts on the evidence and the transition log.\<close>

definition detail_schema_ok :: "reducer_state \<Rightarrow> bool" where
  "detail_schema_ok s \<longleftrightarrow>
     length (st_evidence s) \<le> 20 \<and> list_all evidence_ok (st_evidence s) \<and>
     length (st_recentTransitions s) \<le> 20"

definition no_run_body :: "timestamp \<Rightarrow> reducer_state" where
  "no_run_body joinedAt =
     (createAgentStatusReducerState [] 0 joinedAt)\<lparr>
        st_state := St_unknown, st_confidence := Cf_high, st_processState := Ps_missing,
        st_evidence := [\<lparr>e_source = Es_scheduler, e_kind = ''membership.active'',
          e_observedAt = joinedAt, e_confidence = Cf_high, e_summary = None\<rparr>]\<rparr>"

definition getAgentStatusDetail ::
  "db \<Rightarrow> string \<Rightarrow> string \<Rightarrow> string option \<Rightarrow> status_detail result" where
  "getAgentStatusDetail d groupId memberId operatorId =
     (case getMembershipRow d groupId memberId of
        None \<Rightarrow> Inl (DomainError ''membership_not_active'' 404)
      | Some membership \<Rightarrow>
          if \<not> m_active membership then Inl (DomainError ''membership_not_active'' 404) else
          rbind (requireAgentProfile d (m_agentProfileId membership)) (\<lambda>profile.
            case getLatestRunForMembership d groupId memberId of
              None \<Rightarrow> Inr \<lparr>sd_groupId = groupId, sd_memberId = memberId, sd_alias = m_alias membership,
                sd_agentType = ap_agentType profile, sd_runId = None, sd_generation = None,
                sd_runStatus = None, sd_state = St_unknown, sd_phase = Ph_startup,
                sd_outcome = Oc_unknown, sd_attention = At_none, sd_acknowledgedRevision = 0,
                sd_completionPending = False, sd_openWait = None,
                sd_body = no_run_body (m_joinedAt membership)\<rparr>
            | Some run \<Rightarrow>
                let state = agentStatusState d run;
                    statusState =
                      (if r_status run = Rs_stopped \<and> st_state state \<notin> {St_stopped, St_failed} then St_stopped
                       else if r_status run = Rs_failed \<and> st_state state \<notin> {St_stopped, St_failed} then St_failed
                       else st_state state);
                    acknowledged =
                      (case operatorId of None \<Rightarrow> 0
                       | Some op \<Rightarrow>
                           (case map_of (db_completionAcks d) (op, r_id run, r_generation run) of
                              None \<Rightarrow> 0 | Some n \<Rightarrow> n))
                in if \<not> detail_schema_ok state then Inl SchemaError else
                   Inr \<lparr>sd_groupId = groupId, sd_memberId = memberId, sd_alias = m_alias membership,
                     sd_agentType = ap_agentType profile, sd_runId = Some (r_id run),
                     sd_generation = Some (r_generation run), sd_runStatus = Some (r_status run),
                     sd_state = statusState,
                     sd_phase = (if statusState = St_stopped \<or> statusState = St_failed
                                 then Ph_exited else st_phase state),
                     sd_outcome = (if statusState = St_failed \<and> st_outcome state = Oc_unknown
                                   then Oc_failed else st_outcome state),
                     sd_attention = (if statusState = St_failed then At_process_failed
                                     else st_attention state),
                     sd_acknowledgedRevision = acknowledged,
                     sd_completionPending = (acknowledged < st_completionRevision state),
                     sd_openWait = (case st_openWaits state of [] \<Rightarrow> None | w # _ \<Rightarrow> Some w),
                     sd_body = state\<rparr>))"

definition getAgentStatus :: "db \<Rightarrow> string \<Rightarrow> string \<Rightarrow> string option \<Rightarrow> status_detail result" where
  "getAgentStatus d groupId memberId operatorId =
     rbind (requireGroup d groupId) (\<lambda>_. getAgentStatusDetail d groupId memberId operatorId)"

subsection \<open>The event log\<close>

definition append_event ::
  "string \<Rightarrow> string \<Rightarrow> string \<Rightarrow> event_payload \<Rightarrow> timestamp \<Rightarrow> db \<Rightarrow> db" where
  "append_event ty aggregateType aggregateId payload now d =
     d\<lparr>db_events := db_events d @ [\<lparr>ev_sequence = Suc (db_eventSeq d), ev_type = ty,
          ev_aggregateType = aggregateType, ev_aggregateId = aggregateId,
          ev_occurredAt = now, ev_payload = payload\<rparr>],
        db_eventSeq := Suc (db_eventSeq d)\<rparr>"

definition append_wait_event :: "string \<Rightarrow> timestamp \<Rightarrow> db \<Rightarrow> db" where
  "append_wait_event waitId now d =
     (case find_wait waitId (db_waits d) of
        None \<Rightarrow> d
      | Some w \<Rightarrow> append_event ''open-wait.changed'' ''open-wait'' (ow_id w) (Pl_wait w) now d)"

text \<open>The tables an event leaves alone.\<close>

lemma append_event_tables [simp]:
  "db_groups (append_event a b c p t d) = db_groups d"
  "db_orderRevision (append_event a b c p t d) = db_orderRevision d"
  "db_memberships (append_event a b c p t d) = db_memberships d"
  "db_profiles (append_event a b c p t d) = db_profiles d"
  "db_foremen (append_event a b c p t d) = db_foremen d"
  "db_runs (append_event a b c p t d) = db_runs d"
  "db_statuses (append_event a b c p t d) = db_statuses d"
  "db_sessions (append_event a b c p t d) = db_sessions d"
  "db_observations (append_event a b c p t d) = db_observations d"
  "db_actions (append_event a b c p t d) = db_actions d"
  "db_attempts (append_event a b c p t d) = db_attempts d"
  "db_acks (append_event a b c p t d) = db_acks d"
  "db_waits (append_event a b c p t d) = db_waits d"
  "db_completionAcks (append_event a b c p t d) = db_completionAcks d"
  "db_messages (append_event a b c p t d) = db_messages d"
  "db_deliveries (append_event a b c p t d) = db_deliveries d"
  "db_idempotency (append_event a b c p t d) = db_idempotency d"
  "db_http (append_event a b c p t d) = db_http d"
  by (simp_all add: append_event_def)

lemma append_wait_event_tables [simp]:
  "db_memberships (append_wait_event w t d) = db_memberships d"
  "db_runs (append_wait_event w t d) = db_runs d"
  "db_statuses (append_wait_event w t d) = db_statuses d"
  "db_sessions (append_wait_event w t d) = db_sessions d"
  "db_actions (append_wait_event w t d) = db_actions d"
  "db_attempts (append_wait_event w t d) = db_attempts d"
  "db_acks (append_wait_event w t d) = db_acks d"
  "db_waits (append_wait_event w t d) = db_waits d"
  "db_deliveries (append_wait_event w t d) = db_deliveries d"
  by (simp_all add: append_wait_event_def split: option.splits)

definition listEventPage :: "db \<Rightarrow> nat \<Rightarrow> nat \<Rightarrow> nat \<Rightarrow> domain_event list result" where
  "listEventPage d afterSequence throughSequence limit =
     (if limit < 1 then Inl (DomainError ''invalid_event_page_limit'' 400)
      else Inr (take (min limit 1000) (sort_key ev_sequence
             (filter (\<lambda>e. afterSequence < ev_sequence e \<and> ev_sequence e \<le> throughSequence)
                (db_events d)))))"

end
