(* ===== verification/Store_Actions.thy ===== *)
theory Store_Actions
  imports Store_Core
begin

text \<open>
  The action operations of \<open>NanasaStore\<close> (\<open>apps/daemon/src/store.ts\<close>): creating an action with its
  idempotency key, the attempt protocol around a terminal write (begin, submitted, failed,
  abandoned), transitions, crash recovery, the provider's acknowledgements, and the reply protocol
  of open waits.

  Each operation is a function of the clock, of the ids the code draws and of the store, and returns
  the new store with the value, or the error. An error means the SQLite transaction was rolled back
  (or nothing had been written), so the store is the one before.

  A row is stored as its schema returned it, and reading it back parses it again, which changes
  nothing. The one text written without a parse is the error of a failed or a transitioned action:
  the read that follows in the same transaction rejects it when it is out of bounds, so the write
  is modelled with the parse in front.
\<close>

subsection \<open>Row writes\<close>

definition put_action :: "string \<Rightarrow> (agent_action \<Rightarrow> agent_action) \<Rightarrow> db \<Rightarrow> db" where
  "put_action i f d = d\<lparr>db_actions := update_where (\<lambda>a. a_id a = i) f (db_actions d)\<rparr>"

definition put_attempt :: "string \<Rightarrow> (action_attempt \<Rightarrow> action_attempt) \<Rightarrow> db \<Rightarrow> db" where
  "put_attempt i f d = d\<lparr>db_attempts := update_where (\<lambda>t. at_id t = i) f (db_attempts d)\<rparr>"

definition put_wait :: "string \<Rightarrow> (open_wait \<Rightarrow> open_wait) \<Rightarrow> db \<Rightarrow> db" where
  "put_wait i f d = d\<lparr>db_waits := update_where (\<lambda>w. ow_id w = i) f (db_waits d)\<rparr>"

definition put_session :: "string \<Rightarrow> (reporter_session \<Rightarrow> reporter_session) \<Rightarrow> db \<Rightarrow> db" where
  "put_session i f d = d\<lparr>db_sessions := update_where (\<lambda>s. rs_id s = i) f (db_sessions d)\<rparr>"

lemmas row_writes = put_action_def put_attempt_def put_wait_def put_session_def

definition awaiting_submission :: "action_state \<Rightarrow> bool" where
  "awaiting_submission s \<longleftrightarrow> s = As_created \<or> s = As_deferred"

definition terminal_action_state :: "action_state \<Rightarrow> bool" where
  "terminal_action_state s \<longleftrightarrow>
     s \<in> {As_completed, As_settled_unverified, As_failed, As_stalled, As_timed_out,
          As_cancelled, As_expired, As_superseded, As_rejected}"

definition acknowledgeable :: "action_state \<Rightarrow> bool" where
  "acknowledgeable s \<longleftrightarrow> s \<in> {As_submitted, As_accepted, As_started, As_blocked}"

lemma action_state_cases:
  "awaiting_submission s \<or> acknowledgeable s \<or> terminal_action_state s"
  by (cases s) (simp_all add: awaiting_submission_def acknowledgeable_def terminal_action_state_def)

lemma action_state_disjoint:
  "terminal_action_state s \<Longrightarrow> \<not> awaiting_submission s \<and> \<not> acknowledgeable s"
  "acknowledgeable s \<Longrightarrow> \<not> awaiting_submission s"
  by (auto simp: awaiting_submission_def acknowledgeable_def terminal_action_state_def)

subsection \<open>Creation\<close>

text \<open>
  \<open>find_idempotent\<close> is the lookup by group and idempotency key; \<open>insertable_action\<close> the keys and
  references the \<open>actions\<close> table enforces on a new row.
\<close>

definition find_idempotent :: "string \<Rightarrow> string \<Rightarrow> agent_action list \<Rightarrow> agent_action option" where
  "find_idempotent groupId key =
     find_where (\<lambda>a. tg_groupId (a_target a) = groupId \<and> a_idempotencyKey a = key)"

definition insertable_action :: "db \<Rightarrow> agent_action \<Rightarrow> bool" where
  "insertable_action d a \<longleftrightarrow>
     find_action (a_id a) (db_actions d) = None \<and>
     find_where (\<lambda>g. g_id g = tg_groupId (a_target a)) (db_groups d) \<noteq> None \<and>
     find_run (tg_runId (a_target a)) (db_runs d) \<noteq> None \<and>
     find_where (\<lambda>s. rs_id s = tg_reporterSessionId (a_target a)) (db_sessions d) \<noteq> None \<and>
     (case a_messageId a of None \<Rightarrow> True
      | Some m \<Rightarrow> find_where (\<lambda>r. msg_id r = m) (db_messages d) \<noteq> None) \<and>
     (case a_replyToActionId a of None \<Rightarrow> True
      | Some r \<Rightarrow> find_action r (db_actions d) \<noteq> None)"

definition createAgentAction ::
  "timestamp \<Rightarrow> agent_action \<Rightarrow> db \<Rightarrow> (db \<times> agent_action) result" where
  "createAgentAction now action d =
     rbind (parse_agent_action action) (\<lambda>parsed.
       case find_idempotent (tg_groupId (a_target parsed)) (a_idempotencyKey parsed) (db_actions d) of
         Some existing \<Rightarrow>
           if a_requestDigest existing \<noteq> a_requestDigest parsed
           then Inl (DomainError ''action_idempotency_conflict'' 409)
           else Inr (d, existing)
       | None \<Rightarrow>
           if \<not> insertable_action d parsed then Inl ConstraintError else
           Inr (append_event ''agent-action.created'' ''agent-action'' (a_id parsed)
                  (Pl_action_created (tg_groupId (a_target parsed)) (tg_memberId (a_target parsed))
                     (a_state parsed)) now
                  (d\<lparr>db_actions := db_actions d @ [parsed]\<rparr>), parsed))"

subsection \<open>Attempts\<close>

definition target_authoritative ::
  "agent_action \<Rightarrow> action_attempt \<Rightarrow> run option \<Rightarrow> reporter_session option \<Rightarrow> status_detail \<Rightarrow> bool" where
  "target_authoritative action parsed run reporter status \<longleftrightarrow>
     awaiting_submission (a_state action) \<and>
     map_option r_id run = Some (tg_runId (a_target action)) \<and>
     map_option r_generation run = Some (tg_generation (a_target action)) \<and>
     at_runId parsed = tg_runId (a_target action) \<and>
     at_generation parsed = tg_generation (a_target action) \<and>
     at_daemonEpoch parsed = tg_daemonEpoch (a_target action) \<and>
     at_reporterSessionId parsed = tg_reporterSessionId (a_target action) \<and>
     at_reporterId parsed = tg_reporterId (a_target action) \<and>
     at_reporterEpoch parsed = tg_reporterEpoch (a_target action) \<and>
     map_option rs_id reporter = Some (tg_reporterSessionId (a_target action)) \<and>
     map_option rs_reporterEpoch reporter = Some (tg_reporterEpoch (a_target action)) \<and>
     (case run of None \<Rightarrow> False | Some r \<Rightarrow> r_terminal r = Some (at_terminalBinding parsed)) \<and>
     at_baselineStatusRevision parsed = st_statusRevision (sd_body status) \<and>
     at_baselineCompletionRevision parsed = st_completionRevision (sd_body status)"

definition insertable_attempt :: "db \<Rightarrow> action_attempt \<Rightarrow> bool" where
  "insertable_attempt d t \<longleftrightarrow>
     find_attempt (at_id t) (db_attempts d) = None \<and>
     find_where (\<lambda>u. at_actionId u = at_actionId t \<and> at_attempt u = at_attempt t)
       (db_attempts d) = None"

definition beginAgentActionAttempt ::
  "timestamp \<Rightarrow> action_attempt \<Rightarrow> db \<Rightarrow> (db \<times> action_attempt) result" where
  "beginAgentActionAttempt now attempt d =
     rbind (parse_action_attempt attempt) (\<lambda>parsed.
     rbind (getAgentAction d (at_actionId parsed)) (\<lambda>action.
       let run = getActiveRun d (tg_groupId (a_target action)) (tg_memberId (a_target action));
           reporter = getCurrentReporterSession d (tg_runId (a_target action))
                        (tg_generation (a_target action))
       in rbind (getAgentStatus d (tg_groupId (a_target action)) (tg_memberId (a_target action)) None)
            (\<lambda>status.
          if \<not> target_authoritative action parsed run reporter status
          then Inl (DomainError ''agent_action_target_replaced'' 409)
          else if list_ex (\<lambda>t. at_state t = At_submitting) (listActionAttempts d (a_id action))
          then Inl (DomainError ''agent_action_ambiguous_attempt'' 409)
          else if \<not> insertable_attempt d parsed then Inl ConstraintError
          else Inr (append_event ''agent-action.attempt-started'' ''agent-action''
                      (at_actionId parsed) (Pl_attempt (at_id parsed) (at_state parsed)) now
                      (d\<lparr>db_attempts := db_attempts d @ [parsed]\<rparr>), parsed))))"

definition leased_attempt :: "db \<Rightarrow> string \<Rightarrow> string \<Rightarrow> string \<Rightarrow> action_attempt result" where
  "leased_attempt d actionId attemptId leaseOwner =
     (case find_where (\<lambda>t. at_id t = attemptId \<and> at_actionId t = actionId) (db_attempts d) of
        None \<Rightarrow> Inl (DomainError ''agent_action_attempt_fenced'' 409)
      | Some attempt \<Rightarrow>
          if at_state attempt \<noteq> At_submitting \<or> at_leaseOwner attempt \<noteq> leaseOwner
          then Inl (DomainError ''agent_action_attempt_fenced'' 409) else Inr attempt)"

definition markAgentActionSubmitted ::
  "timestamp \<Rightarrow> string \<Rightarrow> string \<Rightarrow> string \<Rightarrow> db \<Rightarrow> (db \<times> agent_action) result" where
  "markAgentActionSubmitted now actionId attemptId leaseOwner d =
     rbind (leased_attempt d actionId attemptId leaseOwner) (\<lambda>attempt.
     rbind (getAgentAction d actionId) (\<lambda>action.
       if \<not> awaiting_submission (a_state action)
       then Inl (DomainError ''agent_action_state_changed'' 409) else
       (case getActiveRun d (tg_groupId (a_target action)) (tg_memberId (a_target action)) of
          None \<Rightarrow> Inl (DomainError ''agent_action_target_replaced'' 409)
        | Some run \<Rightarrow>
            if r_id run \<noteq> at_runId attempt \<or> r_generation run \<noteq> at_generation attempt
               \<or> r_terminal run \<noteq> Some (at_terminalBinding attempt)
            then Inl (DomainError ''agent_action_target_replaced'' 409) else
            let d1 = put_attempt attemptId
                       (\<lambda>t. t\<lparr>at_state := At_submitted, at_submittedAt := Some now,
                              at_updatedAt := now\<rparr>) d;
                d2 = put_action actionId (\<lambda>a. a\<lparr>a_state := As_submitted, a_updatedAt := now\<rparr>) d1
            in rbind (getAgentAction d2 actionId) (\<lambda>result.
                 Inr (append_event ''agent-action.submitted'' ''agent-action'' actionId
                        (Pl_action_submitted attemptId) now d2, result)))))"

text \<open>The action and attempt state a failed attempt is given: one of the four the code allows.\<close>

datatype attempt_failure = Fl_failed | Fl_stalled | Fl_superseded | Fl_rejected

fun failure_attempt_state :: "attempt_failure \<Rightarrow> attempt_state" where
  "failure_attempt_state Fl_failed = At_failed"
| "failure_attempt_state Fl_stalled = At_stalled"
| "failure_attempt_state Fl_superseded = At_superseded"
| "failure_attempt_state Fl_rejected = At_rejected"

fun failure_action_state :: "attempt_failure \<Rightarrow> action_state" where
  "failure_action_state Fl_failed = As_failed"
| "failure_action_state Fl_stalled = As_stalled"
| "failure_action_state Fl_superseded = As_superseded"
| "failure_action_state Fl_rejected = As_rejected"

definition failAgentActionAttempt ::
  "timestamp \<Rightarrow> string \<Rightarrow> string \<Rightarrow> string \<Rightarrow> attempt_failure \<Rightarrow> action_error \<Rightarrow> db \<Rightarrow>
   (db \<times> agent_action) result" where
  "failAgentActionAttempt now actionId attemptId leaseOwner failure err d =
     rbind (leased_attempt d actionId attemptId leaseOwner) (\<lambda>attempt.
     rbind (parse_action_error err) (\<lambda>stored.
       let d1 = put_attempt attemptId
                  (\<lambda>t. t\<lparr>at_state := failure_attempt_state failure,
                         at_failureCode := Some (ae_code err), at_updatedAt := now\<rparr>) d;
           d2 = put_action actionId
                  (\<lambda>a. a\<lparr>a_state := failure_action_state failure, a_error := Some stored,
                         a_updatedAt := now\<rparr>) d1
       in rbind (getAgentAction d2 actionId) (\<lambda>result.
            Inr (append_event (''agent-action.'' @ action_state_name (failure_action_state failure))
                   ''agent-action'' actionId
                   (Pl_action_failed attemptId (failure_action_state failure) err) now d2, result))))"

definition abandonAgentActionAttempt ::
  "timestamp \<Rightarrow> string \<Rightarrow> string \<Rightarrow> string \<Rightarrow> string \<Rightarrow> db \<Rightarrow> (db \<times> agent_action) result" where
  "abandonAgentActionAttempt now actionId attemptId leaseOwner code d =
     (let d1 = d\<lparr>db_attempts := update_where
                  (\<lambda>t. at_id t = attemptId \<and> at_actionId t = actionId \<and>
                       at_state t = At_submitting \<and> at_leaseOwner t = leaseOwner)
                  (\<lambda>t. t\<lparr>at_state := At_superseded, at_failureCode := Some code,
                         at_updatedAt := now\<rparr>) (db_attempts d)\<rparr>
      in rbind (getAgentAction d1 actionId) (\<lambda>result. Inr (d1, result)))"


subsection \<open>Transitions\<close>

record transition_options =
  to_error :: "action_error option"
  to_result :: "string option"
  to_acceptedProviderTurnId :: "string option"
  to_acceptedProviderRequestId :: "string option"

definition no_options :: transition_options where
  "no_options = \<lparr>to_error = None, to_result = None, to_acceptedProviderTurnId = None,
     to_acceptedProviderRequestId = None\<rparr>"

definition with_error :: "string \<Rightarrow> string \<Rightarrow> transition_options" where
  "with_error code message =
     no_options\<lparr>to_error := Some \<lparr>ae_code = code, ae_message = message, ae_retryable = False\<rparr>\<rparr>"

text \<open>SQL \<open>COALESCE(?, column)\<close>.\<close>

definition coalesce :: "'a option \<Rightarrow> 'a option \<Rightarrow> 'a option" where
  "coalesce v old = (case v of None \<Rightarrow> old | Some _ \<Rightarrow> v)"

definition transitionAgentAction ::
  "timestamp \<Rightarrow> string \<Rightarrow> action_state list \<Rightarrow> action_state \<Rightarrow> transition_options \<Rightarrow> db \<Rightarrow>
   (db \<times> agent_action) result" where
  "transitionAgentAction now actionId expectedStates state options d =
     rbind (getAgentAction d actionId) (\<lambda>current.
       if a_state current \<notin> set expectedStates
       then Inl (DomainError ''agent_action_state_conflict'' 409) else
       rbind (parse_opt parse_action_error (to_error options)) (\<lambda>err.
       rbind (parse_opt parse_identifier
                (coalesce (to_acceptedProviderTurnId options) (a_acceptedProviderTurnId current)))
         (\<lambda>turnId.
       rbind (parse_opt parse_identifier
                (coalesce (to_acceptedProviderRequestId options) (a_acceptedProviderRequestId current)))
         (\<lambda>requestId.
         let d1 = d\<lparr>db_actions := update_where
                    (\<lambda>a. a_id a = actionId \<and> a_state a = a_state current)
                    (\<lambda>a. a\<lparr>a_state := state, a_error := err, a_result := to_result options,
                           a_acceptedProviderTurnId := turnId,
                           a_acceptedProviderRequestId := requestId, a_updatedAt := now\<rparr>)
                    (db_actions d)\<rparr>
         in rbind (getAgentAction d1 actionId) (\<lambda>result.
              Inr (append_event (''agent-action.'' @ action_state_name state) ''agent-action''
                     actionId (Pl_action_state state) now d1, result))))))"

text \<open>
  Crash recovery: every action still waiting for submission whose attempt's lease has run out may
  have reached the provider, so it settles unverified. The list of ids is read first and each is
  transitioned in turn; the first error ends the loop, with what was transitioned before it kept.
\<close>

definition ambiguous_actions :: "timestamp \<Rightarrow> db \<Rightarrow> string list" where
  "ambiguous_actions now d =
     map a_id (filter (\<lambda>a. awaiting_submission (a_state a) \<and>
        list_ex (\<lambda>t. at_actionId t = a_id a \<and> at_state t = At_submitting \<and>
                     at_leaseExpiresAt t \<le> now) (db_attempts d)) (db_actions d))"

definition crash_window_options :: transition_options where
  "crash_window_options = with_error ''submission_crash_window''
     ''Submission may have reached the provider before durable confirmation''"

fun recover_each :: "timestamp \<Rightarrow> string list \<Rightarrow> db \<Rightarrow> db \<times> agent_action list result" where
  "recover_each now [] d = (d, Inr [])"
| "recover_each now (i # is) d =
     (case transitionAgentAction now i [As_created, As_deferred] As_settled_unverified
             crash_window_options d of
        Inl e \<Rightarrow> (d, Inl e)
      | Inr (d', a) \<Rightarrow> (case recover_each now is d' of
            (d'', Inl e) \<Rightarrow> (d'', Inl e)
          | (d'', Inr as) \<Rightarrow> (d'', Inr (a # as))))"

definition recoverAmbiguousActionAttempts :: "timestamp \<Rightarrow> db \<Rightarrow> db \<times> agent_action list result" where
  "recoverAmbiguousActionAttempts now d = recover_each now (ambiguous_actions now d) d"

subsection \<open>Acknowledgements\<close>

fun ack_state :: "ack_kind \<Rightarrow> action_state" where
  "ack_state Ack_accepted = As_accepted"
| "ack_state Ack_started = As_started"
| "ack_state Ack_blocked = As_blocked"
| "ack_state Ack_completed = As_completed"
| "ack_state Ack_settled_unverified = As_settled_unverified"
| "ack_state Ack_failed = As_failed"
| "ack_state Ack_cancelled = As_cancelled"

definition ack_current ::
  "agent_action \<Rightarrow> action_attempt option \<Rightarrow> reporter_session option \<Rightarrow> action_ack \<Rightarrow> bool" where
  "ack_current action attempt reporter parsed \<longleftrightarrow>
     map_option at_state attempt = Some At_submitted \<and>
     acknowledgeable (a_state action) \<and>
     ack_runId parsed = tg_runId (a_target action) \<and>
     ack_generation parsed = tg_generation (a_target action) \<and>
     ack_reporterSessionId parsed = tg_reporterSessionId (a_target action) \<and>
     ack_reporterId parsed = tg_reporterId (a_target action) \<and>
     ack_reporterEpoch parsed = tg_reporterEpoch (a_target action) \<and>
     (case reporter of None \<Rightarrow> False
      | Some s \<Rightarrow> rs_id s = ack_reporterSessionId parsed \<and>
                  rs_reporterEpoch s = ack_reporterEpoch parsed \<and>
                  rs_sourceSequence s < ack_sourceSequence parsed) \<and>
     (tg_nativeSessionId (a_target action) \<noteq> None \<longrightarrow>
        ack_nativeSessionId parsed = tg_nativeSessionId (a_target action))"

definition insertable_ack :: "db \<Rightarrow> action_ack \<Rightarrow> bool" where
  "insertable_ack d k \<longleftrightarrow>
     find_where (\<lambda>r. ack_id r = ack_id k) (db_acks d) = None \<and>
     find_where (\<lambda>r. ack_reporterSessionId r = ack_reporterSessionId k \<and>
                     ack_sourceSequence r = ack_sourceSequence k) (db_acks d) = None"

definition provider_failed_error :: action_error where
  "provider_failed_error =
     \<lparr>ae_code = ''provider_failed'', ae_message = ''Provider reported failure'', ae_retryable = False\<rparr>"

definition acknowledged_action :: "action_ack \<Rightarrow> agent_action \<Rightarrow> agent_action" where
  "acknowledged_action k a = a\<lparr>
     a_state := ack_state (ack_kind k),
     a_acceptedProviderTurnId :=
       (if ack_kind k = Ack_accepted then ack_providerTurnId k else a_acceptedProviderTurnId a),
     a_acceptedProviderRequestId :=
       (if ack_kind k = Ack_accepted then ack_providerRequestId k else a_acceptedProviderRequestId a),
     a_result := (if ack_kind k = Ack_completed \<or> ack_kind k = Ack_settled_unverified
                  then Some (ack_data k) else a_result a),
     a_error := (if ack_kind k = Ack_failed then Some provider_failed_error else a_error a),
     a_updatedAt := ack_acknowledgedAt k\<rparr>"

definition ack_kind_name :: "ack_kind \<Rightarrow> string" where
  "ack_kind_name k = action_state_name (ack_state k)"

definition recordAgentActionAcknowledgement ::
  "timestamp \<Rightarrow> action_ack \<Rightarrow> db \<Rightarrow> (db \<times> agent_action) result" where
  "recordAgentActionAcknowledgement now acknowledgement d =
     rbind (parse_action_ack acknowledgement) (\<lambda>parsed.
     rbind (getAgentAction d (ack_actionId parsed)) (\<lambda>action.
       let attempt = find_attempt (ack_attemptId parsed) (listActionAttempts d (a_id action));
           reporter = getCurrentReporterSession d (ack_runId parsed) (ack_generation parsed)
       in rbind (getAgentStatus d (tg_groupId (a_target action)) (tg_memberId (a_target action)) None)
            (\<lambda>status.
          if \<not> ack_current action attempt reporter parsed
          then Inl (DomainError ''agent_action_ack_fenced'' 409)
          else if a_acceptedProviderTurnId action \<noteq> None \<and>
                  ack_providerTurnId parsed \<noteq> a_acceptedProviderTurnId action
          then Inl (DomainError ''agent_action_ack_correlation_mismatch'' 409)
          else if ack_kind parsed = Ack_completed \<and>
                  (case attempt of None \<Rightarrow> True
                   | Some t \<Rightarrow> ack_completionRevision parsed \<le> at_baselineCompletionRevision t)
          then Inl (DomainError ''agent_action_completion_revision_stale'' 409)
          else if st_completionRevision (sd_body status) < ack_completionRevision parsed
          then Inl (DomainError ''agent_action_completion_revision_future'' 409)
          else if \<not> insertable_ack d parsed then Inl ConstraintError
          else
            let d1 = d\<lparr>db_acks := db_acks d @ [parsed]\<rparr>;
                d2 = put_session (ack_reporterSessionId parsed)
                       (\<lambda>s. s\<lparr>rs_sourceSequence := ack_sourceSequence parsed\<rparr>) d1;
                d3 = put_action (ack_actionId parsed) (acknowledged_action parsed) d2
            in rbind (getAgentAction d3 (ack_actionId parsed)) (\<lambda>result.
                 Inr (append_event (''agent-action.'' @ ack_kind_name (ack_kind parsed)) ''agent-action''
                        (ack_actionId parsed) (Pl_ack (ack_id parsed) (ack_kind parsed)) now d3,
                      result)))))"

subsection \<open>Replies to open waits\<close>

definition listOpenWaits :: "db \<Rightarrow> string option \<Rightarrow> string option \<Rightarrow> open_wait list" where
  "listOpenWaits d groupId memberId =
     sort_key (\<lambda>w. (ow_openedAt w, ow_id w))
       (filter (\<lambda>w. (case groupId of None \<Rightarrow> True | Some g \<Rightarrow> ow_groupId w = g) \<and>
                    (case memberId of None \<Rightarrow> True | Some m \<Rightarrow> ow_memberId w = m)) (db_waits d))"

record wait_expectation =
  we_runId :: string
  we_generation :: nat
  we_reporterEpoch :: string
  we_statusRevision :: nat

definition wait_current ::
  "open_wait \<Rightarrow> wait_expectation \<Rightarrow> status_detail \<Rightarrow> reporter_session option \<Rightarrow> bool" where
  "wait_current w expected status reporter \<longleftrightarrow>
     ow_state w = Ow_open \<and>
     ow_runId w = we_runId expected \<and>
     ow_generation w = we_generation expected \<and>
     ow_reporterEpoch w = we_reporterEpoch expected \<and>
     sd_runId status = Some (ow_runId w) \<and>
     sd_generation status = Some (ow_generation w) \<and>
     we_statusRevision expected = ow_openedStatusRevision w \<and>
     ow_openedStatusRevision w \<le> st_statusRevision (sd_body status) \<and>
     map_option w_requestId (sd_openWait status) = Some (ow_providerRequestId w) \<and>
     map_option rs_id reporter = Some (ow_reporterSessionId w) \<and>
     map_option rs_reporterEpoch reporter = Some (ow_reporterEpoch w)"

definition beginOpenWaitReply ::
  "timestamp \<Rightarrow> string \<Rightarrow> wait_expectation \<Rightarrow> db \<Rightarrow> (db \<times> open_wait) result" where
  "beginOpenWaitReply now waitId expected d =
     rbind (getOpenWait d waitId) (\<lambda>wt.
     rbind (getAgentStatus d (ow_groupId wt) (ow_memberId wt) None) (\<lambda>status.
       if \<not> wait_current wt expected status
               (getCurrentReporterSession d (ow_runId wt) (ow_generation wt))
       then Inl (DomainError ''open_wait_replaced'' 409)
       else if count_where (\<lambda>w. ow_id w = waitId \<and> ow_state w = Ow_open) (db_waits d) \<noteq> 1
       then Inl (DomainError ''open_wait_replaced'' 409)
       else
         let d1 = d\<lparr>db_waits := update_where (\<lambda>w. ow_id w = waitId \<and> ow_state w = Ow_open)
                    (\<lambda>w. w\<lparr>ow_state := Ow_replying, ow_updatedAt := now\<rparr>) (db_waits d)\<rparr>
         in rbind (getOpenWait d1 waitId) (\<lambda>result.
              Inr (append_wait_event waitId now d1, result))))"

definition resetOpenWaitReply :: "timestamp \<Rightarrow> string \<Rightarrow> db \<Rightarrow> (db \<times> open_wait) result" where
  "resetOpenWaitReply now waitId d =
     (let replying = (\<lambda>w. ow_id w = waitId \<and> ow_state w = Ow_replying);
          d1 = d\<lparr>db_waits := update_where replying
                 (\<lambda>w. w\<lparr>ow_state := Ow_open, ow_updatedAt := now\<rparr>) (db_waits d)\<rparr>
      in rbind (getOpenWait d1 waitId) (\<lambda>result.
           Inr (if count_where replying (db_waits d) = 1 then append_wait_event waitId now d1 else d1,
                result)))"

subsection \<open>Retention\<close>

text \<open>
  Deleting an action cascades to its attempts, acknowledgements and waits.
\<close>

definition delete_action :: "string \<Rightarrow> db \<Rightarrow> db" where
  "delete_action i d = d\<lparr>
     db_actions := delete_where (\<lambda>a. a_id a = i)
       (update_where (\<lambda>a. a_replyToActionId a = Some i) (\<lambda>a. a\<lparr>a_replyToActionId := None\<rparr>)
          (db_actions d)),
     db_attempts := delete_where (\<lambda>t. at_actionId t = i) (db_attempts d),
     db_acks := delete_where (\<lambda>k. ack_actionId k = i) (db_acks d),
     db_waits := delete_where (\<lambda>w. ow_actionId w = Some i) (db_waits d)\<rparr>"

definition prunable_actions :: "db \<Rightarrow> string \<Rightarrow> agent_action list" where
  "prunable_actions d groupId =
     rev (sort_key (\<lambda>a. (a_updatedAt a, a_id a)) (filter (\<lambda>a. tg_groupId (a_target a) = groupId \<and>
        terminal_action_state (a_state a) \<and>
        \<not> list_ex (\<lambda>w. ow_actionId w = Some (a_id a) \<and> (ow_state w = Ow_open \<or> ow_state w = Ow_replying))
            (db_waits d)) (db_actions d)))"

definition pruneAgentActions :: "string \<Rightarrow> int \<Rightarrow> db \<Rightarrow> (db \<times> nat) result" where
  "pruneAgentActions groupId retain d =
     (if retain < 0 then Inl (DomainError ''invalid_action_retention'' 400) else
      let victims = map a_id (drop (nat retain) (prunable_actions d groupId))
      in Inr (foldl (\<lambda>d i. delete_action i d) d victims, length victims))"

end
