(* ===== verification/Store_Status.thy ===== *)
theory Store_Status
  imports Store_Actions
begin

text \<open>
  The status operations of \<open>NanasaStore\<close>: reporter sessions (registration, binding to the foreground
  process, lease refresh, revocation), ingestion of reporter events, screen classifications,
  progress reports and process observations, each of which runs the reducer on the run's state,
  keeps the open waits of the run, trims the observation log and appends the domain events.

  The code reads the clock several times inside one synchronous transaction; the model reads it
  once, as the argument \<open>now\<close>.
\<close>

subsection \<open>Reporter sessions\<close>

definition parse_reporter_session :: "reporter_session \<Rightarrow> reporter_session result" where
  "parse_reporter_session s =
     rbind (parse_identifier (rs_id s)) (\<lambda>id'.
     rbind (parse_integration_id (rs_providerId s)) (\<lambda>providerId.
     rbind (parse_adapter_id (rs_adapterId s)) (\<lambda>adapterId.
     rbind (parse_identifier (rs_reporterId s)) (\<lambda>reporterId.
     rbind (parse_text 32 (rs_reporterVersion s)) (\<lambda>reporterVersion.
     rbind (parse_identifier (rs_runId s)) (\<lambda>runId.
     rbind (parse_identifier (rs_reporterEpoch s)) (\<lambda>reporterEpoch.
     rbind (parse_opt (parse_text 4096) (rs_nativeSessionId s)) (\<lambda>nativeSessionId.
       guarded (rs_protocolVersion s = 2 \<and> 0 < rs_generation s \<and>
                (case rs_processFingerprint s of None \<Rightarrow> True | Some f \<Rightarrow> is_digest f))
         (Inr (s\<lparr>rs_id := id', rs_providerId := providerId, rs_adapterId := adapterId,
            rs_reporterId := reporterId, rs_reporterVersion := reporterVersion,
            rs_runId := runId, rs_reporterEpoch := reporterEpoch,
            rs_nativeSessionId := nativeSessionId\<rparr>))))))))))"

definition close_session :: "timestamp \<Rightarrow> reporter_session \<Rightarrow> reporter_session" where
  "close_session now s = s\<lparr>
     rs_revokedAt := Some (case rs_revokedAt s of None \<Rightarrow> now | Some t \<Rightarrow> t),
     rs_closedAt := Some (case rs_closedAt s of None \<Rightarrow> now | Some t \<Rightarrow> t)\<rparr>"

definition insertable_session :: "db \<Rightarrow> reporter_session \<Rightarrow> bool" where
  "insertable_session d s \<longleftrightarrow>
     find_run (rs_runId s) (db_runs d) \<noteq> None \<and>
     find_where (\<lambda>r. rs_id r = rs_id s) (db_sessions d) = None \<and>
     find_where (\<lambda>r. rs_runId r = rs_runId s \<and> rs_generation r = rs_generation s \<and>
                     rs_reporterEpoch r = rs_reporterEpoch s) (db_sessions d) = None"

definition registerReporterSession ::
  "reporter_session \<Rightarrow> db \<Rightarrow> (db \<times> reporter_session) result" where
  "registerReporterSession session d =
     rbind (parse_reporter_session session) (\<lambda>parsed.
       let d1 = d\<lparr>db_sessions := update_where
                  (\<lambda>s. rs_runId s = rs_runId parsed \<and> rs_generation s = rs_generation parsed \<and>
                       rs_reporterEpoch s \<noteq> rs_reporterEpoch parsed \<and> rs_closedAt s = None)
                  (close_session (rs_openedAt parsed)) (db_sessions d)\<rparr>
       in if \<not> insertable_session d1 parsed then Inl ConstraintError
          else Inr (d1\<lparr>db_sessions := db_sessions d1 @ [parsed]\<rparr>, parsed))"

definition wait_pending :: "open_wait \<Rightarrow> bool" where
  "wait_pending w \<longleftrightarrow> ow_state w = Ow_open \<or> ow_state w = Ow_replying"

definition supersede_waits :: "(open_wait \<Rightarrow> bool) \<Rightarrow> timestamp \<Rightarrow> db \<Rightarrow> db" where
  "supersede_waits p now d = d\<lparr>db_waits :=
     update_where (\<lambda>w. p w \<and> wait_pending w)
       (\<lambda>w. w\<lparr>ow_state := Ow_superseded, ow_updatedAt := now\<rparr>) (db_waits d)\<rparr>"

definition wait_of_run :: "string \<Rightarrow> nat \<Rightarrow> open_wait \<Rightarrow> bool" where
  "wait_of_run runId generation w \<longleftrightarrow> ow_runId w = runId \<and> ow_generation w = generation"

definition revokeReporterAuthority :: "timestamp \<Rightarrow> string \<Rightarrow> nat \<Rightarrow> db \<Rightarrow> db" where
  "revokeReporterAuthority now runId generation d =
     (let d1 = d\<lparr>db_sessions := update_where
                 (\<lambda>s. rs_runId s = runId \<and> rs_generation s = generation \<and> rs_closedAt s = None)
                 (close_session now) (db_sessions d)\<rparr>;
          waits = sort (map ow_id (filter (\<lambda>w. wait_of_run runId generation w \<and> wait_pending w)
                    (db_waits d1)));
          d2 = supersede_waits (wait_of_run runId generation) now d1
      in foldl (\<lambda>d i. append_wait_event i now d) d2 waits)"

text \<open>
  Binding the session to the foreground process. Another fingerprint is accepted only when the last
  observation shows the same kernel process (an exec keeps pid and start identity); otherwise the
  authority is revoked, which stays committed, and the call fails.
\<close>

datatype process_ref = Fingerprint string | Identity process_identity

fun ref_fingerprint :: "process_ref \<Rightarrow> string" where
  "ref_fingerprint (Fingerprint f) = f"
| "ref_fingerprint (Identity p) = pi_processFingerprint p"

definition last_process :: "db \<Rightarrow> string \<Rightarrow> nat \<Rightarrow> process_identity option" where
  "last_process d runId generation =
     Option.bind (max_by ro_sequence (filter (\<lambda>o'. ro_runId o' = runId \<and> ro_generation o' = generation \<and>
        ro_source o' = ''process'' \<and> ro_kind o' = ''process.alive'' \<and> ro_process o' \<noteq> None)
        (db_observations d))) ro_process"

definition same_kernel_process :: "process_ref \<Rightarrow> process_identity option \<Rightarrow> bool" where
  "same_kernel_process r previous =
     (case (r, previous) of
        (Identity p, Some q) \<Rightarrow>
          pi_foregroundPgid q = pi_foregroundPgid p \<and> pi_leaderPid q = pi_leaderPid p \<and>
          pi_pidStartIdentity q = pi_pidStartIdentity p
      | _ \<Rightarrow> False)"

definition bindReporterProcess ::
  "timestamp \<Rightarrow> string \<Rightarrow> nat \<Rightarrow> process_ref \<Rightarrow> db \<Rightarrow> db \<times> unit result" where
  "bindReporterProcess now runId generation process d =
     (case getCurrentReporterSession d runId generation of
        None \<Rightarrow> (d, Inr ())
      | Some session \<Rightarrow>
          if rs_processFingerprint session \<noteq> None \<and>
             rs_processFingerprint session \<noteq> Some (ref_fingerprint process) \<and>
             \<not> same_kernel_process process (last_process d runId generation)
          then (revokeReporterAuthority now runId generation d,
                Inl (DomainError ''status_process_fingerprint_changed'' 409))
          else (d\<lparr>db_sessions := update_where
                  (\<lambda>s. rs_id s = rs_id session \<and> rs_revokedAt s = None \<and> rs_closedAt s = None)
                  (\<lambda>s. s\<lparr>rs_processFingerprint := Some (ref_fingerprint process)\<rparr>) (db_sessions d)\<rparr>,
                Inr ()))"

definition refreshReporterLease ::
  "string \<Rightarrow> nat \<Rightarrow> timestamp \<Rightarrow> db \<Rightarrow> db \<times> unit result" where
  "refreshReporterLease runId generation leaseExpiresAt d =
     (case getCurrentReporterSession d runId generation of
        None \<Rightarrow> (d, Inr ())
      | Some session \<Rightarrow>
          let d1 = d\<lparr>db_sessions := update_where
                     (\<lambda>s. rs_id s = rs_id session \<and> rs_revokedAt s = None \<and> rs_closedAt s = None)
                     (\<lambda>s. s\<lparr>rs_leaseExpiresAt := leaseExpiresAt\<rparr>) (db_sessions d)\<rparr>
          in case getRuntimeRun d1 runId of
               Inl e \<Rightarrow> (d1, Inl e)
             | Inr run \<Rightarrow>
                 let state = agentStatusState d1 run
                 in (if st_reporterEpoch state = Some (rs_reporterEpoch session)
                     then upsertAgentStatusState run (state\<lparr>st_reporterLease := Some leaseExpiresAt\<rparr>) d1
                     else d1, Inr ()))"

subsection \<open>Observations and status events\<close>

definition source_name :: "agent_status_source \<Rightarrow> string" where
  "source_name s =
     (case s of Src_claude_code \<Rightarrow> ''claude-code'' | Src_copilot \<Rightarrow> ''copilot''
      | Src_pi \<Rightarrow> ''pi'' | Src_opencode \<Rightarrow> ''opencode'')"

definition observation_known :: "db \<Rightarrow> run \<Rightarrow> string \<Rightarrow> bool" where
  "observation_known d run eventId \<longleftrightarrow>
     list_ex (\<lambda>o'. ro_runId o' = r_id run \<and> ro_generation o' = r_generation run \<and>
                   ro_eventId o' = eventId) (db_observations d)"

definition insertAgentStatusEvent ::
  "run \<Rightarrow> string \<Rightarrow> string \<Rightarrow> string \<Rightarrow> timestamp option \<Rightarrow> timestamp \<Rightarrow> process_identity option \<Rightarrow>
   db \<Rightarrow> db result" where
  "insertAgentStatusEvent run eventId source kind occurredAt observedAt process d =
     (if observation_known d run eventId then Inl ConstraintError else
      Inr (d\<lparr>db_observations := db_observations d @
               [\<lparr>ro_sequence = Suc (db_observationSeq d), ro_eventId = eventId, ro_runId = r_id run,
                 ro_generation = r_generation run, ro_source = source, ro_kind = kind,
                 ro_sourceOccurredAt = occurredAt, ro_observedAt = observedAt,
                 ro_process = process\<rparr>],
             db_observationSeq := Suc (db_observationSeq d)\<rparr>))"

definition trimAgentStatusEvents :: "string \<Rightarrow> nat \<Rightarrow> db \<Rightarrow> db" where
  "trimAgentStatusEvents runId generation d =
     (let mine = (\<lambda>o'. ro_runId o' = runId \<and> ro_generation o' = generation);
          kept = last_n 256 (sort (map ro_sequence (filter mine (db_observations d))))
      in d\<lparr>db_observations := delete_where (\<lambda>o'. mine o' \<and> ro_sequence o' \<notin> set kept)
             (db_observations d)\<rparr>)"

text \<open>What a run's status is to its caller: the member's detail, or a foreman's reducer state.\<close>

datatype runtime_status = MemberStatus status_detail | ForemanStatus reducer_state

definition statusForRuntime :: "db \<Rightarrow> run \<Rightarrow> runtime_status result" where
  "statusForRuntime d run =
     (case r_owner run of
        ForemanRun _ \<Rightarrow> Inr (ForemanStatus (agentStatusState d run))
      | MemberRun g m \<Rightarrow> rbind (getAgentStatusDetail d g m None) (\<lambda>s. Inr (MemberStatus s)))"

definition status_material :: "reducer_state \<Rightarrow> reducer_state \<Rightarrow> bool" where
  "status_material previous next \<longleftrightarrow>
     st_state previous \<noteq> st_state next \<or> st_phase previous \<noteq> st_phase next \<or>
     st_attention previous \<noteq> st_attention next \<or> st_outcome previous \<noteq> st_outcome next \<or>
     st_confidence previous \<noteq> st_confidence next \<or>
     st_authorityKind previous \<noteq> st_authorityKind next \<or>
     st_authorityId previous \<noteq> st_authorityId next \<or>
     st_staleAuthority previous \<noteq> st_staleAuthority next \<or>
     st_interactiveReady previous \<noteq> st_interactiveReady next \<or>
     st_lastProgressSummary previous \<noteq> st_lastProgressSummary next \<or>
     st_blocker previous \<noteq> st_blocker next"

definition attention_raised :: "reducer_state \<Rightarrow> reducer_state \<Rightarrow> bool" where
  "attention_raised previous next \<longleftrightarrow>
     st_attention previous \<noteq> st_attention next \<and>
     st_attention next \<in> {At_input_required, At_decision_required, At_progress_stale, At_process_failed}"

definition appendAgentStatusDomainEvents ::
  "run \<Rightarrow> reducer_state \<Rightarrow> reducer_state \<Rightarrow> timestamp \<Rightarrow> db \<Rightarrow> db result" where
  "appendAgentStatusDomainEvents run previous next now d =
     (if \<not> status_material previous next then Inr d else
      case r_owner run of
        ForemanRun f \<Rightarrow>
          Inr (append_event ''foreman.status-changed'' ''run'' (r_id run)
                 (Pl_foreman_status f (r_id run) (r_generation run) (st_statusRevision next)) now d)
      | MemberRun g m \<Rightarrow>
          rbind (getAgentStatusDetail d g m None) (\<lambda>detail.
            let payload = Pl_status (r_id run) (st_statusRevision (sd_body detail)) (sd_state detail)
                            (sd_attention detail);
                d1 = append_event ''agent-status.changed'' ''run'' (r_id run) payload now d
            in Inr (if attention_raised previous next
                    then append_event ''agent-status.attention-required'' ''run'' (r_id run) payload now d1
                    else d1)))"


subsection \<open>Who may report on a run\<close>

datatype status_identity =
  MemberIdentity string string string nat
    \<comment> \<open>groupId, memberId, runId, generation\<close>
| ForemanIdentity string string nat nat
    \<comment> \<open>foremanId, runId, generation, authorityRevision\<close>

definition status_reportable :: "run \<Rightarrow> bool" where
  "status_reportable run \<longleftrightarrow>
     r_desiredState run = Ds_running \<and> (r_status run = Rs_starting \<or> r_status run = Rs_running)"

definition requireCurrentAgentStatusRun ::
  "db \<Rightarrow> string \<Rightarrow> string \<Rightarrow> string \<Rightarrow> nat \<Rightarrow> run result" where
  "requireCurrentAgentStatusRun d groupId memberId runId generation =
     rbind (getRun d runId) (\<lambda>run.
       if r_owner run = MemberRun groupId memberId \<and> r_generation run = generation \<and>
          status_reportable run \<and>
          map_option m_active (getMembershipRow d groupId memberId) = Some True \<and>
          map_option r_id (getActiveRun d groupId memberId) = Some (r_id run) \<and>
          map_option r_generation (getActiveRun d groupId memberId) = Some (r_generation run)
       then Inr run else Inl (DomainError ''status_generation_fenced'' 409))"

definition requireCurrentForemanStatusRun ::
  "db \<Rightarrow> string \<Rightarrow> string \<Rightarrow> nat \<Rightarrow> nat \<Rightarrow> run result" where
  "requireCurrentForemanStatusRun d foremanId runId generation authorityRevision =
     rbind (getForeman d foremanId) (\<lambda>actor.
       case getActiveForemanRun d (f_id actor) of
         None \<Rightarrow> Inl (DomainError ''status_generation_fenced'' 409)
       | Some run \<Rightarrow>
           if f_enabled actor \<and> f_authorityRevision actor = authorityRevision \<and>
              r_id run = runId \<and> r_generation run = generation \<and> status_reportable run
           then Inr run else Inl (DomainError ''status_generation_fenced'' 409))"

fun requireCurrentStatusRun :: "db \<Rightarrow> status_identity \<Rightarrow> run result" where
  "requireCurrentStatusRun d (MemberIdentity g m r n) = requireCurrentAgentStatusRun d g m r n"
| "requireCurrentStatusRun d (ForemanIdentity f r n a) = requireCurrentForemanStatusRun d f r n a"

subsection \<open>Open waits of a run\<close>

definition action_matches_session :: "agent_action \<Rightarrow> run \<Rightarrow> reporter_session \<Rightarrow> bool" where
  "action_matches_session a run session \<longleftrightarrow>
     tg_runId (a_target a) = r_id run \<and> tg_generation (a_target a) = r_generation run \<and>
     tg_reporterSessionId (a_target a) = rs_id session \<and>
     tg_reporterEpoch (a_target a) = rs_reporterEpoch session"

definition wait_key :: "run \<Rightarrow> reporter_session \<Rightarrow> string \<Rightarrow> open_wait \<Rightarrow> bool" where
  "wait_key run session requestId w \<longleftrightarrow>
     ow_runId w = r_id run \<and> ow_generation w = r_generation run \<and>
     ow_reporterEpoch w = rs_reporterEpoch session \<and> ow_providerRequestId w = requestId"

definition opened_wait ::
  "timestamp \<Rightarrow> string \<Rightarrow> string \<Rightarrow> string \<Rightarrow> run \<Rightarrow> reporter_session \<Rightarrow> event_input \<Rightarrow> string \<Rightarrow>
   wait_kind \<Rightarrow> string \<Rightarrow> reply_channel \<Rightarrow> nat \<Rightarrow> open_wait" where
  "opened_wait now waitId groupId memberId run session input requestId kind summary channel revision =
     \<lparr>ow_id = waitId, ow_actionId = in_actionId input, ow_groupId = groupId, ow_memberId = memberId,
      ow_runId = r_id run, ow_generation = r_generation run, ow_reporterSessionId = rs_id session,
      ow_reporterId = rs_reporterId session, ow_reporterEpoch = rs_reporterEpoch session,
      ow_nativeSessionId = coalesce (in_nativeSessionId input) (rs_nativeSessionId session),
      ow_providerRequestId = requestId, ow_kind = kind, ow_summary = summary,
      ow_replyChannel = channel, ow_openedStatusRevision = revision, ow_state = Ow_open,
      ow_expiresAt = None, ow_openedAt = now, ow_updatedAt = now, ow_answeredAt = None\<rparr>"

definition same_wait :: "open_wait \<Rightarrow> open_wait \<Rightarrow> bool" where
  "same_wait existing w \<longleftrightarrow>
     ow_actionId existing = ow_actionId w \<and> ow_reporterSessionId existing = ow_reporterSessionId w \<and>
     ow_reporterId existing = ow_reporterId w \<and> ow_nativeSessionId existing = ow_nativeSessionId w \<and>
     ow_kind existing = ow_kind w \<and> ow_summary existing = ow_summary w \<and>
     ow_replyChannel existing = ow_replyChannel w"

definition open_wait_reported ::
  "timestamp \<Rightarrow> string \<Rightarrow> string \<Rightarrow> string \<Rightarrow> run \<Rightarrow> reporter_session \<Rightarrow> event_input \<Rightarrow> nat \<Rightarrow> db \<Rightarrow> db result" where
  "open_wait_reported now waitId groupId memberId run session input revision d =
     (case (in_requestId input, d_waitKind (in_data input), d_summary (in_data input),
            d_replyChannel (in_data input)) of
        (Some requestId, Some kind, Some summary, Some channel) \<Rightarrow>
          rbind (case in_actionId input of
                   None \<Rightarrow> Inr ()
                 | Some i \<Rightarrow> rbind (getAgentAction d i) (\<lambda>a.
                     if action_matches_session a run session then Inr ()
                     else Inl (DomainError ''open_wait_action_mismatch'' 409)))
            (\<lambda>_.
              let w = opened_wait now waitId groupId memberId run session input requestId kind
                        summary channel revision
              in case find_where (wait_key run session requestId) (db_waits d) of
                   Some existing \<Rightarrow>
                     if same_wait existing w then Inr d
                     else Inl (DomainError ''open_wait_identity_mismatch'' 409)
                 | None \<Rightarrow>
                     if find_wait waitId (db_waits d) \<noteq> None then Inl ConstraintError else
                     Inr (append_wait_event waitId now (d\<lparr>db_waits := db_waits d @ [w]\<rparr>)))
      | _ \<Rightarrow> Inl (DomainError ''open_wait_report_invalid'' 400))"

definition close_wait_reported ::
  "timestamp \<Rightarrow> run \<Rightarrow> reporter_session \<Rightarrow> event_input \<Rightarrow> db \<Rightarrow> db result" where
  "close_wait_reported now run session input d =
     (case in_requestId input of
        None \<Rightarrow> Inl (DomainError ''open_wait_report_invalid'' 400)
      | Some requestId \<Rightarrow>
          let closing = (\<lambda>w. wait_key run session requestId w \<and> wait_pending w);
              d1 = d\<lparr>db_waits := update_where closing
                     (\<lambda>w. w\<lparr>ow_state := Ow_answered, ow_answeredAt := Some now, ow_updatedAt := now\<rparr>)
                     (db_waits d)\<rparr>
          in Inr (case find_where closing (db_waits d) of
                    None \<Rightarrow> d1
                  | Some row \<Rightarrow> if count_where closing (db_waits d) = 1
                                then append_wait_event (ow_id row) now d1 else d1))"

definition applyOpenWaitReporterEvent ::
  "timestamp \<Rightarrow> string \<Rightarrow> run \<Rightarrow> reporter_session \<Rightarrow> event_input \<Rightarrow> reducer_state \<Rightarrow> db \<Rightarrow> db result" where
  "applyOpenWaitReporterEvent now waitId run session input state d =
     (case r_owner run of
        ForemanRun _ \<Rightarrow> Inr d
      | MemberRun g m \<Rightarrow>
          if in_event input = Ev_wait_opened
          then open_wait_reported now waitId g m run session input (st_statusRevision state) d
          else if in_event input = Ev_wait_closed then close_wait_reported now run session input d
          else Inr d)"

subsection \<open>Ingestion\<close>

definition REPORTER_LEASE_MS :: int where "REPORTER_LEASE_MS = 45000"

definition reporter_identity_ok ::
  "run \<Rightarrow> agent_profile \<Rightarrow> reporter_session \<Rightarrow> event_input \<Rightarrow> bool" where
  "reporter_identity_ok run profile session input \<longleftrightarrow>
     in_runId input = r_id run \<and> in_generation input = r_generation run \<and>
     in_providerId input = ap_agentType profile \<and> in_providerId input = rs_providerId session \<and>
     in_adapterId input = rs_adapterId session \<and> in_reporterId input = rs_reporterId session \<and>
     in_source input = rs_source session \<and>
     in_protocolVersion input = rs_protocolVersion session \<and>
     in_reporterVersion input = rs_reporterVersion session \<and>
     in_reporterEpoch input = rs_reporterEpoch session"

definition process_verified :: "timestamp \<Rightarrow> reporter_session \<Rightarrow> reducer_state \<Rightarrow> bool" where
  "process_verified now session state \<longleftrightarrow>
     st_processState state = Ps_present \<and>
     st_processFingerprint state = rs_processFingerprint session \<and>
     (case st_transportLease state of None \<Rightarrow> False | Some l \<Rightarrow> now \<le> l)"

text \<open>The checks, in the order the code makes them.\<close>

definition admit_event ::
  "timestamp \<Rightarrow> run \<Rightarrow> agent_profile \<Rightarrow> event_input \<Rightarrow> db \<Rightarrow> reporter_session result" where
  "admit_event now run profile input d =
     (case getCurrentReporterSession d (r_id run) (r_generation run) of
        None \<Rightarrow> Inl (DomainError ''status_reporter_identity_fenced'' 409)
      | Some session \<Rightarrow>
          if \<not> reporter_identity_ok run profile session input
          then Inl (DomainError ''status_reporter_identity_fenced'' 409)
          else if rs_processFingerprint session = None
          then Inl (DomainError ''status_process_unverified'' 409)
          else if \<not> process_verified now session (agentStatusState d run)
          then Inl (DomainError ''status_process_unverified'' 409)
          else if in_sourceSequence input \<le> rs_sourceSequence session
          then Inl (DomainError ''status_sequence_reordered'' 409)
          else if rs_nativeSessionId session \<noteq> None \<and>
                  in_nativeSessionId input \<noteq> rs_nativeSessionId session
          then Inl (DomainError ''status_native_session_fenced'' 409)
          else if observation_known d run (in_eventId input)
          then Inl (DomainError ''status_event_duplicate'' 409)
          else Inr session)"

definition advance_session ::
  "event_input \<Rightarrow> timestamp \<Rightarrow> reporter_session \<Rightarrow> reporter_session" where
  "advance_session input leaseExpiresAt s = s\<lparr>
     rs_sourceSequence := in_sourceSequence input,
     rs_nativeSessionId := coalesce (rs_nativeSessionId s) (in_nativeSessionId input),
     rs_leaseExpiresAt := leaseExpiresAt\<rparr>"

definition session_authority :: "reporter_session \<Rightarrow> timestamp \<Rightarrow> reporter_authority" where
  "session_authority session leaseExpiresAt =
     \<lparr>ra_sessionId = rs_id session, ra_reporterEpoch = rs_reporterEpoch session,
      ra_readinessCoverage = rs_readinessCoverage session, ra_leaseExpiresAt = leaseExpiresAt\<rparr>"

definition ingestRuntimeStatusEvent ::
  "timestamp \<Rightarrow> string \<Rightarrow> status_identity \<Rightarrow> event_input \<Rightarrow> db \<Rightarrow> (db \<times> runtime_status) result" where
  "ingestRuntimeStatusEvent now waitId identity event d =
     rbind (parse_event_input event) (\<lambda>input.
     rbind (requireCurrentStatusRun d identity) (\<lambda>run.
     rbind (requireAgentProfile d (r_agentProfileId run)) (\<lambda>profile.
     rbind (admit_event now run profile input d) (\<lambda>session.
       let leaseExpiresAt = now + REPORTER_LEASE_MS;
           d1 = put_session (rs_id session) (advance_session input leaseExpiresAt) d;
           previous = agentStatusState d1 run;
           next = reduceAgentStatus previous
                    (ReporterEvent now input (session_authority session leaseExpiresAt))
       in rbind (insertAgentStatusEvent run (in_eventId input) (source_name (in_source input))
                   (event_kind_name (in_event input)) (in_occurredAt input) now None d1) (\<lambda>d2.
          rbind (applyOpenWaitReporterEvent now waitId run session input next d2) (\<lambda>d3.
            let d4 = trimAgentStatusEvents (r_id run) (r_generation run)
                       (upsertAgentStatusState run next d3)
            in rbind (statusForRuntime d4 run) (\<lambda>status.
               rbind (appendAgentStatusDomainEvents run previous next now d4) (\<lambda>d5.
                 Inr (d5, status)))))))))"

subsection \<open>Screens, progress and processes\<close>

definition parse_screen :: "screen_observation \<Rightarrow> screen_observation result" where
  "parse_screen s =
     rbind (parse_identifier (so_runId s)) (\<lambda>runId.
     rbind (parse_text 64 (so_paneId s)) (\<lambda>paneId.
     rbind (parse_identifier (so_manifestId s)) (\<lambda>manifestId.
     rbind (parse_text 32 (so_manifestVersion s)) (\<lambda>manifestVersion.
     rbind (parse_opt parse_identifier (so_ruleId s)) (\<lambda>ruleId.
       guarded (0 < so_generation s \<and> is_digest (so_captureHash s) \<and> so_rows s \<le> 80 \<and>
                so_bytes s \<le> 65536 \<and> is_digest (so_manifestDigest s) \<and>
                so_confidence s \<noteq> Cf_high)
         (Inr (s\<lparr>so_runId := runId, so_paneId := paneId, so_manifestId := manifestId,
            so_manifestVersion := manifestVersion, so_ruleId := ruleId\<rparr>)))))))"

text \<open>The screen log keeps the last 20 classifications of a run's generation.\<close>

definition insert_screen :: "run \<Rightarrow> screen_observation \<Rightarrow> db \<Rightarrow> db" where
  "insert_screen run screen d =
     (let rows = db_screens d @ [(Suc (db_screenSeq d), screen)];
          mine = (\<lambda>p. so_runId (snd p) = r_id run \<and> so_generation (snd p) = r_generation run);
          kept = last_n 20 (sort (map fst (filter mine rows)))
      in d\<lparr>db_screens := delete_where (\<lambda>p. mine p \<and> fst p \<notin> set kept) rows,
           db_screenSeq := Suc (db_screenSeq d)\<rparr>)"

definition recordScreenObservation ::
  "timestamp \<Rightarrow> string \<Rightarrow> screen_observation \<Rightarrow> db \<Rightarrow> (db \<times> status_detail) result" where
  "recordScreenObservation now runId screen d =
     rbind (parse_screen screen) (\<lambda>parsed.
     rbind (getRun d runId) (\<lambda>run.
       if so_runId parsed \<noteq> r_id run \<or> so_generation parsed \<noteq> r_generation run
       then Inl (DomainError ''status_screen_generation_fenced'' 409) else
       let previous = agentStatusState d run;
           next = reduceAgentStatus previous (ScreenClassified
                    (''screen-'' @ so_captureHash parsed @ ''-'' @ so_manifestDigest parsed)
                    (so_observedAt parsed) parsed);
           d1 = upsertAgentStatusState run next (insert_screen run parsed d)
       in case r_owner run of
            ForemanRun _ \<Rightarrow> Inl (DomainError ''run_not_found'' 404)
          | MemberRun g m \<Rightarrow>
              rbind (getAgentStatusDetail d1 g m None) (\<lambda>status.
              rbind (appendAgentStatusDomainEvents run previous next now d1) (\<lambda>d2.
                Inr (d2, status)))))"

definition reportAgentProgress ::
  "timestamp \<Rightarrow> string \<Rightarrow> string \<Rightarrow> string \<Rightarrow> string \<Rightarrow> nat \<Rightarrow> progress_command \<Rightarrow> db \<Rightarrow>
   (db \<times> status_detail) result" where
  "reportAgentProgress now eventId groupId memberId runId generation report d =
     rbind (parse_progress report) (\<lambda>input.
     rbind (requireCurrentAgentStatusRun d groupId memberId runId generation) (\<lambda>run.
       let d0 = d\<lparr>db_progressReports := db_progressReports d @
                    [(eventId, r_id run, r_generation run, input, now)]\<rparr>;
           previous = agentStatusState d0 run;
           next = reduceAgentStatus previous (ProgressReported eventId now input)
       in rbind (insertAgentStatusEvent run eventId ''status_api'' ''progress.reported'' None now None d0)
            (\<lambda>d1.
              let d2 = trimAgentStatusEvents (r_id run) (r_generation run)
                         (upsertAgentStatusState run next d1)
              in rbind (getAgentStatusDetail d2 groupId memberId None) (\<lambda>status.
                 rbind (appendAgentStatusDomainEvents run previous next now d2) (\<lambda>d3.
                   Inr (d3, status))))))"

fun process_eventId :: "process_observation \<Rightarrow> string" where
  "process_eventId (ProcessAlive e t p i) = e"
| "process_eventId (ProcessIndeterminate e t) = e"
| "process_eventId (ProcessExited e t c s x) = e"
| "process_eventId (ProcessMissing e t) = e"
| "process_eventId (LeaseProbed e t) = e"

fun process_kind :: "process_observation \<Rightarrow> string" where
  "process_kind (ProcessAlive e t p i) = ''process.alive''"
| "process_kind (ProcessIndeterminate e t) = ''process.indeterminate''"
| "process_kind (ProcessExited e t c s x) = ''process.exited''"
| "process_kind (ProcessMissing e t) = ''process.missing''"
| "process_kind (LeaseProbed e t) = ''lease.probed''"

fun process_time :: "process_observation \<Rightarrow> timestamp" where
  "process_time (ProcessAlive e t p i) = t"
| "process_time (ProcessIndeterminate e t) = t"
| "process_time (ProcessExited e t c s x) = t"
| "process_time (ProcessMissing e t) = t"
| "process_time (LeaseProbed e t) = t"

fun process_payload :: "process_observation \<Rightarrow> process_identity option" where
  "process_payload (ProcessAlive e t p i) = p"
| "process_payload _ = None"

definition recordRuntimeProcessStatus ::
  "timestamp \<Rightarrow> string \<Rightarrow> process_observation \<Rightarrow> db \<Rightarrow> (db \<times> runtime_status) result" where
  "recordRuntimeProcessStatus now runId obs d =
     rbind (getRuntimeRun d runId) (\<lambda>run.
       if observation_known d run (process_eventId obs)
       then rbind (statusForRuntime d run) (\<lambda>status. Inr (d, status)) else
       let previous = agentStatusState d run;
           next = reduceAgentStatus previous (ProcessObs obs)
       in rbind (insertAgentStatusEvent run (process_eventId obs) ''process'' (process_kind obs) None
                   (process_time obs) (process_payload obs) d) (\<lambda>d1.
            let d2 = trimAgentStatusEvents (r_id run) (r_generation run)
                       (upsertAgentStatusState run next d1)
            in rbind (statusForRuntime d2 run) (\<lambda>status.
               rbind (appendAgentStatusDomainEvents run previous next now d2) (\<lambda>d3.
                 Inr (d3, status)))))"

definition recordProcessStatus ::
  "timestamp \<Rightarrow> string \<Rightarrow> process_observation \<Rightarrow> db \<Rightarrow> (db \<times> runtime_status) result" where
  "recordProcessStatus now runId obs d =
     rbind (getRun d runId) (\<lambda>_. recordRuntimeProcessStatus now runId obs d)"

end
