(* ===== verification/Store_Runs.thy ===== *)
theory Store_Runs
  imports Store_Status
begin

text \<open>
  The life of a run in \<open>NanasaStore\<close>: creation, the status graph with what a stopped or failed run
  takes with it (its open actions and waits, its reporter's authority), provider metadata, the
  recovery phases and the desired state.

  \<open>updateRuntimeRunStatus\<close> commits three transactions one after the other (the status, the
  revocation, the process observation); an error in a later one leaves the earlier ones committed,
  so it returns the store next to the result.
\<close>

subsection \<open>Creation\<close>

definition parse_optional_text :: "nat \<Rightarrow> string option \<Rightarrow> string option result" where
  "parse_optional_text n = parse_opt (parse_text n)"

fun parse_owner :: "run_owner \<Rightarrow> run_owner result" where
  "parse_owner (MemberRun g m) =
     rbind (parse_identifier g) (\<lambda>g'. rbind (parse_identifier m) (\<lambda>m'. Inr (MemberRun g' m')))"
| "parse_owner (ForemanRun f) = rbind (parse_identifier f) (\<lambda>f'. Inr (ForemanRun f'))"

definition parse_run :: "run \<Rightarrow> run result" where
  "parse_run r =
     rbind (parse_identifier (r_id r)) (\<lambda>id'.
     rbind (parse_owner (r_owner r)) (\<lambda>owner.
     rbind (parse_identifier (r_agentProfileId r)) (\<lambda>profileId.
     rbind (parse_opt parse_identifier (r_checkoutId r)) (\<lambda>checkoutId.
     rbind (parse_optional_text 4096 (r_resolvedWorkingDirectory r)) (\<lambda>directory.
     rbind (parse_optional_text 1000 (r_recoveryReason r)) (\<lambda>recoveryReason.
     rbind (parse_optional_text 256 (r_requestedModel r)) (\<lambda>requestedModel.
     rbind (parse_optional_text 256 (r_effectiveModel r)) (\<lambda>effectiveModel.
     rbind (parse_opt parse_identifier (r_nativeSessionId r)) (\<lambda>nativeSessionId.
     rbind (parse_opt parse_terminal_binding (r_terminal r)) (\<lambda>terminal.
       guarded (0 < r_generation r)
         (Inr (r\<lparr>r_id := id', r_owner := owner, r_agentProfileId := profileId,
            r_checkoutId := checkoutId, r_resolvedWorkingDirectory := directory,
            r_recoveryReason := recoveryReason, r_requestedModel := requestedModel,
            r_effectiveModel := effectiveModel, r_nativeSessionId := nativeSessionId,
            r_terminal := terminal\<rparr>))))))))))))"

definition open_action_state :: "action_state \<Rightarrow> bool" where
  "open_action_state s \<longleftrightarrow>
     s \<in> {As_created, As_deferred, As_submitted, As_accepted, As_started, As_blocked}"

text \<open>\<open>UPDATE actions SET state, error_json, updated_at WHERE p AND state IN (open states)\<close>.\<close>

definition end_actions ::
  "(agent_action \<Rightarrow> bool) \<Rightarrow> action_state \<Rightarrow> string \<Rightarrow> string \<Rightarrow> timestamp \<Rightarrow> db \<Rightarrow> db" where
  "end_actions p state code message now d = d\<lparr>db_actions :=
     update_where (\<lambda>a. p a \<and> open_action_state (a_state a))
       (\<lambda>a. a\<lparr>a_state := state, a_updatedAt := now,
              a_error := Some \<lparr>ae_code = code, ae_message = message, ae_retryable = False\<rparr>\<rparr>)
       (db_actions d)\<rparr>"

definition insertable_run :: "db \<Rightarrow> run \<Rightarrow> bool" where
  "insertable_run d r \<longleftrightarrow>
     find_run (r_id r) (db_runs d) = None \<and>
     find_where (\<lambda>q. r_owner q = r_owner r \<and> r_generation q = r_generation r) (db_runs d) = None \<and>
     find_where (\<lambda>p. ap_id p = r_agentProfileId r) (db_profiles d) \<noteq> None \<and>
     (case r_owner r of
        MemberRun _ _ \<Rightarrow> True
      | ForemanRun f \<Rightarrow> \<not> (active_status (r_status r) \<and>
          list_ex (\<lambda>q. r_owner q = ForemanRun f \<and> active_status (r_status q)) (db_runs d)))"

definition insert_run :: "timestamp \<Rightarrow> run \<Rightarrow> db \<Rightarrow> (db \<times> run) result" where
  "insert_run now input d =
     (if \<not> insertable_run d input then Inl ConstraintError else
      Inr (append_event ''run.created'' ''run'' (r_id input) (Pl_run input) now
             (upsertAgentStatusState input
                (createAgentStatusReducerState (r_id input) (r_generation input) (r_startedAt input))
                (d\<lparr>db_runs := db_runs d @ [input]\<rparr>)), input))"

definition createRuntimeRun :: "timestamp \<Rightarrow> run \<Rightarrow> db \<Rightarrow> (db \<times> run) result" where
  "createRuntimeRun now run d =
     rbind (parse_run run) (\<lambda>input.
       case r_owner input of
         ForemanRun f \<Rightarrow>
           rbind (getForeman d f) (\<lambda>actor.
             if \<not> f_enabled actor \<or> f_agentProfileId actor \<noteq> r_agentProfileId input
             then Inl (DomainError ''foreman_not_enabled'' 409) else insert_run now input d)
       | MemberRun g m \<Rightarrow>
           (case getMembershipRow d g m of
              None \<Rightarrow> Inl (DomainError ''invalid_run_membership'' 409)
            | Some membership \<Rightarrow>
                if \<not> m_active membership \<or> m_agentProfileId membership \<noteq> r_agentProfileId input
                then Inl (DomainError ''invalid_run_membership'' 409) else
                let d1 = end_actions (\<lambda>a. tg_groupId (a_target a) = g \<and> tg_memberId (a_target a) = m \<and>
                              tg_runId (a_target a) \<noteq> r_id input)
                           As_superseded ''run_replaced'' ''The target run was replaced'' now d;
                    d2 = supersede_waits (\<lambda>w. ow_groupId w = g \<and> ow_memberId w = m \<and>
                              ow_runId w \<noteq> r_id input) now d1
                in insert_run now input d2))"

definition next_generation :: "db \<Rightarrow> string \<Rightarrow> nat" where
  "next_generation d profileId =
     Suc (foldr max (map r_generation (filter (\<lambda>r. r_agentProfileId r = profileId) (db_runs d))) 0)"

text \<open>
  \<open>createRunForMembership\<close>: the caller's options, and the run location the store resolves from the
  checkouts (a parameter: git state is outside this model).
\<close>

record run_options =
  ro_recoveryFrom :: "run option"
  ro_launchKind :: "launch_kind option"
  ro_requestedModel :: "string option"
  ro_requestedModelSource :: "model_source option"
  ro_nativeSessionId :: "string option"

definition run_for_membership ::
  "timestamp \<Rightarrow> string \<Rightarrow> (string option \<times> string option) \<Rightarrow> string \<Rightarrow> string \<Rightarrow> membership_row \<Rightarrow> nat \<Rightarrow>
   run_options \<Rightarrow> run" where
  "run_for_membership now runId location groupId memberId membership generation options =
     \<lparr>r_id = runId, r_owner = MemberRun groupId memberId,
      r_agentProfileId = m_agentProfileId membership, r_checkoutId = fst location,
      r_resolvedWorkingDirectory = snd location, r_generation = generation,
      r_status = Rs_starting, r_desiredState = Ds_running,
      r_recoveryPhase = (if ro_recoveryFrom options = None then Rp_idle
        else if ro_launchKind options = Some Lk_resuming then Rp_resuming else Rp_restarting),
      r_recoveryAttempts = (case ro_recoveryFrom options of None \<Rightarrow> 0 | Some r \<Rightarrow> r_recoveryAttempts r),
      r_recoveryNotBefore = Option.bind (ro_recoveryFrom options) r_recoveryNotBefore,
      r_recoveryReason = Option.bind (ro_recoveryFrom options) r_recoveryReason,
      r_launchKind = (case ro_launchKind options of
          Some k \<Rightarrow> k
        | None \<Rightarrow> if ro_recoveryFrom options = None then Lk_fresh else Lk_restarted),
      r_requestedModel = ro_requestedModel options,
      r_requestedModelSource = (case ro_requestedModelSource options of
          None \<Rightarrow> Ms_provider_default | Some s \<Rightarrow> s),
      r_effectiveModel = None, r_nativeSessionId = ro_nativeSessionId options,
      r_recoveryOutcome = None, r_terminal = None, r_startedAt = now, r_stoppedAt = None\<rparr>"

definition createRunForMembership ::
  "timestamp \<Rightarrow> string \<Rightarrow> (membership_row \<Rightarrow> (string option \<times> string option) result) \<Rightarrow>
   string \<Rightarrow> string \<Rightarrow> run_options \<Rightarrow> db \<Rightarrow> (db \<times> run) result" where
  "createRunForMembership now runId resolveRunLocation groupId memberId options d =
     rbind (requireGroup d groupId) (\<lambda>_.
       case getMembershipRow d groupId memberId of
         None \<Rightarrow> Inl (DomainError ''membership_not_active'' 404)
       | Some membership \<Rightarrow>
           if \<not> m_active membership then Inl (DomainError ''membership_not_active'' 404)
           else if getActiveRun d groupId memberId \<noteq> None
           then Inl (DomainError ''run_already_active'' 409) else
           rbind (requireAgentProfile d (m_agentProfileId membership)) (\<lambda>_.
           rbind (resolveRunLocation membership) (\<lambda>location.
             createRuntimeRun now (run_for_membership now runId location groupId memberId membership
               (next_generation d (m_agentProfileId membership)) options) d)))"

subsection \<open>Status\<close>

fun allowed_statuses :: "run_status \<Rightarrow> run_status list" where
  "allowed_statuses Rs_starting = [Rs_starting, Rs_running, Rs_stopping, Rs_failed]"
| "allowed_statuses Rs_running = [Rs_running, Rs_stopping, Rs_stopped, Rs_failed]"
| "allowed_statuses Rs_stopping = [Rs_stopping, Rs_stopped, Rs_failed]"
| "allowed_statuses Rs_stopped = [Rs_stopped]"
| "allowed_statuses Rs_failed = [Rs_failed]"

definition ended_status :: "run_status \<Rightarrow> bool" where
  "ended_status s \<longleftrightarrow> s = Rs_stopped \<or> s = Rs_failed"

definition run_status_name :: "run_status \<Rightarrow> string" where
  "run_status_name s =
     (case s of Rs_starting \<Rightarrow> ''starting'' | Rs_running \<Rightarrow> ''running'' | Rs_stopping \<Rightarrow> ''stopping''
      | Rs_stopped \<Rightarrow> ''stopped'' | Rs_failed \<Rightarrow> ''failed'')"

definition with_status ::
  "timestamp \<Rightarrow> run \<Rightarrow> run_status \<Rightarrow> terminal_binding option \<Rightarrow> string option \<Rightarrow> run \<Rightarrow> run" where
  "with_status now current status terminal reason r =
     (let desired = (if status = Rs_stopping \<or> status = Rs_stopped then Ds_stopped
                     else r_desiredState current)
      in r\<lparr>r_status := status, r_desiredState := desired,
           r_terminal := coalesce terminal (r_terminal current),
           r_stoppedAt := (if ended_status status then Some now else None),
           r_recoveryPhase := (if desired = Ds_stopped then Rp_idle else r_recoveryPhase r),
           r_recoveryNotBefore := (if desired = Ds_stopped then None else r_recoveryNotBefore r),
           r_recoveryReason := (if desired = Ds_stopped
             then Some (case reason of None \<Rightarrow> ''operator_stopped'' | Some x \<Rightarrow> x)
             else r_recoveryReason r)\<rparr>)"

definition put_run :: "string \<Rightarrow> (run \<Rightarrow> run) \<Rightarrow> db \<Rightarrow> db" where
  "put_run i f d = d\<lparr>db_runs := update_where (\<lambda>r. r_id r = i) f (db_runs d)\<rparr>"

definition end_run_work :: "run_status \<Rightarrow> timestamp \<Rightarrow> string \<Rightarrow> db \<Rightarrow> db" where
  "end_run_work status now runId d =
     (if \<not> ended_status status then d else
      supersede_waits (\<lambda>w. ow_runId w = runId) now
        (end_actions (\<lambda>a. tg_runId (a_target a) = runId)
           (if status = Rs_stopped then As_superseded else As_failed)
           (if status = Rs_stopped then ''run_stopped'' else ''run_failed'')
           (if status = Rs_stopped then ''The target run stopped'' else ''The target run failed'')
           now d))"

definition change_run_status ::
  "timestamp \<Rightarrow> run \<Rightarrow> run_status \<Rightarrow> terminal_binding option \<Rightarrow> string option \<Rightarrow> db \<Rightarrow> (db \<times> run) result" where
  "change_run_status now current status terminal reason d =
     (let d1 = end_run_work status now (r_id current)
                 (put_run (r_id current) (with_status now current status terminal reason) d)
      in rbind (getRuntimeRun d1 (r_id current)) (\<lambda>updated.
         rbind (parse_run updated) (\<lambda>_.
           Inr (append_event ''run.status-changed'' ''run'' (r_id current)
                  (Pl_run_status updated (r_status current) reason) now d1, updated))))"

definition alive_observation :: "timestamp \<Rightarrow> run \<Rightarrow> process_observation" where
  "alive_observation now run =
     ProcessAlive (''process-alive-'' @ show_nat (r_generation run)) now None False"

definition exited_observation :: "timestamp \<Rightarrow> run \<Rightarrow> run_status \<Rightarrow> process_observation" where
  "exited_observation now run status =
     ProcessExited (''process-exited-'' @ show_nat (r_generation run) @ ''-'' @ run_status_name status)
       now None None (status = Rs_stopped)"

definition after_process :: "run \<Rightarrow> db \<Rightarrow> (db \<times> runtime_status) result \<Rightarrow> db \<times> run result" where
  "after_process result d r = (case r of Inl e \<Rightarrow> (d, Inl e) | Inr (d', _) \<Rightarrow> (d', Inr result))"

definition updateRuntimeRunStatus ::
  "timestamp \<Rightarrow> string \<Rightarrow> run_status \<Rightarrow> terminal_binding option \<Rightarrow> string option \<Rightarrow> db \<Rightarrow>
   db \<times> run result" where
  "updateRuntimeRunStatus now runId status terminal reason d =
     (case getRuntimeRun d runId of
        Inl e \<Rightarrow> (d, Inl e)
      | Inr current \<Rightarrow>
          if status \<notin> set (allowed_statuses (r_status current))
          then (d, Inl (DomainError ''invalid_run_transition'' 409)) else
          case change_run_status now current status terminal reason d of
            Inl e \<Rightarrow> (d, Inl e)
          | Inr (d1, result) \<Rightarrow>
              (case r_owner current of
                 ForemanRun _ \<Rightarrow>
                   (if ended_status status
                    then revokeReporterAuthority now runId (r_generation current) d1 else d1, Inr result)
               | MemberRun _ _ \<Rightarrow>
                   if status = Rs_running
                   then after_process result d1
                          (recordProcessStatus now runId (alive_observation now current) d1)
                   else if ended_status status
                   then let d2 = revokeReporterAuthority now runId (r_generation current) d1
                        in after_process result d2
                             (recordProcessStatus now runId (exited_observation now current status) d2)
                   else (d1, Inr result)))"

definition updateRunStatus ::
  "timestamp \<Rightarrow> string \<Rightarrow> run_status \<Rightarrow> terminal_binding option \<Rightarrow> string option \<Rightarrow> db \<Rightarrow>
   db \<times> run result" where
  "updateRunStatus now runId status terminal reason d =
     (case getRun d runId of
        Inl e \<Rightarrow> (d, Inl e)
      | Inr _ \<Rightarrow> updateRuntimeRunStatus now runId status terminal reason d)"

subsection \<open>Provider metadata, recovery and the desired state\<close>

record run_metadata =
  rm_launchKind :: "launch_kind option"
  rm_requestedModel :: "string option"
  rm_requestedModelSource :: "model_source option"
  rm_effectiveModel :: "string option"
  rm_nativeSessionId :: "string option"
  rm_recoveryOutcome :: "recovery_outcome option"

definition with_metadata :: "run_metadata \<Rightarrow> run \<Rightarrow> run" where
  "with_metadata m r = r\<lparr>
     r_launchKind := (case rm_launchKind m of None \<Rightarrow> r_launchKind r | Some k \<Rightarrow> k),
     r_requestedModel := coalesce (rm_requestedModel m) (r_requestedModel r),
     r_requestedModelSource := (case rm_requestedModelSource m of
         None \<Rightarrow> r_requestedModelSource r | Some s \<Rightarrow> s),
     r_effectiveModel := coalesce (rm_effectiveModel m) (r_effectiveModel r),
     r_nativeSessionId := coalesce (rm_nativeSessionId m) (r_nativeSessionId r),
     r_recoveryOutcome := coalesce (rm_recoveryOutcome m) (r_recoveryOutcome r)\<rparr>"

text \<open>The update runs outside a transaction: a value the run schema rejects on the read stays written.\<close>

definition updateRuntimeRunProviderMetadata ::
  "string \<Rightarrow> run_metadata \<Rightarrow> db \<Rightarrow> db \<times> run result" where
  "updateRuntimeRunProviderMetadata runId m d =
     (case getRuntimeRun d runId of
        Inl e \<Rightarrow> (d, Inl e)
      | Inr current \<Rightarrow>
          let d1 = put_run runId (with_metadata m) d
          in (d1, rbind (getRuntimeRun d1 runId) parse_run))"

definition desired_generation :: "string \<Rightarrow> nat \<Rightarrow> run \<Rightarrow> bool" where
  "desired_generation runId generation r \<longleftrightarrow>
     r_id r = runId \<and> r_generation r = generation \<and> r_desiredState r = Ds_running"

definition transitionRunRecovery ::
  "timestamp \<Rightarrow> string \<Rightarrow> nat \<Rightarrow> recovery_phase \<Rightarrow> bool \<Rightarrow> timestamp option \<Rightarrow> string option \<Rightarrow> db \<Rightarrow>
   (db \<times> run) result" where
  "transitionRunRecovery now runId generation phase incrementAttempt notBefore reason d =
     rbind (getRun d runId) (\<lambda>current.
       if r_generation current \<noteq> generation \<or> r_desiredState current \<noteq> Ds_running
       then Inl (DomainError ''recovery_generation_fenced'' 409) else
       let attempts = r_recoveryAttempts current + (if incrementAttempt then 1 else 0);
           next = (if phase = Rp_recovered then None
                   else coalesce notBefore (r_recoveryNotBefore current));
           why = coalesce reason (r_recoveryReason current)
       in if count_where (desired_generation runId generation) (db_runs d) \<noteq> 1
          then Inl (DomainError ''recovery_generation_fenced'' 409) else
          let d1 = d\<lparr>db_runs := update_where (desired_generation runId generation)
                     (\<lambda>r. r\<lparr>r_recoveryPhase := phase, r_recoveryAttempts := attempts,
                            r_recoveryNotBefore := next, r_recoveryReason := why\<rparr>) (db_runs d)\<rparr>
          in rbind (getRun d1 runId) (\<lambda>run.
             rbind (parse_run run) (\<lambda>_.
               Inr (append_event ''run.recovery-changed'' ''run'' runId
                      (Pl_recovery run (r_recoveryPhase current) reason) now d1, run))))"

definition stopDesiredRun ::
  "timestamp \<Rightarrow> string \<Rightarrow> nat \<Rightarrow> string \<Rightarrow> db \<Rightarrow> (db \<times> run) result" where
  "stopDesiredRun now runId generation reason d =
     rbind (getRun d runId) (\<lambda>current.
       if r_generation current \<noteq> generation
       then Inl (DomainError ''recovery_generation_fenced'' 409)
       else if r_desiredState current = Ds_stopped then Inr (d, current)
       else if count_where (desired_generation runId generation) (db_runs d) \<noteq> 1
       then Inl (DomainError ''recovery_generation_fenced'' 409) else
       let d1 = d\<lparr>db_runs := update_where (desired_generation runId generation)
                  (\<lambda>r. r\<lparr>r_desiredState := Ds_stopped, r_recoveryPhase := Rp_idle,
                         r_recoveryNotBefore := None, r_recoveryReason := Some reason\<rparr>) (db_runs d)\<rparr>
       in rbind (getRun d1 runId) (\<lambda>run.
          rbind (parse_run run) (\<lambda>_.
            Inr (append_event ''run.desired-state-changed'' ''run'' runId
                   (Pl_desired run (r_desiredState current) reason) now d1, run))))"

end
