(* ===== verification/Action_Services.thy ===== *)
theory Action_Services
  imports Store_Runs
begin

text \<open>
  The services over the store's actions (\<open>apps/daemon/src/actions/\<close>): the peer capability policy, the
  creation and cancellation of actions, acknowledgements by the target's own reporter, waiting for
  an action, and the scheduler that turns a created action into terminal input.

  The scheduler's \<open>#consider\<close> is asynchronous. Each stretch between two awaits runs without
  interleaving, so each is one function here, and between two of them any other operation may
  change the store: \<open>consider_begin\<close> up to the queueing of the terminal write, \<open>dispatch_admitted\<close>
  before the process is observed, \<open>dispatch_verified\<close> between the observation and the write,
  \<open>commit_submission\<close> after the write, and \<open>submission_failed\<close>, the catch block.
\<close>

subsection \<open>Peer capability policy\<close>

record create_command =
  cc_kind :: action_kind
  cc_groupId :: string
  cc_memberId :: string
  cc_prompt :: "string option"
  cc_messageId :: "string option"
  cc_conversationId :: "string option"
  cc_replyToActionId :: "string option"
  cc_causationId :: "string option"
  cc_allowWorking :: bool
  cc_expectedRunId :: "string option"
  cc_expectedGeneration :: "nat option"
  cc_expectedStatusRevision :: "nat option"
  cc_queueTimeoutMs :: int
  cc_acceptanceTimeoutMs :: int
  cc_completionTimeoutMs :: int

text \<open>
  The four optional authorizers a policy is built with. Each is a check that may refuse; an absent
  one is \<open>None\<close>.
\<close>

type_synonym create_authorizer = "principal \<Rightarrow> create_command \<Rightarrow> unit result"

record peer_policy =
  pp_goal :: "create_authorizer option"
  pp_delegation :: "create_authorizer option"
  pp_delegationWait :: "(principal \<Rightarrow> unit result) option"
  pp_conversation :: "create_authorizer option"

definition default_policy :: peer_policy where
  "default_policy = \<lparr>pp_goal = None, pp_delegation = None, pp_delegationWait = None,
     pp_conversation = None\<rparr>"

definition forbidden :: "unit result" where
  "forbidden = Inl (DomainError ''peer_capability_forbidden'' 403)"

definition assertCreate :: "peer_policy \<Rightarrow> principal \<Rightarrow> create_command \<Rightarrow> unit result" where
  "assertCreate policy who command =
     rbind (case pp_delegation policy of None \<Rightarrow> Inr () | Some f \<Rightarrow> f who command) (\<lambda>_.
       case who of
         Operator _ \<Rightarrow> Inr ()
       | ForemanConversation _ _ _ _ _ \<Rightarrow>
           (case pp_conversation policy of
              None \<Rightarrow> forbidden
            | Some f \<Rightarrow> if cc_kind command \<noteq> Akd_prompt \<or> cc_allowWorking command then forbidden
                        else f who command)
       | Foreman _ _ _ _ _ _ _ \<Rightarrow>
           (case pp_goal policy of
              None \<Rightarrow> forbidden
            | Some f \<Rightarrow> if cc_kind command \<noteq> Akd_prompt \<or> cc_allowWorking command then forbidden
                        else f who command)
       | Agent groupId memberId _ _ \<Rightarrow>
           if groupId \<noteq> cc_groupId command then forbidden
           else if memberId = cc_memberId command then forbidden
           else if cc_allowWorking command then forbidden
           else Inr ())"

definition assertRead :: "principal \<Rightarrow> agent_action \<Rightarrow> unit result" where
  "assertRead who action =
     (case who of
        Operator _ \<Rightarrow> Inr ()
      | ForemanConversation f _ _ _ c \<Rightarrow>
          (case a_principal action of
             ForemanConversation f' _ _ _ c' \<Rightarrow> if f' = f \<and> c' = c then Inr () else forbidden
           | _ \<Rightarrow> forbidden)
      | Foreman f _ _ _ goal delegation _ \<Rightarrow>
          (case a_principal action of
             Foreman f' _ _ _ goal' delegation' _ \<Rightarrow>
               if f' = f \<and> goal' = goal \<and> delegation' = delegation then Inr () else forbidden
           | _ \<Rightarrow> forbidden)
      | Agent _ _ runId generation \<Rightarrow>
          (case a_principal action of
             Agent _ _ runId' generation' \<Rightarrow>
               if runId' = runId \<and> generation' = generation then Inr () else forbidden
           | _ \<Rightarrow> forbidden))"

definition assertCancel :: "principal \<Rightarrow> agent_action \<Rightarrow> unit result" where
  "assertCancel = assertRead"

definition assertOwnWaits :: "principal \<Rightarrow> string \<Rightarrow> string \<Rightarrow> unit result" where
  "assertOwnWaits who groupId memberId =
     (case who of
        Operator _ \<Rightarrow> Inr ()
      | Agent g m _ _ \<Rightarrow> if g \<noteq> groupId \<or> m \<noteq> memberId then forbidden else Inr ()
      | _ \<Rightarrow> forbidden)"

datatype wait_reply =
  Rp_answer string | Rp_allow_once | Rp_deny | Rp_approve_plan | Rp_reject_plan | Rp_select string

definition assertReply :: "peer_policy \<Rightarrow> principal \<Rightarrow> open_wait \<Rightarrow> wait_reply \<Rightarrow> unit result" where
  "assertReply policy who w reply =
     (case who of
        Operator _ \<Rightarrow> Inr ()
      | _ \<Rightarrow>
          rbind (case pp_delegationWait policy of None \<Rightarrow> Inr () | Some f \<Rightarrow> f who) (\<lambda>_.
            case who of
              Agent g m _ _ \<Rightarrow>
                if g \<noteq> ow_groupId w \<or> m \<noteq> ow_memberId w then forbidden
                else if ow_kind w = Wk_permission \<or> ow_kind w = Wk_plan_approval then forbidden
                else (case reply of Rp_answer _ \<Rightarrow> Inr () | Rp_select _ \<Rightarrow> Inr () | _ \<Rightarrow> forbidden)
            | _ \<Rightarrow> forbidden))"

definition assertNoPeerTerminalOrRunControl :: "principal \<Rightarrow> unit result" where
  "assertNoPeerTerminalOrRunControl who =
     (case who of Operator _ \<Rightarrow> Inr () | _ \<Rightarrow> forbidden)"

subsection \<open>Creating and cancelling actions\<close>

definition timeout_in :: "int \<Rightarrow> int \<Rightarrow> int \<Rightarrow> bool" where
  "timeout_in lo hi v \<longleftrightarrow> lo \<le> v \<and> v \<le> hi"

definition parse_create_command :: "create_command \<Rightarrow> create_command result" where
  "parse_create_command c =
     rbind (parse_identifier (cc_groupId c)) (\<lambda>groupId.
     rbind (parse_identifier (cc_memberId c)) (\<lambda>memberId.
     rbind (parse_opt (parse_text MAX_MESSAGE_TEXT_BYTES) (cc_prompt c)) (\<lambda>prompt.
     rbind (parse_opt parse_identifier (cc_messageId c)) (\<lambda>messageId.
     rbind (parse_opt parse_identifier (cc_conversationId c)) (\<lambda>conversationId.
     rbind (parse_opt parse_identifier (cc_replyToActionId c)) (\<lambda>replyToActionId.
     rbind (parse_opt parse_identifier (cc_causationId c)) (\<lambda>causationId.
     rbind (parse_opt parse_identifier (cc_expectedRunId c)) (\<lambda>expectedRunId.
       guarded
         ((cc_kind c = Akd_prompt \<or> cc_kind c = Akd_wait) \<and>
          cc_expectedGeneration c \<noteq> Some 0 \<and>
          timeout_in 1000 86400000 (cc_queueTimeoutMs c) \<and>
          timeout_in 1000 86400000 (cc_acceptanceTimeoutMs c) \<and>
          timeout_in 1000 604800000 (cc_completionTimeoutMs c) \<and>
          (cc_kind c = Akd_prompt \<longrightarrow> prompt \<noteq> None))
         (Inr (c\<lparr>cc_groupId := groupId, cc_memberId := memberId, cc_prompt := prompt,
            cc_messageId := messageId, cc_conversationId := conversationId,
            cc_replyToActionId := replyToActionId, cc_causationId := causationId,
            cc_expectedRunId := expectedRunId\<rparr>))))))))))"

definition getMessage :: "db \<Rightarrow> string \<Rightarrow> message result" where
  "getMessage d messageId =
     require (DomainError ''message_not_found'' 404) (find_where (\<lambda>m. msg_id m = messageId) (db_messages d))"

definition linked_conversation :: "db \<Rightarrow> create_command \<Rightarrow> string option result" where
  "linked_conversation d input =
     (case cc_messageId input of
        None \<Rightarrow> Inr (cc_conversationId input)
      | Some i \<Rightarrow> rbind (getMessage d i) (\<lambda>m.
          if msg_groupId m \<noteq> cc_groupId input
          then Inl (DomainError ''agent_action_message_mismatch'' 409)
          else if cc_conversationId input \<noteq> None \<and> cc_conversationId input \<noteq> Some (msg_conversationId m)
          then Inl (DomainError ''agent_action_conversation_mismatch'' 409)
          else Inr (Some (msg_conversationId m))))"

definition check_parent :: "db \<Rightarrow> create_command \<Rightarrow> unit result" where
  "check_parent d input =
     (case cc_replyToActionId input of
        None \<Rightarrow> Inr ()
      | Some i \<Rightarrow> rbind (getAgentAction d i) (\<lambda>parent.
          if tg_groupId (a_target parent) \<noteq> cc_groupId input
          then Inl (DomainError ''agent_action_reply_mismatch'' 409) else Inr ()))"

definition new_action ::
  "timestamp \<Rightarrow> string \<Rightarrow> nat \<Rightarrow> string \<Rightarrow> principal \<Rightarrow> create_command \<Rightarrow> string \<Rightarrow> string option \<Rightarrow>
   run \<Rightarrow> reporter_session \<Rightarrow> status_detail \<Rightarrow> agent_action" where
  "new_action now actionId daemonEpoch digest who input key conversationId run reporter status =
     \<lparr>a_id = actionId, a_kind = cc_kind input, a_principal = who,
      a_target = \<lparr>tg_groupId = cc_groupId input, tg_memberId = cc_memberId input,
        tg_runId = r_id run, tg_generation = r_generation run, tg_daemonEpoch = daemonEpoch,
        tg_reporterSessionId = rs_id reporter, tg_reporterId = rs_reporterId reporter,
        tg_reporterEpoch = rs_reporterEpoch reporter,
        tg_nativeSessionId = rs_nativeSessionId reporter,
        tg_baselineStatusRevision = st_statusRevision (sd_body status),
        tg_baselineCompletionRevision = st_completionRevision (sd_body status)\<rparr>,
      a_messageId = cc_messageId input, a_conversationId = conversationId,
      a_replyToActionId = cc_replyToActionId input, a_causationId = cc_causationId input,
      a_idempotencyKey = key, a_requestDigest = digest, a_prompt = cc_prompt input,
      a_allowWorking = cc_allowWorking input, a_state = As_created,
      a_queueDeadlineAt = now + cc_queueTimeoutMs input,
      a_acceptanceDeadlineAt = Some (now + cc_queueTimeoutMs input + cc_acceptanceTimeoutMs input),
      a_completionDeadlineAt = Some (now + cc_queueTimeoutMs input + cc_completionTimeoutMs input),
      a_acceptedProviderTurnId = None, a_acceptedProviderRequestId = None, a_result = None,
      a_error = None, a_createdAt = now, a_updatedAt = now\<rparr>"

text \<open>The run and the reporter a new action is bound to, with the checks in the code's order.\<close>

definition create_target :: "db \<Rightarrow> create_command \<Rightarrow> (run \<times> reporter_session) result" where
  "create_target d input =
     (case getActiveRun d (cc_groupId input) (cc_memberId input) of
        None \<Rightarrow> Inl (DomainError ''agent_action_target_offline'' 409)
      | Some run \<Rightarrow>
          if r_status run \<noteq> Rs_starting \<and> r_status run \<noteq> Rs_running
          then Inl (DomainError ''agent_action_target_offline'' 409)
          else if cc_expectedRunId input \<noteq> None \<and> cc_expectedRunId input \<noteq> Some (r_id run)
          then Inl (DomainError ''agent_action_run_mismatch'' 409)
          else if cc_expectedGeneration input \<noteq> None \<and>
                  cc_expectedGeneration input \<noteq> Some (r_generation run)
          then Inl (DomainError ''agent_action_generation_mismatch'' 409) else
          case getCurrentReporterSession d (r_id run) (r_generation run) of
            None \<Rightarrow> Inl (DomainError ''agent_action_reporter_unavailable'' 409)
          | Some reporter \<Rightarrow> Inr (run, reporter))"

definition create_status :: "db \<Rightarrow> create_command \<Rightarrow> status_detail result" where
  "create_status d input =
     rbind (getAgentStatus d (cc_groupId input) (cc_memberId input) None) (\<lambda>status.
       if cc_expectedStatusRevision input \<noteq> None \<and>
          cc_expectedStatusRevision input \<noteq> Some (st_statusRevision (sd_body status))
       then Inl (DomainError ''agent_action_status_revision_mismatch'' 409) else Inr status)"

text \<open>
  \<open>AgentActionService.create\<close>. \<open>digest\<close> is the SHA-256 of the principal and the input as JSON;
  \<open>onCreated\<close> runs inside the transaction, and its refusal rolls the action back.
\<close>

definition create_action ::
  "timestamp \<Rightarrow> string \<Rightarrow> nat \<Rightarrow> peer_policy \<Rightarrow> (principal \<Rightarrow> create_command \<Rightarrow> string) \<Rightarrow>
   (agent_action \<Rightarrow> unit result) \<Rightarrow> principal \<Rightarrow> create_command \<Rightarrow> string \<Rightarrow> db \<Rightarrow>
   (db \<times> agent_action) result" where
  "create_action now actionId daemonEpoch policy digest onCreated who command key d =
     rbind (parse_create_command command) (\<lambda>input.
     rbind (assertCreate policy who input) (\<lambda>_.
     rbind (create_target d input) (\<lambda>(run, reporter).
     rbind (create_status d input) (\<lambda>status.
     rbind (linked_conversation d input) (\<lambda>conversationId.
     rbind (check_parent d input) (\<lambda>_.
     rbind (parse_agent_action (new_action now actionId daemonEpoch (digest who input)
              who input key conversationId run reporter status)) (\<lambda>parsed.
     rbind (createAgentAction now parsed d) (\<lambda>(d1, action).
     rbind (onCreated action) (\<lambda>_. Inr (d1, action))))))))))"

definition cancel_action ::
  "timestamp \<Rightarrow> principal \<Rightarrow> string \<Rightarrow> db \<Rightarrow> (db \<times> agent_action) result" where
  "cancel_action now who actionId d =
     rbind (getAgentAction d actionId) (\<lambda>action.
     rbind (assertCancel who action) (\<lambda>_.
       if terminal_action_state (a_state action) then Inr (d, action)
       else if list_ex (\<lambda>t. at_state t = At_submitting) (listActionAttempts d (a_id action))
       then Inl (DomainError ''agent_action_submission_in_progress'' 409)
       else if \<not> awaiting_submission (a_state action)
       then Inl (DomainError ''agent_action_cancel_requires_ack'' 409)
       else transitionAgentAction now (a_id action) [a_state action] As_cancelled no_options d))"

subsection \<open>Acknowledging and waiting\<close>

text \<open>
  \<open>McpPrincipal\<close>: only its agent form may acknowledge. The command's provider ids and counters are
  parsed by the store's own schema below it.
\<close>

datatype mcp_principal =
  Mcp_agent string string string nat
| Mcp_operator
| Mcp_foreman string string nat nat

record ack_command =
  kc_kind :: ack_kind
  kc_sourceSequence :: nat
  kc_providerTurnId :: "string option"
  kc_providerRequestId :: "string option"
  kc_completionRevision :: nat
  kc_data :: string

definition parse_ack_command :: "ack_command \<Rightarrow> ack_command result" where
  "parse_ack_command c =
     rbind (parse_opt parse_identifier (kc_providerTurnId c)) (\<lambda>turnId.
     rbind (parse_opt parse_identifier (kc_providerRequestId c)) (\<lambda>requestId.
       guarded (0 < kc_sourceSequence c)
         (Inr (c\<lparr>kc_providerTurnId := turnId, kc_providerRequestId := requestId\<rparr>))))"

definition acknowledge ::
  "timestamp \<Rightarrow> string \<Rightarrow> mcp_principal \<Rightarrow> string \<Rightarrow> ack_command \<Rightarrow> db \<Rightarrow> (db \<times> agent_action) result" where
  "acknowledge now ackId who actionId command d =
     (case who of
        Mcp_agent groupId memberId runId generation \<Rightarrow>
          rbind (parse_ack_command command) (\<lambda>input.
          rbind (getAgentAction d actionId) (\<lambda>action.
            let t = a_target action
            in if groupId \<noteq> tg_groupId t \<or> memberId \<noteq> tg_memberId t \<or> runId \<noteq> tg_runId t
                  \<or> generation \<noteq> tg_generation t
               then Inl (DomainError ''agent_action_ack_principal_mismatch'' 403) else
               let attempts = listActionAttempts d (a_id action)
               in case (if attempts = [] then None else Some (last attempts),
                        getCurrentReporterSession d (tg_runId t) (tg_generation t)) of
                    (Some attempt, Some reporter) \<Rightarrow>
                      recordAgentActionAcknowledgement now
                        \<lparr>ack_id = ackId, ack_actionId = a_id action, ack_attemptId = at_id attempt,
                         ack_kind = kc_kind input, ack_runId = tg_runId t,
                         ack_generation = tg_generation t, ack_reporterSessionId = rs_id reporter,
                         ack_reporterId = rs_reporterId reporter,
                         ack_reporterEpoch = rs_reporterEpoch reporter,
                         ack_sourceSequence = kc_sourceSequence input,
                         ack_nativeSessionId = rs_nativeSessionId reporter,
                         ack_providerTurnId = kc_providerTurnId input,
                         ack_providerRequestId = kc_providerRequestId input,
                         ack_completionRevision = kc_completionRevision input,
                         ack_acknowledgedAt = now, ack_data = kc_data input\<rparr> d
                  | _ \<Rightarrow> Inl (DomainError ''agent_action_ack_target_unavailable'' 409)))
      | _ \<Rightarrow> Inl (DomainError ''agent_action_ack_reporter_required'' 403))"

text \<open>
  \<open>AgentWaitService.wait\<close>: the action is looked at when the wait starts and at every published
  event about it; the timer ends the wait with whatever the action is then.
\<close>

record wait_result =
  wr_action :: agent_action
  wr_matched :: bool
  wr_timedOut :: bool

definition wait_inspect ::
  "principal \<Rightarrow> string \<Rightarrow> action_state list \<Rightarrow> db \<Rightarrow> wait_result option result" where
  "wait_inspect who actionId states d =
     rbind (getAgentAction d actionId) (\<lambda>action.
     rbind (assertRead who action) (\<lambda>_.
       Inr (if a_state action \<in> set states
            then Some \<lparr>wr_action = action, wr_matched = True, wr_timedOut = False\<rparr> else None)))"

definition wakes_wait :: "string \<Rightarrow> domain_event \<Rightarrow> bool" where
  "wakes_wait actionId e \<longleftrightarrow> ev_aggregateType e = ''agent-action'' \<and> ev_aggregateId e = actionId"

definition wait_timer :: "string \<Rightarrow> db \<Rightarrow> wait_result result" where
  "wait_timer actionId d =
     rbind (getAgentAction d actionId) (\<lambda>action.
       Inr \<lparr>wr_action = action, wr_matched = False, wr_timedOut = True\<rparr>)"

text \<open>
  The wait over the published events: each step is an event with the store as it is when the
  listener runs; an error in the listener is the publisher's and leaves the wait as it was, and the
  timer fires on the last store.
\<close>

fun wait_run ::
  "principal \<Rightarrow> string \<Rightarrow> action_state list \<Rightarrow> (domain_event \<times> db) list \<Rightarrow> db \<Rightarrow> wait_result result" where
  "wait_run who actionId states [] final = wait_timer actionId final"
| "wait_run who actionId states ((e, d) # rest) final =
     (if \<not> wakes_wait actionId e then wait_run who actionId states rest final else
      case wait_inspect who actionId states d of
        Inr (Some result) \<Rightarrow> Inr result
      | _ \<Rightarrow> wait_run who actionId states rest final)"

definition wait_for_action ::
  "principal \<Rightarrow> string \<Rightarrow> action_state list \<Rightarrow> db \<Rightarrow> (domain_event \<times> db) list \<Rightarrow> db \<Rightarrow>
   wait_result result" where
  "wait_for_action who actionId states d events final =
     (if states = [] \<or> 16 < length states then Inl SchemaError else
      rbind (wait_inspect who actionId states d) (\<lambda>r.
        case r of Some result \<Rightarrow> Inr result
        | None \<Rightarrow> wait_run who actionId states events final))"

end
