(* ===== verification/Action_Scheduler.thy ===== *)
theory Action_Scheduler
  imports Action_Services
begin

text \<open>
  \<open>AgentActionScheduler\<close> (\<open>apps/daemon/src/actions/agent-action-scheduler.ts\<close>): the readiness
  decision, the terminal prompt, one pass over the actions, and the stretches of \<open>#consider\<close> between
  its awaits.

  Parameters: \<open>authorize\<close> is the optional \<open>authorizeDelegatedAction\<close> callback, a check of the store;
  \<open>fingerprint\<close> the SHA-256 of a terminal binding as JSON; \<open>describe\<close> the message text of an error.
\<close>

subsection \<open>Readiness\<close>

datatype readiness = Dispatch | Defer string | Reject string

definition lease_lost :: "timestamp option \<Rightarrow> timestamp \<Rightarrow> bool" where
  "lease_lost l now = (case l of None \<Rightarrow> True | Some t \<Rightarrow> t \<le> now)"

definition actionReadiness :: "agent_action \<Rightarrow> status_detail \<Rightarrow> timestamp \<Rightarrow> readiness" where
  "actionReadiness action status now =
     (let s = sd_body status; target = a_target action in
      if sd_runId status \<noteq> Some (tg_runId target) \<or> sd_generation status \<noteq> Some (tg_generation target)
      then Reject ''target_identity_mismatch''
      else if sd_runStatus status = Some Rs_starting \<or> sd_state status = St_starting
      then Defer ''target_starting''
      else if sd_runStatus status = Some Rs_failed \<or> sd_state status = St_failed
      then Reject ''target_failed''
      else if sd_runStatus status = Some Rs_stopped \<or> sd_state status = St_stopped
      then Reject ''target_stopped''
      else if st_processState s = Ps_indeterminate then Reject ''target_process_indeterminate''
      else if st_processState s \<noteq> Ps_present then Reject ''target_process_unavailable''
      else if sd_state status = St_blocked then Reject ''target_blocked''
      else if sd_state status = St_unknown then Reject ''target_unknown''
      else if st_staleAuthority s \<or> st_reporterEpoch s \<noteq> Some (tg_reporterEpoch target)
              \<or> st_authorityKind s \<noteq> Ak_reporter
              \<or> lease_lost (st_reporterLease s) now \<or> lease_lost (st_transportLease s) now
      then Reject ''target_reporter_stale''
      else if \<not> st_interactiveReady s then Reject ''target_not_interactive_ready''
      else if sd_state status = St_working
      then (if a_allowWorking action then Dispatch else Reject ''target_working_override_required'')
      else if sd_state status \<noteq> St_idle then Reject ''target_not_idle''
      else Dispatch)"

definition delegated :: "principal \<Rightarrow> bool" where
  "delegated p = (case p of Foreman _ _ _ _ _ _ _ \<Rightarrow> True | ForemanConversation _ _ _ _ _ \<Rightarrow> True | _ \<Rightarrow> False)"

definition actionPrompt :: "agent_action \<Rightarrow> string" where
  "actionPrompt action =
     ''['' @ (if delegated (a_principal action) then ''From: Repository Foreman | '' else [])
     @ ''Nanasa Action: '' @ a_id action @ '' | Exact Run: '' @ tg_runId (a_target action)
     @ '' | Generation: '' @ show_nat (tg_generation (a_target action)) @ '']'' @ [CHR 0x0A]
     @ (case a_prompt action of None \<Rightarrow> ''Wait for the correlated result.'' | Some p \<Rightarrow> p)"

subsection \<open>The catch block\<close>

definition js_includes :: "string \<Rightarrow> string \<Rightarrow> bool" where
  "js_includes needle s \<longleftrightarrow>
     list_ex (\<lambda>i. take (length needle) (drop i s) = needle) [0..<Suc (length s)]"

definition error_code :: "string \<Rightarrow> error \<Rightarrow> string" where
  "error_code fallback e = (case e of DomainError code _ \<Rightarrow> code | _ \<Rightarrow> fallback)"

definition final_error :: "string \<Rightarrow> string \<Rightarrow> action_error" where
  "final_error code message = \<lparr>ae_code = code, ae_message = message, ae_retryable = False\<rparr>"

definition drop_value :: "db \<Rightarrow> (db \<times> 'a) result \<Rightarrow> db \<times> unit result" where
  "drop_value d r = (case r of Inl e \<Rightarrow> (d, Inl e) | Inr (d', _) \<Rightarrow> (d', Inr ()))"

definition submission_failed ::
  "timestamp \<Rightarrow> (error \<Rightarrow> string) \<Rightarrow> string \<Rightarrow> string \<Rightarrow> string \<Rightarrow> bool \<Rightarrow> error \<Rightarrow> db \<Rightarrow>
   db \<times> unit result" where
  "submission_failed now describe owner actionId attemptId writeCompleted err d =
     (let code = error_code ''agent_action_submission_failed'' err in
      case getAgentAction d actionId of
        Inl e \<Rightarrow> (d, Inl e)
      | Inr current \<Rightarrow>
          if terminal_action_state (a_state current)
          then drop_value d (abandonAgentActionAttempt now actionId attemptId owner code d)
          else if writeCompleted then
            (case failAgentActionAttempt now actionId attemptId owner Fl_stalled
                    (final_error ''submission_commit_indeterminate''
                       ''Terminal input succeeded but durable submission confirmation failed'') d of
               Inl e \<Rightarrow> (d, Inl e)
             | Inr (d1, _) \<Rightarrow>
                 drop_value d1 (transitionAgentAction now actionId [As_stalled] As_settled_unverified
                   (with_error ''submission_commit_indeterminate''
                      ''Terminal input may have been accepted before the durable commit failed'') d1))
          else drop_value d (failAgentActionAttempt now actionId attemptId owner
                 (if js_includes ''replaced'' code \<or> js_includes ''mismatch'' code
                  then Fl_superseded else Fl_failed)
                 (final_error code (describe err)) d))"

subsection \<open>Considering an action\<close>

type_synonym authorizer = "db \<Rightarrow> agent_action \<Rightarrow> unit result"

datatype consider_step =
  Considered db
| Escaped db error
| Submitting db action_attempt run

definition considered :: "db \<times> unit result \<Rightarrow> consider_step" where
  "considered r = (case r of (d, Inl e) \<Rightarrow> Escaped d e | (d, Inr _) \<Rightarrow> Considered d)"

definition give_up ::
  "timestamp \<Rightarrow> agent_action \<Rightarrow> action_state \<Rightarrow> string \<Rightarrow> string \<Rightarrow> db \<Rightarrow> consider_step" where
  "give_up now action state code message d =
     considered (drop_value d (transitionAgentAction now (a_id action) [a_state action] state
       (with_error code message) d))"

definition delegated_authorization ::
  "authorizer option \<Rightarrow> agent_action \<Rightarrow> db \<Rightarrow> unit result" where
  "delegated_authorization authorize action d =
     (case authorize of
        Some f \<Rightarrow> f d action
      | None \<Rightarrow> if delegated (a_principal action)
                then Inl (DomainError ''goal_dispatch_forbidden'' 403) else Inr ())"

definition new_attempt ::
  "timestamp \<Rightarrow> (terminal_binding \<Rightarrow> string) \<Rightarrow> string \<Rightarrow> string \<Rightarrow> agent_action \<Rightarrow> terminal_binding \<Rightarrow>
   status_detail \<Rightarrow> nat \<Rightarrow> action_attempt" where
  "new_attempt now fingerprint owner attemptId action terminal status number =
     (let t = a_target action in
      \<lparr>at_id = attemptId, at_actionId = a_id action, at_attempt = number,
       at_effect = Ef_terminal_injection, at_state = At_submitting,
       at_daemonEpoch = tg_daemonEpoch t, at_groupId = tg_groupId t, at_memberId = tg_memberId t,
       at_runId = tg_runId t, at_generation = tg_generation t,
       at_reporterSessionId = tg_reporterSessionId t, at_reporterId = tg_reporterId t,
       at_reporterEpoch = tg_reporterEpoch t, at_nativeSessionId = tg_nativeSessionId t,
       at_baselineStatusRevision = st_statusRevision (sd_body status),
       at_baselineCompletionRevision = st_completionRevision (sd_body status),
       at_terminalBinding = terminal, at_terminalBindingFingerprint = fingerprint terminal,
       at_providerTurnId = None, at_providerRequestId = None, at_leaseOwner = owner,
       at_leaseExpiresAt = now + 30000, at_createdAt = now, at_updatedAt = now,
       at_submittedAt = None, at_failureCode = None\<rparr>)"

definition target_replaced :: "agent_action \<Rightarrow> db \<Rightarrow> bool" where
  "target_replaced action d =
     (let t = a_target action;
          run = getActiveRun d (tg_groupId t) (tg_memberId t);
          reporter = getCurrentReporterSession d (tg_runId t) (tg_generation t)
      in map_option r_id run \<noteq> Some (tg_runId t) \<or>
         map_option r_generation run \<noteq> Some (tg_generation t) \<or>
         map_option rs_id reporter \<noteq> Some (tg_reporterSessionId t) \<or>
         map_option rs_reporterEpoch reporter \<noteq> Some (tg_reporterEpoch t))"

definition action_status :: "agent_action \<Rightarrow> db \<Rightarrow> status_detail result" where
  "action_status action d =
     getAgentStatus d (tg_groupId (a_target action)) (tg_memberId (a_target action)) None"

text \<open>\<open>dispatch_admitted\<close> is also the readiness check right before the write is queued.\<close>

definition dispatch_admitted :: "timestamp \<Rightarrow> agent_action \<Rightarrow> db \<Rightarrow> status_detail result" where
  "dispatch_admitted now action d =
     rbind (action_status action d) (\<lambda>status.
       if actionReadiness action status now \<noteq> Dispatch
       then Inl (DomainError ''agent_action_readiness_changed'' 409) else Inr status)"

definition begin_submission ::
  "timestamp \<Rightarrow> (terminal_binding \<Rightarrow> string) \<Rightarrow> (error \<Rightarrow> string) \<Rightarrow> string \<Rightarrow> string \<Rightarrow>
   agent_action \<Rightarrow> run \<Rightarrow> terminal_binding \<Rightarrow> status_detail \<Rightarrow> db \<Rightarrow> consider_step" where
  "begin_submission now fingerprint describe owner attemptId action run terminal status d =
     (let attempt = new_attempt now fingerprint owner attemptId action terminal status
                      (length (listActionAttempts d (a_id action)) + 1)
      in case beginAgentActionAttempt now attempt d of
           Inl e \<Rightarrow> Escaped d e
         | Inr (d1, _) \<Rightarrow>
             (case dispatch_admitted now action d1 of
                Inl e \<Rightarrow> considered (submission_failed now describe owner (a_id action) attemptId False e d1)
              | Inr _ \<Rightarrow> Submitting d1 attempt run))"

definition consider_begin ::
  "timestamp \<Rightarrow> authorizer option \<Rightarrow> (terminal_binding \<Rightarrow> string) \<Rightarrow> (error \<Rightarrow> string) \<Rightarrow>
   string \<Rightarrow> string \<Rightarrow> agent_action \<Rightarrow> db \<Rightarrow> consider_step" where
  "consider_begin now authorize fingerprint describe owner attemptId action d =
     (case delegated_authorization authorize action d of
        Inl e \<Rightarrow> give_up now action As_cancelled (error_code ''goal_dispatch_forbidden'' e)
                   ''Goal no longer authorizes this action'' d
      | Inr _ \<Rightarrow>
     if a_queueDeadlineAt action \<le> now
     then give_up now action As_expired ''agent_action_queue_expired''
            ''The exact target did not become eligible before the queue deadline'' d
     else if target_replaced action d
     then give_up now action As_superseded ''run_replaced''
            ''The exact target run or reporter was replaced'' d
     else case action_status action d of
       Inl e \<Rightarrow> Escaped d e
     | Inr status \<Rightarrow>
         (case actionReadiness action status now of
            Defer _ \<Rightarrow>
              if a_state action = As_deferred then Considered d
              else considered (drop_value d (transitionAgentAction now (a_id action)
                     [a_state action] As_deferred no_options d))
          | Reject code \<Rightarrow>
              give_up now action As_rejected code ''The exact target is not dispatch eligible'' d
          | Dispatch \<Rightarrow>
              (case getActiveRun d (tg_groupId (a_target action)) (tg_memberId (a_target action)) of
                 None \<Rightarrow> Considered d
               | Some run \<Rightarrow>
                   (case r_terminal run of
                      None \<Rightarrow> give_up now action As_rejected ''target_terminal_unavailable''
                                ''The exact target has no terminal binding'' d
                    | Some terminal \<Rightarrow>
                        begin_submission now fingerprint describe owner attemptId action run terminal
                          status d))))"

subsection \<open>Verification before the write\<close>

text \<open>\<open>RuntimeObservation\<close>: the state of the pane's process and, when present, its identity.\<close>

record runtime_view =
  rv_state :: process_state
  rv_process :: "process_identity option"

definition session_fingerprint :: "db \<Rightarrow> run \<Rightarrow> string option" where
  "session_fingerprint d run =
     Option.bind (getCurrentReporterSession d (r_id run) (r_generation run)) rs_processFingerprint"

definition process_current :: "runtime_view \<Rightarrow> status_detail \<Rightarrow> run \<Rightarrow> db \<Rightarrow> bool" where
  "process_current view currentStatus run d \<longleftrightarrow>
     rv_state view = Ps_present \<and>
     (case rv_process view of
        None \<Rightarrow> False
      | Some p \<Rightarrow> pi_expectedProviderMatch p = Pm_match \<and>
          Some (pi_processFingerprint p) = st_processFingerprint (sd_body currentStatus) \<and>
          Some (pi_processFingerprint p) = session_fingerprint d run)"

definition final_check ::
  "timestamp \<Rightarrow> agent_action \<Rightarrow> run \<Rightarrow> runtime_view \<Rightarrow> db \<Rightarrow> bool result" where
  "final_check now action run view d =
     rbind (getAgentAction d (a_id action)) (\<lambda>finalAction.
     rbind (action_status action d) (\<lambda>finalStatus.
       let finalReporter = getCurrentReporterSession d (r_id run) (r_generation run)
       in Inr (awaiting_submission (a_state finalAction) \<and>
               actionReadiness action finalStatus now = Dispatch \<and>
               (case finalReporter of
                  None \<Rightarrow> False
                | Some s \<Rightarrow> rs_id s = tg_reporterSessionId (a_target action) \<and>
                    rs_reporterEpoch s = tg_reporterEpoch (a_target action) \<and>
                    rs_processFingerprint s = map_option pi_processFingerprint (rv_process view)))))"

text \<open>
  What runs between the process observation and the write; \<open>Inr text\<close> is the text handed to the
  terminal.
\<close>

definition dispatch_verified ::
  "timestamp \<Rightarrow> authorizer option \<Rightarrow> agent_action \<Rightarrow> run \<Rightarrow> status_detail \<Rightarrow> runtime_view \<Rightarrow> db \<Rightarrow>
   string result" where
  "dispatch_verified now authorize action run currentStatus view d =
     (if \<not> process_current view currentStatus run d
      then Inl (DomainError (if rv_state view = Ps_indeterminate then ''target_process_indeterminate''
                             else ''target_identity_mismatch'') 409)
      else rbind (final_check now action run view d) (\<lambda>ok.
        if \<not> ok then Inl (DomainError ''agent_action_readiness_changed'' 409) else
        rbind (case authorize of None \<Rightarrow> Inr () | Some f \<Rightarrow> f d action) (\<lambda>_.
          Inr (actionPrompt action))))"

definition commit_submission ::
  "timestamp \<Rightarrow> (error \<Rightarrow> string) \<Rightarrow> string \<Rightarrow> string \<Rightarrow> string \<Rightarrow> db \<Rightarrow> db \<times> unit result" where
  "commit_submission now describe owner actionId attemptId d =
     (case markAgentActionSubmitted now actionId attemptId owner d of
        Inr (d1, _) \<Rightarrow> (d1, Inr ())
      | Inl e \<Rightarrow> submission_failed now describe owner actionId attemptId True e d)"

subsection \<open>One pass\<close>

text \<open>
  What the pass does with an action of its snapshot: consider it, end it at its deadline, or leave it.
\<close>

datatype schedule_choice = Consider | End_at_deadline action_state action_state string string | Leave

definition due :: "timestamp option \<Rightarrow> timestamp \<Rightarrow> bool" where
  "due deadline now = (case deadline of None \<Rightarrow> False | Some t \<Rightarrow> t \<le> now)"

definition schedule_choice :: "timestamp \<Rightarrow> agent_action \<Rightarrow> schedule_choice" where
  "schedule_choice now action =
     (if awaiting_submission (a_state action) then Consider
      else if a_state action = As_submitted \<and> due (a_acceptanceDeadlineAt action) now
      then End_at_deadline As_submitted As_stalled ''agent_prompt_stalled''
             ''Nanasa sent the prompt but could not confirm that the agent received it. The prompt may still have run.''
      else if a_state action \<in> {As_accepted, As_started, As_blocked} \<and>
              due (a_completionDeadlineAt action) now
      then End_at_deadline (a_state action) As_timed_out ''agent_action_timed_out''
             ''The correlated provider work did not settle before the deadline''
      else Leave)"

definition end_at_deadline :: "timestamp \<Rightarrow> agent_action \<Rightarrow> db \<Rightarrow> db \<times> unit result" where
  "end_at_deadline now action d =
     (case schedule_choice now action of
        End_at_deadline from_state to_state code message \<Rightarrow>
          drop_value d (transitionAgentAction now (a_id action) [from_state] to_state
            (with_error code message) d)
      | _ \<Rightarrow> (d, Inr ()))"

definition schedule_snapshot :: "timestamp \<Rightarrow> db \<Rightarrow> db \<times> agent_action list result" where
  "schedule_snapshot now d =
     (case recoverAmbiguousActionAttempts now d of
        (d1, Inl e) \<Rightarrow> (d1, Inl e)
      | (d1, Inr _) \<Rightarrow> (d1, Inr (listAgentActions d1)))"

end
