(* ===== verification/Action_Retirement.thy ===== *)
theory Action_Retirement
  imports Action_Scheduler
begin

text \<open>
  What the Foreman services do to actions beside the scheduler: the reset of the coordination state
  (\<open>foreman-goal-service.ts\<close>) and the clean-up of a removed goal (\<open>foreman-cleanup-service.ts\<close>) supersede
  every action that is not settled, also a failed, stalled, timed-out or settled-unverified one; the
  cancellation of a conversation (\<open>foreman-conversation-service.ts\<close>) withdraws an action that was not
  submitted. Which actions belong to the goals concerned is read from the Foreman's own tables and
  enters as a parameter.
\<close>

subsection \<open>Superseding unsettled actions\<close>

text \<open>An action is settled when nothing more can come of it; the settled states are final for every service.\<close>

definition settled_action :: "action_state \<Rightarrow> bool" where
  "settled_action st \<longleftrightarrow> st \<in> {As_completed, As_cancelled, As_rejected, As_expired, As_superseded}"

definition supersede :: "timestamp \<Rightarrow> string \<Rightarrow> string \<Rightarrow> agent_action \<Rightarrow> db \<Rightarrow> db result" where
  "supersede now code message a d =
     rbind (transitionAgentAction now (a_id a) [a_state a] As_superseded
         (no_options\<lparr>to_result := a_result a, to_error := Some \<lparr>ae_code = code, ae_message = message,
            ae_retryable = False\<rparr>\<rparr>) d) (\<lambda>(d', _). Inr d')"

definition retire_action :: "timestamp \<Rightarrow> agent_action \<Rightarrow> db \<Rightarrow> db result" where
  "retire_action now = supersede now ''foreman_state_reset''
     ''Operator cleared coordination state after the addressed runtime stopped. Prior effects are not undone or certified complete.''"

definition target_active :: "db \<Rightarrow> agent_action \<Rightarrow> bool" where
  "target_active d a \<longleftrightarrow>
     list_ex (\<lambda>r. r_id r = tg_runId (a_target a) \<and> active_status (r_status r)) (db_runs d)"

text \<open>The part of a reset that concerns actions: it is refused while the run of one of them is active.\<close>

definition reset_actions :: "timestamp \<Rightarrow> (agent_action \<Rightarrow> bool) \<Rightarrow> db \<Rightarrow> db result" where
  "reset_actions now retired d =
     (let actions = filter retired (listAgentActions d)
      in if list_ex (target_active d) actions then Inl (DomainError ''foreman_goal_conflict'' 409)
         else fold_r (retire_action now) actions d)"

subsection \<open>The effects of a removed goal\<close>

definition target_stopped :: "db \<Rightarrow> action_target \<Rightarrow> bool" where
  "target_stopped d t \<longleftrightarrow>
     list_ex (\<lambda>r. r_id r = tg_runId t \<and> r_owner r = MemberRun (tg_groupId t) (tg_memberId t) \<and>
       r_generation r = tg_generation t \<and> r_desiredState r = Ds_stopped \<and> r_status r = Rs_stopped)
       (db_runs d)"

definition owned_action :: "string \<Rightarrow> string list \<Rightarrow> agent_action \<Rightarrow> bool" where
  "owned_action goalId links a \<longleftrightarrow> a_id a \<in> set links \<or>
     (case a_principal a of Foreman _ _ _ _ g _ _ \<Rightarrow> g = goalId | _ \<Rightarrow> False)"

definition retire_effect :: "timestamp \<Rightarrow> agent_action \<Rightarrow> db \<Rightarrow> db result" where
  "retire_effect now a d =
     (if settled_action (a_state a) then Inr d
      else if \<not> target_stopped d (a_target a) then Inr d
      else supersede now ''foreman_removed_goal''
        ''Operator removed the cancelled goal and the exact target runtime is explicitly stopped. Prior effects remain unconfirmed; they are not undone or certified complete.''
        a d)"

text \<open>
  \<open>removed\<close> lists the removed goals that are cancelled, each with the ids of the actions linked to its
  delegations. The audit entry of each retired action is not modelled.
\<close>

definition reconcileRemovedEffects :: "timestamp \<Rightarrow> (string \<times> string list) list \<Rightarrow> db \<Rightarrow> db result" where
  "reconcileRemovedEffects now removed d =
     fold_r (\<lambda>(goalId, links) d1.
       fold_r (retire_effect now) (filter (owned_action goalId links) (listAgentActions d1)) d1) removed d"

subsection \<open>Withdrawing the action of a conversation\<close>

definition withdraw_action :: "timestamp \<Rightarrow> string \<Rightarrow> db \<Rightarrow> db result" where
  "withdraw_action now actionId d =
     rbind (getAgentAction d actionId) (\<lambda>a.
       if a_state a \<in> {As_created, As_deferred} \<and>
          \<not> list_ex (\<lambda>t. at_state t = At_submitting) (listActionAttempts d (a_id a))
       then rbind (transitionAgentAction now (a_id a) [a_state a] As_cancelled no_options d) (\<lambda>(d', _). Inr d')
       else Inr d)"

end
