(* ===== verification/Action_Protocol.thy ===== *)
theory Action_Protocol
  imports Action_Retirement
begin

text \<open>
  What each operation does to the states of actions and attempts: the relations \<open>moves\<close> (nothing
  returns to waiting for submission, and an attempt changes only when its action has left that
  state) and \<open>keeps_final\<close>, the invariant \<open>attempts_sound\<close> (one attempt per action), the effect
  lemmas of the store's action operations, and the tables the other operations leave alone.
\<close>

subsection \<open>What a step may do to actions and attempts\<close>

definition state_of :: "db \<Rightarrow> string \<Rightarrow> action_state option" where
  "state_of d i = map_option a_state (find_action i (db_actions d))"

definition attempt_moves :: "db \<Rightarrow> action_attempt \<Rightarrow> action_attempt \<Rightarrow> bool" where
  "attempt_moves d' t' t \<longleftrightarrow>
     at_id t' = at_id t \<and> at_actionId t' = at_actionId t \<and>
     (at_state t' = at_state t \<or>
      (\<exists>s. state_of d' (at_actionId t) = Some s \<and> \<not> awaiting_submission s))"

definition state_moves :: "db \<Rightarrow> db \<Rightarrow> bool" where
  "state_moves d d' \<longleftrightarrow>
     (\<forall>i s. state_of d i = Some s \<longrightarrow>
        (\<exists>s'. state_of d' i = Some s' \<and> (awaiting_submission s' \<longrightarrow> awaiting_submission s)))"

definition moves :: "db \<Rightarrow> db \<Rightarrow> bool" where
  "moves d d' \<longleftrightarrow> state_moves d d' \<and> list_all2 (attempt_moves d') (db_attempts d') (db_attempts d)"

definition keeps_final :: "db \<Rightarrow> db \<Rightarrow> bool" where
  "keeps_final d d' \<longleftrightarrow>
     (\<forall>i s. state_of d i = Some s \<and> terminal_action_state s \<longrightarrow> state_of d' i = Some s)"

definition only_moves :: "string \<Rightarrow> db \<Rightarrow> db \<Rightarrow> bool" where
  "only_moves i d d' \<longleftrightarrow> (\<forall>j. j \<noteq> i \<longrightarrow> state_of d' j = state_of d j)"

lemma attempt_moves_refl [simp]: "attempt_moves d t t"
  by (simp add: attempt_moves_def)

lemma moves_refl [simp]: "moves d d"
  by (simp add: moves_def state_moves_def list_all2_refl)

lemma keeps_final_refl [simp]: "keeps_final d d"
  by (simp add: keeps_final_def)

lemma keeps_final_trans: "keeps_final d d1 \<Longrightarrow> keeps_final d1 d2 \<Longrightarrow> keeps_final d d2"
  by (simp add: keeps_final_def)

lemma state_moves_trans: "state_moves d d1 \<Longrightarrow> state_moves d1 d2 \<Longrightarrow> state_moves d d2"
  unfolding state_moves_def by blast

lemma attempt_moves_trans:
  assumes "state_moves d1 d2" and "attempt_moves d1 t1 t" and "attempt_moves d2 t2 t1"
  shows "attempt_moves d2 t2 t"
  using assms unfolding attempt_moves_def state_moves_def by metis

lemma moves_trans:
  assumes "moves d d1" and "moves d1 d2"
  shows "moves d d2"
proof -
  have "list_all2 (attempt_moves d2) (db_attempts d2) (db_attempts d)"
    using assms attempt_moves_trans by (auto simp: moves_def list_all2_conv_all_nth)
  then show ?thesis using assms state_moves_trans by (auto simp: moves_def)
qed

lemma moves_frame:
  assumes "db_actions d' = db_actions d" and "db_attempts d' = db_attempts d"
  shows "moves d d'" and "keeps_final d d'"
  using assms by (auto simp: moves_def state_moves_def keeps_final_def state_of_def list_all2_refl)

lemma keeps_final_only:
  assumes "only_moves i d d'" and "\<And>s. state_of d i = Some s \<Longrightarrow> \<not> terminal_action_state s"
  shows "keeps_final d d'"
  unfolding keeps_final_def using assms only_moves_def by metis

lemma moves_only:
  assumes "only_moves i d d'" and "db_attempts d' = db_attempts d"
    and "state_of d i = Some s" and "state_of d' i = Some s'"
    and "awaiting_submission s' \<Longrightarrow> awaiting_submission s"
  shows "moves d d'"
proof -
  have "state_moves d d'"
    unfolding state_moves_def
  proof (intro allI impI)
    fix j r assume "state_of d j = Some r"
    then show "\<exists>r'. state_of d' j = Some r' \<and> (awaiting_submission r' \<longrightarrow> awaiting_submission r)"
      using assms by (cases "j = i") (auto simp: only_moves_def)
  qed
  then show ?thesis using assms(2) by (simp add: moves_def list_all2_refl)
qed

subsection \<open>The invariant: one attempt per action\<close>

definition attempt_sound :: "db \<Rightarrow> action_attempt \<Rightarrow> bool" where
  "attempt_sound d t =
     (case state_of d (at_actionId t) of
        None \<Rightarrow> False
      | Some s \<Rightarrow> awaiting_submission s \<longrightarrow> at_state t = At_submitting)"

definition attempts_sound :: "db \<Rightarrow> bool" where
  "attempts_sound d \<longleftrightarrow>
     distinct (map at_id (db_attempts d)) \<and> distinct (map at_actionId (db_attempts d)) \<and>
     list_all (attempt_sound d) (db_attempts d)"

lemma attempt_sound_moves:
  assumes "state_moves d d'" and "attempt_moves d' t' t" and "attempt_sound d t"
  shows "attempt_sound d' t'"
proof -
  obtain s where s: "state_of d (at_actionId t) = Some s"
    "awaiting_submission s \<Longrightarrow> at_state t = At_submitting"
    using assms(3) by (auto simp: attempt_sound_def split: option.splits)
  obtain s' where s': "state_of d' (at_actionId t) = Some s'"
    "awaiting_submission s' \<Longrightarrow> awaiting_submission s"
    using assms(1) s(1) by (auto simp: state_moves_def)
  show ?thesis using assms(2) s s' by (auto simp: attempt_sound_def attempt_moves_def)
qed

lemma attempts_sound_moves:
  assumes "moves d d'" and "attempts_sound d"
  shows "attempts_sound d'"
proof -
  have all2: "list_all2 (attempt_moves d') (db_attempts d') (db_attempts d)"
    and st: "state_moves d d'" using assms(1) by (auto simp: moves_def)
  have "map at_id (db_attempts d') = map at_id (db_attempts d)"
    "map at_actionId (db_attempts d') = map at_actionId (db_attempts d)"
    using all2 by (induction rule: list_all2_induct) (auto simp: attempt_moves_def)
  moreover have "list_all (attempt_sound d') (db_attempts d')"
    using all2 assms(2) st attempt_sound_moves
    by (auto simp: list_all_length list_all2_conv_all_nth attempts_sound_def)
  ultimately show ?thesis using assms(2) by (simp add: attempts_sound_def)
qed

lemma attempts_sound_empty: "db_attempts d = [] \<Longrightarrow> attempts_sound d"
  by (simp add: attempts_sound_def)


subsection \<open>The store's operations\<close>

lemma find_where_update_where:
  assumes "\<And>r. key (f r) = key r"
  shows "find_where (\<lambda>r. key r = k) (update_where p f rs) =
         map_option (\<lambda>r. if p r then f r else r) (find_where (\<lambda>r. key r = k) rs)"
  by (induction rs) (auto simp: assms)

lemma find_action_SomeD: "find_action i rs = Some a \<Longrightarrow> a_id a = i"
  by (blast dest: find_where_SomeD)

text \<open>A write to the row of one action, the shape all the operations below share.\<close>

definition writes_action :: "string \<Rightarrow> (agent_action \<Rightarrow> bool) \<Rightarrow> (agent_action \<Rightarrow> agent_action) \<Rightarrow> db \<Rightarrow> db \<Rightarrow> bool" where
  "writes_action i p f d d' \<longleftrightarrow>
     db_actions d' = update_where (\<lambda>a. a_id a = i \<and> p a) f (db_actions d) \<and> (\<forall>a. a_id (f a) = a_id a)"

lemma writes_action_only: "writes_action i p f d d' \<Longrightarrow> only_moves i d d'"
  unfolding only_moves_def state_of_def writes_action_def
  by (auto simp: find_where_update_where dest!: find_action_SomeD
      intro!: arg_cong [where f = "map_option a_state"] option.map_cong0 option.map_ident_strong)

lemma writes_action_state:
  assumes "writes_action i p f d d'" and "find_action i (db_actions d) = Some a" and "p a"
  shows "state_of d' i = Some (a_state (f a))"
  using assms find_action_SomeD [OF assms(2)]
  by (simp add: state_of_def writes_action_def find_where_update_where)

lemma transition_InrD:
  assumes "transitionAgentAction now i ex s' opts d = Inr (d', r)"
  shows "\<exists>a f. find_action i (db_actions d) = Some a \<and> a_state a \<in> set ex \<and>
           writes_action i (\<lambda>b. a_state b = a_state a) f d d' \<and> (\<forall>b. a_state (f b) = s') \<and>
           db_attempts d' = db_attempts d"
proof -
  obtain a where a: "find_action i (db_actions d) = Some a"
    using assms by (auto simp: transitionAgentAction_def getAgentAction_def rbind_eq_Inr)
  have ex: "a_state a \<in> set ex"
    using assms a by (auto simp: transitionAgentAction_def getAgentAction_def split: if_splits)
  obtain err t q where d': "db_actions d' = update_where (\<lambda>b. a_id b = i \<and> a_state b = a_state a)
      (\<lambda>b. b\<lparr>a_state := s', a_error := err, a_result := to_result opts,
             a_acceptedProviderTurnId := t, a_acceptedProviderRequestId := q, a_updatedAt := now\<rparr>)
      (db_actions d)" "db_attempts d' = db_attempts d"
    using assms a ex
    unfolding transitionAgentAction_def getAgentAction_def Let_def rbind_eq_Inr
    by (clarsimp simp: rbind_eq_Inr)
  show ?thesis
    by (rule exI [of _ a], rule exI) (use a ex d' in \<open>auto simp: writes_action_def\<close>)
qed

lemma transition_effect:
  assumes "transitionAgentAction now i ex s' opts d = Inr (d', r)"
  shows "\<exists>s. state_of d i = Some s \<and> s \<in> set ex \<and> state_of d' i = Some s' \<and>
             only_moves i d d' \<and> db_attempts d' = db_attempts d"
proof -
  obtain a f where a: "find_action i (db_actions d) = Some a" "a_state a \<in> set ex"
    "writes_action i (\<lambda>b. a_state b = a_state a) f d d'" "\<forall>b. a_state (f b) = s'"
    "db_attempts d' = db_attempts d"
    using transition_InrD [OF assms] by blast
  have "state_of d' i = Some s'" using writes_action_state [OF a(3) a(1)] a(4) by simp
  then show ?thesis using a writes_action_only [OF a(3)] by (simp add: state_of_def)
qed

lemma leased_attempt_InrD:
  assumes "leased_attempt d i k owner = Inr t"
  shows "t \<in> set (db_attempts d) \<and> at_id t = k \<and> at_actionId t = i \<and> at_state t = At_submitting \<and>
         at_leaseOwner t = owner"
  using assms by (auto simp: leased_attempt_def split: option.splits if_splits dest: find_where_SomeD)


definition writes_attempts :: "(action_attempt \<Rightarrow> bool) \<Rightarrow> (action_attempt \<Rightarrow> action_attempt) \<Rightarrow> db \<Rightarrow> db \<Rightarrow> bool" where
  "writes_attempts p f d d' \<longleftrightarrow>
     db_attempts d' = update_where p f (db_attempts d) \<and>
     (\<forall>t. at_id (f t) = at_id t \<and> at_actionId (f t) = at_actionId t)"

lemma list_all2_update_where:
  assumes "\<And>r. r \<in> set rs \<Longrightarrow> p r \<Longrightarrow> R (f r) r" and "\<And>r. r \<in> set rs \<Longrightarrow> R r r"
  shows "list_all2 R (update_where p f rs) rs"
  using assms by (induction rs) auto

lemma moves_write:
  assumes w: "writes_attempts p f d d'" and "only_moves i d d'"
    and p: "\<And>t. t \<in> set (db_attempts d) \<Longrightarrow> p t \<Longrightarrow> at_actionId t = i"
    and "state_of d' i = Some s'" and "\<not> awaiting_submission s'"
  shows "moves d d'"
proof -
  have "state_moves d d'"
    unfolding state_moves_def
  proof (intro allI impI)
    fix j r assume "state_of d j = Some r"
    then show "\<exists>r'. state_of d' j = Some r' \<and> (awaiting_submission r' \<longrightarrow> awaiting_submission r)"
      using assms by (cases "j = i") (auto simp: only_moves_def)
  qed
  moreover have "list_all2 (attempt_moves d') (db_attempts d') (db_attempts d)"
  proof -
    have "db_attempts d' = update_where p f (db_attempts d)" using w by (simp add: writes_attempts_def)
    then show ?thesis
      using w p assms(4,5)
      by (auto intro!: list_all2_update_where simp: attempt_moves_def writes_attempts_def)
  qed
  ultimately show ?thesis by (simp add: moves_def)
qed

text \<open>With unique attempt ids, a write to the leased attempt is a write to an attempt of its action.\<close>

lemma same_attempt:
  assumes "distinct (map at_id ts)" and "t \<in> set ts" and "u \<in> set ts" and "at_id t = at_id u"
  shows "t = u"
  using assms by (metis distinct_map inj_onD)

lemma fail_InrD:
  assumes "failAgentActionAttempt now i k owner fl err d = Inr (d', r)"
  shows "\<exists>t a f g. leased_attempt d i k owner = Inr t \<and> find_action i (db_actions d) = Some a \<and>
           writes_attempts (\<lambda>u. at_id u = k) g d d' \<and> writes_action i (\<lambda>_. True) f d d' \<and>
           (\<forall>b. a_state (f b) = failure_action_state fl)"
proof -
  obtain t e where t: "leased_attempt d i k owner = Inr t" and e: "parse_action_error err = Inr e"
    using assms by (auto simp: failAgentActionAttempt_def rbind_eq_Inr)
  let ?g = "\<lambda>t. t\<lparr>at_state := failure_attempt_state fl, at_failureCode := Some (ae_code err),
              at_updatedAt := now\<rparr>"
  let ?f = "\<lambda>a. a\<lparr>a_state := failure_action_state fl, a_error := Some e, a_updatedAt := now\<rparr>"
  have d': "db_attempts d' = update_where (\<lambda>u. at_id u = k) ?g (db_attempts d)"
    "db_actions d' = update_where (\<lambda>a. a_id a = i) ?f (db_actions d)"
    "find_action i (db_actions d) \<noteq> None"
    using assms t e unfolding failAgentActionAttempt_def getAgentAction_def Let_def row_writes
    by (auto simp: rbind_eq_Inr find_where_update_where)
  show ?thesis
    using t d' by (auto simp: writes_attempts_def writes_action_def intro!: exI [of _ ?f] exI [of _ ?g])
qed

lemma fail_effect:
  assumes "failAgentActionAttempt now i k owner fl err d = Inr (d', r)"
    and sound: "attempts_sound d"
  shows "state_of d i \<noteq> None" and "state_of d' i = Some (failure_action_state fl)"
    and "only_moves i d d'" and "moves d d'"
proof -
  obtain t a f g where t: "leased_attempt d i k owner = Inr t"
    and a: "find_action i (db_actions d) = Some a"
    and g: "writes_attempts (\<lambda>u. at_id u = k) g d d'"
    and f: "writes_action i (\<lambda>_. True) f d d'" "\<forall>b. a_state (f b) = failure_action_state fl"
    using fail_InrD [OF assms(1)] by blast
  show "state_of d i \<noteq> None" using a by (simp add: state_of_def)
  show st: "state_of d' i = Some (failure_action_state fl)"
    using writes_action_state [OF f(1) a] f(2) by simp
  show only: "only_moves i d d'" by (rule writes_action_only [OF f(1)])
  have own: "at_actionId u = i" if "u \<in> set (db_attempts d)" "at_id u = k" for u
    using that leased_attempt_InrD [OF t] sound same_attempt unfolding attempts_sound_def by metis
  show "moves d d'"
    by (rule moves_write [OF g only _ st]) (use own in \<open>auto, cases fl, auto simp: awaiting_submission_def\<close>)
qed


lemma mark_effect:
  assumes "markAgentActionSubmitted now i k owner d = Inr (d', r)"
    and sound: "attempts_sound d"
  shows "\<exists>s. state_of d i = Some s \<and> awaiting_submission s"
    and "state_of d' i = Some As_submitted" and "only_moves i d d'" and "moves d d'"
proof -
  obtain t a where t: "leased_attempt d i k owner = Inr t"
    and a: "find_action i (db_actions d) = Some a" "awaiting_submission (a_state a)"
    using assms(1)
    by (auto simp: markAgentActionSubmitted_def getAgentAction_def rbind_eq_Inr split: if_splits)
  let ?g = "\<lambda>t. t\<lparr>at_state := At_submitted, at_submittedAt := Some now, at_updatedAt := now\<rparr>"
  let ?f = "\<lambda>a. a\<lparr>a_state := As_submitted, a_updatedAt := now\<rparr>"
  have "db_attempts d' = update_where (\<lambda>u. at_id u = k) ?g (db_attempts d)"
    "db_actions d' = update_where (\<lambda>a. a_id a = i) ?f (db_actions d)"
    using assms(1) t a unfolding markAgentActionSubmitted_def getAgentAction_def Let_def row_writes
    by (auto simp: rbind_eq_Inr split: option.splits if_splits)
  then have g: "writes_attempts (\<lambda>u. at_id u = k) ?g d d'" and f: "writes_action i (\<lambda>_. True) ?f d d'"
    by (simp_all add: writes_attempts_def writes_action_def)
  show "\<exists>s. state_of d i = Some s \<and> awaiting_submission s" using a by (simp add: state_of_def)
  show st: "state_of d' i = Some As_submitted" using writes_action_state [OF f a(1)] by simp
  show only: "only_moves i d d'" by (rule writes_action_only [OF f])
  have own: "at_actionId u = i" if "u \<in> set (db_attempts d)" "at_id u = k" for u
    using that leased_attempt_InrD [OF t] sound same_attempt unfolding attempts_sound_def by metis
  show "moves d d'"
    by (rule moves_write [OF g only _ st]) (use own in \<open>auto simp: awaiting_submission_def\<close>)
qed

lemma abandon_effect:
  assumes "abandonAgentActionAttempt now i k owner code d = Inr (d', r)"
    and "state_of d i = Some s" and "\<not> awaiting_submission s"
  shows "db_actions d' = db_actions d" and "moves d d'"
proof -
  have eq: "d' = d\<lparr>db_attempts := update_where
      (\<lambda>t. at_id t = k \<and> at_actionId t = i \<and> at_state t = At_submitting \<and> at_leaseOwner t = owner)
      (\<lambda>t. t\<lparr>at_state := At_superseded, at_failureCode := Some code, at_updatedAt := now\<rparr>)
      (db_attempts d)\<rparr>"
    using assms(1) by (simp add: abandonAgentActionAttempt_def Let_def rbind_eq_Inr)
  show acts: "db_actions d' = db_actions d" by (simp add: eq)
  then have st: "state_of d' j = state_of d j" for j by (simp add: state_of_def)
  have att: "db_attempts d' = update_where
      (\<lambda>t. at_id t = k \<and> at_actionId t = i \<and> at_state t = At_submitting \<and> at_leaseOwner t = owner)
      (\<lambda>t. t\<lparr>at_state := At_superseded, at_failureCode := Some code, at_updatedAt := now\<rparr>)
      (db_attempts d)" by (simp add: eq)
  show "moves d d'"
    by (rule moves_write [of "\<lambda>t. at_id t = k \<and> at_actionId t = i \<and> at_state t = At_submitting \<and>
            at_leaseOwner t = owner" _ _ _ i])
      (use assms att in \<open>auto simp: writes_attempts_def only_moves_def st\<close>)
qed

lemma begin_effect:
  assumes "beginAgentActionAttempt now t d = Inr (d', u)"
  shows "db_actions d' = db_actions d" and "db_attempts d' = db_attempts d @ [u]"
    and "at_state u = at_state t" and "\<exists>s. state_of d (at_actionId u) = Some s \<and> awaiting_submission s"
    and "\<forall>v\<in>set (db_attempts d). at_actionId v = at_actionId u \<longrightarrow> at_state v \<noteq> At_submitting"
    and "at_id u \<notin> at_id ` set (db_attempts d)"
proof -
  obtain a st where a: "find_action (at_actionId u) (db_actions d) = Some a"
    and u: "parse_action_attempt t = Inr u"
    and auth: "target_authoritative a u
        (getActiveRun d (tg_groupId (a_target a)) (tg_memberId (a_target a)))
        (getCurrentReporterSession d (tg_runId (a_target a)) (tg_generation (a_target a))) st"
    and none: "\<not> list_ex (\<lambda>t. at_state t = At_submitting) (listActionAttempts d (a_id a))"
    and ins: "insertable_attempt d u"
    and d': "db_actions d' = db_actions d" "db_attempts d' = db_attempts d @ [u]"
    using assms unfolding beginAgentActionAttempt_def getAgentAction_def Let_def
    by (auto simp: rbind_eq_Inr split: if_splits)
  show "db_actions d' = db_actions d" "db_attempts d' = db_attempts d @ [u]" by (rule d')+
  show "at_state u = at_state t" by (rule parse_action_attempt_keeps [OF u])
  show "\<exists>s. state_of d (at_actionId u) = Some s \<and> awaiting_submission s"
    using a auth by (simp add: state_of_def target_authoritative_def)
  show "\<forall>v\<in>set (db_attempts d). at_actionId v = at_actionId u \<longrightarrow> at_state v \<noteq> At_submitting"
    using none find_action_SomeD [OF a] by (auto simp: list_ex_iff listActionAttempts_def)
  show "at_id u \<notin> at_id ` set (db_attempts d)"
    using ins by (auto simp: insertable_attempt_def find_where_None_iff)
qed

text \<open>
  The heart of the at-most-once argument: an action that still awaits submission has only
  \<open>submitting\<close> attempts, and a new attempt is refused while there is one.
\<close>

lemma begin_sound:
  assumes b: "beginAgentActionAttempt now t d = Inr (d', u)" and "at_state t = At_submitting"
    and sound: "attempts_sound d"
  shows "attempts_sound d'"
proof -
  note e = begin_effect [OF b]
  have st: "state_of d' j = state_of d j" for j using e(1) by (simp add: state_of_def)
  have "at_actionId u \<notin> at_actionId ` set (db_attempts d)"
  proof
    assume "at_actionId u \<in> at_actionId ` set (db_attempts d)"
    then obtain v where v: "v \<in> set (db_attempts d)" "at_actionId v = at_actionId u" by auto
    then have "attempt_sound d v" using sound by (auto simp: attempts_sound_def list_all_iff)
    then have "at_state v = At_submitting" using e(4) v(2) by (auto simp: attempt_sound_def)
    then show False using e(5) v by blast
  qed
  then show ?thesis
    using sound e assms(2) unfolding attempts_sound_def
    by (auto simp: list_all_iff attempt_sound_def st)
qed

lemma find_action_append:
  assumes "find_action (a_id a) rs = None" and "find_action i rs = Some b"
  shows "find_action i (rs @ [a]) = Some b"
  using assms by (simp add: find_where_append)

lemma create_effect:
  assumes "createAgentAction now a d = Inr (d', b)"
  shows "moves d d'" and "keeps_final d d'"
proof -
  have att: "db_attempts d' = db_attempts d"
    and acts: "db_actions d' = db_actions d \<or> (\<exists>c. db_actions d' = db_actions d @ [c])"
    using assms unfolding createAgentAction_def
    by (auto simp: rbind_eq_Inr split: option.splits if_splits)
  have st: "state_of d' i = Some s" if "state_of d i = Some s" for i s
    using acts that by (auto simp: state_of_def find_where_append)
  show "keeps_final d d'" using st by (simp add: keeps_final_def)
  show "moves d d'" using att st by (auto simp: moves_def state_moves_def list_all2_refl)
qed

lemma transition_moves:
  assumes "transitionAgentAction now i ex s' opts d = Inr (d', r)"
    and "\<And>s. s \<in> set ex \<Longrightarrow> \<not> terminal_action_state s"
    and "\<And>s. s \<in> set ex \<Longrightarrow> awaiting_submission s' \<Longrightarrow> awaiting_submission s"
  shows "moves d d'" and "keeps_final d d'"
proof -
  obtain s where s: "state_of d i = Some s" "s \<in> set ex" "state_of d' i = Some s'" "only_moves i d d'"
    "db_attempts d' = db_attempts d"
    using transition_effect [OF assms(1)] by blast
  show "moves d d'" by (rule moves_only [OF s(4,5,1,3)]) (use assms(3) s(2) in blast)
  show "keeps_final d d'" by (rule keeps_final_only [OF s(4)]) (use s assms(2) in auto)
qed

lemma recover_moves: "moves d (fst (recover_each now is d)) \<and> keeps_final d (fst (recover_each now is d))"
proof (induction "is" arbitrary: d)
  case (Cons i "is")
  show ?case
  proof (cases "transitionAgentAction now i [As_created, As_deferred] As_settled_unverified
      crash_window_options d")
    case (Inr p)
    then obtain d1 a where p: "p = (d1, a)" by (cases p)
    have "moves d d1" "keeps_final d d1"
      by (rule transition_moves [OF Inr [unfolded p]];
          auto simp: terminal_action_state_def awaiting_submission_def)+
    then show ?thesis
      using Cons [of d1] Inr p
      by (auto split: sum.splits prod.splits intro: moves_trans keeps_final_trans)
  qed simp
qed simp

lemma ack_effect:
  assumes "recordAgentActionAcknowledgement now k d = Inr (d', r)"
  shows "moves d d'" and "keeps_final d d'"
proof -
  obtain p a st where p: "parse_action_ack k = Inr p"
    and a: "find_action (ack_actionId p) (db_actions d) = Some a"
    and cur: "ack_current a (find_attempt (ack_attemptId p) (listActionAttempts d (a_id a)))
        (getCurrentReporterSession d (ack_runId p) (ack_generation p)) p"
    and d': "db_attempts d' = db_attempts d"
      "db_actions d' = update_where (\<lambda>b. a_id b = ack_actionId p) (acknowledged_action p) (db_actions d)"
    using assms unfolding recordAgentActionAcknowledgement_def getAgentAction_def Let_def row_writes
    by (auto simp: rbind_eq_Inr split: if_splits)
  have f: "writes_action (ack_actionId p) (\<lambda>_. True) (acknowledged_action p) d d'"
    using d'(2) by (simp add: writes_action_def acknowledged_action_def)
  have st: "state_of d' (ack_actionId p) = Some (ack_state (ack_kind p))"
    using writes_action_state [OF f a] by (simp add: acknowledged_action_def)
  have st0: "state_of d (ack_actionId p) = Some (a_state a)" using a by (simp add: state_of_def)
  have ackd: "acknowledgeable (a_state a)" using cur by (simp add: ack_current_def)
  note only = writes_action_only [OF f]
  show "moves d d'"
    by (rule moves_only [OF only d'(1) st0 st])
      (cases "ack_kind p"; simp add: awaiting_submission_def)
  show "keeps_final d d'"
    by (rule keeps_final_only [OF only]) (use st0 ackd action_state_disjoint in auto)
qed


subsection \<open>Operations that end or leave actions\<close>

lemma end_actions_effect:
  assumes "\<not> awaiting_submission state"
  shows "moves d (end_actions p state code message now d)"
    and "keeps_final d (end_actions p state code message now d)"
proof -
  have st: "state_of (end_actions p state code message now d) i =
      map_option (\<lambda>a. if p a \<and> open_action_state (a_state a) then state else a_state a)
        (find_action i (db_actions d))" for i
    by (auto simp: state_of_def end_actions_def find_where_update_where option.map_comp comp_def
        intro!: option.map_cong0)
  have att: "db_attempts (end_actions p state code message now d) = db_attempts d"
    by (simp add: end_actions_def)
  have "state_moves d (end_actions p state code message now d)"
    using assms by (auto simp: state_moves_def st) (auto simp: state_of_def)
  then show "moves d (end_actions p state code message now d)"
    by (simp add: moves_def att list_all2_refl)
  show "keeps_final d (end_actions p state code message now d)"
    unfolding keeps_final_def st
    by (auto simp: state_of_def open_action_state_def terminal_action_state_def)
qed

definition same_actions :: "db \<Rightarrow> db \<Rightarrow> bool" where
  "same_actions d d' \<longleftrightarrow> db_actions d' = db_actions d \<and> db_attempts d' = db_attempts d"

lemma same_actions_moves: "same_actions d d' \<Longrightarrow> moves d d' \<and> keeps_final d d'"
  using moves_frame by (simp add: same_actions_def)

lemma same_actions_refl [simp]: "same_actions d d"
  by (simp add: same_actions_def)

lemma same_actions_trans: "same_actions d d1 \<Longrightarrow> same_actions d1 d2 \<Longrightarrow> same_actions d d2"
  by (simp add: same_actions_def)

lemma upsert_tables [simp]:
  "db_actions (upsertAgentStatusState r s d) = db_actions d"
  "db_attempts (upsertAgentStatusState r s d) = db_attempts d"
  "db_sessions (upsertAgentStatusState r s d) = db_sessions d"
  "db_waits (upsertAgentStatusState r s d) = db_waits d"
  "db_runs (upsertAgentStatusState r s d) = db_runs d"
  "db_observations (upsertAgentStatusState r s d) = db_observations d"
  "db_memberships (upsertAgentStatusState r s d) = db_memberships d"
  by (simp_all add: upsertAgentStatusState_def)

lemma trim_tables [simp]:
  "db_actions (trimAgentStatusEvents r n d) = db_actions d"
  "db_attempts (trimAgentStatusEvents r n d) = db_attempts d"
  "db_sessions (trimAgentStatusEvents r n d) = db_sessions d"
  "db_waits (trimAgentStatusEvents r n d) = db_waits d"
  "db_runs (trimAgentStatusEvents r n d) = db_runs d"
  "db_statuses (trimAgentStatusEvents r n d) = db_statuses d"
  "db_memberships (trimAgentStatusEvents r n d) = db_memberships d"
  by (simp_all add: trimAgentStatusEvents_def Let_def)

lemma supersede_tables [simp]:
  "db_actions (supersede_waits p now d) = db_actions d"
  "db_attempts (supersede_waits p now d) = db_attempts d"
  "db_sessions (supersede_waits p now d) = db_sessions d"
  "db_runs (supersede_waits p now d) = db_runs d"
  "db_statuses (supersede_waits p now d) = db_statuses d"
  "db_memberships (supersede_waits p now d) = db_memberships d"
  by (simp_all add: supersede_waits_def)

lemma append_wait_events_tables [simp]:
  "db_actions (foldl (\<lambda>d i. append_wait_event i now d) d ws) = db_actions d"
  "db_attempts (foldl (\<lambda>d i. append_wait_event i now d) d ws) = db_attempts d"
  "db_sessions (foldl (\<lambda>d i. append_wait_event i now d) d ws) = db_sessions d"
  "db_runs (foldl (\<lambda>d i. append_wait_event i now d) d ws) = db_runs d"
  "db_waits (foldl (\<lambda>d i. append_wait_event i now d) d ws) = db_waits d"
  by (induction ws arbitrary: d) simp_all

lemma revoke_same [simp]: "same_actions d (revokeReporterAuthority now r n d)"
  by (simp add: revokeReporterAuthority_def Let_def same_actions_def)

lemma insert_event_tables:
  assumes "insertAgentStatusEvent r e s k o' t p d = Inr d'"
  shows "db_actions d' = db_actions d" "db_attempts d' = db_attempts d" "db_sessions d' = db_sessions d"
    "db_runs d' = db_runs d" "db_waits d' = db_waits d" "db_statuses d' = db_statuses d"
    "db_memberships d' = db_memberships d"
  using assms by (auto simp: insertAgentStatusEvent_def split: if_splits)

definition events_only :: "db \<Rightarrow> db \<Rightarrow> bool" where
  "events_only d d' \<longleftrightarrow> (\<exists>es n. d' = d\<lparr>db_events := es, db_eventSeq := n\<rparr>)"

lemma events_only_intros:
  "events_only d d" "events_only d d' \<Longrightarrow> events_only d (append_event a b c p t d')"
proof -
  have "d = d\<lparr>db_events := db_events d, db_eventSeq := db_eventSeq d\<rparr>" by simp
  then show "events_only d d" unfolding events_only_def by blast
next
  assume "events_only d d'"
  then obtain es n where "d' = d\<lparr>db_events := es, db_eventSeq := n\<rparr>"
    by (auto simp: events_only_def)
  then have "append_event a b c p t d' = d\<lparr>db_events := db_events (append_event a b c p t d'),
      db_eventSeq := db_eventSeq (append_event a b c p t d')\<rparr>"
    by (simp add: append_event_def)
  then show "events_only d (append_event a b c p t d')" unfolding events_only_def by blast
qed

lemma domain_events_shape:
  assumes "appendAgentStatusDomainEvents r p n now d = Inr d'"
  shows "events_only d d'"
proof (cases "r_owner r")
  case (MemberRun g m)
  show ?thesis
  proof (cases "status_material p n")
    case True
    then obtain st where "getAgentStatusDetail d g m None = Inr st"
      using assms MemberRun by (auto simp: appendAgentStatusDomainEvents_def rbind_eq_Inr)
    then show ?thesis
      using assms MemberRun True
      by (cases "attention_raised p n")
        (auto simp: appendAgentStatusDomainEvents_def Let_def intro!: events_only_intros)
  qed (use assms in \<open>simp add: appendAgentStatusDomainEvents_def events_only_intros\<close>)
next
  case (ForemanRun f)
  then show ?thesis
    using assms by (cases "status_material p n")
      (auto simp: appendAgentStatusDomainEvents_def intro!: events_only_intros)
qed

lemma domain_events_tables:
  assumes "appendAgentStatusDomainEvents r p n now d = Inr d'"
  shows "db_actions d' = db_actions d" "db_attempts d' = db_attempts d" "db_sessions d' = db_sessions d"
    "db_runs d' = db_runs d" "db_waits d' = db_waits d" "db_statuses d' = db_statuses d"
    "db_observations d' = db_observations d" "db_memberships d' = db_memberships d"
  using domain_events_shape [OF assms] by (auto simp: events_only_def)

lemma rbind_constD: "rbind m (\<lambda>_. r) = Inr x \<Longrightarrow> r = Inr x"
  by (auto simp: rbind_eq_Inr)

lemma open_wait_reported_shape:
  assumes "open_wait_reported now w g m r s i v d = Inr d'"
  shows "d' = d \<or> (\<exists>x. d' = append_wait_event w now (d\<lparr>db_waits := db_waits d @ [x]\<rparr>))"
proof -
  obtain q k sm ch where i: "in_requestId i = Some q" "d_waitKind (in_data i) = Some k"
    "d_summary (in_data i) = Some sm" "d_replyChannel (in_data i) = Some ch"
    using assms by (cases "in_requestId i"; cases "d_waitKind (in_data i)"; cases "d_summary (in_data i)";
        cases "d_replyChannel (in_data i)") (simp_all add: open_wait_reported_def)
  let ?x = "opened_wait now w g m r s i q k sm ch v"
  show ?thesis
  proof (cases "find_where (wait_key r s q) (db_waits d)")
    case None
    then have "d' = append_wait_event w now (d\<lparr>db_waits := db_waits d @ [?x]\<rparr>)"
      using assms unfolding open_wait_reported_def
      by (cases "find_wait w (db_waits d)") (auto simp: i Let_def dest!: rbind_constD)
    then show ?thesis by blast
  next
    case (Some y)
    then have "d' = d" using assms unfolding open_wait_reported_def
      by (cases "same_wait y ?x") (auto simp: i Let_def dest!: rbind_constD)
    then show ?thesis by blast
  qed
qed

lemma close_wait_reported_shape:
  assumes "close_wait_reported now r s i d = Inr d'"
  shows "\<exists>ws. d' = d\<lparr>db_waits := ws\<rparr> \<or> (\<exists>x. d' = append_wait_event x now (d\<lparr>db_waits := ws\<rparr>))"
proof -
  obtain q where q: "in_requestId i = Some q"
    using assms by (cases "in_requestId i") (simp_all add: close_wait_reported_def)
  let ?p = "\<lambda>w. wait_key r s q w \<and> wait_pending w"
  show ?thesis
    using assms unfolding close_wait_reported_def Let_def
    by (cases "find_where ?p (db_waits d)"; cases "count_where ?p (db_waits d) = 1") (auto simp: q)
qed

lemma wait_event_shape:
  assumes "applyOpenWaitReporterEvent now w r s i st d = Inr d'"
  shows "d' = d \<or> (\<exists>ws x. d' = d\<lparr>db_waits := ws\<rparr> \<or> d' = append_wait_event x now (d\<lparr>db_waits := ws\<rparr>))"
proof (cases "r_owner r")
  case (MemberRun g m)
  consider "in_event i = Ev_wait_opened" | "in_event i = Ev_wait_closed"
    | "in_event i \<noteq> Ev_wait_opened" "in_event i \<noteq> Ev_wait_closed" by blast
  then show ?thesis
  proof cases
    case 1
    then have "open_wait_reported now w g m r s i (st_statusRevision st) d = Inr d'"
      using assms MemberRun by (simp add: applyOpenWaitReporterEvent_def)
    from open_wait_reported_shape [OF this] show ?thesis by blast
  next
    case 2
    then have "close_wait_reported now r s i d = Inr d'"
      using assms MemberRun by (simp add: applyOpenWaitReporterEvent_def)
    from close_wait_reported_shape [OF this] show ?thesis by blast
  next
    case 3
    then show ?thesis using assms MemberRun by (simp add: applyOpenWaitReporterEvent_def)
  qed
next
  case (ForemanRun f)
  then show ?thesis using assms by (simp add: applyOpenWaitReporterEvent_def)
qed

lemma wait_event_tables:
  assumes "applyOpenWaitReporterEvent now w r s i st d = Inr d'"
  shows "db_actions d' = db_actions d" "db_attempts d' = db_attempts d" "db_sessions d' = db_sessions d"
    "db_runs d' = db_runs d" "db_statuses d' = db_statuses d" "db_memberships d' = db_memberships d"
  using wait_event_shape [OF assms] by auto

subsection \<open>Operations that leave actions alone\<close>

definition session_moves :: "reporter_session \<Rightarrow> reporter_session \<Rightarrow> bool" where
  "session_moves s' s \<longleftrightarrow>
     rs_id s' = rs_id s \<and> rs_runId s' = rs_runId s \<and> rs_generation s' = rs_generation s \<and>
     rs_reporterEpoch s' = rs_reporterEpoch s \<and> rs_sourceSequence s \<le> rs_sourceSequence s' \<and>
     (rs_revokedAt s' = None \<longrightarrow> rs_revokedAt s = None) \<and> (rs_closedAt s' = None \<longrightarrow> rs_closedAt s = None)"

definition sessions_move :: "db \<Rightarrow> db \<Rightarrow> bool" where
  "sessions_move d d' \<longleftrightarrow> list_all2 session_moves (db_sessions d') (db_sessions d)"

lemma session_moves_refl [simp]: "session_moves s s"
  by (simp add: session_moves_def)

lemma session_moves_trans: "session_moves s2 s1 \<Longrightarrow> session_moves s1 s \<Longrightarrow> session_moves s2 s"
  by (auto simp: session_moves_def)

lemma sessions_move_same: "db_sessions d' = db_sessions d \<Longrightarrow> sessions_move d d'"
  by (simp add: sessions_move_def list_all2_refl)

lemma sessions_move_trans: "sessions_move d d1 \<Longrightarrow> sessions_move d1 d2 \<Longrightarrow> sessions_move d d2"
  unfolding sessions_move_def by (rule list_all2_trans [OF session_moves_trans])

lemma sessions_move_update:
  assumes "db_sessions d' = update_where p f (db_sessions d)"
    and "\<And>s. s \<in> set (db_sessions d) \<Longrightarrow> p s \<Longrightarrow> session_moves (f s) s"
  shows "sessions_move d d'"
  unfolding sessions_move_def assms(1) by (rule list_all2_update_where) (use assms(2) in auto)

lemma current_session_in:
  assumes "getCurrentReporterSession d r n = Some s"
  shows "s \<in> set (db_sessions d) \<and> rs_runId s = r \<and> rs_generation s = n \<and>
         rs_revokedAt s = None \<and> rs_closedAt s = None"
  using assms max_by_in by (fastforce simp: getCurrentReporterSession_def session_current_def)

lemma same_session:
  assumes "distinct (map rs_id ss)" and "s \<in> set ss" and "u \<in> set ss" and "rs_id s = rs_id u"
  shows "s = u"
  using assms by (metis distinct_map inj_onD)

lemma close_session_moves: "session_moves (close_session now s) s"
  by (simp add: session_moves_def close_session_def)

lemma revoke_sessions: "sessions_move d (revokeReporterAuthority now r n d)"
  by (rule sessions_move_update [where p = "\<lambda>s. rs_runId s = r \<and> rs_generation s = n \<and> rs_closedAt s = None"
        and f = "close_session now"])
    (simp_all add: revokeReporterAuthority_def Let_def close_session_moves)

lemma revoke_runs [simp]: "db_runs (revokeReporterAuthority now r n d) = db_runs d"
  by (simp add: revokeReporterAuthority_def Let_def)

lemma bind_frame:
  assumes "bindReporterProcess now r n p d = (d', x)"
  shows "same_actions d d'" and "sessions_move d d'"
proof -
  have "same_actions d d' \<and> sessions_move d d'"
  proof (cases "getCurrentReporterSession d r n")
    case None
    then show ?thesis using assms by (simp add: bindReporterProcess_def sessions_move_same)
  next
    case (Some s)
    show ?thesis
    proof (cases "rs_processFingerprint s \<noteq> None \<and> rs_processFingerprint s \<noteq> Some (ref_fingerprint p) \<and>
             \<not> same_kernel_process p (last_process d r n)")
      case True
      then have "d' = revokeReporterAuthority now r n d"
        using assms Some by (simp add: bindReporterProcess_def)
      then show ?thesis by (simp add: revoke_sessions)
    next
      case False
      then have "d' = d\<lparr>db_sessions := update_where
          (\<lambda>u. rs_id u = rs_id s \<and> rs_revokedAt u = None \<and> rs_closedAt u = None)
          (\<lambda>u. u\<lparr>rs_processFingerprint := Some (ref_fingerprint p)\<rparr>) (db_sessions d)\<rparr>"
        using assms Some unfolding bindReporterProcess_def by (simp split: if_splits)
      then show ?thesis
        by (auto simp: same_actions_def session_moves_def intro!: sessions_move_update)
    qed
  qed
  then show "same_actions d d'" "sessions_move d d'" by auto
qed

lemma refresh_frame:
  assumes "refreshReporterLease r n l d = (d', x)"
  shows "same_actions d d'" and "sessions_move d d'"
proof -
  have "same_actions d d' \<and> sessions_move d d'"
  proof (cases "getCurrentReporterSession d r n")
    case None
    then show ?thesis using assms by (simp add: refreshReporterLease_def sessions_move_same)
  next
    case (Some s)
    let ?d = "d\<lparr>db_sessions := update_where
        (\<lambda>u. rs_id u = rs_id s \<and> rs_revokedAt u = None \<and> rs_closedAt u = None)
        (\<lambda>u. u\<lparr>rs_leaseExpiresAt := l\<rparr>) (db_sessions d)\<rparr>"
    have "db_actions d' = db_actions ?d \<and> db_attempts d' = db_attempts ?d \<and> db_sessions d' = db_sessions ?d"
      using assms Some unfolding refreshReporterLease_def Let_def
      by (auto split: sum.splits if_splits)
    then show ?thesis
      by (auto simp: same_actions_def session_moves_def intro!: sessions_move_update)
  qed
  then show "same_actions d d'" "sessions_move d d'" by auto
qed

lemma advance_session_moves:
  "rs_sourceSequence s < in_sourceSequence i \<Longrightarrow> session_moves (advance_session i l s) s"
  by (simp add: session_moves_def advance_session_def)

lemma ingest_InrD:
  assumes "ingestRuntimeStatusEvent now w who event d = Inr (d', st)"
  shows "\<exists>input run profile session.
           parse_event_input event = Inr input \<and> requireCurrentStatusRun d who = Inr run \<and>
           admit_event now run profile input d = Inr session \<and>
           same_actions d d' \<and> db_runs d' = db_runs d \<and>
           db_sessions d' = update_where (\<lambda>s. rs_id s = rs_id session)
              (advance_session input (now + REPORTER_LEASE_MS)) (db_sessions d)"
proof -
  obtain input run profile session where h: "parse_event_input event = Inr input"
    "requireCurrentStatusRun d who = Inr run"
    "requireAgentProfile d (r_agentProfileId run) = Inr profile"
    "admit_event now run profile input d = Inr session"
    using assms unfolding ingestRuntimeStatusEvent_def rbind_eq_Inr by blast
  let ?l = "now + REPORTER_LEASE_MS"
  let ?d1 = "put_session (rs_id session) (advance_session input ?l) d"
  let ?next = "reduceAgentStatus (agentStatusState ?d1 run)
                 (ReporterEvent now input (session_authority session ?l))"
  obtain d2 where d2: "insertAgentStatusEvent run (in_eventId input) (source_name (in_source input))
      (event_kind_name (in_event input)) (in_occurredAt input) now None ?d1 = Inr d2"
    and r2: "\<exists>d3. applyOpenWaitReporterEvent now w run session input ?next d2 = Inr d3 \<and>
       (\<exists>d5. appendAgentStatusDomainEvents run (agentStatusState ?d1 run) ?next now
         (trimAgentStatusEvents (r_id run) (r_generation run) (upsertAgentStatusState run ?next d3)) = Inr d5 \<and>
         d' = d5)"
    using assms unfolding ingestRuntimeStatusEvent_def h(1) rbind_simps h(2) h(3) h(4) Let_def rbind_eq_Inr
    by blast
  then obtain d3 where d3: "applyOpenWaitReporterEvent now w run session input ?next d2 = Inr d3"
    and d5: "appendAgentStatusDomainEvents run (agentStatusState ?d1 run) ?next now
         (trimAgentStatusEvents (r_id run) (r_generation run) (upsertAgentStatusState run ?next d3)) = Inr d'"
    by blast
  have "db_actions d' = db_actions d \<and> db_attempts d' = db_attempts d \<and> db_runs d' = db_runs d \<and>
        db_sessions d' = db_sessions ?d1"
    using insert_event_tables [OF d2] wait_event_tables [OF d3] domain_events_tables [OF d5]
    by (simp add: put_session_def)
  then show ?thesis using h by (auto simp: same_actions_def put_session_def)
qed


lemma ingest_frame:
  assumes "ingestRuntimeStatusEvent now w who event d = Inr (d', st)"
    and "distinct (map rs_id (db_sessions d))"
  shows "same_actions d d'" and "sessions_move d d'" and "db_runs d' = db_runs d"
proof -
  obtain input run profile session where h: "admit_event now run profile input d = Inr session"
    "same_actions d d'" "db_runs d' = db_runs d"
    "db_sessions d' = update_where (\<lambda>s. rs_id s = rs_id session)
       (advance_session input (now + REPORTER_LEASE_MS)) (db_sessions d)"
    using ingest_InrD [OF assms(1)] by blast
  show "same_actions d d'" "db_runs d' = db_runs d" by (rule h(2,3))+
  have s: "session \<in> set (db_sessions d)" "rs_sourceSequence session < in_sourceSequence input"
    using h(1) current_session_in by (auto simp: admit_event_def split: option.splits if_splits)
  show "sessions_move d d'"
    by (rule sessions_move_update [OF h(4)], rule advance_session_moves)
      (use s same_session [OF assms(2)] in metis)
qed

lemma screen_frame:
  assumes "recordScreenObservation now r s d = Inr (d', st)"
  shows "same_actions d d'" and "sessions_move d d'" and "db_runs d' = db_runs d"
proof -
  obtain p run g m where run: "parse_screen s = Inr p" "getRun d r = Inr run" "r_owner run = MemberRun g m"
    using assms by (cases "parse_screen s"; cases "getRun d r")
      (auto simp: recordScreenObservation_def Let_def split: if_splits run_owner.splits)
  then obtain previous nxt where "appendAgentStatusDomainEvents run previous nxt now
      (upsertAgentStatusState run nxt (insert_screen run p d)) = Inr d'"
    using assms by (auto simp: recordScreenObservation_def Let_def rbind_eq_Inr split: if_splits)
  from domain_events_tables [OF this]
  show "same_actions d d'" "sessions_move d d'" "db_runs d' = db_runs d"
    by (auto simp: same_actions_def insert_screen_def Let_def intro!: sessions_move_same)
qed

lemma progress_frame:
  assumes "reportAgentProgress now e g m r n c d = Inr (d', st)"
  shows "same_actions d d'" and "sessions_move d d'" and "db_runs d' = db_runs d"
proof -
  obtain input run where h: "parse_progress c = Inr input"
    "requireCurrentAgentStatusRun d g m r n = Inr run"
    using assms unfolding reportAgentProgress_def rbind_eq_Inr by blast
  let ?d0 = "d\<lparr>db_progressReports := db_progressReports d @ [(e, r_id run, r_generation run, input, now)]\<rparr>"
  let ?next = "reduceAgentStatus (agentStatusState ?d0 run) (ProgressReported e now input)"
  obtain d1 where d1: "insertAgentStatusEvent run e ''status_api'' ''progress.reported'' None now None ?d0 = Inr d1"
    and d3: "appendAgentStatusDomainEvents run (agentStatusState ?d0 run) ?next now
       (trimAgentStatusEvents (r_id run) (r_generation run) (upsertAgentStatusState run ?next d1)) = Inr d'"
    using assms unfolding reportAgentProgress_def h(1) rbind_simps h(2) Let_def rbind_eq_Inr by blast
  show "same_actions d d'" "sessions_move d d'" "db_runs d' = db_runs d"
    using insert_event_tables [OF d1] domain_events_tables [OF d3]
    by (auto simp: same_actions_def intro!: sessions_move_same)
qed

lemma process_frame:
  assumes "recordRuntimeProcessStatus now r obs d = Inr (d', st)"
  shows "same_actions d d' \<and> sessions_move d d' \<and> db_runs d' = db_runs d"
proof -
  obtain run where run: "getRuntimeRun d r = Inr run"
    using assms unfolding recordRuntimeProcessStatus_def rbind_eq_Inr by blast
  show ?thesis
  proof (cases "observation_known d run (process_eventId obs)")
    case True
    then have "d' = d" using assms run by (auto simp: recordRuntimeProcessStatus_def rbind_eq_Inr)
    then show ?thesis by (simp add: sessions_move_same)
  next
    case False
    let ?next = "reduceAgentStatus (agentStatusState d run) (ProcessObs obs)"
    obtain d1 where d1: "insertAgentStatusEvent run (process_eventId obs) ''process'' (process_kind obs) None
        (process_time obs) (process_payload obs) d = Inr d1"
      and d3: "appendAgentStatusDomainEvents run (agentStatusState d run) ?next now
         (trimAgentStatusEvents (r_id run) (r_generation run) (upsertAgentStatusState run ?next d1)) = Inr d'"
      using assms unfolding recordRuntimeProcessStatus_def run rbind_simps Let_def if_not_P [OF False] rbind_eq_Inr
      by blast
    show ?thesis
      using insert_event_tables [OF d1] domain_events_tables [OF d3]
      by (auto simp: same_actions_def intro!: sessions_move_same)
  qed
qed

lemma register_frame:
  assumes "registerReporterSession s d = Inr (d', p)"
  shows "same_actions d d'" and "db_runs d' = db_runs d"
    and "db_sessions d' = update_where (\<lambda>u. rs_runId u = rs_runId p \<and> rs_generation u = rs_generation p \<and>
            rs_reporterEpoch u \<noteq> rs_reporterEpoch p \<and> rs_closedAt u = None)
          (close_session (rs_openedAt p)) (db_sessions d) @ [p]"
    and "find_where (\<lambda>r. rs_id r = rs_id p) (db_sessions d) = None"
    and "find_where (\<lambda>r. rs_runId r = rs_runId p \<and> rs_generation r = rs_generation p \<and>
            rs_reporterEpoch r = rs_reporterEpoch p) (db_sessions d) = None"
proof -
  obtain q where q: "parse_reporter_session s = Inr q"
    using assms by (cases "parse_reporter_session s") (simp_all add: registerReporterSession_def)
  let ?ss = "update_where (\<lambda>u. rs_runId u = rs_runId q \<and> rs_generation u = rs_generation q \<and>
            rs_reporterEpoch u \<noteq> rs_reporterEpoch q \<and> rs_closedAt u = None)
          (close_session (rs_openedAt q)) (db_sessions d)"
  let ?d1 = "d\<lparr>db_sessions := ?ss\<rparr>"
  have r: "(if \<not> insertable_session ?d1 q then Inl ConstraintError
      else Inr (?d1\<lparr>db_sessions := db_sessions ?d1 @ [q]\<rparr>, q)) = Inr (d', p)"
    using assms unfolding registerReporterSession_def q rbind_simps Let_def .
  then have ins: "insertable_session ?d1 q" by (simp split: if_splits)
  have p: "p = q" and d': "d' = d\<lparr>db_sessions := ?ss @ [q]\<rparr>"
    using r ins by (simp, auto)
  show "same_actions d d'" "db_runs d' = db_runs d" by (simp_all add: d' same_actions_def)
  show "db_sessions d' = update_where (\<lambda>u. rs_runId u = rs_runId p \<and> rs_generation u = rs_generation p \<and>
            rs_reporterEpoch u \<noteq> rs_reporterEpoch p \<and> rs_closedAt u = None)
          (close_session (rs_openedAt p)) (db_sessions d) @ [p]" by (simp add: d' p)
  have closed: "rs_id (close_session t u) = rs_id u \<and> rs_runId (close_session t u) = rs_runId u \<and>
      rs_generation (close_session t u) = rs_generation u \<and>
      rs_reporterEpoch (close_session t u) = rs_reporterEpoch u" for t u
    by (simp add: close_session_def)
  show "find_where (\<lambda>r. rs_id r = rs_id p) (db_sessions d) = None"
    using ins unfolding insertable_session_def p
    by (simp add: find_where_update_where [where key = rs_id] closed)
  have "find_where (\<lambda>r. (rs_runId r, rs_generation r, rs_reporterEpoch r) =
          (rs_runId p, rs_generation p, rs_reporterEpoch p)) ?ss = None"
    using ins by (simp add: insertable_session_def p)
  then show "find_where (\<lambda>r. rs_runId r = rs_runId p \<and> rs_generation r = rs_generation p \<and>
            rs_reporterEpoch r = rs_reporterEpoch p) (db_sessions d) = None"
    by (subst (asm) find_where_update_where) (simp_all add: closed)
qed

lemma wait_reply_frame:
  "beginOpenWaitReply now w ex d = Inr (d', x) \<Longrightarrow> same_actions d d' \<and> db_sessions d' = db_sessions d \<and> db_runs d' = db_runs d"
  "resetOpenWaitReply now w d = Inr (d', x) \<Longrightarrow> same_actions d d' \<and> db_sessions d' = db_sessions d \<and> db_runs d' = db_runs d"
  by (auto simp: beginOpenWaitReply_def resetOpenWaitReply_def rbind_eq_Inr same_actions_def Let_def
      split: if_splits)


subsection \<open>Runs\<close>

lemma insert_run_frame:
  assumes "insert_run now r d = Inr (d', x)"
  shows "same_actions d d'" and "db_sessions d' = db_sessions d"
  using assms by (auto simp: insert_run_def same_actions_def split: if_splits)

lemma same_actions_cong:
  assumes "same_actions d1 d'"
  shows "moves d d1 \<Longrightarrow> moves d d'" and "keeps_final d d1 \<Longrightarrow> keeps_final d d'"
  using same_actions_moves [OF assms] moves_trans keeps_final_trans by blast+

lemma supersede_same [simp]: "same_actions d (supersede_waits p now d)"
  by (simp add: same_actions_def)

lemma create_run_frame:
  assumes "createRuntimeRun now r d = Inr (d', x)"
  shows "moves d d' \<and> keeps_final d d' \<and> db_sessions d' = db_sessions d"
proof -
  obtain q where q: "parse_run r = Inr q"
    using assms by (cases "parse_run r") (simp_all add: createRuntimeRun_def)
  show ?thesis
  proof (cases "r_owner q")
    case (ForemanRun f)
    then have "insert_run now q d = Inr (d', x)"
      using assms by (auto simp: createRuntimeRun_def q rbind_eq_Inr split: if_splits)
    then show ?thesis using insert_run_frame same_actions_moves by blast
  next
    case (MemberRun g m)
    let ?p = "\<lambda>a. tg_groupId (a_target a) = g \<and> tg_memberId (a_target a) = m \<and>
                tg_runId (a_target a) \<noteq> r_id q"
    let ?d1 = "end_actions ?p As_superseded ''run_replaced'' ''The target run was replaced'' now d"
    let ?d2 = "supersede_waits (\<lambda>w. ow_groupId w = g \<and> ow_memberId w = m \<and> ow_runId w \<noteq> r_id q) now ?d1"
    have ins: "insert_run now q ?d2 = Inr (d', x)"
      using assms MemberRun
      by (cases "getMembershipRow d g m") (auto simp: createRuntimeRun_def q split: if_splits)
    have "moves d ?d1" "keeps_final d ?d1"
      by (rule end_actions_effect; simp add: awaiting_submission_def)+
    moreover have "same_actions ?d1 d'" "db_sessions d' = db_sessions d"
      using insert_run_frame [OF ins] by (simp_all add: same_actions_def end_actions_def)
    ultimately show ?thesis using same_actions_cong by blast
  qed
qed

lemma run_for_membership_frame:
  assumes "createRunForMembership now i loc g m opts d = Inr (d', x)"
  shows "moves d d' \<and> keeps_final d d' \<and> db_sessions d' = db_sessions d"
proof -
  obtain ms where ms: "getMembershipRow d g m = Some ms"
    using assms by (cases "getMembershipRow d g m") (auto simp: createRunForMembership_def rbind_eq_Inr)
  have "\<exists>r. createRuntimeRun now r d = Inr (d', x)"
    using assms by (auto simp: createRunForMembership_def ms rbind_eq_Inr split: if_splits)
  then show ?thesis using create_run_frame by blast
qed

lemma change_status_frame:
  assumes "change_run_status now r s t why d = Inr (d', x)"
  shows "moves d d' \<and> keeps_final d d' \<and> db_sessions d' = db_sessions d"
proof -
  let ?d0 = "put_run (r_id r) (with_status now r s t why) d"
  have d': "same_actions (end_run_work s now (r_id r) ?d0) d'"
    "db_sessions d' = db_sessions (end_run_work s now (r_id r) ?d0)"
    using assms by (auto simp: change_run_status_def Let_def rbind_eq_Inr same_actions_def)
  have d0: "same_actions d ?d0" "db_sessions ?d0 = db_sessions d"
    by (simp_all add: put_run_def same_actions_def)
  have fin: "moves ?d0 (end_run_work s now (r_id r) ?d0) \<and>
      keeps_final ?d0 (end_run_work s now (r_id r) ?d0)"
    unfolding end_run_work_def
    by (auto intro!: same_actions_cong [OF supersede_same] end_actions_effect simp: awaiting_submission_def)
  have "db_sessions (end_run_work s now (r_id r) ?d0) = db_sessions d"
    using d0 by (simp add: end_run_work_def end_actions_def)
  then show ?thesis
    using same_actions_moves [OF d0(1)] fin d' same_actions_cong [OF d'(1)] moves_trans keeps_final_trans
    by metis
qed

definition world_moves :: "db \<Rightarrow> db \<Rightarrow> bool" where
  "world_moves d d' \<longleftrightarrow> moves d d' \<and> keeps_final d d' \<and> sessions_move d d'"

lemma world_moves_refl [simp]: "world_moves d d"
  by (simp add: world_moves_def sessions_move_same)

lemma world_moves_trans: "world_moves d d1 \<Longrightarrow> world_moves d1 d2 \<Longrightarrow> world_moves d d2"
  unfolding world_moves_def using moves_trans keeps_final_trans sessions_move_trans by blast

lemma world_moves_same: "same_actions d d' \<Longrightarrow> sessions_move d d' \<Longrightarrow> world_moves d d'"
  using same_actions_moves by (simp add: world_moves_def)

lemma after_process_moves:
  assumes "recordProcessStatus now r obs d = x"
  shows "world_moves d (fst (after_process res d x))"
proof (cases x)
  case (Inr p)
  then obtain d1 s where p: "x = Inr (d1, s)" by (cases p) auto
  have "recordRuntimeProcessStatus now r obs d = Inr (d1, s)"
    using assms by (auto simp: p recordProcessStatus_def rbind_eq_Inr)
  from process_frame [OF this] show ?thesis by (simp add: p after_process_def world_moves_same)
qed (simp add: after_process_def)

lemma run_status_moves:
  "world_moves d (fst (updateRuntimeRunStatus now i s t why d))"
proof (cases "getRuntimeRun d i")
  case (Inr r)
  note run = Inr
  show ?thesis
  proof (cases "change_run_status now r s t why d")
    case (Inl e)
    then show ?thesis by (simp add: updateRuntimeRunStatus_def run)
  next
    case (Inr p)
    then obtain d1 x where p: "change_run_status now r s t why d = Inr (d1, x)" by (cases p) auto
    have 1: "world_moves d d1"
      using change_status_frame [OF p] by (simp add: world_moves_def sessions_move_same)
    have 2: "world_moves d1 (revokeReporterAuthority now i (r_generation r) d1)"
      by (simp add: world_moves_same revoke_sessions)
    note 12 = world_moves_trans [OF 1 2]
    show ?thesis
      using 1 12 world_moves_trans [OF 1 after_process_moves [OF refl]]
        world_moves_trans [OF 12 after_process_moves [OF refl]]
      by (cases "r_owner r") (simp_all add: updateRuntimeRunStatus_def run p Let_def)
  qed
qed (simp add: updateRuntimeRunStatus_def)

lemma metadata_moves: "world_moves d (fst (updateRuntimeRunProviderMetadata i m d))"
  by (cases "getRuntimeRun d i")
    (simp_all add: updateRuntimeRunProviderMetadata_def Let_def put_run_def world_moves_same
      same_actions_def sessions_move_same)

lemma recovery_moves:
  "transitionRunRecovery now i n ph inc nb why d = Inr (d', r) \<Longrightarrow> world_moves d d'"
  "stopDesiredRun now i n reason d = Inr (d', r) \<Longrightarrow> world_moves d d'"
  by (auto simp: transitionRunRecovery_def stopDesiredRun_def rbind_eq_Inr Let_def same_actions_def
      split: if_splits intro!: world_moves_same sessions_move_same)

subsection \<open>The services\<close>

lemma transition_only_moves:
  assumes "transitionAgentAction now i ex s' opts d = Inr (d', r)" and "\<not> awaiting_submission s'"
  shows "moves d d'"
proof -
  obtain s where s: "state_of d i = Some s" "state_of d' i = Some s'" "only_moves i d d'"
    "db_attempts d' = db_attempts d"
    using transition_effect [OF assms(1)] by blast
  show ?thesis by (rule moves_only [OF s(3,4,1,2)]) (use assms(2) in simp)
qed

lemma submission_failed_moves:
  assumes "attempts_sound d"
  shows "moves d (fst (submission_failed now describe owner i k written err d)) \<and>
         keeps_final d (fst (submission_failed now describe owner i k written err d))"
proof (cases "find_action i (db_actions d)")
  case None
  then show ?thesis by (simp add: submission_failed_def getAgentAction_def)
next
  case (Some a)
  then have st: "state_of d i = Some (a_state a)" by (simp add: state_of_def)
  let ?code = "error_code ''agent_action_submission_failed'' err"
  have drop: "fst (drop_value d0 (Inr (d1, v))) = d1" "fst (drop_value d0 (Inl e)) = d0"
    for d0 d1 :: db and v :: agent_action and e
    by (simp_all add: drop_value_def)
  consider (final) "terminal_action_state (a_state a)"
    | (written) "\<not> terminal_action_state (a_state a)" "written"
    | (unwritten) "\<not> terminal_action_state (a_state a)" "\<not> written" by blast
  then show ?thesis
  proof cases
    case final
    have eq: "submission_failed now describe owner i k written err d =
        drop_value d (abandonAgentActionAttempt now i k owner ?code d)"
      using final Some by (simp add: submission_failed_def getAgentAction_def Let_def)
    show ?thesis
    proof (cases "abandonAgentActionAttempt now i k owner ?code d")
      case (Inr p)
      then obtain d1 v where p: "abandonAgentActionAttempt now i k owner ?code d = Inr (d1, v)"
        by (cases p) auto
      from abandon_effect [OF p st] final action_state_disjoint
      have "moves d d1" "db_actions d1 = db_actions d" by blast+
      then show ?thesis unfolding eq p drop by (simp add: keeps_final_def state_of_def)
    qed (simp add: eq drop)
  next
    case unwritten
    show ?thesis
    proof (cases "snd (submission_failed now describe owner i k written err d)")
      case (Inl e)
      then have "fst (submission_failed now describe owner i k written err d) = d"
        using unwritten Some
        by (auto simp: submission_failed_def getAgentAction_def Let_def drop_value_def split: sum.splits prod.splits)
      then show ?thesis by simp
    next
      case (Inr u)
      then obtain fl er d1 v where f: "failAgentActionAttempt now i k owner fl er d = Inr (d1, v)"
        "fst (submission_failed now describe owner i k written err d) = d1"
        using unwritten Some
        by (auto simp: submission_failed_def getAgentAction_def Let_def drop_value_def split: sum.splits prod.splits)
      note e = fail_effect [OF f(1) assms]
      show ?thesis unfolding f(2)
        using e(4) keeps_final_only [OF e(3)] st unwritten by auto
    qed
  next
    case written
    let ?fail = "failAgentActionAttempt now i k owner Fl_stalled
      (final_error ''submission_commit_indeterminate''
         ''Terminal input succeeded but durable submission confirmation failed'') d"
    show ?thesis
    proof (cases ?fail)
      case (Inl e)
      then show ?thesis using written Some
        by (simp add: submission_failed_def getAgentAction_def Let_def)
    next
      case (Inr p)
      then obtain d1 v where p: "?fail = Inr (d1, v)" by (cases p) auto
      note e = fail_effect [OF p assms]
      let ?opts = "with_error ''submission_commit_indeterminate''
        ''Terminal input may have been accepted before the durable commit failed''"
      let ?tr = "transitionAgentAction now i [As_stalled] As_settled_unverified ?opts d1"
      have eq: "fst (submission_failed now describe owner i k written err d) = fst (drop_value d1 ?tr)"
        using written Some p by (simp add: submission_failed_def getAgentAction_def Let_def)
      have nt: "\<not> terminal_action_state s" if "state_of d i = Some s" for s using st that written by simp
      show ?thesis
      proof (cases ?tr)
        case (Inl er)
        then show ?thesis unfolding eq Inl drop using e(4) keeps_final_only [OF e(3) nt] by blast
      next
        case (Inr q)
        then obtain d2 w where q: "?tr = Inr (d2, w)" by (cases q) auto
        have "only_moves i d1 d2" using transition_effect [OF q] by blast
        then have only: "only_moves i d d2" using e(3) by (simp add: only_moves_def)
        have "moves d1 d2" by (rule transition_only_moves [OF q]) (simp add: awaiting_submission_def)
        then show ?thesis unfolding eq q drop
          using moves_trans [OF e(4)] keeps_final_only [OF only nt] by blast
      qed
    qed
  qed
qed


end
