(* ===== verification/World.thy ===== *)
theory World
  imports Action_Protocol "HOL-Library.Code_Target_Nat"
begin

text \<open>
  The store's world: all the operations as the steps of one machine, the invariants they keep
  together (one attempt per action, one open reporter session per run and generation) and the
  properties that hold over every interleaving.
\<close>

subsection \<open>The world\<close>

text \<open>
  The operations on the store's actions, attempts, sessions, waits, runs and statuses, one event per
  synchronous stretch of the code, the Foreman's resets, clean-ups and withdrawals included. Rows are
  never deleted in this world: the removal of a group with its runs and actions
  (\<open>deleteGroup\<close>) and \<open>pruneAgentActions\<close>, which no service calls, are outside it, so its properties speak
  of the actions that are still stored. What the surroundings decide (the clock, the ids the
  code draws, the snapshot of an action a pass works on, the error that reached a catch block) is
  part of the event and unconstrained, so every interleaving of the asynchronous services is a list
  of events. The collaborators are the parameters of \<open>environment\<close>.
\<close>

record environment =
  en_policy :: peer_policy
  en_authorize :: "authorizer option"
  en_fingerprint :: "terminal_binding \<Rightarrow> string"
  en_describe :: "error \<Rightarrow> string"
  en_digest :: "principal \<Rightarrow> create_command \<Rightarrow> string"
  en_onCreated :: "agent_action \<Rightarrow> unit result"
  en_owner :: string
  en_daemonEpoch :: nat
  en_location :: "membership_row \<Rightarrow> (string option \<times> string option) result"

datatype world_event =
  We_create timestamp string principal create_command string
| We_cancel timestamp principal string
| We_acknowledge timestamp string mcp_principal string ack_command
| We_consider timestamp string agent_action
| We_submission_failed timestamp string string bool error
| We_commit timestamp string string
| We_deadline timestamp agent_action
| We_recover timestamp
| We_register reporter_session
| We_bind timestamp string nat process_ref
| We_refresh string nat timestamp
| We_revoke timestamp string nat
| We_ingest timestamp string status_identity event_input
| We_screen timestamp string screen_observation
| We_progress timestamp string string string string nat progress_command
| We_process timestamp string process_observation
| We_run_create timestamp run
| We_run_start timestamp string string string run_options
| We_run_status timestamp string run_status "terminal_binding option" "string option"
| We_run_metadata string run_metadata
| We_run_recovery timestamp string nat recovery_phase bool "timestamp option" "string option"
| We_run_stop timestamp string nat string
| We_wait_begin timestamp string wait_expectation
| We_wait_reset timestamp string
| We_reset timestamp "string list"
    \<comment> \<open>the unsettled actions of the coordination state that is cleared, by id\<close>
| We_cleanup timestamp "(string \<times> string list) list"
    \<comment> \<open>the removed goals, each with the actions linked to it\<close>
| We_withdraw timestamp string

definition result_db :: "db \<Rightarrow> (db \<times> 'a) result \<Rightarrow> db" where
  "result_db d r = (case r of Inl _ \<Rightarrow> d | Inr (d', _) \<Rightarrow> d')"

definition consider_db :: "consider_step \<Rightarrow> db" where
  "consider_db c = (case c of Considered d \<Rightarrow> d | Escaped d _ \<Rightarrow> d | Submitting d _ _ \<Rightarrow> d)"

definition kept_db :: "db \<Rightarrow> db result \<Rightarrow> db" where
  "kept_db d r = (case r of Inl _ \<Rightarrow> d | Inr d' \<Rightarrow> d')"

fun world_step :: "environment \<Rightarrow> db \<Rightarrow> world_event \<Rightarrow> db" where
  "world_step en d (We_create now i who command key) =
     result_db d (create_action now i (en_daemonEpoch en) (en_policy en) (en_digest en)
       (en_onCreated en) who command key d)"
| "world_step en d (We_cancel now who i) = result_db d (cancel_action now who i d)"
| "world_step en d (We_acknowledge now k who i c) = result_db d (acknowledge now k who i c d)"
| "world_step en d (We_consider now k a) =
     (if schedule_choice now a = Consider
      then consider_db (consider_begin now (en_authorize en) (en_fingerprint en) (en_describe en)
             (en_owner en) k a d)
      else d)"
| "world_step en d (We_submission_failed now i k written e) =
     fst (submission_failed now (en_describe en) (en_owner en) i k written e d)"
| "world_step en d (We_commit now i k) =
     fst (commit_submission now (en_describe en) (en_owner en) i k d)"
| "world_step en d (We_deadline now a) = fst (end_at_deadline now a d)"
| "world_step en d (We_recover now) = fst (recoverAmbiguousActionAttempts now d)"
| "world_step en d (We_register s) = result_db d (registerReporterSession s d)"
| "world_step en d (We_bind now r n p) = fst (bindReporterProcess now r n p d)"
| "world_step en d (We_refresh r n l) = fst (refreshReporterLease r n l d)"
| "world_step en d (We_revoke now r n) = revokeReporterAuthority now r n d"
| "world_step en d (We_ingest now w who e) = result_db d (ingestRuntimeStatusEvent now w who e d)"
| "world_step en d (We_screen now r s) = result_db d (recordScreenObservation now r s d)"
| "world_step en d (We_progress now e g m r n c) = result_db d (reportAgentProgress now e g m r n c d)"
| "world_step en d (We_process now r obs) = result_db d (recordRuntimeProcessStatus now r obs d)"
| "world_step en d (We_run_create now r) = result_db d (createRuntimeRun now r d)"
| "world_step en d (We_run_start now i g m opts) =
     result_db d (createRunForMembership now i (en_location en) g m opts d)"
| "world_step en d (We_run_status now i s t why) = fst (updateRuntimeRunStatus now i s t why d)"
| "world_step en d (We_run_metadata i m) = fst (updateRuntimeRunProviderMetadata i m d)"
| "world_step en d (We_run_recovery now i n ph inc nb why) =
     result_db d (transitionRunRecovery now i n ph inc nb why d)"
| "world_step en d (We_run_stop now i n why) = result_db d (stopDesiredRun now i n why d)"
| "world_step en d (We_wait_begin now w ex) = result_db d (beginOpenWaitReply now w ex d)"
| "world_step en d (We_wait_reset now w) = result_db d (resetOpenWaitReply now w d)"
| "world_step en d (We_reset now ids) = kept_db d (reset_actions now
     (\<lambda>a. \<not> settled_action (a_state a) \<and> a_id a \<in> set ids) d)"
| "world_step en d (We_cleanup now removed) = kept_db d (reconcileRemovedEffects now removed d)"
| "world_step en d (We_withdraw now i) = kept_db d (withdraw_action now i d)"

text \<open>The events that may supersede an action whose state is final but not settled.\<close>

fun retires :: "world_event \<Rightarrow> bool" where
  "retires (We_reset now ids) = True"
| "retires (We_cleanup now removed) = True"
| "retires _ = False"

lemma result_dbI:
  assumes "P d" and "\<And>d' x. r = Inr (d', x) \<Longrightarrow> P d'"
  shows "P (result_db d r)"
  using assms by (cases r) (auto simp: result_db_def)

lemma drop_valueI:
  assumes "P d" and "\<And>d' x. r = Inr (d', x) \<Longrightarrow> P d'"
  shows "P (fst (drop_value d r))"
  using assms by (cases r) (auto simp: drop_value_def)

lemma consider_db_considered [simp]: "consider_db (considered r) = fst r"
  by (cases r; cases "snd r") (auto simp: considered_def consider_db_def)

subsection \<open>What a step may do to the actions\<close>

definition actions_ok :: "db \<Rightarrow> db \<Rightarrow> bool" where
  "actions_ok d d' \<longleftrightarrow> (attempts_sound d \<longrightarrow>
     attempts_sound d' \<and> keeps_final d d' \<and> state_moves d d')"

lemma state_moves_refl [simp]: "state_moves d d"
  by (simp add: state_moves_def)

lemma actions_ok_refl [simp]: "actions_ok d d"
  by (simp add: actions_ok_def)

lemma actions_ok_moves: "moves d d' \<Longrightarrow> keeps_final d d' \<Longrightarrow> actions_ok d d'"
  using attempts_sound_moves by (simp add: actions_ok_def moves_def)

lemma actions_ok_trans: "actions_ok d d1 \<Longrightarrow> actions_ok d1 d2 \<Longrightarrow> actions_ok d d2"
  using keeps_final_trans state_moves_trans unfolding actions_ok_def by blast

lemma world_moves_ok: "world_moves d d' \<Longrightarrow> actions_ok d d'"
  by (simp add: world_moves_def actions_ok_moves)

lemma transition_ok:
  assumes "\<not> terminal_action_state s" and "awaiting_submission s' \<Longrightarrow> awaiting_submission s"
  shows "actions_ok d (fst (drop_value d (transitionAgentAction now i [s] s' opts d)))"
proof (rule drop_valueI)
  fix d' x assume t: "transitionAgentAction now i [s] s' opts d = Inr (d', x)"
  show "actions_ok d d'"
    by (rule actions_ok_moves; rule transition_moves [OF t]) (use assms in auto)
qed simp

lemma submission_failed_ok:
  "actions_ok d (fst (submission_failed now describe owner i k written err d))"
  using submission_failed_moves attempts_sound_moves unfolding actions_ok_def moves_def by blast

lemma give_up_ok:
  assumes "\<not> terminal_action_state (a_state a)" and "\<not> awaiting_submission s"
  shows "actions_ok d (consider_db (give_up now a s code msg d))"
  using transition_ok [of "a_state a" s] assms by (simp add: give_up_def)

lemma begin_submission_ok:
  "actions_ok d (consider_db (begin_submission now fp describe owner k a run t st d))"
proof -
  let ?att = "new_attempt now fp owner k a t st (length (listActionAttempts d (a_id a)) + 1)"
  show ?thesis
  proof (cases "beginAgentActionAttempt now ?att d")
    case (Inl e)
    then show ?thesis by (simp add: begin_submission_def Let_def consider_db_def)
  next
    case (Inr p)
    then obtain d1 u where p: "beginAgentActionAttempt now ?att d = Inr (d1, u)" by (cases p) auto
    have "state_of d1 = state_of d" using begin_effect(1) [OF p] by (simp add: state_of_def fun_eq_iff)
    then have 1: "actions_ok d d1"
      using begin_sound [OF p]
      by (simp add: actions_ok_def keeps_final_def state_moves_def new_attempt_def Let_def)
    then show ?thesis
      using p actions_ok_trans [OF 1 submission_failed_ok]
      by (cases "dispatch_admitted now a d1")
        (simp_all add: begin_submission_def Let_def consider_db_def [of "Submitting _ _ _"])
  qed
qed

lemma consider_begin_ok:
  assumes "awaiting_submission (a_state a)"
  shows "actions_ok d (consider_db (consider_begin now au fp describe owner k a d))"
proof -
  have nt: "\<not> terminal_action_state (a_state a)" using assms action_state_disjoint by blast
  note give = give_up_ok [OF nt, simplified awaiting_submission_def, simplified]
  have dfr: "actions_ok d (fst (drop_value d (transitionAgentAction now (a_id a) [a_state a] As_deferred no_options d)))"
    by (rule transition_ok [OF nt]) (rule assms)
  have esc: "consider_db (Escaped d e) = d" "consider_db (Considered d) = d" for e
    by (simp_all add: consider_db_def)
  show ?thesis
    unfolding consider_begin_def
    by (auto simp: esc dfr begin_submission_ok give
        split: sum.splits readiness.splits option.splits)
qed

lemma consider_ok:
  "actions_ok d (world_step en d (We_consider now k a))"
  using consider_begin_ok by (auto simp: schedule_choice_def split: if_splits)

lemma commit_ok: "actions_ok d (fst (commit_submission now describe owner i k d))"
proof (cases "markAgentActionSubmitted now i k owner d")
  case (Inl e)
  then show ?thesis by (simp add: commit_submission_def submission_failed_ok)
next
  case (Inr p)
  then obtain d1 u where p: "markAgentActionSubmitted now i k owner d = Inr (d1, u)" by (cases p) auto
  have "actions_ok d d1"
    unfolding actions_ok_def
  proof
    assume s: "attempts_sound d"
    note e = mark_effect [OF p s]
    have "keeps_final d d1" by (rule keeps_final_only [OF e(3)]) (use e(1) action_state_disjoint in auto)
    then show "attempts_sound d1 \<and> keeps_final d d1 \<and> state_moves d d1"
      using attempts_sound_moves [OF e(4) s] e(4) by (simp add: moves_def)
  qed
  then show ?thesis by (simp add: commit_submission_def p)
qed

lemma deadline_ok: "actions_ok d (fst (end_at_deadline now a d))"
  by (auto simp: end_at_deadline_def schedule_choice_def terminal_action_state_def awaiting_submission_def
      intro!: transition_ok split: schedule_choice.splits if_splits)

lemma cancel_ok: "actions_ok d (result_db d (cancel_action now who i d))"
proof (rule result_dbI)
  fix d' x assume c: "cancel_action now who i d = Inr (d', x)"
  then obtain a where a: "getAgentAction d i = Inr a" by (auto simp: cancel_action_def rbind_eq_Inr)
  show "actions_ok d d'"
  proof (cases "terminal_action_state (a_state a)")
    case True
    then have "d' = d" using c a by (auto simp: cancel_action_def rbind_eq_Inr)
    then show ?thesis by simp
  next
    case False
    then have t: "transitionAgentAction now (a_id a) [a_state a] As_cancelled no_options d = Inr (d', x)"
      using c a by (auto simp: cancel_action_def rbind_eq_Inr split: if_splits)
    show ?thesis
      by (rule actions_ok_moves; rule transition_moves [OF t]) (use False in \<open>auto simp: awaiting_submission_def\<close>)
  qed
qed simp

lemma create_ok: "actions_ok d (result_db d (create_action now i ep pol dig on who cmd key d))"
proof (rule result_dbI)
  fix d' x assume c: "create_action now i ep pol dig on who cmd key d = Inr (d', x)"
  have "\<exists>p. createAgentAction now p d = Inr (d', x)"
    using c unfolding create_action_def by (auto simp: rbind_eq_Inr)
  then show "actions_ok d d'" using create_effect actions_ok_moves by blast
qed simp

lemma acknowledge_InrD:
  assumes "acknowledge now k who i c d = Inr (d', x)"
  shows "\<exists>p. recordAgentActionAcknowledgement now p d = Inr (d', x)"
  using assms unfolding acknowledge_def Let_def
  by (auto simp: rbind_eq_Inr split: mcp_principal.splits option.splits if_splits)

lemma acknowledge_ok: "actions_ok d (result_db d (acknowledge now k who i c d))"
  by (rule result_dbI) (auto dest!: acknowledge_InrD intro: actions_ok_moves ack_effect)


subsection \<open>What a step may do to the reporter sessions\<close>

definition open_session :: "reporter_session \<Rightarrow> bool" where
  "open_session s \<longleftrightarrow> rs_revokedAt s = None \<and> rs_closedAt s = None"

definition session_key :: "reporter_session \<Rightarrow> string \<times> nat \<times> string" where
  "session_key s = (rs_runId s, rs_generation s, rs_reporterEpoch s)"

definition session_run :: "reporter_session \<Rightarrow> string \<times> nat" where
  "session_run s = (rs_runId s, rs_generation s)"

definition sessions_sound :: "db \<Rightarrow> bool" where
  "sessions_sound d \<longleftrightarrow>
     distinct (map rs_id (db_sessions d)) \<and> distinct (map session_key (db_sessions d)) \<and>
     distinct (map session_run (filter open_session (db_sessions d)))"

definition sessions_grow :: "db \<Rightarrow> db \<Rightarrow> bool" where
  "sessions_grow d d' \<longleftrightarrow>
     (\<exists>ms new. db_sessions d' = ms @ new \<and> list_all2 session_moves ms (db_sessions d))"

definition sessions_ok :: "db \<Rightarrow> db \<Rightarrow> bool" where
  "sessions_ok d d' \<longleftrightarrow> (sessions_sound d \<longrightarrow> sessions_sound d' \<and> sessions_grow d d')"

lemma sessions_grow_trans:
  assumes "sessions_grow d d1" and "sessions_grow d1 d2"
  shows "sessions_grow d d2"
proof -
  obtain ms new where 1: "db_sessions d1 = ms @ new" "list_all2 session_moves ms (db_sessions d)"
    using assms(1) by (auto simp: sessions_grow_def)
  obtain ms2 new2 where 2: "db_sessions d2 = ms2 @ new2" "list_all2 session_moves ms2 (ms @ new)"
    using assms(2) 1 by (auto simp: sessions_grow_def)
  obtain a b where ab: "ms2 = a @ b" "list_all2 session_moves a ms"
    using 2(2) by (auto simp: list_all2_append2)
  have "list_all2 session_moves a (db_sessions d)"
    by (rule list_all2_trans [OF session_moves_trans ab(2) 1(2)])
  then show ?thesis using 2(1) ab(1) by (auto simp: sessions_grow_def)
qed

lemma moved_sessions:
  assumes "list_all2 session_moves ms ss"
  shows "map rs_id ms = map rs_id ss" and "map session_key ms = map session_key ss"
    and "set (map session_run (filter open_session ms)) \<subseteq> set (map session_run (filter open_session ss))"
    and "distinct (map session_run (filter open_session ss)) \<Longrightarrow>
         distinct (map session_run (filter open_session ms))"
  using assms
proof (induction rule: list_all2_induct)
  case (Cons m ms s ss)
  have m: "session_moves m s" by fact
  have "rs_id m = rs_id s" "session_key m = session_key s"
    using m by (simp_all add: session_moves_def session_key_def)
  then show "map rs_id (m # ms) = map rs_id (s # ss)" "map session_key (m # ms) = map session_key (s # ss)"
    using Cons(3,4) by simp_all
  have os: "open_session m \<Longrightarrow> open_session s" "session_run m = session_run s"
    using m by (auto simp: session_moves_def open_session_def session_run_def)
  then show "set (map session_run (filter open_session (m # ms))) \<subseteq>
      set (map session_run (filter open_session (s # ss)))"
    using Cons(5) by auto
  assume "distinct (map session_run (filter open_session (s # ss)))"
  then show "distinct (map session_run (filter open_session (m # ms)))"
    using Cons(5,6) os by (cases "open_session m"; cases "open_session s") auto
qed simp_all

lemma sessions_move_ok: "sessions_move d d' \<Longrightarrow> sessions_ok d d'"
  using moved_sessions [of "db_sessions d'" "db_sessions d"]
  unfolding sessions_ok_def sessions_sound_def sessions_grow_def sessions_move_def
  by (metis append_Nil2)

lemma sessions_ok_refl [simp]: "sessions_ok d d"
  by (rule sessions_move_ok) (simp add: sessions_move_same)

lemma sessions_ok_same: "db_sessions d' = db_sessions d \<Longrightarrow> sessions_ok d d'"
  by (rule sessions_move_ok) (rule sessions_move_same)

lemma sessions_ok_trans: "sessions_ok d d1 \<Longrightarrow> sessions_ok d1 d2 \<Longrightarrow> sessions_ok d d2"
  using sessions_grow_trans by (auto simp: sessions_ok_def)

lemma world_moves_sessions: "world_moves d d' \<Longrightarrow> sessions_ok d d'"
  by (simp add: world_moves_def sessions_move_ok)

lemma register_ok:
  assumes "registerReporterSession s d = Inr (d', p)"
  shows "sessions_ok d d'"
  unfolding sessions_ok_def
proof
  assume sound: "sessions_sound d"
  note r = register_frame [OF assms]
  let ?q = "\<lambda>u. rs_runId u = rs_runId p \<and> rs_generation u = rs_generation p \<and>
            rs_reporterEpoch u \<noteq> rs_reporterEpoch p \<and> rs_closedAt u = None"
  let ?ms = "update_where ?q (close_session (rs_openedAt p)) (db_sessions d)"
  have moved: "list_all2 session_moves ?ms (db_sessions d)"
    by (rule list_all2_update_where) (simp_all add: close_session_moves)
  note m = moved_sessions [OF moved]
  have fresh: "rs_id p \<notin> rs_id ` set (db_sessions d)" "session_key p \<notin> session_key ` set (db_sessions d)"
    using r(4,5) by (auto simp: find_where_None_iff session_key_def)
  have none: "session_run p \<notin> session_run ` set (filter open_session ?ms)"
  proof
    assume "session_run p \<in> session_run ` set (filter open_session ?ms)"
    then obtain u where u: "u \<in> set ?ms" "open_session u" "session_run u = session_run p" by auto
    then obtain v where v: "v \<in> set (db_sessions d)" "u = (if ?q v then close_session (rs_openedAt p) v else v)"
      by (auto simp: update_where_def)
    have q: "\<not> ?q v"
    proof
      assume "?q v"
      then have "u = close_session (rs_openedAt p) v" using v(2) by simp
      then show False using u(2) by (simp add: open_session_def close_session_def)
    qed
    have "u = v" using v(2) unfolding if_not_P [OF q] .
    then have "session_key v = session_key p"
      using q u by (auto simp: open_session_def session_run_def session_key_def)
    then show False using fresh(2) v(1) by (metis imageI)
  qed
  have snoc: "distinct (map f (xs @ [y]))" if "distinct (map f xs)" "f y \<notin> set (map f xs)"
    for f :: "reporter_session \<Rightarrow> 'k" and xs y
    using that by simp
  have snoc_f: "distinct (map session_run (filter open_session (xs @ [y])))"
    if "distinct (map session_run (filter open_session xs))"
      "session_run y \<notin> session_run ` set (filter open_session xs)" for xs y
    using that by auto
  have "distinct (map rs_id (?ms @ [p]))"
    using sound fresh(1) m(1) unfolding sessions_sound_def by (intro snoc) simp_all
  moreover have "distinct (map session_key (?ms @ [p]))"
    by (rule snoc) (use sound fresh(2) in \<open>simp_all only: m(2) sessions_sound_def set_map not_False_eq_True\<close>)
  moreover have "distinct (map session_run (filter open_session (?ms @ [p])))"
    by (rule snoc_f [OF m(4) none]) (use sound in \<open>simp add: sessions_sound_def\<close>)
  ultimately have "sessions_sound d'" unfolding sessions_sound_def r(3) by blast
  moreover have "sessions_grow d d'" using r(3) moved by (auto simp: sessions_grow_def)
  ultimately show "sessions_sound d' \<and> sessions_grow d d'" ..
qed


lemma transition_sessions:
  assumes "transitionAgentAction now i ex s' opts d = Inr (d', r)"
  shows "db_sessions d' = db_sessions d"
proof -
  obtain a where a: "find_action i (db_actions d) = Some a"
    using assms by (auto simp: transitionAgentAction_def getAgentAction_def rbind_eq_Inr)
  have ex: "a_state a \<in> set ex"
    using assms a by (auto simp: transitionAgentAction_def getAgentAction_def split: if_splits)
  show ?thesis
    using assms a ex unfolding transitionAgentAction_def getAgentAction_def Let_def rbind_eq_Inr
    by (clarsimp simp: rbind_eq_Inr)
qed

lemma fail_sessions:
  assumes "failAgentActionAttempt now i k owner fl err d = Inr (d', r)"
  shows "db_sessions d' = db_sessions d"
  using assms unfolding failAgentActionAttempt_def getAgentAction_def Let_def row_writes
  by (clarsimp simp: rbind_eq_Inr)

lemma abandon_sessions:
  assumes "abandonAgentActionAttempt now i k owner code d = Inr (d', r)"
  shows "db_sessions d' = db_sessions d"
  using assms unfolding abandonAgentActionAttempt_def Let_def by (clarsimp simp: rbind_eq_Inr)

lemmas action_writes_sessions = transition_sessions fail_sessions abandon_sessions

lemma mark_sessions:
  "markAgentActionSubmitted now i k owner d = Inr (d', r) \<Longrightarrow> db_sessions d' = db_sessions d"
  by (auto simp: markAgentActionSubmitted_def rbind_eq_Inr Let_def row_writes split: option.splits if_splits)

lemma begin_sessions:
  "beginAgentActionAttempt now t d = Inr (d', r) \<Longrightarrow> db_sessions d' = db_sessions d"
  by (auto simp: beginAgentActionAttempt_def rbind_eq_Inr Let_def split: if_splits)

lemma createAgentAction_sessions:
  "createAgentAction now a d = Inr (d', r) \<Longrightarrow> db_sessions d' = db_sessions d"
  by (auto simp: createAgentAction_def rbind_eq_Inr split: option.splits if_splits)

lemma drop_transition_sessions [simp]:
  "db_sessions (fst (drop_value d (transitionAgentAction now i ex s' opts d))) = db_sessions d"
  by (rule drop_valueI [where P = "\<lambda>x. db_sessions x = db_sessions d"]) (auto dest: action_writes_sessions)

lemma submission_failed_sessions [simp]:
  "db_sessions (fst (submission_failed now describe owner i k written err d)) = db_sessions d"
  unfolding submission_failed_def Let_def drop_value_def
  by (auto dest!: fail_sessions transition_sessions abandon_sessions split: sum.splits)

lemma give_up_sessions [simp]: "db_sessions (consider_db (give_up now a s code msg d)) = db_sessions d"
  by (simp add: give_up_def)

lemma begin_submission_sessions [simp]:
  "db_sessions (consider_db (begin_submission now fp describe owner k a run t st d)) = db_sessions d"
  unfolding begin_submission_def Let_def
  by (auto simp: consider_db_def [of "Escaped _ _"] consider_db_def [of "Submitting _ _ _"]
      dest: begin_sessions split: sum.splits)

lemma consider_begin_sessions [simp]:
  "db_sessions (consider_db (consider_begin now au fp describe owner k a d)) = db_sessions d"
proof -
  have esc: "consider_db (Escaped d e) = d" "consider_db (Considered d) = d" for e
    by (simp_all add: consider_db_def)
  show ?thesis
    unfolding consider_begin_def by (auto simp: esc split: sum.splits readiness.splits option.splits)
qed

lemma commit_sessions [simp]:
  "db_sessions (fst (commit_submission now describe owner i k d)) = db_sessions d"
  by (auto simp: commit_submission_def dest: mark_sessions split: sum.splits)

lemma recover_sessions [simp]: "db_sessions (fst (recover_each now is d)) = db_sessions d"
proof (induction "is" arbitrary: d)
  case (Cons i "is")
  show ?case
  proof (cases "transitionAgentAction now i [As_created, As_deferred] As_settled_unverified
      crash_window_options d")
    case (Inr p)
    then obtain d1 a where p: "p = (d1, a)" by (cases p)
    have "db_sessions d1 = db_sessions d" by (rule transition_sessions [OF Inr [unfolded p]])
    then show ?thesis using Cons [of d1] Inr p by (auto split: sum.splits prod.splits)
  qed simp
qed simp

lemma ack_sessions:
  assumes "recordAgentActionAcknowledgement now k d = Inr (d', r)"
    and "distinct (map rs_id (db_sessions d))"
  shows "sessions_move d d'"
proof -
  obtain p a where p: "parse_action_ack k = Inr p"
    and cur: "ack_current a (find_attempt (ack_attemptId p) (listActionAttempts d (a_id a)))
        (getCurrentReporterSession d (ack_runId p) (ack_generation p)) p"
    and d': "db_sessions d' = update_where (\<lambda>s. rs_id s = ack_reporterSessionId p)
        (\<lambda>s. s\<lparr>rs_sourceSequence := ack_sourceSequence p\<rparr>) (db_sessions d)"
    using assms(1) unfolding recordAgentActionAcknowledgement_def Let_def row_writes
    by (auto simp: rbind_eq_Inr split: if_splits)
  obtain s where s: "getCurrentReporterSession d (ack_runId p) (ack_generation p) = Some s"
    "rs_id s = ack_reporterSessionId p" "rs_sourceSequence s < ack_sourceSequence p"
    using cur by (auto simp: ack_current_def split: option.splits)
  have own: "u = s" if "u \<in> set (db_sessions d)" "rs_id u = ack_reporterSessionId p" for u
    using same_session [OF assms(2) that(1)] current_session_in [OF s(1)] s(2) that(2) by simp
  show ?thesis
    by (rule sessions_move_update [OF d']) (use own s in \<open>auto simp: session_moves_def\<close>)
qed


subsection \<open>Every step\<close>

definition step_ok :: "db \<Rightarrow> db \<Rightarrow> bool" where
  "step_ok d d' \<longleftrightarrow> actions_ok d d' \<and> sessions_ok d d'"

lemma step_ok_refl [simp]: "step_ok d d"
  by (simp add: step_ok_def)

lemma step_ok_world: "world_moves d d' \<Longrightarrow> step_ok d d'"
  by (simp add: step_ok_def world_moves_ok world_moves_sessions)

lemma step_ok_same: "same_actions d d' \<Longrightarrow> sessions_move d d' \<Longrightarrow> step_ok d d'"
  by (simp add: step_ok_world world_moves_same)

lemma step_ok_actions: "actions_ok d d' \<Longrightarrow> db_sessions d' = db_sessions d \<Longrightarrow> step_ok d d'"
  by (simp add: step_ok_def sessions_ok_same)

lemma step_ok_runs: "moves d d' \<and> keeps_final d d' \<and> db_sessions d' = db_sessions d \<Longrightarrow> step_ok d d'"
  by (simp add: step_ok_actions actions_ok_moves)

lemma cancel_sessions [simp]: "db_sessions (result_db d (cancel_action now who i d)) = db_sessions d"
  by (rule result_dbI [where P = "\<lambda>x. db_sessions x = db_sessions d"])
    (auto simp: cancel_action_def rbind_eq_Inr dest!: transition_sessions split: if_splits)

lemma create_sessions [simp]:
  "db_sessions (result_db d (create_action now i ep pol dig on who cmd key d)) = db_sessions d"
proof (rule result_dbI [where P = "\<lambda>x. db_sessions x = db_sessions d"])
  fix d' x assume "create_action now i ep pol dig on who cmd key d = Inr (d', x)"
  then have "\<exists>p. createAgentAction now p d = Inr (d', x)"
    unfolding create_action_def by (auto simp: rbind_eq_Inr)
  then show "db_sessions d' = db_sessions d" using createAgentAction_sessions by blast
qed simp

lemma deadline_sessions [simp]: "db_sessions (fst (end_at_deadline now a d)) = db_sessions d"
  by (simp add: end_at_deadline_def split: schedule_choice.splits)

lemma acknowledge_step: "step_ok d (result_db d (acknowledge now k who i c d))"
proof (rule result_dbI)
  fix d' x assume a: "acknowledge now k who i c d = Inr (d', x)"
  then obtain p where p: "recordAgentActionAcknowledgement now p d = Inr (d', x)"
    using acknowledge_InrD by blast
  have "sessions_ok d d'"
    unfolding sessions_ok_def using ack_sessions [OF p] sessions_move_ok
    by (auto simp: sessions_sound_def sessions_ok_def)
  then show "step_ok d d'" using ack_effect [OF p] by (simp add: step_ok_def actions_ok_moves)
qed simp

lemma ingest_step: "step_ok d (result_db d (ingestRuntimeStatusEvent now w who e d))"
proof (rule result_dbI)
  fix d' x assume i: "ingestRuntimeStatusEvent now w who e d = Inr (d', x)"
  have "sessions_ok d d'"
    unfolding sessions_ok_def using ingest_frame(2) [OF i] sessions_move_ok
    by (auto simp: sessions_sound_def sessions_ok_def)
  moreover have "same_actions d d'" using ingest_InrD [OF i] by blast
  ultimately show "step_ok d d'"
    using same_actions_moves by (simp add: step_ok_def actions_ok_moves)
qed simp

lemma recover_step: "step_ok d (fst (recoverAmbiguousActionAttempts now d))"
  using recover_moves by (simp add: recoverAmbiguousActionAttempts_def step_ok_runs)

lemma register_step: "step_ok d (result_db d (registerReporterSession s d))"
proof (rule result_dbI)
  fix d' x assume r: "registerReporterSession s d = Inr (d', x)"
  show "step_ok d d'"
    using same_actions_moves [OF register_frame(1) [OF r]] register_ok [OF r]
    by (simp add: step_ok_def actions_ok_moves)
qed simp

lemma step_ok_resultI:
  "(\<And>d' x. r = Inr (d', x) \<Longrightarrow> step_ok d d') \<Longrightarrow> step_ok d (result_db d r)"
  by (cases r) (auto simp: result_db_def)

lemma store_steps:
  "step_ok d (fst (bindReporterProcess now r n p d))"
  "step_ok d (fst (refreshReporterLease r n l d))"
  "step_ok d (revokeReporterAuthority now r n d)"
  "step_ok d (result_db d (recordScreenObservation now r s d))"
  "step_ok d (result_db d (reportAgentProgress now e g m r n c d))"
  "step_ok d (result_db d (recordRuntimeProcessStatus now r obs d))"
  "step_ok d (result_db d (beginOpenWaitReply now w ex d))"
  "step_ok d (result_db d (resetOpenWaitReply now w d))"
proof -
  show "step_ok d (fst (bindReporterProcess now r n p d))"
    by (cases "bindReporterProcess now r n p d") (simp add: step_ok_same bind_frame)
  show "step_ok d (fst (refreshReporterLease r n l d))"
    by (cases "refreshReporterLease r n l d") (simp add: step_ok_same refresh_frame)
  show "step_ok d (revokeReporterAuthority now r n d)"
    by (rule step_ok_same [OF revoke_same revoke_sessions])
  show "step_ok d (result_db d (recordScreenObservation now r s d))"
    by (rule step_ok_resultI) (rule step_ok_same [OF screen_frame(1,2)])
  show "step_ok d (result_db d (reportAgentProgress now e g m r n c d))"
    by (rule step_ok_resultI) (rule step_ok_same [OF progress_frame(1,2)])
  show "step_ok d (result_db d (recordRuntimeProcessStatus now r obs d))"
    by (rule step_ok_resultI) (blast dest: process_frame intro: step_ok_same)
  show "step_ok d (result_db d (beginOpenWaitReply now w ex d))"
    "step_ok d (result_db d (resetOpenWaitReply now w d))"
    by (rule step_ok_resultI, blast dest: wait_reply_frame intro: step_ok_same sessions_move_same)+
qed

lemma run_steps:
  "step_ok d (result_db d (createRuntimeRun now r d))"
  "step_ok d (result_db d (createRunForMembership now i loc g m opts d))"
  "step_ok d (fst (updateRuntimeRunStatus now i s t why d))"
  "step_ok d (fst (updateRuntimeRunProviderMetadata i md d))"
  "step_ok d (result_db d (transitionRunRecovery now i n ph inc nb why d))"
  "step_ok d (result_db d (stopDesiredRun now i n reason d))"
proof -
  show "step_ok d (result_db d (createRuntimeRun now r d))"
    by (rule step_ok_resultI) (rule step_ok_runs, erule create_run_frame)
  show "step_ok d (result_db d (createRunForMembership now i loc g m opts d))"
    by (rule step_ok_resultI) (rule step_ok_runs, erule run_for_membership_frame)
  show "step_ok d (fst (updateRuntimeRunStatus now i s t why d))"
    by (rule step_ok_world [OF run_status_moves])
  show "step_ok d (fst (updateRuntimeRunProviderMetadata i md d))"
    by (rule step_ok_world [OF metadata_moves])
  show "step_ok d (result_db d (transitionRunRecovery now i n ph inc nb why d))"
    "step_ok d (result_db d (stopDesiredRun now i n reason d))"
    by (rule step_ok_resultI, rule step_ok_world, erule recovery_moves)+
qed

lemma action_steps:
  "step_ok d (result_db d (create_action now i ep pol dig on who cmd key d))"
  "step_ok d (result_db d (cancel_action now who i d))"
  "step_ok d (world_step en d (We_consider now k a))"
  "step_ok d (fst (submission_failed now describe owner i k written err d))"
  "step_ok d (fst (commit_submission now describe owner i k d))"
  "step_ok d (fst (end_at_deadline now a d))"
  by (rule step_ok_actions, rule create_ok cancel_ok consider_ok submission_failed_ok commit_ok deadline_ok,
      simp)+

lemma kept_dbI:
  assumes "P d" and "\<And>d'. r = Inr d' \<Longrightarrow> P d'"
  shows "P (kept_db d r)"
  using assms by (cases r) (auto simp: kept_db_def)

lemma withdraw_step: "step_ok d (kept_db d (withdraw_action now i d))"
proof (rule kept_dbI)
  fix d' assume w: "withdraw_action now i d = Inr d'"
  then obtain a where a: "getAgentAction d i = Inr a" by (auto simp: withdraw_action_def rbind_eq_Inr)
  show "step_ok d d'"
  proof (cases "d' = d")
    case False
    then have "a_state a \<in> {As_created, As_deferred}"
      and t: "\<exists>x. transitionAgentAction now (a_id a) [a_state a] As_cancelled no_options d = Inr (d', x)"
      using w a by (auto simp: withdraw_action_def rbind_eq_Inr split: if_splits)
    then have nt: "\<not> terminal_action_state (a_state a)" by (auto simp: terminal_action_state_def)
    obtain x where t: "transitionAgentAction now (a_id a) [a_state a] As_cancelled no_options d = Inr (d', x)"
      using t by blast
    show ?thesis
      by (rule step_ok_actions [OF actions_ok_moves transition_sessions [OF t]]; rule transition_moves [OF t])
        (use nt in \<open>auto simp: awaiting_submission_def\<close>)
  qed simp
qed simp

lemma world_step_ok: "\<not> retires e \<Longrightarrow> step_ok d (world_step en d e)"
proof (cases e)
  case (We_consider now k a)
  then show ?thesis using action_steps(3) by simp
qed (simp_all add: action_steps(1,2,4-6) store_steps run_steps acknowledge_step recover_step
      register_step ingest_step withdraw_step del: world_step.simps(4))

text \<open>
  A retiring step leaves every settled state as it is and takes a final one that is not settled at most
  to superseded.
\<close>

definition keeps_settled :: "db \<Rightarrow> db \<Rightarrow> bool" where
  "keeps_settled d d' \<longleftrightarrow> (\<forall>i s. state_of d i = Some s \<and> terminal_action_state s \<longrightarrow>
     state_of d' i = Some s \<or> \<not> settled_action s \<and> state_of d' i = Some As_superseded)"

definition retire_ok :: "db \<Rightarrow> db \<Rightarrow> bool" where
  "retire_ok d d' \<longleftrightarrow> (attempts_sound d \<longrightarrow>
     attempts_sound d' \<and> keeps_settled d d' \<and> state_moves d d') \<and> sessions_ok d d'"

lemma superseded_settled [simp]: "settled_action As_superseded" "terminal_action_state As_superseded"
  by (simp_all add: settled_action_def terminal_action_state_def)

lemma retire_ok_refl [simp]: "retire_ok d d"
  by (simp add: retire_ok_def keeps_settled_def)

lemma retire_ok_trans: "retire_ok d d1 \<Longrightarrow> retire_ok d1 d2 \<Longrightarrow> retire_ok d d2"
  unfolding retire_ok_def using sessions_ok_trans state_moves_trans
  by (auto simp: keeps_settled_def) (metis superseded_settled)+

lemma retire_ok_step: "step_ok d d' \<Longrightarrow> retire_ok d d'"
  by (auto simp: step_ok_def retire_ok_def actions_ok_def keeps_final_def keeps_settled_def)

lemma supersede_ok:
  assumes "supersede now code msg a d = Inr d'" and "\<not> settled_action (a_state a)"
  shows "retire_ok d d'"
proof -
  obtain opts x where t: "transitionAgentAction now (a_id a) [a_state a] As_superseded opts d = Inr (d', x)"
    using assms(1) by (auto simp: supersede_def rbind_eq_Inr)
  note e = transition_effect [OF t]
  have "moves d d'"
    using e by (auto intro!: moves_only simp: awaiting_submission_def)
  moreover have "keeps_settled d d'"
    unfolding keeps_settled_def
  proof (intro allI impI)
    fix i s assume "state_of d i = Some s \<and> terminal_action_state s"
    then show "state_of d' i = Some s \<or> \<not> settled_action s \<and> state_of d' i = Some As_superseded"
      using e assms(2) by (cases "i = a_id a") (auto simp: only_moves_def)
  qed
  ultimately show ?thesis
    using attempts_sound_moves [of d d'] transition_sessions [OF t]
    by (simp add: retire_ok_def moves_def sessions_ok_same)
qed

lemma fold_retires:
  assumes "fold_r f xs d = Inr d'" and "\<And>x d d'. x \<in> set xs \<Longrightarrow> f x d = Inr d' \<Longrightarrow> retire_ok d d'"
  shows "retire_ok d d'"
  using assms
proof (induction xs arbitrary: d)
  case (Cons x xs)
  obtain d1 where d1: "f x d = Inr d1" "fold_r f xs d1 = Inr d'"
    using Cons.prems(1) by (auto simp: rbind_eq_Inr)
  show ?case
    by (rule retire_ok_trans [OF Cons.prems(2) [OF _ d1(1)] Cons.IH [OF d1(2) Cons.prems(2)]]) simp_all
qed simp

lemma reset_step:
  assumes "\<And>a. retired a \<Longrightarrow> \<not> settled_action (a_state a)"
  shows "retire_ok d (kept_db d (reset_actions now retired d))"
proof (rule kept_dbI)
  fix d' assume "reset_actions now retired d = Inr d'"
  then have f: "fold_r (retire_action now) (filter retired (listAgentActions d)) d = Inr d'"
    by (auto simp: reset_actions_def Let_def split: if_splits)
  show "retire_ok d d'"
    by (rule fold_retires [OF f]) (use assms supersede_ok in \<open>auto simp: retire_action_def\<close>)
qed simp

lemma retire_effect_ok: "retire_effect now a d = Inr d' \<Longrightarrow> retire_ok d d'"
  using supersede_ok by (auto simp: retire_effect_def split: if_splits)

lemma cleanup_step: "retire_ok d (kept_db d (reconcileRemovedEffects now removed d))"
proof (rule kept_dbI)
  fix d' assume "reconcileRemovedEffects now removed d = Inr d'"
  then show "retire_ok d d'"
    unfolding reconcileRemovedEffects_def
    by (rule fold_retires) (auto elim!: fold_retires retire_effect_ok)
qed simp

lemma world_step_moves: "retire_ok d (world_step en d e)"
proof (cases "retires e")
  case True
  then show ?thesis by (cases e) (auto intro: reset_step cleanup_step)
qed (rule retire_ok_step [OF world_step_ok])

subsection \<open>The machine\<close>

interpretation world: absorbing_machine "world_step en" attempts_sound "\<lambda>d. state_of d i"
  "\<lambda>v. \<exists>s. v = Some s \<and> terminal_action_state s \<and> settled_action s" for en i
proof
  fix d e assume "attempts_sound d"
  then show "attempts_sound (world_step en d e)"
    using world_step_moves [of d en e] by (simp add: retire_ok_def)
next
  fix d e assume a: "attempts_sound d" and s: "\<exists>s. state_of d i = Some s \<and> terminal_action_state s \<and> settled_action s"
  have "keeps_settled d (world_step en d e)" using a world_step_moves [of d en e] by (simp add: retire_ok_def)
  then show "state_of (world_step en d e) i = state_of d i" using s unfolding keeps_settled_def by metis
qed

interpretation sessions_machine: invariant_machine "world_step en" sessions_sound for en
  by unfold_locales (use world_step_moves in \<open>auto simp: retire_ok_def sessions_ok_def\<close>)

text \<open>What a run does to an action in a final state that is not settled.\<close>

lemma run_keeps_settled: "attempts_sound d \<Longrightarrow> keeps_settled d (foldl (world_step en) d es)"
proof (induction es arbitrary: d)
  case (Cons e es)
  have "attempts_sound (world_step en d e)" "keeps_settled d (world_step en d e)"
    using Cons.prems world_step_moves [of d en e] by (simp_all add: retire_ok_def)
  then show ?case
    using Cons.IH by (auto simp: keeps_settled_def) (metis superseded_settled)+
qed (simp add: keeps_settled_def)

lemma run_keeps_final:
  "attempts_sound d \<Longrightarrow> \<not> list_ex retires es \<Longrightarrow> keeps_final d (foldl (world_step en) d es)"
proof (induction es arbitrary: d)
  case (Cons e es)
  have "attempts_sound (world_step en d e)" "keeps_final d (world_step en d e)"
    using Cons.prems world_step_ok [of e d en] by (simp_all add: step_ok_def actions_ok_def)
  then show ?case using Cons by (auto intro: keeps_final_trans)
qed simp

lemma sessions_grow_refl [simp]: "sessions_grow d d"
  unfolding sessions_grow_def by (rule exI [of _ "db_sessions d"]) (simp add: list_all2_refl)

lemma sessions_grow_run:
  "sessions_sound d \<Longrightarrow> sessions_grow d (foldl (world_step en) d es)"
proof (induction es arbitrary: d)
  case (Cons e es)
  have "sessions_sound (world_step en d e)" "sessions_grow d (world_step en d e)"
    using Cons.prems world_step_moves [of d en e] by (auto simp: retire_ok_def sessions_ok_def)
  then show ?case using Cons.IH sessions_grow_trans by simp
qed simp

lemma grown_session:
  assumes "sessions_grow d d'" and "s \<in> set (db_sessions d)"
  shows "\<exists>s'\<in>set (db_sessions d'). session_moves s' s"
proof -
  obtain ms new where m: "db_sessions d' = ms @ new" "list_all2 session_moves ms (db_sessions d)"
    using assms(1) by (auto simp: sessions_grow_def)
  obtain n where n: "n < length (db_sessions d)" "db_sessions d ! n = s"
    using assms(2) by (auto simp: in_set_conv_nth)
  then have "session_moves (ms ! n) s" "ms ! n \<in> set ms"
    using m(2) by (auto simp: list_all2_conv_all_nth)
  then show ?thesis using m(1) by auto
qed

text \<open>
  A session whose sequence has reached an event's rejects it, whatever else has happened.
\<close>

lemma stale_event_rejected:
  assumes sound: "sessions_sound d" and s: "s \<in> set (db_sessions d)"
    and k: "session_key s = (in_runId i, in_generation i, in_reporterEpoch i)"
    and seq: "in_sourceSequence i \<le> rs_sourceSequence s"
    and p: "parse_event_input e = Inr i"
  shows "\<exists>err. ingestRuntimeStatusEvent now w who e d = Inl err"
proof (cases "ingestRuntimeStatusEvent now w who e d")
  case (Inr r)
  then obtain d' st where "ingestRuntimeStatusEvent now w who e d = Inr (d', st)" by (cases r) auto
  then obtain run profile u where adm: "admit_event now run profile i d = Inr u"
    using ingest_InrD p by (metis sum.inject(2))
  then have u: "getCurrentReporterSession d (r_id run) (r_generation run) = Some u"
    "reporter_identity_ok run profile u i" "rs_sourceSequence u < in_sourceSequence i"
    by (auto simp: admit_event_def split: option.splits if_splits)
  have "u \<in> set (db_sessions d)" "session_key u = session_key s"
    using current_session_in [OF u(1)] u(2) k by (auto simp: session_key_def reporter_identity_ok_def)
  then have "u = s" using sound s unfolding sessions_sound_def by (metis distinct_map inj_onD)
  then show ?thesis using u(3) seq by simp
qed auto


subsection \<open>A concrete store\<close>

text \<open>One group with one member, whose run has a verified process and a current reporter session.\<close>

definition digest64 :: string where "digest64 = replicate 64 CHR ''a''"

definition sample_terminal :: terminal_binding where
  "sample_terminal = \<lparr>tb_serverName = ''nanasa'', tb_sessionId = ''s'', tb_windowId = ''@1'', tb_paneId = ''%1''\<rparr>"

definition sample_run :: run where
  "sample_run = \<lparr>r_id = ''run'', r_owner = MemberRun ''g'' ''m'', r_agentProfileId = ''p'',
     r_checkoutId = None, r_resolvedWorkingDirectory = None, r_generation = 1, r_status = Rs_running,
     r_desiredState = Ds_running, r_recoveryPhase = Rp_idle, r_recoveryAttempts = 0,
     r_recoveryNotBefore = None, r_recoveryReason = None, r_launchKind = Lk_fresh,
     r_requestedModel = None, r_requestedModelSource = Ms_provider_default, r_effectiveModel = None,
     r_nativeSessionId = None, r_recoveryOutcome = None, r_terminal = Some sample_terminal,
     r_startedAt = 0, r_stoppedAt = None\<rparr>"

definition sample_session :: reporter_session where
  "sample_session = \<lparr>rs_id = ''session'', rs_providerId = ''pi'', rs_adapterId = ''pi'',
     rs_reporterId = ''rep'', rs_source = Src_pi, rs_protocolVersion = 2,
     rs_reporterVersion = ''1'', rs_runId = ''run'', rs_generation = 1, rs_reporterEpoch = ''ep'',
     rs_sourceSequence = 0, rs_nativeSessionId = None, rs_readinessCoverage = Rc_full,
     rs_processFingerprint = Some digest64, rs_openedAt = 0, rs_leaseExpiresAt = 45000,
     rs_revokedAt = None, rs_closedAt = None\<rparr>"

definition sample_status :: reducer_state where
  "sample_status = (createAgentStatusReducerState ''run'' 1 0)\<lparr>st_state := St_idle,
     st_processState := Ps_present, st_processFingerprint := Some digest64,
     st_transportLease := Some 45000, st_reporterLease := Some 45000,
     st_reporterEpoch := Some ''ep'', st_authorityKind := Ak_reporter,
     st_staleAuthority := False, st_interactiveReady := True\<rparr>"

definition sample_db :: db where
  "sample_db = empty_db\<lparr>
     db_groups := [\<lparr>g_id = ''g'', g_name = ''team'', g_order = 0, g_membershipRevision = 1,
        g_messageSequence = 0, g_createdAt = 0, g_updatedAt = 0\<rparr>],
     db_memberships := [\<lparr>m_id = ''ms'', m_groupId = ''g'', m_memberId = ''m'',
        m_agentProfileId = ''p'', m_alias = ''dev'', m_roleId = None, m_order = 0, m_active = True, m_joinedAt = 0,
        m_removedAt = None\<rparr>],
     db_profiles := [\<lparr>ap_id = ''p'', ap_agentType = ''pi''\<rparr>],
     db_runs := [sample_run], db_statuses := [(''run'', sample_status)],
     db_sessions := [sample_session]\<rparr>"

definition sample_input :: "event_kind \<Rightarrow> nat \<Rightarrow> event_input" where
  "sample_input kind seq = (sample_event kind (Some ''op'') (Some ''req''))\<lparr>
     in_eventId := ''e'' @ show_nat seq, in_sourceSequence := seq\<rparr>"

definition sample_environment :: environment where
  "sample_environment = \<lparr>en_policy = default_policy, en_authorize = None,
     en_fingerprint = (\<lambda>_. digest64), en_describe = (\<lambda>_. ''failed''),
     en_digest = (\<lambda>_ _. digest64), en_onCreated = (\<lambda>_. Inr ()), en_owner = ''scheduler'',
     en_daemonEpoch = 1, en_location = (\<lambda>_. Inr (None, None))\<rparr>"

definition sample_command :: create_command where
  "sample_command = \<lparr>cc_kind = Akd_prompt, cc_groupId = ''g'', cc_memberId = ''m'',
     cc_prompt = Some ''go'', cc_messageId = None, cc_conversationId = None,
     cc_replyToActionId = None, cc_causationId = None, cc_allowWorking = False,
     cc_expectedRunId = None, cc_expectedGeneration = None, cc_expectedStatusRevision = None,
     cc_queueTimeoutMs = 300000, cc_acceptanceTimeoutMs = 30000, cc_completionTimeoutMs = 3600000\<rparr>"

lemma ingest_InrI:
  assumes "parse_event_input event = Inr input" and "requireCurrentStatusRun d who = Inr run"
    and "requireAgentProfile d (r_agentProfileId run) = Inr profile"
    and "admit_event now run profile input d = Inr session"
    and "d1 = put_session (rs_id session) (advance_session input (now + REPORTER_LEASE_MS)) d"
    and "nxt = reduceAgentStatus (agentStatusState d1 run)
           (ReporterEvent now input (session_authority session (now + REPORTER_LEASE_MS)))"
    and "insertAgentStatusEvent run (in_eventId input) (source_name (in_source input))
           (event_kind_name (in_event input)) (in_occurredAt input) now None d1 = Inr d2"
    and "applyOpenWaitReporterEvent now w run session input nxt d2 = Inr d3"
    and "d4 = trimAgentStatusEvents (r_id run) (r_generation run) (upsertAgentStatusState run nxt d3)"
    and "statusForRuntime d4 run = Inr st"
    and "appendAgentStatusDomainEvents run (agentStatusState d1 run) nxt now d4 = Inr d5"
  shows "ingestRuntimeStatusEvent now w who event d = Inr (d5, st)"
  unfolding ingestRuntimeStatusEvent_def assms(1) rbind_simps assms(2) assms(3) assms(4) Let_def
    assms(5) [symmetric] assms(6) [symmetric] assms(7) assms(8) assms(9) [symmetric] assms(10) assms(11) ..

definition result_or :: "'a \<Rightarrow> 'a result \<Rightarrow> 'a" where
  "result_or a r = (case r of Inr b \<Rightarrow> b | Inl _ \<Rightarrow> a)"

lemma result_or: "\<not> isl r \<Longrightarrow> r = Inr (result_or a r)"
  by (cases r) (auto simp: result_or_def)

definition sample_started :: event_input where
  "sample_started = sample_input Ev_turn_started 1"
definition sample_d1 :: db where
  "sample_d1 = put_session ''session'' (advance_session sample_started 46000) sample_db"
definition sample_next :: reducer_state where
  "sample_next = reduceAgentStatus sample_status
  (ReporterEvent 1000 sample_started (session_authority sample_session 46000))"
definition sample_d2 :: db where
  "sample_d2 = result_or sample_d1 (insertAgentStatusEvent sample_run ''e1'' ''pi'' ''turn.started'' None 1000 None sample_d1)"
definition sample_d4 :: db where
  "sample_d4 = trimAgentStatusEvents ''run'' 1 (upsertAgentStatusState sample_run sample_next sample_d2)"

lemma sample_ingest:
  "\<exists>d5 st. ingestRuntimeStatusEvent 1000 ''w'' (MemberIdentity ''g'' ''m'' ''run'' 1) sample_started sample_db = Inr (d5, st)"
proof -
  let ?p = "\<lparr>ap_id = ''p'', ap_agentType = ''pi''\<rparr>"
  have s: "sample_d1 = put_session (rs_id sample_session) (advance_session sample_started (1000 + REPORTER_LEASE_MS)) sample_db"
    by (simp add: sample_d1_def sample_session_def REPORTER_LEASE_MS_def)
  have st: "agentStatusState sample_d1 sample_run = sample_status"
    by (simp add: agentStatusState_def sample_d1_def put_session_def sample_db_def sample_run_def)
  have 1: "parse_event_input sample_started = Inr sample_started" by code_simp
  have 2: "requireCurrentStatusRun sample_db (MemberIdentity ''g'' ''m'' ''run'' 1) = Inr sample_run" by code_simp
  have 3: "requireAgentProfile sample_db (r_agentProfileId sample_run) = Inr ?p" by code_simp
  have 4: "admit_event 1000 sample_run ?p sample_started sample_db = Inr sample_session" by code_simp
  have 7: "\<not> isl (insertAgentStatusEvent sample_run ''e1'' ''pi'' ''turn.started'' None 1000 None sample_d1)" by code_simp
  have 8: "\<not> isl (statusForRuntime sample_d4 sample_run)" by code_simp
  have 9: "\<not> isl (appendAgentStatusDomainEvents sample_run sample_status sample_next 1000 sample_d4)" by code_simp
  have e: "in_eventId sample_started = ''e1''" "source_name (in_source sample_started) = ''pi''"
    "event_kind_name (in_event sample_started) = ''turn.started''" "in_occurredAt sample_started = None"
    by code_simp+
  have a: "applyOpenWaitReporterEvent 1000 ''w'' sample_run sample_session sample_started sample_next
      sample_d2 = Inr sample_d2"
    by (simp add: applyOpenWaitReporterEvent_def sample_run_def sample_started_def sample_input_def
        sample_event_def)
  have n: "sample_next = reduceAgentStatus (agentStatusState sample_d1 sample_run)
      (ReporterEvent 1000 sample_started (session_authority sample_session (1000 + REPORTER_LEASE_MS)))"
    by (simp add: sample_next_def st REPORTER_LEASE_MS_def)
  have r: "r_id sample_run = ''run''" "r_generation sample_run = 1" by (simp_all add: sample_run_def)
  show ?thesis
    by (intro exI, rule ingest_InrI [OF 1 2 3 4 s n _ a])
      (unfold e r st, rule result_or [OF 7, of sample_d1, folded sample_d2_def], rule sample_d4_def,
        rule result_or [OF 8], rule result_or [OF 9])
qed

definition sample_world :: db where
  "sample_world = world_step sample_environment sample_db
     (We_create 1000 ''a'' (Operator ''op'') sample_command ''key'')"

definition sample_action :: agent_action where
  "sample_action = hd (db_actions sample_world)"



end
