(* ===== verification/Action_Properties.thy ===== *)
theory Action_Properties
  imports World
begin

text \<open>
  The properties of actions, attempts and reporter sessions over every interleaving of the world's
  steps, each with a witness on the concrete store of \<open>World\<close>.
\<close>

subsection \<open>Facts about runs of the world\<close>

lemma state_moves_run:
  "attempts_sound d \<Longrightarrow> state_moves d (foldl (world_step en) d es)"
proof (induction es arbitrary: d)
  case (Cons e es)
  have "attempts_sound (world_step en d e)" "state_moves d (world_step en d e)"
    using Cons.prems world_step_moves [of d en e] by (auto simp: retire_ok_def)
  then show ?case using Cons.IH state_moves_trans by simp
qed simp

lemma dispatch_verified_awaits:
  assumes "dispatch_verified now au action run current view d = Inr text"
  shows "\<exists>s. state_of d (a_id action) = Some s \<and> awaiting_submission s"
  using assms
  by (auto simp: dispatch_verified_def final_check_def getAgentAction_def rbind_eq_Inr Let_def state_of_def
      split: if_splits)

lemma attempts_of_awaiting:
  assumes "attempts_sound d" and "state_of d i = Some s" and "awaiting_submission s"
    and "t \<in> set (db_attempts d)" and "at_actionId t = i"
  shows "at_state t = At_submitting"
  using assms by (auto simp: attempts_sound_def list_all_iff attempt_sound_def)

subsection \<open>A store with an attempt under way\<close>

definition sample_detail :: status_detail where
  "sample_detail = \<lparr>sd_groupId = ''g'', sd_memberId = ''m'', sd_alias = ''dev'',
     sd_agentType = ''pi'', sd_runId = Some ''run'', sd_generation = Some 1,
     sd_runStatus = Some Rs_running, sd_state = St_idle, sd_phase = Ph_settled,
     sd_outcome = Oc_unknown, sd_attention = At_none, sd_acknowledgedRevision = 0,
     sd_completionPending = False, sd_openWait = None, sd_body = sample_status\<rparr>"

definition sample_action :: agent_action where
  "sample_action = new_action 1000 ''a'' 1 digest64 (Operator ''op'') sample_command ''key'' None
     sample_run sample_session sample_detail"

definition sample_attempt :: action_attempt where
  "sample_attempt = new_attempt 2000 (\<lambda>_. digest64) ''scheduler'' ''t'' sample_action sample_terminal
     sample_detail 1"

definition sample_submitting :: db where
  "sample_submitting =
     sample_db\<lparr>db_actions := [sample_action], db_attempts := [sample_attempt]\<rparr>"

definition sample_process :: process_identity where
  "sample_process = \<lparr>pi_foregroundPgid = 1, pi_leaderPid = 1, pi_pidStartIdentity = ''x'',
     pi_executableFingerprint = digest64, pi_argvFingerprint = digest64,
     pi_processFingerprint = digest64, pi_expectedProviderMatch = Pm_match, pi_wrapperChain = []\<rparr>"

definition sample_view :: runtime_view where
  "sample_view = \<lparr>rv_state = Ps_present, rv_process = Some sample_process\<rparr>"

lemma sample_submitting_sound: "attempts_sound sample_submitting"
  by code_simp

lemma sample_dispatch:
  "\<not> isl (dispatch_verified 2001 None sample_action sample_run sample_detail sample_view sample_submitting)"
  by code_simp

lemma sample_mark:
  "\<not> isl (markAgentActionSubmitted 2002 ''a'' ''t'' ''scheduler'' sample_submitting)"
  by code_simp

subsection \<open>Properties\<close>

text \<open>
  C1. At most one attempt per action: starting from a store without attempts, whatever services,
  reporters, operators and run changes do, and however the scheduler's asynchronous passes
  interleave with them (stale snapshots, repeated passes, crash recovery included), no action ever
  gets a second submission attempt. An attempt is what precedes every terminal write, so a prompt
  is typed into a terminal at most once.
\<close>

theorem one_attempt_per_action:
  assumes "db_attempts d = []"
  shows "distinct (map at_actionId (db_attempts (foldl (world_step en) d es)))"
  using world.run_inv [OF attempts_sound_empty [OF assms], of en es] by (simp add: attempts_sound_def)

theorem one_attempt_per_action_witness:
  "distinct (map at_actionId (db_attempts (foldl (world_step sample_environment) sample_db
     [We_create 1000 ''a'' (Operator ''op'') sample_command ''key'',
      We_consider 2000 ''t1'' sample_action, We_consider 2001 ''t2'' sample_action,
      We_commit 2002 ''a'' ''t1'', We_consider 2003 ''t3'' sample_action])))"
  by (rule one_attempt_per_action) (simp add: sample_db_def empty_db_def)

text \<open>
  C2. The final states of an action: a completed, cancelled, rejected, expired or superseded action
  keeps its state over every interleaving of the world's operations; one that is settled unverified,
  failed, stalled or timed out keeps it too, except that a reset of the coordination state or the
  clean-up of a removed goal may supersede it, and without such an event it keeps it as well. No
  scheduler pass, acknowledgement, status change or cancellation ever leaves a final state, although
  the store's own \<open>failAgentActionAttempt\<close> does not look at it.
\<close>

theorem final_action_states_stay:
  assumes "attempts_sound d" and "state_of d i = Some s" and "terminal_action_state s"
  shows "let s' = state_of (foldl (world_step en) d es) i in
    (s' = Some s \<or> \<not> settled_action s \<and> s' = Some As_superseded) \<and>
    (list_ex retires es \<or> s' = Some s)"
  using run_keeps_settled [OF assms(1), of en es] run_keeps_final [OF assms(1), of es en] assms(2,3)
  unfolding Let_def keeps_settled_def keeps_final_def by blast

definition sample_stopped :: "action_state \<Rightarrow> db" where
  "sample_stopped st = sample_db\<lparr>
     db_runs := [sample_run\<lparr>r_status := Rs_stopped, r_desiredState := Ds_stopped\<rparr>],
     db_actions := [sample_action\<lparr>a_state := st\<rparr>]\<rparr>"

lemma sample_stopped_facts:
  "attempts_sound (sample_stopped st)" "state_of (sample_stopped st) ''a'' = Some st"
  by (simp_all add: attempts_sound_def sample_stopped_def sample_db_def empty_db_def state_of_def
      sample_action_def new_action_def)

lemma stalled_action_retired:
  "state_of (foldl (world_step sample_environment) (sample_stopped As_stalled) [We_reset 9000 [''a'']]) ''a''
     = Some As_superseded"
  by code_simp

theorem final_action_states_stay_witness:
  "state_of (foldl (world_step sample_environment) (sample_stopped As_cancelled)
     [We_consider 2000 ''t1'' sample_action, We_reset 9000 [''a''], We_commit 9002 ''a'' ''t1'',
      We_submission_failed 9003 ''a'' ''t1'' True SchemaError]) ''a'' = Some As_cancelled \<and>
   state_of (foldl (world_step sample_environment) (sample_stopped As_stalled)
     [We_consider 2000 ''t1'' sample_action, We_commit 9002 ''a'' ''t1'']) ''a'' = Some As_stalled \<and>
   state_of (foldl (world_step sample_environment) (sample_stopped As_stalled)
     [We_cleanup 9000 [(''goal'', [''a''])], We_recover 9001]) ''a'' \<in> {Some As_stalled, Some As_superseded}"
proof -
  have t: "terminal_action_state As_cancelled" "terminal_action_state As_stalled"
    "settled_action As_cancelled" by code_simp+
  note cancelled = final_action_states_stay [OF sample_stopped_facts t(1), unfolded Let_def]
  note stalled = final_action_states_stay [OF sample_stopped_facts t(2), unfolded Let_def]
  let ?es = "[We_consider 2000 ''t1'' sample_action, We_commit 9002 ''a'' ''t1'']"
  have plain: "\<not> list_ex retires ?es" by simp
  show ?thesis
  proof (intro conjI)
    show "state_of (foldl (world_step sample_environment) (sample_stopped As_stalled) ?es) ''a'' = Some As_stalled"
      using conjunct2 [OF stalled [of sample_environment ?es]] plain by blast
  qed (use conjunct1 [OF cancelled] conjunct1 [OF stalled] t(3) in blast)+
qed

text \<open>
  C14. No second write: once a submission has been committed, the verification in front of the
  terminal write refuses that action for ever, whatever happens in between.
\<close>

theorem no_write_after_commit:
  assumes "attempts_sound d"
    and "markAgentActionSubmitted now (a_id action) k owner d = Inr (d1, r)"
  shows "\<exists>err. dispatch_verified now' authorize action run current view
                 (foldl (world_step en) d1 es) = Inl err"
proof (cases "dispatch_verified now' authorize action run current view (foldl (world_step en) d1 es)")
  case (Inr out)
  note m = mark_effect [OF assms(2,1)]
  have sound: "attempts_sound d1" by (rule attempts_sound_moves [OF m(4) assms(1)])
  obtain s where "state_of (foldl (world_step en) d1 es) (a_id action) = Some s" "awaiting_submission s"
    using dispatch_verified_awaits [OF Inr] by blast
  moreover obtain s' where "state_of (foldl (world_step en) d1 es) (a_id action) = Some s'"
    "awaiting_submission s' \<longrightarrow> awaiting_submission As_submitted"
    using state_moves_run [OF sound, of en es] m(2) unfolding state_moves_def by blast
  ultimately show ?thesis by (auto simp: awaiting_submission_def)
qed auto

theorem no_write_after_commit_witness:
  "\<exists>d1 err. dispatch_verified 3000 None sample_action sample_run sample_detail sample_view
     (foldl (world_step sample_environment) d1 [We_recover 50000, We_consider 60000 ''t2'' sample_action])
     = Inl err \<and> d1 \<noteq> sample_submitting"
proof -
  obtain d1 r where m: "markAgentActionSubmitted 2002 (a_id sample_action) ''t'' ''scheduler''
      sample_submitting = Inr (d1, r)"
    using sample_mark
    by (cases "markAgentActionSubmitted 2002 ''a'' ''t'' ''scheduler'' sample_submitting")
      (auto simp: sample_action_def new_action_def)
  have "state_of d1 ''a'' = Some As_submitted"
    using mark_effect(2) [OF m sample_submitting_sound] by (simp add: sample_action_def new_action_def)
  then have "d1 \<noteq> sample_submitting"
    by (auto simp: state_of_def sample_submitting_def sample_action_def new_action_def)
  then show ?thesis
    using no_write_after_commit [OF sample_submitting_sound m] by blast
qed

text \<open>
  C3. What holds at the instant of a terminal write: the action still awaits submission and every
  attempt it has is the one under way; the target's status admits a dispatch now; the reporter is
  the one the action was bound to; and the process in the pane is present, matches the provider and
  carries the fingerprint that reporter is bound to.
\<close>

theorem terminal_write_guard:
  assumes "attempts_sound d"
    and "dispatch_verified now authorize action run current view d = Inr text"
  shows "text = actionPrompt action \<and>
         (\<exists>s. state_of d (a_id action) = Some s \<and> awaiting_submission s) \<and>
         (\<forall>t\<in>set (db_attempts d). at_actionId t = a_id action \<longrightarrow> at_state t = At_submitting) \<and>
         (\<exists>status. action_status action d = Inr status \<and> actionReadiness action status now = Dispatch) \<and>
         (\<exists>s p. getCurrentReporterSession d (r_id run) (r_generation run) = Some s \<and>
            rs_id s = tg_reporterSessionId (a_target action) \<and>
            rs_reporterEpoch s = tg_reporterEpoch (a_target action) \<and>
            rv_state view = Ps_present \<and> rv_process view = Some p \<and>
            pi_expectedProviderMatch p = Pm_match \<and>
            rs_processFingerprint s = Some (pi_processFingerprint p))"
proof (intro conjI)
  have cur: "process_current view current run d"
    and fin: "final_check now action run view d = Inr True" and tx: "text = actionPrompt action"
    using assms(2) by (auto simp: dispatch_verified_def rbind_eq_Inr split: if_splits)
  show "text = actionPrompt action" by (rule tx)
  show aw: "\<exists>s. state_of d (a_id action) = Some s \<and> awaiting_submission s"
    by (rule dispatch_verified_awaits [OF assms(2)])
  show "\<forall>t\<in>set (db_attempts d). at_actionId t = a_id action \<longrightarrow> at_state t = At_submitting"
    using aw attempts_of_awaiting [OF assms(1)] by blast
  show "\<exists>status. action_status action d = Inr status \<and> actionReadiness action status now = Dispatch"
    using fin by (auto simp: final_check_def rbind_eq_Inr Let_def)
  show "\<exists>s p. getCurrentReporterSession d (r_id run) (r_generation run) = Some s \<and>
           rs_id s = tg_reporterSessionId (a_target action) \<and>
           rs_reporterEpoch s = tg_reporterEpoch (a_target action) \<and>
           rv_state view = Ps_present \<and> rv_process view = Some p \<and>
           pi_expectedProviderMatch p = Pm_match \<and>
           rs_processFingerprint s = Some (pi_processFingerprint p)"
    using fin cur
    by (auto simp: final_check_def process_current_def rbind_eq_Inr Let_def split: option.splits)
qed

theorem terminal_write_guard_witness:
  "\<exists>text. dispatch_verified 2001 None sample_action sample_run sample_detail sample_view sample_submitting
            = Inr text \<and> text = actionPrompt sample_action \<and>
          (\<exists>status. action_status sample_action sample_submitting = Inr status \<and>
                    actionReadiness sample_action status 2001 = Dispatch)"
proof -
  obtain out where t: "dispatch_verified 2001 None sample_action sample_run sample_detail sample_view
      sample_submitting = Inr out"
    using sample_dispatch
    by (cases "dispatch_verified 2001 None sample_action sample_run sample_detail sample_view sample_submitting")
      auto
  show ?thesis
    using t terminal_write_guard [OF sample_submitting_sound t] by blast
qed

text \<open>
  C16. One reporter at a time: from a store without reporter sessions, after any steps, at most one
  session per run and generation is neither revoked nor closed.
\<close>

theorem one_open_session_per_run:
  assumes "db_sessions d = []"
  shows "distinct (map session_run (filter open_session (db_sessions (foldl (world_step en) d es))))"
proof -
  have "sessions_sound d" using assms by (simp add: sessions_sound_def)
  from sessions_machine.run_inv [OF this, of en es] show ?thesis by (simp add: sessions_sound_def)
qed

theorem one_open_session_per_run_witness:
  "distinct (map session_run (filter open_session (db_sessions (foldl (world_step sample_environment)
     (sample_db\<lparr>db_sessions := []\<rparr>)
     [We_register sample_session,
      We_register (sample_session\<lparr>rs_id := ''session2'', rs_reporterEpoch := ''ep2''\<rparr>)]))))"
  by (rule one_open_session_per_run) simp

text \<open>
  C15. Replay protection: once a reporter event has been accepted, the same event, or any other of
  that reporter epoch whose sequence number is not higher, is refused in every later state, from any
  identity and at any time, also after the log of observed event ids has been trimmed.
\<close>

theorem accepted_events_not_replayed:
  assumes sound: "sessions_sound d"
    and first: "ingestRuntimeStatusEvent now w who e d = Inr (d1, st)"
    and "parse_event_input e = Inr i" and again: "parse_event_input e' = Inr i'"
    and same: "in_runId i' = in_runId i" "in_generation i' = in_generation i"
      "in_reporterEpoch i' = in_reporterEpoch i" "in_sourceSequence i' \<le> in_sourceSequence i"
  shows "\<exists>err. ingestRuntimeStatusEvent now' w' who' e' (foldl (world_step en) d1 es) = Inl err"
proof -
  obtain run profile s where adm: "admit_event now run profile i d = Inr s"
    and ss: "db_sessions d1 = update_where (\<lambda>u. rs_id u = rs_id s)
        (advance_session i (now + REPORTER_LEASE_MS)) (db_sessions d)"
    using ingest_InrD [OF first] assms(3) by (metis sum.inject(2))
  have s: "s \<in> set (db_sessions d)" and k: "session_key s = (in_runId i, in_generation i, in_reporterEpoch i)"
    using adm current_session_in
    by (auto simp: admit_event_def reporter_identity_ok_def session_key_def split: option.splits if_splits)
  let ?s1 = "advance_session i (now + REPORTER_LEASE_MS) s"
  have s1: "?s1 \<in> set (db_sessions d1)" using s by (auto simp: ss set_update_where)
  have d1: "world_step en d (We_ingest now w who e) = d1" by (simp add: first result_db_def)
  have sound1: "sessions_sound d1"
    using sessions_machine.step_inv [OF sound, of en "We_ingest now w who e"] d1 by simp
  let ?d = "foldl (world_step en) d1 es"
  obtain u where u: "u \<in> set (db_sessions ?d)" "session_moves u ?s1"
    using grown_session [OF sessions_grow_run [OF sound1] s1] by blast
  show ?thesis
    by (rule stale_event_rejected [OF sessions_machine.run_inv [OF sound1] u(1) _ _ again])
      (use u(2) k same in \<open>auto simp: session_moves_def session_key_def advance_session_def\<close>)
qed

theorem accepted_events_not_replayed_witness:
  "\<exists>d1 err. ingestRuntimeStatusEvent 2000 ''w2'' (MemberIdentity ''g'' ''m'' ''run'' 1) sample_started
     (foldl (world_step sample_environment) d1 [We_process 1500 ''run'' (LeaseProbed ''probe'' 1500)])
     = Inl err"
proof -
  obtain d1 st where i: "ingestRuntimeStatusEvent 1000 ''w'' (MemberIdentity ''g'' ''m'' ''run'' 1)
      sample_started sample_db = Inr (d1, st)"
    using sample_ingest by blast
  have p: "parse_event_input sample_started = Inr sample_started" by code_simp
  have s: "sessions_sound sample_db" by code_simp
  show ?thesis
    using accepted_events_not_replayed [OF s i p p] by blast
qed

end
