(* ===== verification/Store_Idempotency.thy ===== *)
theory Store_Idempotency
  imports Store_Runs
begin

text \<open>
  Idempotent commands of \<open>NanasaStore\<close>: \<open>#executeIdempotent\<close>, which retains the result of a domain
  command under its scope and key, and the HTTP reservations \<open>claimHttpIdempotency\<close>,
  \<open>completeHttpIdempotency\<close> and \<open>executeHttpIdempotency\<close>, which retain whole responses.

  An operation is a function from the store to an error or a new store and a result:
  \<open>#transaction\<close> rolls everything back on an error, which here is that the caller keeps the store
  it had.
\<close>

subsection \<open>Domain commands\<close>

type_synonym command = "db \<Rightarrow> (db \<times> idem_response) result"

definition idempotency_entry :: "db \<Rightarrow> string \<Rightarrow> string \<Rightarrow> idempotency_row option" where
  "idempotency_entry d scope key =
     find_where (\<lambda>r. ik_scope r = scope \<and> ik_key r = key) (db_idempotency d)"

definition retained_response ::
  "string option \<Rightarrow> idempotency_row \<Rightarrow> idem_response result" where
  "retained_response requestDigest existing =
     (if ik_invalidatedAt existing \<noteq> None
      then Inl (DomainError ''idempotency_result_expired'' 410)
      else if requestDigest \<noteq> None \<and> ik_requestDigest existing \<noteq> requestDigest
      then Inl (DomainError ''idempotency_request_conflict'' 409)
      else Inr (ik_response existing))"

definition insert_idempotency ::
  "timestamp \<Rightarrow> string \<Rightarrow> string \<Rightarrow> string option \<Rightarrow> idem_response \<Rightarrow> db \<Rightarrow> db result" where
  "insert_idempotency now scope key requestDigest response d =
     (if idempotency_entry d scope key \<noteq> None then Inl ConstraintError else
      Inr (d\<lparr>db_idempotency := db_idempotency d @
        [\<lparr>ik_scope = scope, ik_key = key, ik_requestDigest = requestDigest, ik_response = response,
          ik_eventSequence = db_eventSeq d, ik_createdAt = now, ik_invalidatedAt = None\<rparr>]\<rparr>))"

definition executeIdempotent ::
  "timestamp \<Rightarrow> string \<Rightarrow> string option \<Rightarrow> string option \<Rightarrow> command \<Rightarrow> command" where
  "executeIdempotent now scope idempotencyKey requestDigest operation d =
     (case idempotencyKey of
        None \<Rightarrow> operation d
      | Some key \<Rightarrow>
          (case idempotency_entry d scope key of
             Some existing \<Rightarrow> rbind (retained_response requestDigest existing) (\<lambda>r. Inr (d, r))
           | None \<Rightarrow> rbind (operation d) (\<lambda>(d1, r).
               rbind (insert_idempotency now scope key requestDigest r d1) (\<lambda>d2. Inr (d2, r)))))"

lemma insert_idempotency_tables:
  assumes "insert_idempotency now scope key rd r d = Inr d'"
  shows "db_groups d' = db_groups d" "db_memberships d' = db_memberships d"
    "db_runs d' = db_runs d" "db_sessions d' = db_sessions d" "db_actions d' = db_actions d"
    "db_attempts d' = db_attempts d" "db_waits d' = db_waits d" "db_messages d' = db_messages d"
    "db_deliveries d' = db_deliveries d" "db_eventSeq d' = db_eventSeq d" "db_events d' = db_events d"
    "db_acks d' = db_acks d" "db_statuses d' = db_statuses d" "db_profiles d' = db_profiles d"
    "idempotency_entry d' scope key = Some \<lparr>ik_scope = scope, ik_key = key, ik_requestDigest = rd,
       ik_response = r, ik_eventSequence = db_eventSeq d, ik_createdAt = now, ik_invalidatedAt = None\<rparr>"
  using assms
  by (auto simp: insert_idempotency_def idempotency_entry_def find_where_append split: if_splits)

text \<open>A command that ran under a key is answered from the table as long as its row is there.\<close>

lemma executeIdempotent_retains:
  assumes "executeIdempotent now scope (Some key) rd operation d = Inr (d1, r)"
  shows "\<exists>row. idempotency_entry d1 scope key = Some row \<and> ik_response row = r \<and>
           ik_invalidatedAt row = None \<and> (rd = None \<or> ik_requestDigest row = rd)"
proof (cases "idempotency_entry d scope key")
  case None
  then obtain d0 where i: "insert_idempotency now scope key rd r d0 = Inr d1"
    using assms by (auto simp: executeIdempotent_def rbind_eq_Inr)
  show ?thesis using insert_idempotency_tables(15) [OF i] by simp
next
  case (Some row)
  then show ?thesis using assms
    by (auto simp: executeIdempotent_def retained_response_def split: if_splits)
qed

lemma executeIdempotent_replays:
  assumes "idempotency_entry d1 scope key = Some row" and "ik_invalidatedAt row = None"
    and "rd = None \<or> ik_requestDigest row = rd"
  shows "executeIdempotent now scope (Some key) rd operation d1 = Inr (d1, ik_response row)"
  using assms by (auto simp: executeIdempotent_def retained_response_def)

subsection \<open>HTTP reservations\<close>

record http_request =
  hq_principalId :: string
  hq_routeId :: string
  hq_key :: string
  hq_requestDigest :: string

datatype http_claim = Hc_execute | Hc_replay nat string

definition same_request :: "http_request \<Rightarrow> http_row \<Rightarrow> bool" where
  "same_request q r \<longleftrightarrow> hk_principalId r = hq_principalId q \<and> hk_routeId r = hq_routeId q \<and>
     hk_key r = hq_key q"

definition http_entry :: "db \<Rightarrow> http_request \<Rightarrow> http_row option" where
  "http_entry d q = find_where (same_request q) (db_http d)"

definition drop_expired_http :: "timestamp \<Rightarrow> db \<Rightarrow> db" where
  "drop_expired_http now d =
     d\<lparr>db_http := delete_where (\<lambda>r. hk_completed r \<and> hk_expiresAt r \<le> now) (db_http d)\<rparr>"

definition http_replay :: "http_request \<Rightarrow> http_row \<Rightarrow> http_claim result" where
  "http_replay q existing =
     (if hk_requestDigest existing \<noteq> hq_requestDigest q
      then Inl (DomainError ''idempotency_request_conflict'' 409)
      else if \<not> hk_completed existing then Inl (DomainError ''idempotency_outcome_uncertain'' 409)
      else case hk_statusCode existing of
        None \<Rightarrow> Inl (DomainError ''idempotency_result_invalid'' 500)
      | Some code \<Rightarrow> Inr (Hc_replay code (hk_response existing)))"

definition claimHttpIdempotency ::
  "timestamp \<Rightarrow> int option \<Rightarrow> http_request \<Rightarrow> db \<Rightarrow> (db \<times> http_claim) result" where
  "claimHttpIdempotency now inProgressTtlMs q d =
     (let d1 = drop_expired_http now d in
      case http_entry d1 q of
        Some existing \<Rightarrow> rbind (http_replay q existing) (\<lambda>c. Inr (d1, c))
      | None \<Rightarrow> Inr (d1\<lparr>db_http := db_http d1 @
          [\<lparr>hk_principalId = hq_principalId q, hk_routeId = hq_routeId q, hk_key = hq_key q,
            hk_requestDigest = hq_requestDigest q, hk_completed = False, hk_statusCode = None,
            hk_response = ''null'', hk_createdAt = now, hk_updatedAt = now,
            hk_expiresAt = now + (case inProgressTtlMs of None \<Rightarrow> 5 * 60000 | Some t \<Rightarrow> t)\<rparr>]\<rparr>,
          Hc_execute))"

definition reserved :: "http_request \<Rightarrow> http_row \<Rightarrow> bool" where
  "reserved q r \<longleftrightarrow> same_request q r \<and> hk_requestDigest r = hq_requestDigest q \<and> \<not> hk_completed r"

text \<open>The table checks the status code: a number between 100 and 599.\<close>

definition completeHttpIdempotency ::
  "timestamp \<Rightarrow> int option \<Rightarrow> http_request \<Rightarrow> nat \<Rightarrow> string \<Rightarrow> db \<Rightarrow> (db \<times> unit) result" where
  "completeHttpIdempotency now retentionMs q statusCode response d =
     (if statusCode < 200 \<or> 500 \<le> statusCode
      then Inl (PlainError ''Only completed responses and deterministic 4xx outcomes may be retained'')
      else if count_where (reserved q) (db_http d) \<noteq> 1
      then Inl (DomainError ''idempotency_completion_conflict'' 409)
      else Inr (d\<lparr>db_http := update_where (reserved q)
          (\<lambda>r. r\<lparr>hk_response := response, hk_completed := True, hk_statusCode := Some statusCode,
                 hk_updatedAt := now,
                 hk_expiresAt := now + (case retentionMs of None \<Rightarrow> 24 * 60 * 60000 | Some t \<Rightarrow> t)\<rparr>)
          (db_http d)\<rparr>, ()))"

text \<open>
  The handler runs inside the transaction that holds its reservation; a promise instead of an
  outcome is refused.
\<close>

datatype http_outcome = Settled nat string | Promise

datatype http_execution = He_replay nat string | He_executed nat string

definition executeHttpIdempotency ::
  "timestamp \<Rightarrow> timestamp \<Rightarrow> http_request \<Rightarrow> (db \<Rightarrow> (db \<times> http_outcome) result) \<Rightarrow> db \<Rightarrow>
   (db \<times> http_execution) result" where
  "executeHttpIdempotency now completedAt q operation d =
     rbind (claimHttpIdempotency now None q d) (\<lambda>(d1, claim).
       case claim of
         Hc_replay code response \<Rightarrow> Inr (d1, He_replay code response)
       | Hc_execute \<Rightarrow>
           rbind (operation d1) (\<lambda>(d2, outcome).
             case outcome of
               Promise \<Rightarrow> Inl (PlainError ''Transactional HTTP idempotency handlers must be synchronous'')
             | Settled code response \<Rightarrow>
                 rbind (completeHttpIdempotency completedAt None q code response d2) (\<lambda>(d3, _).
                   Inr (d3, He_executed code response))))"

end
