(* ===== verification/Store_Messages.thy ===== *)
theory Store_Messages
  imports Store_Idempotency
begin

text \<open>
  Messages of \<open>NanasaStore\<close>: the schemas of \<open>packages/contracts/src/actions.ts\<close> a submission goes
  through, \<open>submitMessage\<close> with its audience, causation and retention rules, the message state and
  the pages of a group, and \<open>clearMessageHistory\<close>.

  A stored message was parsed when it was written and afterwards only loses references, so reading
  a row back (\<open>#hydrateMessage\<close>) gives the row. A delivery row is checked when it is read, because
  its reason is written unchecked. The random ids are parameters, the SHA-256 of a request too.
\<close>

subsection \<open>Schemas\<close>

definition MAX_MESSAGE_FAN_OUT :: nat where "MAX_MESSAGE_FAN_OUT = 32"
definition MAX_MESSAGE_CAUSAL_DEPTH :: nat where "MAX_MESSAGE_CAUSAL_DEPTH = 8"
definition MAX_AUTOMATED_REPLIES_PER_CONVERSATION :: nat where
  "MAX_AUTOMATED_REPLIES_PER_CONVERSATION = 16"
definition DEFAULT_MESSAGE_PAGE_SIZE :: int where "DEFAULT_MESSAGE_PAGE_SIZE = 20"
definition MAX_MESSAGE_PAGE_SIZE :: int where "MAX_MESSAGE_PAGE_SIZE = 100"

record submit_command =
  sc_conversationId :: "string option"
  sc_intent :: message_intent
  sc_sender :: message_sender
  sc_audience :: audience
  sc_body :: message_body
  sc_expiresAt :: "timestamp option"
  sc_replyTo :: "string option"
  sc_causationId :: "string option"

fun parse_sender :: "message_sender \<Rightarrow> message_sender result" where
  "parse_sender (FromOperator i) = rbind (parse_identifier i) (\<lambda>i'. Inr (FromOperator i'))"
| "parse_sender (FromAgent m r) =
     rbind (parse_identifier m) (\<lambda>m'. rbind (parse_identifier r) (\<lambda>r'. Inr (FromAgent m' r')))"

fun parse_all :: "('a \<Rightarrow> 'b result) \<Rightarrow> 'a list \<Rightarrow> 'b list result" where
  "parse_all p [] = Inr []"
| "parse_all p (x # xs) = rbind (p x) (\<lambda>y. rbind (parse_all p xs) (\<lambda>ys. Inr (y # ys)))"

fun parse_audience :: "audience \<Rightarrow> audience result" where
  "parse_audience (Dm m) = rbind (parse_identifier m) (\<lambda>m'. Inr (Dm m'))"
| "parse_audience (Multicast ms) =
     rbind (parse_all parse_identifier ms) (\<lambda>ms'.
       guarded (2 \<le> length ms' \<and> distinct ms') (Inr (Multicast ms')))"
| "parse_audience (GroupBroadcast n) = Inr (GroupBroadcast n)"

text \<open>
  The length of the text in UTF-8. A character of the model is a code unit below 256, so that
  surrogates, which the schema rejects when they are not paired, do not occur.
\<close>

definition utf8_length :: "string \<Rightarrow> nat" where
  "utf8_length s = sum_list (map (\<lambda>c. if (of_char c :: nat) < 128 then 1 else 2) s)"

definition parse_body :: "message_body \<Rightarrow> message_body result" where
  "parse_body b = guarded (b_text b \<noteq> [] \<and> utf8_length (b_text b) \<le> MAX_MESSAGE_TEXT_BYTES) (Inr b)"

definition is_operator :: "message_sender \<Rightarrow> bool" where
  "is_operator s = (case s of FromOperator _ \<Rightarrow> True | FromAgent _ _ \<Rightarrow> False)"

definition parse_submit_command :: "submit_command \<Rightarrow> submit_command result" where
  "parse_submit_command c =
     rbind (parse_opt parse_identifier (sc_conversationId c)) (\<lambda>conversationId.
     rbind (parse_sender (sc_sender c)) (\<lambda>sender.
     rbind (parse_audience (sc_audience c)) (\<lambda>audience.
     rbind (parse_body (sc_body c)) (\<lambda>body.
     rbind (parse_opt parse_identifier (sc_replyTo c)) (\<lambda>replyTo.
     rbind (parse_opt parse_identifier (sc_causationId c)) (\<lambda>causationId.
       guarded (sc_intent c = Mi_control \<longrightarrow> is_operator sender)
         (Inr (c\<lparr>sc_conversationId := conversationId, sc_sender := sender, sc_audience := audience,
            sc_body := body, sc_replyTo := replyTo, sc_causationId := causationId\<rparr>))))))))"

definition parse_message :: "message \<Rightarrow> message result" where
  "parse_message m =
     rbind (parse_identifier (msg_id m)) (\<lambda>id'.
     rbind (parse_identifier (msg_groupId m)) (\<lambda>groupId.
     rbind (parse_identifier (msg_conversationId m)) (\<lambda>conversationId.
     rbind (parse_sender (msg_sender m)) (\<lambda>sender.
     rbind (parse_audience (msg_audience m)) (\<lambda>audience.
     rbind (parse_body (msg_body m)) (\<lambda>body.
     rbind (parse_opt parse_identifier (msg_replyTo m)) (\<lambda>replyTo.
     rbind (parse_opt parse_identifier (msg_rootId m)) (\<lambda>rootId.
     rbind (parse_opt parse_identifier (msg_causationId m)) (\<lambda>causationId.
       guarded (0 < msg_groupSeq m \<and> msg_hop m \<le> MAX_MESSAGE_CAUSAL_DEPTH \<and>
                (msg_intent m = Mi_control \<longrightarrow> is_operator sender))
         (Inr (m\<lparr>msg_id := id', msg_groupId := groupId, msg_conversationId := conversationId,
            msg_sender := sender, msg_audience := audience, msg_body := body,
            msg_replyTo := replyTo, msg_rootId := rootId, msg_causationId := causationId\<rparr>)))))))))))"

subsection \<open>Reads\<close>

abbreviation find_message :: "string \<Rightarrow> message list \<Rightarrow> message option" where
  "find_message i \<equiv> find_where (\<lambda>m. msg_id m = i)"

interpretation messages: keyed_table msg_id find_message "\<lambda>k. update_where (\<lambda>r. msg_id r = k)" "\<lambda>r rs. rs @ [r]"
  by (rule keyed_table_rows)

definition getMessage :: "db \<Rightarrow> string \<Rightarrow> message result" where
  "getMessage d messageId =
     require (DomainError ''message_not_found'' 404) (find_message messageId (db_messages d))"

definition hydrateDelivery :: "delivery \<Rightarrow> delivery_outcome result" where
  "hydrateDelivery r =
     guarded (dv_reason r \<noteq> Some [])
       (Inr \<lparr>do_messageId = dv_messageId r, do_recipient = dv_recipient r, do_reason = dv_reason r,
          do_status = dv_status r, do_attempts = dv_attempts r, do_updatedAt = dv_updatedAt r\<rparr>)"

definition listDeliveries :: "db \<Rightarrow> string option \<Rightarrow> delivery_outcome list result" where
  "listDeliveries d messageId =
     parse_all hydrateDelivery
       (case messageId of
          None \<Rightarrow> sort_key (\<lambda>r. (dv_updatedAt r, dv_messageId r)) (db_deliveries d)
        | Some i \<Rightarrow> sort_key dv_recipient (filter (\<lambda>r. dv_messageId r = i) (db_deliveries d)))"

definition active_delivery :: "delivery_status \<Rightarrow> bool" where
  "active_delivery s \<longleftrightarrow> s \<in> {Dv_queued, Dv_received, Dv_delivering, Dv_retrying}"

definition failed_delivery :: "delivery_status \<Rightarrow> bool" where
  "failed_delivery s \<longleftrightarrow> s \<in> {Dv_failed, Dv_dead_letter, Dv_rejected}"

definition group_messages :: "db \<Rightarrow> string \<Rightarrow> message list" where
  "group_messages d groupId = filter (\<lambda>m. msg_groupId m = groupId) (db_messages d)"

text \<open>\<open>deliveries JOIN messages ON m.id = d.message_id WHERE m.group_id = ?\<close>: rows with their message.\<close>

definition group_deliveries :: "db \<Rightarrow> string \<Rightarrow> (delivery \<times> message) list" where
  "group_deliveries d groupId =
     concat (map (\<lambda>r. map (Pair r) (filter (\<lambda>m. msg_id m = dv_messageId r) (group_messages d groupId)))
       (db_deliveries d))"

definition getGroupMessageState :: "db \<Rightarrow> string \<Rightarrow> group_message_state result" where
  "getGroupMessageState d groupId =
     rbind (requireGroup d groupId) (\<lambda>g.
     let ms = group_messages d groupId;
         ds = group_deliveries d groupId;
         active = filter (\<lambda>p. active_delivery (dv_status (fst p))) ds;
         failed = map fst (sort_key (\<lambda>p. (dv_recipient (fst p), msg_groupSeq (snd p)))
                    (filter (\<lambda>p. failed_delivery (dv_status (fst p))) ds))
     in rbind (parse_all hydrateDelivery failed) (\<lambda>failedDeliveries.
        Inr \<lparr>gm_groupId = groupId, gm_latestGroupSeq = g_messageSequence g,
          gm_oldestRetainedGroupSeq =
            (if ms = [] then None else Some (foldr min (map msg_groupSeq ms) (msg_groupSeq (hd ms)))),
          gm_retainedMessageCount = length (remdups (map msg_id ms)),
          gm_activeDeliveryCount = length (remdups (map (\<lambda>p. dv_messageId (fst p) @ '':'' @
            dv_recipient (fst p)) active)),
          gm_failedRecipients = js_uniq (map dv_recipient failed),
          gm_failedDeliveries = failedDeliveries\<rparr>))"

record message_page =
  mp_groupId :: string
  mp_messages :: "message list"
  mp_deliveryOutcomes :: "delivery_outcome list"
  mp_state :: group_message_state
  mp_hasOlder :: bool
  mp_hasNewer :: bool
  mp_nextBefore :: "nat option"
  mp_nextAfter :: "nat option"

record page_options =
  po_limit :: "int option"
  po_before :: "int option"
  po_after :: "int option"

text \<open>The options are integers: a number that is not one is refused like one out of range.\<close>

definition check_page_options :: "page_options \<Rightarrow> (nat \<times> int option) result" where
  "check_page_options options =
     (let limit = (case po_limit options of None \<Rightarrow> DEFAULT_MESSAGE_PAGE_SIZE | Some n \<Rightarrow> n);
          cursor = (case po_before options of None \<Rightarrow> po_after options | Some n \<Rightarrow> Some n)
      in if limit < 1 \<or> MAX_MESSAGE_PAGE_SIZE < limit
         then Inl (DomainError ''invalid_message_limit'' 400)
         else if po_before options \<noteq> None \<and> po_after options \<noteq> None
         then Inl (DomainError ''invalid_message_cursor'' 400)
         else if (case cursor of None \<Rightarrow> False | Some n \<Rightarrow> n < 1)
         then Inl (DomainError ''invalid_message_cursor'' 400)
         else Inr (nat limit, cursor))"

definition page_rows :: "db \<Rightarrow> string \<Rightarrow> page_options \<Rightarrow> int option \<Rightarrow> nat \<Rightarrow> message list" where
  "page_rows d groupId options cursor n =
     (let rows = sort_key msg_groupSeq (group_messages d groupId)
      in take n (case (po_before options, po_after options) of
           (Some _, _) \<Rightarrow> rev (filter (\<lambda>m. int (msg_groupSeq m) < the cursor) rows)
         | (None, Some _) \<Rightarrow> filter (\<lambda>m. the cursor < int (msg_groupSeq m)) rows
         | (None, None) \<Rightarrow> rev rows))"

definition listMessagePage :: "db \<Rightarrow> string \<Rightarrow> page_options \<Rightarrow> message_page result" where
  "listMessagePage d groupId options =
     rbind (requireGroup d groupId) (\<lambda>_.
     rbind (check_page_options options) (\<lambda>(limit, cursor).
     let descending = po_after options = None;
         rows = page_rows d groupId options cursor (limit + 1);
         hasExtra = limit < length rows;
         selected = take limit rows;
         messages = (if descending then rev selected else selected)
     in rbind (listDeliveries d None) (\<lambda>all_deliveries.
        let deliveryOutcomes = filter (\<lambda>o1. do_messageId o1 \<in> set (map msg_id messages)) all_deliveries;
            first = (case messages of [] \<Rightarrow> None | m # _ \<Rightarrow> Some (msg_groupSeq m));
            lst = (case rev messages of [] \<Rightarrow> None | m # _ \<Rightarrow> Some (msg_groupSeq m))
        in rbind (getGroupMessageState d groupId) (\<lambda>state.
           let hasOlder = (case (first, gm_oldestRetainedGroupSeq state) of
                   (Some a, Some b) \<Rightarrow> b < a | _ \<Rightarrow> False);
               hasNewer = (case lst of Some z \<Rightarrow> z < gm_latestGroupSeq state | None \<Rightarrow> False)
           in Inr \<lparr>mp_groupId = groupId, mp_messages = messages,
                mp_deliveryOutcomes = deliveryOutcomes, mp_state = state,
                mp_hasOlder = (if descending then hasExtra \<or> hasOlder else hasOlder),
                mp_hasNewer = (if descending then hasNewer else hasExtra \<or> hasNewer),
                mp_nextBefore = (if hasOlder then first else None),
                mp_nextAfter = (if hasNewer then lst else None)\<rparr>))))"

subsection \<open>Audience and causation\<close>

definition validateSender :: "db \<Rightarrow> string \<Rightarrow> message_sender \<Rightarrow> unit result" where
  "validateSender d groupId sender =
     (case sender of
        FromOperator _ \<Rightarrow> Inr ()
      | FromAgent memberId runId \<Rightarrow>
          (case getMembershipRow d groupId memberId of
             None \<Rightarrow> Inl (DomainError ''sender_not_active'' 403)
           | Some membership \<Rightarrow>
               if \<not> m_active membership then Inl (DomainError ''sender_not_active'' 403) else
               case find_run runId (db_runs d) of
                 None \<Rightarrow> Inl (DomainError ''invalid_sender_run'' 403)
               | Some run \<Rightarrow>
                   if r_owner run \<noteq> MemberRun groupId memberId \<or>
                      r_status run \<notin> {Rs_starting, Rs_running}
                   then Inl (DomainError ''invalid_sender_run'' 403) else Inr ()))"

definition sender_member :: "message_sender \<Rightarrow> string option" where
  "sender_member s = (case s of FromOperator _ \<Rightarrow> None | FromAgent m _ \<Rightarrow> Some m)"

definition active_member :: "db \<Rightarrow> string \<Rightarrow> string \<Rightarrow> bool" where
  "active_member d groupId memberId \<longleftrightarrow>
     (case getMembershipRow d groupId memberId of None \<Rightarrow> False | Some m \<Rightarrow> m_active m)"

definition direct_recipients ::
  "db \<Rightarrow> string \<Rightarrow> message_sender \<Rightarrow> string list \<Rightarrow> string list result" where
  "direct_recipients d groupId sender requested =
     (if (case sender_member sender of None \<Rightarrow> False | Some m \<Rightarrow> m \<in> set requested)
      then Inl (DomainError ''self_recipient_forbidden'' 409)
      else if \<not> list_all (active_member d groupId) requested
      then Inl (DomainError ''recipient_not_active'' 409)
      else Inr requested)"

definition resolveRecipients :: "db \<Rightarrow> group_row \<Rightarrow> submit_command \<Rightarrow> string list result" where
  "resolveRecipients d grp command =
     (case sc_audience command of
        GroupBroadcast revision \<Rightarrow>
          if revision \<noteq> g_membershipRevision grp
          then Inl (DomainError ''membership_revision_mismatch'' 409)
          else Inr (filter (\<lambda>m. Some m \<noteq> sender_member (sc_sender command))
                 (sort (map m_memberId (filter (\<lambda>m. m_groupId m = g_id grp \<and> m_active m)
                    (db_memberships d)))))
      | Dm memberId \<Rightarrow> direct_recipients d (g_id grp) (sc_sender command) [memberId]
      | Multicast memberIds \<Rightarrow> direct_recipients d (g_id grp) (sc_sender command) memberIds)"

fun js_join :: "string \<Rightarrow> string list \<Rightarrow> string" where
  "js_join sep [] = []"
| "js_join sep [x] = x"
| "js_join sep (x # y # ys) = x @ sep @ js_join sep (y # ys)"

fun actor_name :: "message_sender \<Rightarrow> string" where
  "actor_name (FromAgent m r) = ''agent:'' @ m"
| "actor_name (FromOperator i) = ''operator:'' @ i"

definition exchange :: "message_sender \<Rightarrow> string list \<Rightarrow> string" where
  "exchange sender recipients = actor_name sender @ ''->'' @ js_join '','' recipients"

definition message_recipients :: "db \<Rightarrow> string \<Rightarrow> string list" where
  "message_recipients d messageId =
     sort (map dv_recipient (filter (\<lambda>r. dv_messageId r = messageId) (db_deliveries d)))"

definition stored_exchange :: "db \<Rightarrow> message \<Rightarrow> string" where
  "stored_exchange d m = exchange (msg_sender m) (message_recipients d (msg_id m))"

definition next_cause :: "message \<Rightarrow> string option" where
  "next_cause m = (case msg_causationId m of None \<Rightarrow> msg_replyTo m | Some i \<Rightarrow> Some i)"

definition causal_cycle :: error where "causal_cycle = DomainError ''message_causal_cycle'' 409"

lemma walk_measure:
  assumes "c \<notin> set visited" and "find_message i ms = Some m"
  shows "card (insert (msg_id m) (msg_id ` set ms) - set (c # visited))
       < card (insert c (msg_id ` set ms) - set visited)"
proof (rule psubset_card_mono)
  show "finite (insert c (msg_id ` set ms) - set visited)" by simp
  have "msg_id m \<in> msg_id ` set ms" using find_where_SomeD [OF assms(2)] by blast
  then show "insert (msg_id m) (msg_id ` set ms) - set (c # visited)
      \<subset> insert c (msg_id ` set ms) - set visited"
    using assms(1) by auto
qed

text \<open>
  The walk from a message to its causes. Nothing in a row prevents a chain that comes back to
  itself: the messages already visited make the loop end, each turn leaving fewer of the table.
\<close>

function walk_causes :: "db \<Rightarrow> string \<Rightarrow> string list \<Rightarrow> message \<Rightarrow> unit result" where
  "walk_causes d signature visited cursor =
     (if msg_id cursor \<in> set visited then Inl causal_cycle
      else if stored_exchange d cursor = signature then Inl causal_cycle
      else case next_cause cursor of
        None \<Rightarrow> Inr ()
      | Some nextId \<Rightarrow>
          (case find_message nextId (db_messages d) of
             None \<Rightarrow> Inr ()
           | Some m \<Rightarrow> walk_causes d signature (msg_id cursor # visited) m))"
  by pat_completeness auto

termination
  by (relation "measure (\<lambda>(d, s, visited, m).
        card (insert (msg_id m) (msg_id ` set (db_messages d)) - set visited))")
    (simp_all add: walk_measure del: set_simps)

declare walk_causes.simps [simp del]

record causation =
  cs_conversationId :: string
  cs_rootId :: "string option"
  cs_hop :: nat

definition options_list :: "'a option list \<Rightarrow> 'a list" where
  "options_list xs = concat (map (\<lambda>x. case x of None \<Rightarrow> [] | Some a \<Rightarrow> [a]) xs)"

definition causal_parent :: "db \<Rightarrow> string \<Rightarrow> message_sender \<Rightarrow> string \<Rightarrow> message result" where
  "causal_parent d groupId sender messageId =
     (case find_message messageId (db_messages d) of
        None \<Rightarrow> Inl (DomainError ''message_causation_invalid'' 409)
      | Some row \<Rightarrow>
          if msg_groupId row \<noteq> groupId then Inl (DomainError ''message_causation_invalid'' 409) else
          case sender_member sender of
            None \<Rightarrow> Inr row
          | Some memberId \<Rightarrow>
              if \<not> list_ex (\<lambda>r. dv_messageId r = msg_id row \<and> dv_recipient r = memberId) (db_deliveries d) \<and>
                 sender_member (msg_sender row) \<noteq> Some memberId
              then Inl (DomainError ''message_causation_forbidden'' 403) else Inr row)"

definition automated_count :: "db \<Rightarrow> string \<Rightarrow> string \<Rightarrow> nat" where
  "automated_count d groupId conversationId =
     count_where (\<lambda>m. msg_groupId m = groupId \<and> msg_conversationId m = conversationId \<and>
                      \<not> is_operator (msg_sender m)) (db_messages d)"

definition parents_conversation ::
  "message list \<Rightarrow> string option \<Rightarrow> string \<Rightarrow> string result" where
  "parents_conversation parents requested freshId =
     (case remdups (map msg_conversationId parents) of
        [] \<Rightarrow> Inr (case requested of None \<Rightarrow> freshId | Some c \<Rightarrow> c)
      | _ # _ # _ \<Rightarrow> Inl (DomainError ''message_conversation_mismatch'' 409)
      | [inherited] \<Rightarrow>
          if requested \<noteq> None \<and> requested \<noteq> Some inherited
          then Inl (DomainError ''message_conversation_mismatch'' 409) else Inr inherited)"

definition causal_hop :: "message list \<Rightarrow> nat" where
  "causal_hop parents = (if parents = [] then 0 else Suc (foldr max (map msg_hop parents) 0))"

definition walk_start :: "message list \<Rightarrow> string option \<Rightarrow> message option" where
  "walk_start parents causationId =
     (case find_where (\<lambda>p. Some (msg_id p) = causationId) parents of
        Some p \<Rightarrow> Some p
      | None \<Rightarrow> (case parents of [] \<Rightarrow> None | p # _ \<Rightarrow> Some p))"

definition deriveMessageCausation ::
  "db \<Rightarrow> string \<Rightarrow> string \<Rightarrow> submit_command \<Rightarrow> string list \<Rightarrow> causation result" where
  "deriveMessageCausation d freshId groupId command recipients =
     rbind (parse_all (causal_parent d groupId (sc_sender command))
              (js_uniq (options_list [sc_replyTo command, sc_causationId command]))) (\<lambda>parents.
     rbind (parents_conversation parents (sc_conversationId command) freshId) (\<lambda>conversationId.
       let hop = causal_hop parents in
       if MAX_MESSAGE_CAUSAL_DEPTH < hop
       then Inl (DomainError ''message_causal_depth_exceeded'' 409)
       else if \<not> is_operator (sc_sender command) \<and>
               MAX_AUTOMATED_REPLIES_PER_CONVERSATION \<le> automated_count d groupId conversationId
       then Inl (DomainError ''message_automated_reply_budget_exhausted'' 409)
       else rbind (case walk_start parents (sc_causationId command) of
                     None \<Rightarrow> Inr ()
                   | Some cursor \<Rightarrow> walk_causes d (exchange (sc_sender command) (sort recipients)) [] cursor)
         (\<lambda>_. Inr \<lparr>cs_conversationId = conversationId,
               cs_rootId = (case parents of [] \<Rightarrow> None
                 | root # _ \<Rightarrow> Some (case msg_rootId root of None \<Rightarrow> msg_id root | Some i \<Rightarrow> i)),
               cs_hop = hop\<rparr>)))"


subsection \<open>Retention\<close>

text \<open>\<open>messageIds\<close> is the group's whole history where the code passes undefined.\<close>

definition leased_now :: "timestamp \<Rightarrow> delivery \<Rightarrow> bool" where
  "leased_now now r \<longleftrightarrow> (dv_status r = Dv_received \<or> dv_status r = Dv_delivering) \<and>
     (case dv_leaseExpiresAt r of None \<Rightarrow> False | Some t \<Rightarrow> now < t)"

definition assertMessagesDeletable ::
  "string \<Rightarrow> string list option \<Rightarrow> timestamp \<Rightarrow> string \<Rightarrow> db \<Rightarrow> unit result" where
  "assertMessagesDeletable groupId messageIds now code d =
     (if list_ex (\<lambda>(r, m). leased_now now r \<and>
           (case messageIds of None \<Rightarrow> True | Some ids \<Rightarrow> msg_id m \<in> set ids)) (group_deliveries d groupId)
      then Inl (DomainError code 409) else Inr ())"

definition null_if :: "string list \<Rightarrow> string option \<Rightarrow> string option" where
  "null_if ids v = (case v of None \<Rightarrow> None | Some i \<Rightarrow> if i \<in> set ids then None else Some i)"

definition drop_references :: "string list \<Rightarrow> message \<Rightarrow> message" where
  "drop_references ids m = m\<lparr>msg_replyTo := null_if ids (msg_replyTo m),
     msg_rootId := null_if ids (msg_rootId m), msg_causationId := null_if ids (msg_causationId m)\<rparr>"

definition nullMessageReferences :: "string list \<Rightarrow> db \<Rightarrow> db" where
  "nullMessageReferences ids d =
     d\<lparr>db_actions := map (\<lambda>a. a\<lparr>a_messageId := null_if ids (a_messageId a)\<rparr>) (db_actions d),
       db_messages := map (drop_references ids) (db_messages d)\<rparr>"

definition submit_scope :: "string \<Rightarrow> string" where
  "submit_scope groupId = ''group.'' @ groupId @ ''.message.submit''"

definition holds_message :: "string list \<Rightarrow> idem_response \<Rightarrow> bool" where
  "holds_message ids r = (case r of Ir_message m _ \<Rightarrow> msg_id m \<in> set ids | _ \<Rightarrow> False)"

definition invalidateMessageIdempotency :: "string \<Rightarrow> string list \<Rightarrow> timestamp \<Rightarrow> db \<Rightarrow> db" where
  "invalidateMessageIdempotency groupId ids now d = d\<lparr>db_idempotency :=
     update_where (\<lambda>r. ik_scope r = submit_scope groupId \<and> holds_message ids (ik_response r))
       (\<lambda>r. r\<lparr>ik_response := Ir_null, ik_invalidatedAt := Some now\<rparr>) (db_idempotency d)\<rparr>"

definition delete_messages :: "string list \<Rightarrow> db \<Rightarrow> db" where
  "delete_messages ids d =
     d\<lparr>db_deliveries := delete_where (\<lambda>r. dv_messageId r \<in> set ids) (db_deliveries d),
       db_messages := delete_where (\<lambda>m. msg_id m \<in> set ids) (db_messages d)\<rparr>"

definition prune_victims :: "db \<Rightarrow> string \<Rightarrow> nat \<Rightarrow> string list" where
  "prune_victims d groupId retain =
     map msg_id (drop retain (rev (sort_key msg_groupSeq (group_messages d groupId))))"

definition pruneGroupMessages :: "string \<Rightarrow> nat \<Rightarrow> timestamp \<Rightarrow> db \<Rightarrow> db result" where
  "pruneGroupMessages groupId retain now d =
     (let victims = prune_victims d groupId retain in
      if victims = [] then Inr d else
      rbind (assertMessagesDeletable groupId (Some victims) now ''message_retention_busy'' d) (\<lambda>_.
        Inr (delete_messages victims
               (invalidateMessageIdempotency groupId victims now (nullMessageReferences victims d)))))"

definition clear_messages :: "timestamp \<Rightarrow> string \<Rightarrow> command" where
  "clear_messages now groupId d =
     rbind (requireGroup d groupId) (\<lambda>_.
     rbind (assertMessagesDeletable groupId None now ''message_history_busy'' d) (\<lambda>_.
       let ids = map msg_id (group_messages d groupId);
           d1 = invalidateMessageIdempotency groupId ids now (nullMessageReferences ids d);
           d2 = delete_messages ids d1
       in rbind (getGroupMessageState d2 groupId) (\<lambda>state.
          let result = \<lparr>ch_groupId = groupId, ch_deletedMessages = length ids,
                ch_deletedDeliveries = count_where (\<lambda>r. dv_messageId r \<in> set ids) (db_deliveries d1),
                ch_state = state\<rparr>
          in Inr (append_event ''message.history-cleared'' ''group'' groupId
                    (Pl_history_cleared result) now d2, Ir_cleared result))))"

definition clearMessageHistory :: "timestamp \<Rightarrow> string \<Rightarrow> string option \<Rightarrow> command" where
  "clearMessageHistory now groupId idempotencyKey =
     executeIdempotent now (''group.'' @ groupId @ ''.messages.clear'') idempotencyKey None
       (clear_messages now groupId)"

subsection \<open>Submission\<close>

definition bump_message_sequence :: "string \<Rightarrow> db \<Rightarrow> db" where
  "bump_message_sequence groupId d = d\<lparr>db_groups :=
     update_where (\<lambda>g. g_id g = groupId) (\<lambda>g. g\<lparr>g_messageSequence := Suc (g_messageSequence g)\<rparr>)
       (db_groups d)\<rparr>"

definition draft_message ::
  "timestamp \<Rightarrow> string \<Rightarrow> string \<Rightarrow> nat \<Rightarrow> submit_command \<Rightarrow> causation \<Rightarrow> message" where
  "draft_message now messageId groupId groupSeq input c =
     \<lparr>msg_id = messageId, msg_groupId = groupId, msg_groupSeq = groupSeq,
      msg_conversationId = cs_conversationId c, msg_intent = sc_intent input,
      msg_sender = sc_sender input, msg_audience = sc_audience input, msg_body = sc_body input,
      msg_expiresAt = sc_expiresAt input, msg_replyTo = sc_replyTo input, msg_rootId = cs_rootId c,
      msg_causationId = sc_causationId input, msg_hop = cs_hop c, msg_createdAt = now\<rparr>"

definition reference_ok :: "db \<Rightarrow> string option \<Rightarrow> bool" where
  "reference_ok d v = (case v of None \<Rightarrow> True | Some i \<Rightarrow> find_message i (db_messages d) \<noteq> None)"

text \<open>The primary key, the unique sequence and the foreign keys of \<open>messages\<close>.\<close>

definition insertable_message :: "db \<Rightarrow> message \<Rightarrow> bool" where
  "insertable_message d m \<longleftrightarrow>
     find_message (msg_id m) (db_messages d) = None \<and>
     \<not> list_ex (\<lambda>n. msg_groupId n = msg_groupId m \<and> msg_groupSeq n = msg_groupSeq m) (db_messages d) \<and>
     reference_ok d (msg_replyTo m) \<and> reference_ok d (msg_rootId m) \<and> reference_ok d (msg_causationId m)"

definition resolveDelivery :: "message \<Rightarrow> timestamp \<Rightarrow> string \<Rightarrow> delivery_outcome" where
  "resolveDelivery m now recipient =
     \<lparr>do_messageId = msg_id m, do_recipient = recipient, do_reason = None, do_status = Dv_queued,
      do_attempts = 0, do_updatedAt = now\<rparr>"

definition delivery_row :: "delivery_outcome \<Rightarrow> delivery" where
  "delivery_row o1 =
     \<lparr>dv_messageId = do_messageId o1, dv_recipient = do_recipient o1, dv_reason = do_reason o1,
      dv_status = do_status o1, dv_attempts = do_attempts o1, dv_leaseOwner = None,
      dv_leaseExpiresAt = None, dv_nextAttemptAt = None, dv_runId = None, dv_runGeneration = None,
      dv_updatedAt = do_updatedAt o1\<rparr>"

text \<open>The inserts of the deliveries, one after the other; the message and the recipient are their key.\<close>

fun insertDeliveries :: "delivery_outcome list \<Rightarrow> db \<Rightarrow> db result" where
  "insertDeliveries [] d = Inr d"
| "insertDeliveries (o1 # os) d =
     (if list_ex (\<lambda>r. dv_messageId r = do_messageId o1 \<and> dv_recipient r = do_recipient o1) (db_deliveries d)
      then Inl ConstraintError
      else insertDeliveries os (d\<lparr>db_deliveries := db_deliveries d @ [delivery_row o1]\<rparr>))"

definition submit_message ::
  "timestamp \<Rightarrow> string \<Rightarrow> string \<Rightarrow> nat \<Rightarrow> string \<Rightarrow> submit_command \<Rightarrow> command" where
  "submit_message now messageId freshId retain groupId input d =
     rbind (requireGroup d groupId) (\<lambda>grp.
     rbind (validateSender d groupId (sc_sender input)) (\<lambda>_.
     rbind (resolveRecipients d grp input) (\<lambda>recipients.
       if recipients = [] then Inl (DomainError ''empty_audience'' 409)
       else if MAX_MESSAGE_FAN_OUT < length recipients
       then Inl (DomainError ''message_fan_out_exceeded'' 409) else
       rbind (deriveMessageCausation d freshId groupId input recipients) (\<lambda>c.
       let d1 = bump_message_sequence groupId d in
       rbind (requireGroup d1 groupId) (\<lambda>sequenced.
       rbind (parse_message (draft_message now messageId groupId (g_messageSequence sequenced) input c)) (\<lambda>message.
         if \<not> insertable_message d1 message then Inl ConstraintError else
         let outcomes = map (resolveDelivery message now) recipients in
         rbind (insertDeliveries outcomes (d1\<lparr>db_messages := db_messages d1 @ [message]\<rparr>)) (\<lambda>d2.
         rbind (pruneGroupMessages groupId retain now d2) (\<lambda>d3.
         rbind (getGroupMessageState d3 groupId) (\<lambda>state.
           Inr (append_event ''message.submitted'' ''message'' (msg_id message)
                  (Pl_message_submitted groupId (msg_groupSeq message) state) now d3,
                Ir_message message outcomes))))))))))"

definition submitMessage ::
  "timestamp \<Rightarrow> (string \<Rightarrow> submit_command \<Rightarrow> string) \<Rightarrow> string \<Rightarrow> string \<Rightarrow> nat \<Rightarrow> string \<Rightarrow>
   submit_command \<Rightarrow> string option \<Rightarrow> command" where
  "submitMessage now sha256 messageId freshId retain groupId command idempotencyKey d =
     rbind (parse_submit_command command) (\<lambda>input.
       executeIdempotent now (submit_scope groupId) idempotencyKey (Some (sha256 groupId input))
         (submit_message now messageId freshId retain groupId input) d)"

end
