(* ===== verification/Store_Deliveries.thy ===== *)
theory Store_Deliveries
  imports Store_Messages
begin

text \<open>
  Deliveries: the leases and attempts of \<open>NanasaStore\<close> (\<open>claimDeliveries\<close> to \<open>rejectClaim\<close>), the
  dispatcher of \<open>delivery-dispatcher.ts\<close> in the stretches between its awaits, and the text
  \<open>terminal-delivery.ts\<close> types into a terminal.

  A claim is what the dispatcher holds across its awaits: it is a snapshot, and the store's own
  conditions decide whether it still counts.
\<close>

subsection \<open>Claims\<close>

record delivery_claim =
  dc_delivery :: delivery_outcome
  dc_message :: message
  dc_senderAlias :: string
  dc_profile :: agent_profile
  dc_run :: "run option"
  dc_recipientActive :: bool

definition running_recipient :: "db \<Rightarrow> string \<Rightarrow> string \<Rightarrow> bool" where
  "running_recipient d groupId memberId \<longleftrightarrow>
     list_ex (\<lambda>m. m_groupId m = groupId \<and> m_memberId m = memberId \<and> m_active m) (db_memberships d) \<and>
     list_ex (\<lambda>r. r_owner r = MemberRun groupId memberId \<and> r_status r = Rs_running) (db_runs d)"

definition lease_free :: "timestamp \<Rightarrow> delivery \<Rightarrow> bool" where
  "lease_free now r \<longleftrightarrow> (case dv_leaseExpiresAt r of None \<Rightarrow> True | Some t \<Rightarrow> t \<le> now)"

definition claimable :: "timestamp \<Rightarrow> db \<Rightarrow> delivery \<Rightarrow> message \<Rightarrow> bool" where
  "claimable now d r m \<longleftrightarrow>
     active_delivery (dv_status r) \<and>
     (case dv_nextAttemptAt r of None \<Rightarrow> True | Some t \<Rightarrow> t \<le> now) \<and>
     lease_free now r \<and> running_recipient d (msg_groupId m) (dv_recipient r)"

definition claimable_rows :: "timestamp \<Rightarrow> nat \<Rightarrow> db \<Rightarrow> delivery list" where
  "claimable_rows now limit d =
     take limit (map fst (sort_key (\<lambda>p. (msg_createdAt (snd p), msg_groupSeq (snd p), dv_recipient (fst p)))
       (concat (map (\<lambda>r. map (Pair r)
            (filter (\<lambda>m. msg_id m = dv_messageId r \<and> claimable now d r m) (db_messages d)))
          (db_deliveries d)))))"

definition row_is :: "string \<Rightarrow> string \<Rightarrow> delivery \<Rightarrow> bool" where
  "row_is messageId recipient r \<longleftrightarrow> dv_messageId r = messageId \<and> dv_recipient r = recipient"

definition update_deliveries :: "(delivery \<Rightarrow> bool) \<Rightarrow> (delivery \<Rightarrow> delivery) \<Rightarrow> db \<Rightarrow> db" where
  "update_deliveries p f d = d\<lparr>db_deliveries := update_where p f (db_deliveries d)\<rparr>"

definition claimed_row :: "string \<Rightarrow> timestamp \<Rightarrow> timestamp \<Rightarrow> delivery \<Rightarrow> delivery" where
  "claimed_row owner leaseExpiresAt now r = r\<lparr>dv_status := Dv_received, dv_attempts := Suc (dv_attempts r),
     dv_leaseOwner := Some owner, dv_leaseExpiresAt := Some leaseExpiresAt, dv_nextAttemptAt := None,
     dv_updatedAt := now\<rparr>"

text \<open>The turn of the loop for one row: its update and the claim built from what the store holds then.\<close>

definition claim_row ::
  "string \<Rightarrow> timestamp \<Rightarrow> timestamp \<Rightarrow> delivery \<Rightarrow> db \<Rightarrow> (db \<times> delivery_claim) result" where
  "claim_row owner leaseExpiresAt now row d =
     (let d1 = update_deliveries (row_is (dv_messageId row) (dv_recipient row))
                 (claimed_row owner leaseExpiresAt now) d in
      rbind (getMessage d1 (dv_messageId row)) (\<lambda>message.
      let membership = getMembershipRow d1 (msg_groupId message) (dv_recipient row);
          senderAlias = (case msg_sender message of
              FromOperator _ \<Rightarrow> ''Human''
            | FromAgent m _ \<Rightarrow> (case getMembershipRow d1 (msg_groupId message) m of
                None \<Rightarrow> m | Some s \<Rightarrow> m_alias s))
      in rbind (requireAgentProfile d1 (case membership of None \<Rightarrow> [] | Some m \<Rightarrow> m_agentProfileId m)) (\<lambda>profile.
         rbind (hydrateDelivery (claimed_row owner leaseExpiresAt now row)) (\<lambda>outcome.
           Inr (d1, \<lparr>dc_delivery = outcome, dc_message = message, dc_senderAlias = senderAlias,
             dc_profile = profile, dc_run = getActiveRun d1 (msg_groupId message) (dv_recipient row),
             dc_recipientActive = (case membership of None \<Rightarrow> False | Some m \<Rightarrow> m_active m)\<rparr>)))))"

fun claim_rows ::
  "string \<Rightarrow> timestamp \<Rightarrow> timestamp \<Rightarrow> delivery list \<Rightarrow> db \<Rightarrow> (db \<times> delivery_claim list) result" where
  "claim_rows owner leaseExpiresAt now [] d = Inr (d, [])"
| "claim_rows owner leaseExpiresAt now (row # rows) d =
     rbind (claim_row owner leaseExpiresAt now row d) (\<lambda>(d1, c).
     rbind (claim_rows owner leaseExpiresAt now rows d1) (\<lambda>(d2, cs). Inr (d2, c # cs)))"

definition claimDeliveries ::
  "string \<Rightarrow> timestamp \<Rightarrow> int \<Rightarrow> nat \<Rightarrow> db \<Rightarrow> (db \<times> delivery_claim list) result" where
  "claimDeliveries owner now leaseMs limit d =
     claim_rows owner (now + leaseMs) now (claimable_rows now limit d) d"

subsection \<open>The attempt under a claim\<close>

definition claim_row_is :: "delivery_claim \<Rightarrow> string \<Rightarrow> delivery \<Rightarrow> bool" where
  "claim_row_is c owner r \<longleftrightarrow>
     row_is (msg_id (dc_message c)) (do_recipient (dc_delivery c)) r \<and> dv_leaseOwner r = Some owner"

definition begin_where :: "delivery_claim \<Rightarrow> run \<Rightarrow> string \<Rightarrow> db \<Rightarrow> delivery \<Rightarrow> bool" where
  "begin_where c run owner d r \<longleftrightarrow>
     claim_row_is c owner r \<and> dv_status r = Dv_received \<and>
     list_ex (\<lambda>m. m_groupId m = msg_groupId (dc_message c) \<and>
        m_memberId m = do_recipient (dc_delivery c) \<and> m_active m) (db_memberships d) \<and>
     list_ex (\<lambda>q. r_id q = r_id run \<and> r_generation q = r_generation run \<and> r_status q = Rs_running)
        (db_runs d)"

definition beginDelivery :: "timestamp \<Rightarrow> delivery_claim \<Rightarrow> string \<Rightarrow> db \<Rightarrow> db \<times> bool" where
  "beginDelivery now c owner d =
     (case dc_run c of
        None \<Rightarrow> (d, False)
      | Some run \<Rightarrow>
          (update_deliveries (begin_where c run owner d)
             (\<lambda>r. r\<lparr>dv_status := Dv_delivering, dv_reason := None, dv_runId := Some (r_id run),
                    dv_runGeneration := Some (r_generation run), dv_updatedAt := now\<rparr>) d,
           count_where (begin_where c run owner d) (db_deliveries d) = 1))"

definition delivery_event ::
  "delivery_claim \<Rightarrow> delivery_status \<Rightarrow> string option \<Rightarrow> nat option \<Rightarrow> timestamp \<Rightarrow> db \<Rightarrow> db" where
  "delivery_event c status reason attempts now d =
     append_event ''delivery.status-changed'' ''message'' (msg_id (dc_message c))
       (Pl_delivery (msg_id (dc_message c)) (do_recipient (dc_delivery c)) status reason attempts) now d"

definition injected_where :: "delivery_claim \<Rightarrow> string \<Rightarrow> delivery \<Rightarrow> bool" where
  "injected_where c owner r \<longleftrightarrow>
     claim_row_is c owner r \<and> dv_status r = Dv_delivering \<and>
     dv_runId r = Some (case dc_run c of None \<Rightarrow> [] | Some run \<Rightarrow> r_id run) \<and>
     dv_runGeneration r = Some (case dc_run c of None \<Rightarrow> 0 | Some run \<Rightarrow> r_generation run)"

text \<open>
  An update of exactly one row is followed by its event; otherwise the transaction has no event. Its
  updates stay, and since the rows are keyed there are none.
\<close>

definition markDeliveryTerminalInjected :: "timestamp \<Rightarrow> delivery_claim \<Rightarrow> string \<Rightarrow> db \<Rightarrow> db \<times> bool" where
  "markDeliveryTerminalInjected now c owner d =
     (let d1 = update_deliveries (injected_where c owner)
            (\<lambda>r. r\<lparr>dv_status := Dv_terminal_injected, dv_leaseOwner := None, dv_leaseExpiresAt := None,
                   dv_updatedAt := now\<rparr>) d
      in if count_where (injected_where c owner) (db_deliveries d) \<noteq> 1 then (d1, False)
         else (delivery_event c Dv_terminal_injected None None now d1, True))"

definition attempt_where :: "delivery_claim \<Rightarrow> string \<Rightarrow> delivery \<Rightarrow> bool" where
  "attempt_where c owner r \<longleftrightarrow>
     claim_row_is c owner r \<and> (dv_status r = Dv_received \<or> dv_status r = Dv_delivering)"

record attempt_result =
  ar_status :: delivery_status
  ar_reason :: string
  ar_nextAttemptAt :: "timestamp option"

definition failDeliveryAttempt ::
  "timestamp \<Rightarrow> delivery_claim \<Rightarrow> string \<Rightarrow> string \<Rightarrow> nat \<Rightarrow> timestamp \<Rightarrow> db \<Rightarrow> db \<times> attempt_result" where
  "failDeliveryAttempt now c owner reason maxAttempts retryAt d =
     (let deadLetter = maxAttempts \<le> do_attempts (dc_delivery c);
          status = (if deadLetter then Dv_dead_letter else Dv_retrying);
          nextAttemptAt = (if deadLetter then None else Some retryAt);
          d1 = update_deliveries (attempt_where c owner)
            (\<lambda>r. r\<lparr>dv_status := status, dv_reason := Some reason, dv_nextAttemptAt := nextAttemptAt,
                   dv_leaseOwner := None, dv_leaseExpiresAt := None, dv_updatedAt := now\<rparr>) d
      in if count_where (attempt_where c owner) (db_deliveries d) \<noteq> 1
         then (d1, \<lparr>ar_status = Dv_revoked, ar_reason = ''delivery_claim_lost'', ar_nextAttemptAt = None\<rparr>)
         else (delivery_event c status (Some reason) (Some (do_attempts (dc_delivery c))) now d1,
               \<lparr>ar_status = status, ar_reason = reason, ar_nextAttemptAt = nextAttemptAt\<rparr>))"

definition completeDeliveryStatus ::
  "timestamp \<Rightarrow> delivery_claim \<Rightarrow> string \<Rightarrow> delivery_status \<Rightarrow> string \<Rightarrow> db \<Rightarrow> db \<times> bool" where
  "completeDeliveryStatus now c owner status reason d =
     (let d1 = update_deliveries (attempt_where c owner)
            (\<lambda>r. r\<lparr>dv_status := status, dv_reason := Some reason, dv_leaseOwner := None,
                   dv_leaseExpiresAt := None, dv_updatedAt := now\<rparr>) d
      in if count_where (attempt_where c owner) (db_deliveries d) \<noteq> 1 then (d1, False)
         else (delivery_event c status (Some reason) (Some (do_attempts (dc_delivery c))) now d1, True))"

definition revokeClaim :: "timestamp \<Rightarrow> delivery_claim \<Rightarrow> string \<Rightarrow> string \<Rightarrow> db \<Rightarrow> db \<times> bool" where
  "revokeClaim now c owner reason = completeDeliveryStatus now c owner Dv_revoked reason"

definition rejectClaim :: "timestamp \<Rightarrow> delivery_claim \<Rightarrow> string \<Rightarrow> string \<Rightarrow> db \<Rightarrow> db \<times> bool" where
  "rejectClaim now c owner reason = completeDeliveryStatus now c owner Dv_rejected reason"

subsection \<open>The dispatcher\<close>

record dispatcher_options =
  dp_owner :: string
  dp_leaseMs :: int
  dp_batchSize :: nat
  dp_maxAttempts :: nat
  dp_retryBaseMs :: int
  dp_retryMaxMs :: int

definition default_dispatcher :: "string \<Rightarrow> dispatcher_options" where
  "default_dispatcher owner = \<lparr>dp_owner = owner, dp_leaseMs = 30000, dp_batchSize = 32,
     dp_maxAttempts = 5, dp_retryBaseMs = 250, dp_retryMaxMs = 30000\<rparr>"

definition retry_delay :: "dispatcher_options \<Rightarrow> nat \<Rightarrow> int" where
  "retry_delay options attempts =
     min (dp_retryMaxMs options) (dp_retryBaseMs options * 2 ^ (attempts - 1))"

definition retry_delivery ::
  "timestamp \<Rightarrow> dispatcher_options \<Rightarrow> delivery_claim \<Rightarrow> string \<Rightarrow> db \<Rightarrow> db" where
  "retry_delivery now options c reason d =
     fst (failDeliveryAttempt now c (dp_owner options) reason (dp_maxAttempts options)
       (now + retry_delay options (do_attempts (dc_delivery c))) d)"

text \<open>\<open>formatTerminalDelivery\<close>.\<close>

fun intent_name :: "message_intent \<Rightarrow> string" where
  "intent_name Mi_inform = ''inform''"
| "intent_name Mi_request = ''request''"
| "intent_name Mi_response = ''response''"
| "intent_name Mi_control = ''control''"

definition formatTerminalDelivery :: "delivery_claim \<Rightarrow> string" where
  "formatTerminalDelivery c =
     (let m = dc_message c;
          sender = (case msg_sender m of
              FromAgent memberId _ \<Rightarrow> dc_senderAlias c @ '' | Member: '' @ memberId
            | FromOperator _ \<Rightarrow> ''Human'')
      in ''[From: '' @ sender @ '' | Message: '' @ msg_id m @ '' | Conversation: '' @ msg_conversationId m @
         '' | Reply-To: '' @ (case msg_replyTo m of None \<Rightarrow> ''none'' | Some i \<Rightarrow> i) @
         '' | Intent: '' @ intent_name (msg_intent m) @ '']'' @ [CHR 0x0A] @ b_text (msg_body m))"

text \<open>
  \<open>#deliver\<close> up to the await of the terminal: what it did to the store, and whether a text is now
  being typed. When the terminal answers, the claim is marked injected, when it fails it is retried.
\<close>

definition deliver_begin ::
  "timestamp \<Rightarrow> dispatcher_options \<Rightarrow> delivery_claim \<Rightarrow> db \<Rightarrow> db \<times> string option" where
  "deliver_begin now options c d =
     (if \<not> dc_recipientActive c
      then (fst (revokeClaim now c (dp_owner options) ''membership_removed'' d), None)
      else if (case msg_expiresAt (dc_message c) of None \<Rightarrow> False | Some t \<Rightarrow> t \<le> now)
      then (fst (rejectClaim now c (dp_owner options) ''delivery_expired'' d), None)
      else if (case dc_run c of None \<Rightarrow> True | Some run \<Rightarrow> r_status run \<noteq> Rs_running)
      then (retry_delivery now options c ''active_run_unavailable'' d, None)
      else let (d1, begun) = beginDelivery now c (dp_owner options) d
           in (d1, if begun then Some (formatTerminalDelivery c) else None))"

definition deliver_done :: "timestamp \<Rightarrow> dispatcher_options \<Rightarrow> delivery_claim \<Rightarrow> db \<Rightarrow> db" where
  "deliver_done now options c d = fst (markDeliveryTerminalInjected now c (dp_owner options) d)"

definition deliver_failed ::
  "timestamp \<Rightarrow> dispatcher_options \<Rightarrow> delivery_claim \<Rightarrow> string option \<Rightarrow> db \<Rightarrow> db" where
  "deliver_failed now options c message d =
     retry_delivery now options c
       (case message of None \<Rightarrow> ''terminal_delivery_failed'' | Some x \<Rightarrow> x) d"

end
