(* ===== verification/Store_Groups.thy ===== *)
theory Store_Groups
  imports Store_Deliveries
begin

text \<open>
  Groups and memberships of \<open>NanasaStore\<close>: the commands that create, change and delete them, each
  under its idempotency scope, and \<open>reconcileTopology\<close>, which brings the tables in line with the
  configuration file; the order of groups and agents is that of \<open>membership-order.ts\<close> and
  \<open>topology-order-service.ts\<close>.

  Left out: checkouts, roles and the presentation fields of a profile. An object of the
  configuration is its list of entries in \<open>Object.entries\<close> order, where a new key comes last (ids
  are not array indices). Rows that tables outside the model refer to are parameters: runs with a
  provider binding or update, and actions a foreman's delegation holds.
\<close>

subsection \<open>Configuration\<close>

record configured_agent =
  ca_memberId :: string
  ca_name :: string
  ca_integrationId :: string
  ca_roleId :: "string option"
  ca_instructions :: "string list"
  ca_order :: "nat option"

record configured_group =
  cg_name :: string
  cg_order :: "nat option"
  cg_instructions :: "string list"
  cg_agents :: "(string \<times> configured_agent) list"

record config =
  cf_integrations :: "string list"
  cf_roles :: "string list"
  cf_groups :: "(string \<times> configured_group) list"
  cf_retentionPerGroup :: nat

text \<open>
  The comparators order by the given order, then by position, which decides before the comparison
  of the ids is reached: a stable sort by the order alone. Agents without an order come last, a
  group without one counts as its position.
\<close>

definition agent_rank :: "configured_agent \<Rightarrow> nat \<times> nat" where
  "agent_rank a = (case ca_order a of Some n \<Rightarrow> (0, n) | None \<Rightarrow> (1, 0))"

definition orderedAgentEntries ::
  "(string \<times> configured_agent) list \<Rightarrow> (string \<times> configured_agent) list" where
  "orderedAgentEntries agents = sort_key (\<lambda>p. agent_rank (snd p)) agents"

definition normalizeAgentOrder ::
  "(string \<times> configured_agent) list \<Rightarrow> (string \<times> configured_agent) list" where
  "normalizeAgentOrder agents =
     map (\<lambda>(k, i, a). (i, a\<lparr>ca_order := Some k\<rparr>)) (enumerate 0 (orderedAgentEntries agents))"

definition group_rank :: "nat \<times> string \<times> configured_group \<Rightarrow> nat" where
  "group_rank p = (case cg_order (snd (snd p)) of None \<Rightarrow> fst p | Some n \<Rightarrow> n)"

definition orderedGroupEntries ::
  "(string \<times> configured_group) list \<Rightarrow> (string \<times> configured_group) list" where
  "orderedGroupEntries groups = map snd (sort_key group_rank (enumerate 0 groups))"

definition normalizeGroupOrder ::
  "(string \<times> configured_group) list \<Rightarrow> (string \<times> configured_group) list" where
  "normalizeGroupOrder groups =
     map (\<lambda>(k, i, g). (i, g\<lparr>cg_order := Some k, cg_agents := normalizeAgentOrder (cg_agents g)\<rparr>))
       (enumerate 0 (orderedGroupEntries groups))"

text \<open>\<open>{ ...entries, [key]: value }\<close>, and \<open>delete\<close>.\<close>

fun put_entry :: "string \<Rightarrow> 'v \<Rightarrow> (string \<times> 'v) list \<Rightarrow> (string \<times> 'v) list" where
  "put_entry k v [] = [(k, v)]"
| "put_entry k v ((i, w) # xs) = (if i = k then (i, v) # xs else (i, w) # put_entry k v xs)"

definition drop_entry :: "string \<Rightarrow> (string \<times> 'v) list \<Rightarrow> (string \<times> 'v) list" where
  "drop_entry k xs = filter (\<lambda>p. fst p \<noteq> k) xs"

subsection \<open>Groups\<close>

definition put_group :: "string \<Rightarrow> (group_row \<Rightarrow> group_row) \<Rightarrow> db \<Rightarrow> db" where
  "put_group i f d = d\<lparr>db_groups := update_where (\<lambda>g. g_id g = i) f (db_groups d)\<rparr>"

definition parse_group :: "group_row \<Rightarrow> group_row result" where
  "parse_group g =
     rbind (parse_identifier (g_id g)) (\<lambda>id'.
     rbind (parse_text 100 (g_name g)) (\<lambda>name. Inr (g\<lparr>g_id := id', g_name := name\<rparr>)))"

definition next_order :: "nat list \<Rightarrow> nat" where
  "next_order orders = (case orders of [] \<Rightarrow> 0 | n # ns \<Rightarrow> Suc (foldr max ns n))"

definition create_group :: "timestamp \<Rightarrow> string \<Rightarrow> string \<Rightarrow> command" where
  "create_group now groupId name d =
     rbind (parse_group \<lparr>g_id = groupId, g_name = name, g_order = next_order (map g_order (db_groups d)),
        g_membershipRevision = 0, g_messageSequence = 0, g_createdAt = now, g_updatedAt = now\<rparr>) (\<lambda>grp.
     if list_ex (\<lambda>g. g_id g = g_id grp) (db_groups d) then Inl ConstraintError else
     Inr (append_event ''group.created'' ''group'' (g_id grp) (Pl_group grp None) now
            (d\<lparr>db_groups := db_groups d @ [grp]\<rparr>), Ir_group grp))"

definition createGroup :: "timestamp \<Rightarrow> string \<Rightarrow> string \<Rightarrow> string option \<Rightarrow> command" where
  "createGroup now groupId name idempotencyKey d =
     rbind (parse_text 100 name) (\<lambda>input.
       executeIdempotent now ''group.create'' idempotencyKey None (create_group now groupId input) d)"

definition group_scope :: "string \<Rightarrow> string \<Rightarrow> string" where
  "group_scope groupId suffix = ''group.'' @ groupId @ ''.'' @ suffix"

definition update_group :: "timestamp \<Rightarrow> string \<Rightarrow> string option \<Rightarrow> command" where
  "update_group now groupId name d =
     rbind (requireGroup d groupId) (\<lambda>existing.
       let name' = (case name of None \<Rightarrow> g_name existing | Some x \<Rightarrow> x);
           d1 = put_group groupId (\<lambda>g. g\<lparr>g_name := name', g_updatedAt := now\<rparr>) d
       in rbind (parse_group (existing\<lparr>g_name := name', g_updatedAt := now\<rparr>)) (\<lambda>grp.
          Inr (append_event ''group.updated'' ''group'' groupId (Pl_group grp (Some (g_name existing))) now d1,
               Ir_group grp)))"

text \<open>The command has a name or instructions, or both; the store applies the name.\<close>

definition updateGroup ::
  "timestamp \<Rightarrow> string \<Rightarrow> string option \<Rightarrow> bool \<Rightarrow> string option \<Rightarrow> command" where
  "updateGroup now groupId name hasInstructions idempotencyKey d =
     rbind (parse_opt (parse_text 100) name) (\<lambda>input.
     rbind (guarded (input \<noteq> None \<or> hasInstructions) (Inr ())) (\<lambda>_.
       executeIdempotent now (group_scope groupId ''update'') idempotencyKey None
         (update_group now groupId input) d))"

definition group_run_ids :: "db \<Rightarrow> string \<Rightarrow> string list" where
  "group_run_ids d groupId = map r_id (filter (\<lambda>r. case r_owner r of
      MemberRun g _ \<Rightarrow> g = groupId | ForemanRun _ \<Rightarrow> False) (db_runs d))"

definition js_startsWith :: "string \<Rightarrow> string \<Rightarrow> bool" where
  "js_startsWith prefix s \<longleftrightarrow> take (length prefix) s = prefix"

text \<open>
  \<open>LIKE\<close> with the wildcards of the id escaped: a prefix match that ignores the case of letters.
\<close>

definition like_prefix :: "string \<Rightarrow> string \<Rightarrow> bool" where
  "like_prefix prefix s \<longleftrightarrow> js_startsWith (map ascii_lower prefix) (map ascii_lower s)"

definition delete_group_runs :: "(string \<Rightarrow> bool) \<Rightarrow> string list \<Rightarrow> db \<Rightarrow> db" where
  "delete_group_runs bound runIds d =
     (let ofRun = (\<lambda>i. i \<in> set runIds);
          doomed = map a_id (filter (\<lambda>a. ofRun (tg_runId (a_target a))) (db_actions d)) in
      d\<lparr>db_deliveries := map (\<lambda>r. case dv_runId r of None \<Rightarrow> r
            | Some i \<Rightarrow> if ofRun i then r\<lparr>dv_runId := None, dv_runGeneration := None\<rparr> else r) (db_deliveries d),
        db_completionAcks := filter (\<lambda>p. \<not> ofRun (fst (snd (fst p)))) (db_completionAcks d),
        db_screens := filter (\<lambda>p. \<not> ofRun (so_runId (snd p))) (db_screens d),
        db_acks := filter (\<lambda>k. ack_actionId k \<notin> set doomed) (db_acks d),
        db_attempts := filter (\<lambda>t. at_actionId t \<notin> set doomed) (db_attempts d),
        db_waits := filter (\<lambda>w. \<not> ofRun (ow_runId w) \<and>
            (case ow_actionId w of None \<Rightarrow> True | Some i \<Rightarrow> i \<notin> set doomed)) (db_waits d),
        db_actions := map (\<lambda>a. a\<lparr>a_replyToActionId := null_if doomed (a_replyToActionId a)\<rparr>)
            (filter (\<lambda>a. a_id a \<notin> set doomed) (db_actions d)),
        db_progressReports := filter (\<lambda>(i, runId, rest). \<not> ofRun runId) (db_progressReports d),
        db_observations := filter (\<lambda>r. \<not> ofRun (ro_runId r)) (db_observations d),
        db_statuses := filter (\<lambda>p. \<not> ofRun (fst p)) (db_statuses d),
        db_sessions := filter (\<lambda>s. \<not> ofRun (rs_runId s)) (db_sessions d),
        db_runs := filter (\<lambda>r. \<not> (ofRun (r_id r) \<and> \<not> bound (r_id r))) (db_runs d)\<rparr>)"

definition delete_group_messages :: "string \<Rightarrow> db \<Rightarrow> db" where
  "delete_group_messages groupId d =
     (let ids = map msg_id (group_messages d groupId) in
      d\<lparr>db_deliveries := delete_where (\<lambda>r. dv_messageId r \<in> set ids) (db_deliveries d),
        db_actions := map (\<lambda>a. a\<lparr>a_messageId := null_if ids (a_messageId a)\<rparr>) (db_actions d),
        db_messages := delete_where (\<lambda>m. msg_id m \<in> set ids) (map (drop_references ids) (db_messages d))\<rparr>)"


definition without_group :: "(string \<Rightarrow> bool) \<Rightarrow> string \<Rightarrow> db \<Rightarrow> db" where
  "without_group bound groupId d =
     (let d1 = delete_group_runs bound (group_run_ids d groupId) (delete_group_messages groupId d);
          prefix = ''group.'' @ groupId @ ''.''
      in d1\<lparr>db_memberships := delete_where (\<lambda>m. m_groupId m = groupId) (db_memberships d1),
            db_idempotency := delete_where (\<lambda>r. like_prefix prefix (ik_scope r)) (db_idempotency d1),
            db_groups := delete_where (\<lambda>g. g_id g = groupId) (db_groups d1)\<rparr>)"

definition deletion_result :: "(string \<Rightarrow> bool) \<Rightarrow> string \<Rightarrow> db \<Rightarrow> deleted_group" where
  "deletion_result bound groupId d =
     (let runIds = group_run_ids d groupId; ids = map msg_id (group_messages d groupId) in
      \<lparr>dg_groupId = groupId,
       dg_memberships = count_where (\<lambda>m. m_groupId m = groupId) (db_memberships d),
       dg_runs = count_where (\<lambda>r. r_id r \<in> set runIds \<and> \<not> bound (r_id r)) (db_runs d),
       dg_messages = length ids,
       dg_deliveries = count_where (\<lambda>r. dv_messageId r \<in> set ids) (db_deliveries d)\<rparr>)"

definition delete_group :: "timestamp \<Rightarrow> (string \<Rightarrow> bool) \<Rightarrow> (string \<Rightarrow> bool) \<Rightarrow> string \<Rightarrow> command" where
  "delete_group now bound delegated groupId d =
     rbind (requireGroup d groupId) (\<lambda>_.
       if list_ex (\<lambda>a. tg_runId (a_target a) \<in> set (group_run_ids d groupId) \<and> delegated (a_id a)) (db_actions d)
       then Inl ConstraintError
       else let result = deletion_result bound groupId d in
            Inr (append_event ''group.deleted'' ''group'' groupId (Pl_group_deleted result) now
                   (without_group bound groupId d),
                 Ir_deleted_group result))"

definition deleteGroup ::
  "timestamp \<Rightarrow> (string \<Rightarrow> bool) \<Rightarrow> (string \<Rightarrow> bool) \<Rightarrow> string \<Rightarrow> string option \<Rightarrow> command" where
  "deleteGroup now bound delegated groupId idempotencyKey =
     executeIdempotent now (group_scope groupId ''delete'') idempotencyKey None
       (delete_group now bound delegated groupId)"

definition getDeleteGroupResult :: "db \<Rightarrow> string \<Rightarrow> string option \<Rightarrow> idem_response option" where
  "getDeleteGroupResult d groupId idempotencyKey =
     (case idempotencyKey of None \<Rightarrow> None
      | Some key \<Rightarrow> map_option ik_response (idempotency_entry d (group_scope groupId ''delete'') key))"

subsection \<open>Member names\<close>

definition name_char :: "char \<Rightarrow> bool" where
  "name_char c = (let n = of_char c :: nat in (48 \<le> n \<and> n \<le> 57) \<or> (97 \<le> n \<and> n \<le> 122))"

fun dash_runs :: "bool \<Rightarrow> string \<Rightarrow> string" where
  "dash_runs inRun [] = []"
| "dash_runs inRun (c # cs) =
     (if name_char c then c # dash_runs False cs
      else if inRun then dash_runs True cs else CHR ''-'' # dash_runs True cs)"

definition strip_dash :: "string \<Rightarrow> string" where
  "strip_dash s = (case s of [] \<Rightarrow> [] | c # cs \<Rightarrow> if c = CHR ''-'' then cs else s)"

definition formatMemberId :: "string \<Rightarrow> string result" where
  "formatMemberId randomName =
     (let name = rev (strip_dash (rev (strip_dash (dash_runs False (map ascii_lower (js_trim randomName))))))
      in if name = [] then Inl (PlainError ''docker-names returned an unusable member name'') else Inr name)"

text \<open>The generator draws up to 32 names; \<open>names k\<close> is what it draws the k-th time.\<close>

fun generateMemberId :: "db \<Rightarrow> string \<Rightarrow> string list \<Rightarrow> string result" where
  "generateMemberId d groupId [] = Inl (DomainError ''member_id_generation_exhausted'' 503)"
| "generateMemberId d groupId (name # names) =
     rbind (formatMemberId name) (\<lambda>memberId.
       if getMembershipRow d groupId memberId = None then Inr memberId
       else generateMemberId d groupId names)"

subsection \<open>Memberships\<close>

definition parse_membership :: "membership_row \<Rightarrow> membership_row result" where
  "parse_membership m =
     rbind (parse_identifier (m_id m)) (\<lambda>id'.
     rbind (parse_identifier (m_groupId m)) (\<lambda>groupId.
     rbind (parse_identifier (m_memberId m)) (\<lambda>memberId.
     rbind (parse_identifier (m_agentProfileId m)) (\<lambda>profileId.
     rbind (parse_text 100 (m_alias m)) (\<lambda>alias.
       Inr (m\<lparr>m_id := id', m_groupId := groupId, m_memberId := memberId,
         m_agentProfileId := profileId, m_alias := alias\<rparr>))))))"

definition incrementMembershipRevision :: "timestamp \<Rightarrow> string \<Rightarrow> db \<Rightarrow> (db \<times> nat) result" where
  "incrementMembershipRevision now groupId d =
     (let d1 = put_group groupId (\<lambda>g. g\<lparr>g_membershipRevision := Suc (g_membershipRevision g), g_updatedAt := now\<rparr>) d
      in rbind (requireGroup d1 groupId) (\<lambda>g. Inr (d1, g_membershipRevision g)))"

record membership_input =
  mi_memberId :: "string option"
  mi_agentProfileId :: string
  mi_alias :: string
  mi_roleId :: "string option"

definition put_membership :: "string \<Rightarrow> (membership_row \<Rightarrow> membership_row) \<Rightarrow> db \<Rightarrow> db" where
  "put_membership i f d = d\<lparr>db_memberships := update_where (\<lambda>m. m_id m = i) f (db_memberships d)\<rparr>"

definition insertable_membership :: "db \<Rightarrow> membership_row \<Rightarrow> bool" where
  "insertable_membership d m \<longleftrightarrow>
     \<not> list_ex (\<lambda>q. m_id q = m_id m \<or> (m_groupId q = m_groupId m \<and> m_memberId q = m_memberId m)) (db_memberships d)"

definition active_memberships :: "db \<Rightarrow> string \<Rightarrow> membership_row list" where
  "active_memberships d groupId = filter (\<lambda>m. m_groupId m = groupId \<and> m_active m) (db_memberships d)"

text \<open>
  A member that comes back keeps its row: the update writes the profile, the alias, the role and
  the state, and leaves \<open>order_index\<close> as it was, although the result carries the new order.
\<close>

definition store_membership :: "membership_row option \<Rightarrow> membership_row \<Rightarrow> db \<Rightarrow> db result" where
  "store_membership existing membership d =
     (case existing of
        None \<Rightarrow> if insertable_membership d membership
                then Inr (d\<lparr>db_memberships := db_memberships d @ [membership]\<rparr>) else Inl ConstraintError
      | Some e \<Rightarrow> Inr (put_membership (m_id membership)
          (\<lambda>m. m\<lparr>m_agentProfileId := m_agentProfileId membership, m_alias := m_alias membership,
                 m_roleId := m_roleId membership, m_active := True,
                 m_joinedAt := m_joinedAt membership, m_removedAt := None\<rparr>) d))"

definition add_membership ::
  "timestamp \<Rightarrow> string \<Rightarrow> string list \<Rightarrow> string \<Rightarrow> membership_input \<Rightarrow> command" where
  "add_membership now membershipId names groupId input d =
     rbind (requireGroup d groupId) (\<lambda>_.
     rbind (requireAgentProfile d (mi_agentProfileId input)) (\<lambda>_.
       if list_ex (\<lambda>f. f_agentProfileId f = mi_agentProfileId input) (db_foremen d)
       then Inl (DomainError ''profile_is_foreman_owned'' 409) else
       rbind (case mi_memberId input of Some m \<Rightarrow> Inr m | None \<Rightarrow> generateMemberId d groupId (take 32 names)) (\<lambda>memberId.
       let existing = getMembershipRow d groupId memberId in
       if (case existing of None \<Rightarrow> False | Some m \<Rightarrow> m_active m)
       then Inl (DomainError ''membership_exists'' 409) else
       rbind (parse_membership \<lparr>m_id = (case existing of None \<Rightarrow> membershipId | Some m \<Rightarrow> m_id m),
          m_groupId = groupId, m_memberId = memberId, m_agentProfileId = mi_agentProfileId input,
          m_alias = mi_alias input, m_roleId = mi_roleId input,
          m_order = next_order (map m_order (active_memberships d groupId)), m_active = True,
          m_joinedAt = now, m_removedAt = None\<rparr>) (\<lambda>membership.
       rbind (store_membership existing membership d) (\<lambda>d1.
       rbind (incrementMembershipRevision now groupId d1) (\<lambda>(d2, revision).
         Inr (append_event ''membership.added'' ''group'' groupId (Pl_membership_added membership revision) now d2,
              Ir_membership membership)))))))"

definition addMembership ::
  "timestamp \<Rightarrow> string \<Rightarrow> string list \<Rightarrow> string \<Rightarrow> membership_input \<Rightarrow> string option \<Rightarrow> command" where
  "addMembership now membershipId names groupId input idempotencyKey =
     executeIdempotent now (group_scope groupId ''membership.add'') idempotencyKey None
       (add_membership now membershipId names groupId input)"

text \<open>
  The membership these two commands return has no \<open>order\<close>: the schema's default 0 fills it in,
  whatever the row holds. A role of None keeps the row's, \<open>Some None\<close> is null and removes it.
\<close>

definition update_membership ::
  "timestamp \<Rightarrow> string \<Rightarrow> string \<Rightarrow> string option \<Rightarrow> string option option \<Rightarrow> command" where
  "update_membership now groupId memberId alias role d =
     rbind (requireGroup d groupId) (\<lambda>_.
       case getMembershipRow d groupId memberId of
         None \<Rightarrow> Inl (DomainError ''membership_not_active'' 404)
       | Some existing \<Rightarrow>
           if \<not> m_active existing then Inl (DomainError ''membership_not_active'' 404) else
           let alias' = (case alias of None \<Rightarrow> m_alias existing | Some a \<Rightarrow> a);
               role' = (case role of None \<Rightarrow> m_roleId existing | Some r \<Rightarrow> r);
               d1 = put_membership (m_id existing) (\<lambda>m. m\<lparr>m_alias := alias', m_roleId := role'\<rparr>) d
           in rbind (parse_membership (existing\<lparr>m_alias := alias', m_roleId := role', m_order := 0,
                       m_removedAt := None\<rparr>)) (\<lambda>membership.
              Inr (append_event ''membership.updated'' ''group'' groupId
                     (Pl_membership_updated membership (m_alias existing)) now d1,
                   Ir_membership membership)))"

definition updateMembership ::
  "timestamp \<Rightarrow> string \<Rightarrow> string \<Rightarrow> string option \<Rightarrow> string option option \<Rightarrow> string option \<Rightarrow> command" where
  "updateMembership now groupId memberId alias role idempotencyKey =
     executeIdempotent now (group_scope groupId (''membership.'' @ memberId @ ''.update'')) idempotencyKey None
       (update_membership now groupId memberId alias role)"

definition revoke_member_deliveries :: "timestamp \<Rightarrow> string \<Rightarrow> string \<Rightarrow> db \<Rightarrow> db" where
  "revoke_member_deliveries now groupId memberId d =
     (let ids = map msg_id (group_messages d groupId) in
      update_deliveries (\<lambda>r. dv_recipient r = memberId \<and> active_delivery (dv_status r) \<and> dv_messageId r \<in> set ids)
        (\<lambda>r. r\<lparr>dv_status := Dv_revoked, dv_reason := Some ''membership_removed'', dv_leaseOwner := None,
               dv_leaseExpiresAt := None, dv_updatedAt := now\<rparr>) d)"

definition remove_membership :: "timestamp \<Rightarrow> string \<Rightarrow> string \<Rightarrow> command" where
  "remove_membership now groupId memberId d =
     rbind (requireGroup d groupId) (\<lambda>_.
       case getMembershipRow d groupId memberId of
         None \<Rightarrow> Inl (DomainError ''membership_not_active'' 404)
       | Some existing \<Rightarrow>
           if \<not> m_active existing then Inl (DomainError ''membership_not_active'' 404) else
           let d1 = put_membership (m_id existing) (\<lambda>m. m\<lparr>m_active := False, m_removedAt := Some now\<rparr>) d;
               revoked = count_where (\<lambda>r. dv_recipient r = memberId \<and> active_delivery (dv_status r) \<and>
                 dv_messageId r \<in> set (map msg_id (group_messages d1 groupId))) (db_deliveries d1);
               d2 = revoke_member_deliveries now groupId memberId d1
           in rbind (incrementMembershipRevision now groupId d2) (\<lambda>(d3, revision).
              rbind (parse_membership (existing\<lparr>m_roleId := None, m_order := 0, m_active := False,
                       m_removedAt := Some now\<rparr>)) (\<lambda>membership.
              Inr (append_event ''membership.removed'' ''group'' groupId
                     (Pl_membership_removed membership revision revoked) now d3,
                   Ir_membership membership))))"

definition removeMembership :: "timestamp \<Rightarrow> string \<Rightarrow> string \<Rightarrow> string option \<Rightarrow> command" where
  "removeMembership now groupId memberId idempotencyKey =
     executeIdempotent now (group_scope groupId (''membership.'' @ memberId @ ''.remove'')) idempotencyKey None
       (remove_membership now groupId memberId)"

definition listActiveMemberships :: "db \<Rightarrow> string \<Rightarrow> membership_row list result" where
  "listActiveMemberships d groupId =
     rbind (requireGroup d groupId) (\<lambda>_. Inr (sort_key (\<lambda>m. (m_order m, m_id m)) (active_memberships d groupId)))"


subsection \<open>Reconciliation with the configuration\<close>

definition order_entry :: "string \<Rightarrow> string list \<Rightarrow> nat \<Rightarrow> string" where
  "order_entry kind ids order = kind @ concat (map (\<lambda>i. CHR '':'' # i) ids) @ CHR '':'' # show_nat order"

definition desired_order :: "(string \<times> configured_group) list \<Rightarrow> string list" where
  "desired_order configuredGroups =
     concat (map (\<lambda>(k, groupId, g).
       order_entry ''group'' [groupId] k #
       map (\<lambda>(j, agentId, a). order_entry ''member'' [groupId, agentId] j)
         (enumerate 0 (orderedAgentEntries (cg_agents g))))
       (enumerate 0 configuredGroups))"

definition persisted_order :: "db \<Rightarrow> string list" where
  "persisted_order d =
     map (\<lambda>(groupOrder, memberOrder, v). v) (sort_key id
       (map (\<lambda>g. (g_order g, 0, order_entry ''group'' [g_id g] (g_order g))) (db_groups d) @
        map (\<lambda>m. (case find_where (\<lambda>g. g_id g = m_groupId m) (db_groups d) of
                     None \<Rightarrow> 0 | Some g \<Rightarrow> g_order g,
                   Suc (m_order m), order_entry ''member'' [m_groupId m, m_id m] (m_order m)))
          (filter m_active (db_memberships d))))"

definition bump_order_revision :: "(string \<times> configured_group) list \<Rightarrow> db \<Rightarrow> db" where
  "bump_order_revision configuredGroups d =
     (if desired_order configuredGroups \<noteq> persisted_order d
      then d\<lparr>db_orderRevision := Suc (db_orderRevision d)\<rparr> else d)"

definition upsert_profile :: "string \<Rightarrow> string \<Rightarrow> db \<Rightarrow> db" where
  "upsert_profile i agentType d =
     (if list_ex (\<lambda>p. ap_id p = i) (db_profiles d)
      then d\<lparr>db_profiles := update_where (\<lambda>p. ap_id p = i) (\<lambda>p. p\<lparr>ap_agentType := agentType\<rparr>) (db_profiles d)\<rparr>
      else d\<lparr>db_profiles := db_profiles d @ [\<lparr>ap_id = i, ap_agentType = agentType\<rparr>]\<rparr>)"

fun upsert_profiles :: "string list \<Rightarrow> (string \<times> configured_agent) list \<Rightarrow> db \<Rightarrow> db result" where
  "upsert_profiles integrations [] d = Inr d"
| "upsert_profiles integrations ((i, a) # as) d =
     (if ca_integrationId a \<notin> set integrations
      then Inl (DomainError ''configured_integration_not_found'' 409)
      else upsert_profiles integrations as (upsert_profile i (ca_integrationId a) d))"

definition identity_entry :: "string \<Rightarrow> string \<Rightarrow> string \<Rightarrow> string" where
  "identity_entry membershipId memberId profileId = membershipId @ '':'' @ memberId @ '':'' @ profileId"

definition prior_identity :: "db \<Rightarrow> string \<Rightarrow> string list" where
  "prior_identity d groupId =
     sort (map (\<lambda>m. identity_entry (m_id m) (m_memberId m) (m_agentProfileId m)) (active_memberships d groupId))"

definition desired_identity :: "configured_group \<Rightarrow> string list" where
  "desired_identity g = sort (map (\<lambda>(i, a). identity_entry i (ca_memberId a) i) (cg_agents g))"

definition configured_group_row ::
  "timestamp \<Rightarrow> string \<Rightarrow> nat \<Rightarrow> configured_group \<Rightarrow> nat \<Rightarrow> group_row option \<Rightarrow> group_row" where
  "configured_group_row now groupId order g revision existing =
     (case existing of
        None \<Rightarrow> \<lparr>g_id = groupId, g_name = cg_name g, g_order = order, g_membershipRevision = revision,
                  g_messageSequence = 0, g_createdAt = now, g_updatedAt = now\<rparr>
      | Some e \<Rightarrow> e\<lparr>g_name := cg_name g, g_order := order, g_membershipRevision := revision,
          g_updatedAt := (if g_name e = cg_name g \<and> g_membershipRevision e = revision
                          then g_updatedAt e else now)\<rparr>)"

definition upsert_group :: "group_row \<Rightarrow> db \<Rightarrow> db" where
  "upsert_group g d =
     (if list_ex (\<lambda>q. g_id q = g_id g) (db_groups d) then put_group (g_id g) (\<lambda>_. g) d
      else d\<lparr>db_groups := db_groups d @ [g]\<rparr>)"

definition configured_membership ::
  "timestamp \<Rightarrow> string \<Rightarrow> nat \<Rightarrow> string \<Rightarrow> configured_agent \<Rightarrow> membership_row" where
  "configured_membership now groupId order agentId a =
     \<lparr>m_id = agentId, m_groupId = groupId, m_memberId = ca_memberId a, m_agentProfileId = agentId,
      m_alias = ca_name a, m_roleId = ca_roleId a, m_order = order, m_active = True, m_joinedAt = now,
      m_removedAt = None\<rparr>"

text \<open>
  \<open>ON CONFLICT(id)\<close> resolves a clash of ids only: another row with the same group and member makes
  the statement fail.
\<close>

definition upsert_membership :: "membership_row \<Rightarrow> db \<Rightarrow> db result" where
  "upsert_membership m d =
     (if list_ex (\<lambda>q. m_id q \<noteq> m_id m \<and> m_groupId q = m_groupId m \<and> m_memberId q = m_memberId m) (db_memberships d)
      then Inl ConstraintError
      else if list_ex (\<lambda>q. m_id q = m_id m) (db_memberships d)
      then Inr (put_membership (m_id m) (\<lambda>q. m\<lparr>m_joinedAt := m_joinedAt q\<rparr>) d)
      else Inr (d\<lparr>db_memberships := db_memberships d @ [m]\<rparr>))"

fun upsert_memberships :: "membership_row list \<Rightarrow> db \<Rightarrow> db result" where
  "upsert_memberships [] d = Inr d"
| "upsert_memberships (m # ms) d = rbind (upsert_membership m d) (upsert_memberships ms)"

definition retire_membership :: "timestamp \<Rightarrow> string \<Rightarrow> membership_row \<Rightarrow> db \<Rightarrow> db" where
  "retire_membership now groupId m d =
     revoke_member_deliveries now groupId (m_memberId m)
       (put_membership (m_id m) (\<lambda>q. q\<lparr>m_active := False, m_removedAt := Some now\<rparr>) d)"

definition reconcile_group ::
  "timestamp \<Rightarrow> db \<Rightarrow> nat \<Rightarrow> string \<times> configured_group \<Rightarrow> db \<Rightarrow> db result" where
  "reconcile_group now prior order entry d =
     (let (groupId, g) = entry;
          existing = find_where (\<lambda>q. g_id q = groupId) (db_groups d);
          existingMemberships = active_memberships d groupId;
          desired = orderedAgentEntries (cg_agents g);
          changed = prior_identity prior groupId \<noteq> desired_identity g;
          revision = (case existing of None \<Rightarrow> 0 | Some e \<Rightarrow> g_membershipRevision e) + (if changed then 1 else 0);
          d1 = upsert_group (configured_group_row now groupId order g revision existing) d
      in rbind (upsert_memberships
             (map (\<lambda>(j, agentId, a). configured_membership now groupId j agentId a) (enumerate 0 desired)) d1)
           (\<lambda>d2. Inr (foldl (\<lambda>d3 m. if m_id m \<in> set (map fst desired) then d3
                                     else retire_membership now groupId m d3) d2 existingMemberships)))"

fun reconcile_groups ::
  "timestamp \<Rightarrow> db \<Rightarrow> nat \<Rightarrow> (string \<times> configured_group) list \<Rightarrow> db \<Rightarrow> db result" where
  "reconcile_groups now prior order [] d = Inr d"
| "reconcile_groups now prior order (e # es) d =
     rbind (reconcile_group now prior order e d) (reconcile_groups now prior (Suc order) es)"

definition retire_missing_groups :: "timestamp \<Rightarrow> string list \<Rightarrow> db \<Rightarrow> db" where
  "retire_missing_groups now desiredIds d =
     d\<lparr>db_memberships := update_where
         (\<lambda>m. m_active m \<and> m_groupId m \<notin> set desiredIds \<and> list_ex (\<lambda>g. g_id g = m_groupId m) (db_groups d))
         (\<lambda>m. m\<lparr>m_active := False, m_removedAt := Some now\<rparr>) (db_memberships d)\<rparr>"

definition reconcileTopology :: "timestamp \<Rightarrow> config \<Rightarrow> db \<Rightarrow> db result" where
  "reconcileTopology now config d =
     (let configuredGroups = orderedGroupEntries (cf_groups config);
          d1 = bump_order_revision configuredGroups d
      in rbind (upsert_profiles (cf_integrations config)
             (concat (map (\<lambda>(i, g). cg_agents g) configuredGroups)) d1) (\<lambda>d2.
         rbind (reconcile_groups now d2 0 configuredGroups d2) (\<lambda>d3.
           Inr (retire_missing_groups now (map fst (cf_groups config)) d3))))"

definition getOrderRevision :: "db \<Rightarrow> nat" where "getOrderRevision d = db_orderRevision d"

definition recordRuntimeEvent ::
  "timestamp \<Rightarrow> string \<Rightarrow> string \<Rightarrow> string \<Rightarrow> event_payload \<Rightarrow> db \<Rightarrow> db" where
  "recordRuntimeEvent now ty aggregateType aggregateId payload d =
     append_event ty aggregateType aggregateId payload now d"

end
