(* ===== verification/Mail_Protocol.thy ===== *)
theory Mail_Protocol
  imports Store_Groups
begin

text \<open>
  What the operations on messages, deliveries and groups keep: stored messages are values their
  schema accepts, their references point to earlier messages of the same conversation, and a
  delivery only moves forward. The walk of \<open>deriveMessageCausation\<close> is characterised by the
  ancestors of a message.
\<close>


subsection \<open>Parsing is idempotent\<close>

lemma dropWhile_ends:
  assumes "xs \<noteq> []" and "\<not> P (hd xs)" shows "dropWhile P xs = xs"
  using assms by (cases xs) auto

lemma js_trim_idem [simp]: "js_trim (js_trim s) = js_trim s"
proof -
  let ?l = "dropWhile js_space s"
  let ?t = "dropWhile js_space (rev ?l)"
  have hd_l: "?l \<noteq> [] \<Longrightarrow> \<not> js_space (hd ?l)" by (rule hd_dropWhile)
  have t: "dropWhile js_space (rev ?t) = rev ?t"
  proof (cases "?t = []")
    case False
    then have ne: "?l \<noteq> []" by (metis dropWhile.simps(1) rev.simps(1))
    obtain zs where z: "rev ?l = zs @ ?t" by (metis takeWhile_dropWhile_id)
    then have "?l = rev ?t @ rev zs" by (metis rev_append rev_rev_ident)
    then have "hd (rev ?t) = hd ?l" using False by (metis hd_append2 rev_is_Nil_conv)
    then show ?thesis using hd_l [OF ne] False by (simp add: dropWhile_ends)
  next
    case True
    show ?thesis unfolding True by simp
  qed
  have s: "js_trim s = rev ?t" by (simp add: js_trim_def)
  have "js_trim (rev ?t) = rev (dropWhile js_space (rev (rev ?t)))"
    unfolding js_trim_def t ..
  then show ?thesis unfolding s by simp
qed

lemma parse_text_idem: "parse_text n s = Inr t \<Longrightarrow> parse_text n t = Inr t"
  by (auto simp: parse_text_def Let_def split: if_splits)

lemma parse_identifier_idem: "parse_identifier s = Inr t \<Longrightarrow> parse_identifier t = Inr t"
  unfolding parse_identifier_def by (rule parse_text_idem)

lemma parse_opt_idem:
  assumes "\<And>a b. p a = Inr b \<Longrightarrow> p b = Inr b" and "parse_opt p v = Inr w"
  shows "parse_opt p w = Inr w"
  using assms by (cases v) (auto simp: rbind_eq_Inr)

lemma parse_opt_identifier_idem:
  "parse_opt parse_identifier v = Inr w \<Longrightarrow> parse_opt parse_identifier w = Inr w"
  by (rule parse_opt_idem [of parse_identifier, OF parse_identifier_idem])

lemma parse_all_idem:
  assumes "\<And>a b. p a = Inr b \<Longrightarrow> p b = Inr b" and "parse_all p xs = Inr ys"
  shows "parse_all p ys = Inr ys"
  using assms(2)
proof (induction xs arbitrary: ys)
  case (Cons x xs)
  then obtain y zs where y: "p x = Inr y" "parse_all p xs = Inr zs" "ys = y # zs"
    by (auto simp: rbind_eq_Inr)
  then show ?case using Cons.IH [OF y(2)] assms(1) [OF y(1)] by simp
qed auto

lemma parse_sender_idem: "parse_sender s = Inr t \<Longrightarrow> parse_sender t = Inr t"
  by (cases s) (auto simp: rbind_eq_Inr dest: parse_identifier_idem)

lemma parse_audience_idem: "parse_audience a = Inr b \<Longrightarrow> parse_audience b = Inr b"
proof (cases a)
  case (Multicast ms)
  assume "parse_audience a = Inr b"
  then obtain ns where "parse_all parse_identifier ms = Inr ns" "2 \<le> length ns" "distinct ns"
      "b = Multicast ns"
    using Multicast by (auto simp: rbind_eq_Inr)
  then show ?thesis using parse_all_idem [of parse_identifier, OF parse_identifier_idem] by simp
qed (auto simp: rbind_eq_Inr dest: parse_identifier_idem)

lemma parse_body_idem: "parse_body b = Inr c \<Longrightarrow> parse_body c = Inr c"
  by (auto simp: parse_body_def)

lemma parse_message_InrD:
  assumes "parse_message m = Inr n"
  shows "parse_identifier (msg_id m) = Inr (msg_id n)"
    "parse_identifier (msg_groupId m) = Inr (msg_groupId n)"
    "parse_identifier (msg_conversationId m) = Inr (msg_conversationId n)"
    "parse_sender (msg_sender m) = Inr (msg_sender n)"
    "parse_audience (msg_audience m) = Inr (msg_audience n)"
    "parse_body (msg_body m) = Inr (msg_body n)"
    "parse_opt parse_identifier (msg_replyTo m) = Inr (msg_replyTo n)"
    "parse_opt parse_identifier (msg_rootId m) = Inr (msg_rootId n)"
    "parse_opt parse_identifier (msg_causationId m) = Inr (msg_causationId n)"
    "0 < msg_groupSeq n" "msg_hop n \<le> MAX_MESSAGE_CAUSAL_DEPTH"
    "msg_intent n = Mi_control \<longrightarrow> is_operator (msg_sender n)"
    "msg_groupSeq n = msg_groupSeq m" "msg_hop n = msg_hop m" "msg_intent n = msg_intent m"
    "msg_expiresAt n = msg_expiresAt m" "msg_createdAt n = msg_createdAt m"
  using assms unfolding parse_message_def by (clarsimp simp: rbind_eq_Inr)+

lemma parse_message_InrI:
  assumes "parse_identifier (msg_id m) = Inr (msg_id m)"
    "parse_identifier (msg_groupId m) = Inr (msg_groupId m)"
    "parse_identifier (msg_conversationId m) = Inr (msg_conversationId m)"
    "parse_sender (msg_sender m) = Inr (msg_sender m)"
    "parse_audience (msg_audience m) = Inr (msg_audience m)"
    "parse_body (msg_body m) = Inr (msg_body m)"
    "parse_opt parse_identifier (msg_replyTo m) = Inr (msg_replyTo m)"
    "parse_opt parse_identifier (msg_rootId m) = Inr (msg_rootId m)"
    "parse_opt parse_identifier (msg_causationId m) = Inr (msg_causationId m)"
    "0 < msg_groupSeq m" "msg_hop m \<le> MAX_MESSAGE_CAUSAL_DEPTH"
    "msg_intent m = Mi_control \<longrightarrow> is_operator (msg_sender m)"
  shows "parse_message m = Inr m"
  unfolding parse_message_def using assms by simp

lemma parse_message_idem:
  assumes "parse_message m = Inr n" shows "parse_message n = Inr n"
  by (rule parse_message_InrI)
    (use parse_message_InrD [OF assms] in \<open>blast intro: parse_identifier_idem parse_sender_idem
      parse_audience_idem parse_body_idem parse_opt_identifier_idem\<close>)+

subsection \<open>Sound messages\<close>

text \<open>
  A reference points to an earlier message of the same group and conversation that is closer to the
  root; every message is one its schema accepts unchanged, numbered below its group's counter.
\<close>

definition earlier_cause :: "message list \<Rightarrow> message \<Rightarrow> string option \<Rightarrow> bool" where
  "earlier_cause ms m v = (case v of None \<Rightarrow> True | Some i \<Rightarrow>
     (case find_message i ms of None \<Rightarrow> False | Some n \<Rightarrow>
        msg_groupId n = msg_groupId m \<and> msg_conversationId n = msg_conversationId m \<and>
        msg_groupSeq n < msg_groupSeq m \<and> msg_hop n < msg_hop m))"

definition earlier_root :: "message list \<Rightarrow> message \<Rightarrow> bool" where
  "earlier_root ms m = (case msg_rootId m of None \<Rightarrow> True | Some i \<Rightarrow>
     (case find_message i ms of None \<Rightarrow> False | Some n \<Rightarrow> msg_groupSeq n < msg_groupSeq m))"

definition numbered :: "group_row list \<Rightarrow> message \<Rightarrow> bool" where
  "numbered gs m \<longleftrightarrow>
     list_ex (\<lambda>g. g_id g = msg_groupId m \<and> msg_groupSeq m \<le> g_messageSequence g) gs"

definition message_ok :: "group_row list \<Rightarrow> message list \<Rightarrow> message \<Rightarrow> bool" where
  "message_ok gs ms m \<longleftrightarrow> parse_message m = Inr m \<and> numbered gs m \<and>
     earlier_cause ms m (msg_replyTo m) \<and> earlier_cause ms m (msg_causationId m) \<and> earlier_root ms m"

definition group_ok :: "group_row \<Rightarrow> bool" where
  "group_ok g \<longleftrightarrow> parse_identifier (g_id g) = Inr (g_id g)"

definition messages_sound :: "db \<Rightarrow> bool" where
  "messages_sound d \<longleftrightarrow>
     distinct (map g_id (db_groups d)) \<and> list_all group_ok (db_groups d) \<and>
     distinct (map msg_id (db_messages d)) \<and>
     list_all (message_ok (db_groups d) (db_messages d)) (db_messages d) \<and>
     list_all (\<lambda>m. automated_count d (msg_groupId m) (msg_conversationId m)
        \<le> MAX_AUTOMATED_REPLIES_PER_CONVERSATION) (db_messages d)"

lemma find_message_iff:
  assumes "distinct (map msg_id ms)"
  shows "find_message i ms = Some m \<longleftrightarrow> m \<in> set ms \<and> msg_id m = i"
proof
  assume "m \<in> set ms \<and> msg_id m = i"
  then show "find_message i ms = Some m"
    using assms by (induction ms) (auto simp: rev_image_eqI)
qed (blast dest: find_where_SomeD)

subsection \<open>Causal chains\<close>

definition cause_step :: "db \<Rightarrow> message \<Rightarrow> message \<Rightarrow> bool" where
  "cause_step d m n \<longleftrightarrow> (\<exists>i. next_cause m = Some i \<and> find_message i (db_messages d) = Some n)"

lemma cause_step_in: "cause_step d m n \<Longrightarrow> n \<in> set (db_messages d)"
  by (auto simp: cause_step_def dest: find_where_SomeD)

lemma cause_step_earlier:
  assumes "messages_sound d" and "m \<in> set (db_messages d)" and "cause_step d m n"
  shows "msg_groupSeq n < msg_groupSeq m" "msg_hop n < msg_hop m" "msg_groupId n = msg_groupId m"
    "msg_conversationId n = msg_conversationId m"
proof -
  have ok: "message_ok (db_groups d) (db_messages d) m"
    using assms(1,2) by (auto simp: messages_sound_def list_all_iff)
  obtain i where i: "next_cause m = Some i" "find_message i (db_messages d) = Some n"
    using assms(3) by (auto simp: cause_step_def)
  have "msg_causationId m = Some i \<or> msg_replyTo m = Some i"
    using i(1) by (auto simp: next_cause_def split: option.splits)
  then show "msg_groupSeq n < msg_groupSeq m" "msg_hop n < msg_hop m" "msg_groupId n = msg_groupId m"
    "msg_conversationId n = msg_conversationId m"
    using ok i(2) by (auto simp: message_ok_def earlier_cause_def)
qed

lemma causes_earlier:
  assumes "(cause_step d)\<^sup>*\<^sup>* m a" and "messages_sound d" and "m \<in> set (db_messages d)"
  shows "a \<in> set (db_messages d) \<and> msg_groupSeq a \<le> msg_groupSeq m \<and> msg_hop a \<le> msg_hop m"
  using assms(1)
proof (induction rule: rtranclp_induct)
  case (step y z)
  then show ?case
    using cause_step_earlier(1,2) [OF assms(2) _ step.hyps(2)] cause_step_in [OF step.hyps(2)] by force
qed (simp add: assms(3))

lemma walk_causes_visits:
  assumes "messages_sound d" and "m \<in> set (db_messages d)"
    and "\<And>a. (cause_step d)\<^sup>*\<^sup>* m a \<Longrightarrow> msg_id a \<notin> set visited"
  shows "walk_causes d sg visited m =
    (if \<exists>a. (cause_step d)\<^sup>*\<^sup>* m a \<and> stored_exchange d a = sg then Inl causal_cycle else Inr ())"
  using assms(2,3)
proof (induction "msg_groupSeq m" arbitrary: m visited rule: less_induct)
  case less
  have nv: "msg_id m \<notin> set visited" using less.prems(2) by blast
  show ?case
  proof (cases "stored_exchange d m = sg")
    case True
    then show ?thesis by (subst walk_causes.simps) auto
  next
    case False
    note here = False
    show ?thesis
    proof (cases "\<exists>n. cause_step d m n")
      case False
      then have "walk_causes d sg visited m = Inr ()"
        using here nv by (subst walk_causes.simps) (auto simp: cause_step_def split: option.splits)
      moreover have "(cause_step d)\<^sup>*\<^sup>* m a \<Longrightarrow> a = m" for a
        using False by (metis converse_rtranclpE)
      ultimately show ?thesis using here by auto
    next
      case True
      then obtain n where n: "cause_step d m n" ..
      note n' = cause_step_earlier(1) [OF assms(1) less.prems(1) n] cause_step_in [OF n]
      have uniq: "cause_step d m k \<Longrightarrow> k = n" for k using n by (auto simp: cause_step_def)
      have w: "walk_causes d sg visited m = walk_causes d sg (msg_id m # visited) n"
        using here nv n by (subst walk_causes.simps) (auto simp: cause_step_def)
      have "msg_id a \<notin> set (msg_id m # visited)" if a: "(cause_step d)\<^sup>*\<^sup>* n a" for a
      proof -
        have "a \<in> set (db_messages d)" "msg_groupSeq a < msg_groupSeq m"
          using causes_earlier [OF a assms(1) n'(2)] n'(1) by auto
        then have "msg_id a \<noteq> msg_id m"
          using assms(1) less.prems(1) by (auto simp: messages_sound_def distinct_map inj_on_def)
        then show ?thesis using less.prems(2) [OF converse_rtranclp_into_rtranclp [OF n a]] by simp
      qed
      then have "walk_causes d sg visited m =
          (if \<exists>a. (cause_step d)\<^sup>*\<^sup>* n a \<and> stored_exchange d a = sg then Inl causal_cycle else Inr ())"
        unfolding w using less.hyps [OF n'] by blast
      moreover have "(\<exists>a. (cause_step d)\<^sup>*\<^sup>* m a \<and> stored_exchange d a = sg) \<longleftrightarrow>
          (\<exists>a. (cause_step d)\<^sup>*\<^sup>* n a \<and> stored_exchange d a = sg)"
        using here uniq n by (metis converse_rtranclpE converse_rtranclp_into_rtranclp)
      ultimately show ?thesis by simp
    qed
  qed
qed


subsection \<open>Forgetting messages\<close>

definition forget :: "string list \<Rightarrow> message list \<Rightarrow> message list" where
  "forget ids ms = delete_where (\<lambda>m. msg_id m \<in> set ids) (map (drop_references ids) ms)"

lemma drop_references_simps [simp]:
  "msg_id (drop_references ids m) = msg_id m" "msg_groupId (drop_references ids m) = msg_groupId m"
  "msg_groupSeq (drop_references ids m) = msg_groupSeq m" "msg_hop (drop_references ids m) = msg_hop m"
  "msg_conversationId (drop_references ids m) = msg_conversationId m"
  "msg_sender (drop_references ids m) = msg_sender m"
  "msg_replyTo (drop_references ids m) = null_if ids (msg_replyTo m)"
  "msg_rootId (drop_references ids m) = null_if ids (msg_rootId m)"
  "msg_causationId (drop_references ids m) = null_if ids (msg_causationId m)"
  "msg_createdAt (drop_references ids m) = msg_createdAt m"
  by (simp_all add: drop_references_def)

lemma null_if_Some [simp]: "null_if ids v = Some i \<longleftrightarrow> v = Some i \<and> i \<notin> set ids"
  by (cases v) (auto simp: null_if_def)

lemma forget_find:
  "i \<notin> set ids \<Longrightarrow> find_message i (forget ids ms) = map_option (drop_references ids) (find_message i ms)"
  by (induction ms) (auto simp: forget_def delete_where_def)

lemma forget_in: "m \<in> set (forget ids ms) \<longleftrightarrow> (\<exists>n\<in>set ms. m = drop_references ids n \<and> msg_id n \<notin> set ids)"
  by (auto simp: forget_def delete_where_def)

lemma forget_ids: "map msg_id (forget ids ms) = filter (\<lambda>i. i \<notin> set ids) (map msg_id ms)"
  by (induction ms) (auto simp: forget_def delete_where_def)

lemma parse_null_if:
  "parse_opt parse_identifier v = Inr v \<Longrightarrow> parse_opt parse_identifier (null_if ids v) = Inr (null_if ids v)"
  by (cases v) (auto simp: null_if_def)

lemma parse_message_drop:
  assumes "parse_message m = Inr m"
  shows "parse_message (drop_references ids m) = Inr (drop_references ids m)"
proof (rule parse_message_InrI)
qed (use parse_message_InrD [OF assms] parse_null_if in \<open>auto simp: drop_references_def\<close>)

lemma earlier_cause_forget:
  assumes "earlier_cause ms m v"
  shows "earlier_cause (forget ids ms) (drop_references ids m) (null_if ids v)"
proof (cases "null_if ids v")
  case (Some i)
  then have "v = Some i" "i \<notin> set ids" by simp_all
  then show ?thesis using assms
    by (auto simp: earlier_cause_def forget_find null_if_def split: option.splits)
qed (simp add: earlier_cause_def)

lemma earlier_root_forget:
  assumes "earlier_root ms m" shows "earlier_root (forget ids ms) (drop_references ids m)"
proof (cases "null_if ids (msg_rootId m)")
  case (Some i)
  then have "msg_rootId m = Some i" "i \<notin> set ids" by simp_all
  then show ?thesis using assms
    by (auto simp: earlier_root_def forget_find null_if_def split: option.splits)
qed (simp add: earlier_root_def)

lemma count_forget:
  assumes "\<And>m. p (drop_references ids m) = p m"
  shows "count_where p (forget ids ms) \<le> count_where p ms"
  by (induction ms) (auto simp: forget_def delete_where_def count_where_def assms)

lemma messages_sound_forget:
  assumes "messages_sound d" and "db_messages d' = forget ids (db_messages d)"
    and "db_groups d' = db_groups d"
  shows "messages_sound d'"
proof -
  have "message_ok (db_groups d) (forget ids (db_messages d)) (drop_references ids m)"
    if "m \<in> set (db_messages d)" for m
  proof -
    have ok: "message_ok (db_groups d) (db_messages d) m"
      using assms(1) that by (auto simp: messages_sound_def list_all_iff)
    show ?thesis
      using ok parse_message_drop [of m ids] earlier_cause_forget [of "db_messages d" m "msg_replyTo m" ids]
        earlier_cause_forget [of "db_messages d" m "msg_causationId m" ids]
        earlier_root_forget [of "db_messages d" m ids]
      by (auto simp: message_ok_def numbered_def)
  qed
  moreover have "automated_count d' g c \<le> automated_count d g c" for g c
    unfolding automated_count_def assms(2) by (rule count_forget) simp
  ultimately show ?thesis using assms
    unfolding messages_sound_def
    by (auto simp: list_all_iff forget_ids forget_in) (meson order.trans)+
qed


subsection \<open>Submitting a message\<close>

lemma parse_all_Ex:
  "parse_all p xs = Inr ys \<Longrightarrow> x \<in> set xs \<Longrightarrow> \<exists>y\<in>set ys. p x = Inr y"
  by (induction xs arbitrary: ys) (auto simp: rbind_eq_Inr)

lemma parse_all_Ex2:
  "parse_all p xs = Inr ys \<Longrightarrow> y \<in> set ys \<Longrightarrow> \<exists>x\<in>set xs. p x = Inr y"
  by (induction xs arbitrary: ys) (auto simp: rbind_eq_Inr)

lemma causal_parent_InrD:
  "causal_parent d g s i = Inr m \<Longrightarrow> find_message i (db_messages d) = Some m \<and> msg_groupId m = g"
  by (auto simp: causal_parent_def split: option.splits if_splits)

lemma parents_conversation_InrD:
  assumes "parents_conversation ps req fresh = Inr c"
  shows "p \<in> set ps \<Longrightarrow> msg_conversationId p = c"
    and "ps = [] \<Longrightarrow> c = fresh \<or> req = Some c"
proof -
  assume p: "p \<in> set ps"
  obtain c' where "remdups (map msg_conversationId ps) = [c']" "c' = c"
    using assms p
    by (auto simp: parents_conversation_def split: list.splits if_splits)
  then have "set (map msg_conversationId ps) = {c}" by (metis list.set(1) list.set(2) set_remdups)
  then show "msg_conversationId p = c" using p by auto
next
  assume "ps = []"
  then show "c = fresh \<or> req = Some c"
    using assms by (auto simp: parents_conversation_def split: option.splits)
qed

lemma causal_hop_less: "p \<in> set ps \<Longrightarrow> msg_hop p < causal_hop ps"
proof -
  have "p \<in> set ps \<Longrightarrow> msg_hop p \<le> foldr max (map msg_hop ps) 0"
    by (induction ps) (auto simp: max.coboundedI2)
  then show "p \<in> set ps \<Longrightarrow> msg_hop p < causal_hop ps" by (auto simp: causal_hop_def)
qed

lemma set_options_list: "x \<in> set (options_list vs) \<longleftrightarrow> Some x \<in> set vs"
  by (induction vs) (auto simp: options_list_def split: option.splits)

lemma derive_InrD:
  assumes "deriveMessageCausation d fresh g cmd rs = Inr c"
  shows "\<exists>ps. (\<forall>i. (sc_replyTo cmd = Some i \<or> sc_causationId cmd = Some i) \<longrightarrow>
           (\<exists>p\<in>set ps. find_message i (db_messages d) = Some p)) \<and>
         (\<forall>p\<in>set ps. p \<in> set (db_messages d) \<and> msg_groupId p = g \<and>
            msg_conversationId p = cs_conversationId c \<and> msg_hop p < cs_hop c) \<and>
         (ps = [] \<longrightarrow> cs_conversationId c = fresh \<or> sc_conversationId cmd = Some (cs_conversationId c)) \<and>
         (case cs_rootId c of None \<Rightarrow> True | Some i \<Rightarrow> \<exists>p\<in>set ps. msg_rootId p = Some i \<or> msg_id p = i) \<and>
         cs_hop c \<le> MAX_MESSAGE_CAUSAL_DEPTH \<and>
         (\<not> is_operator (sc_sender cmd) \<longrightarrow>
            automated_count d g (cs_conversationId c) < MAX_AUTOMATED_REPLIES_PER_CONVERSATION)"
proof -
  let ?ids = "js_uniq (options_list [sc_replyTo cmd, sc_causationId cmd])"
  obtain ps where ps: "parse_all (causal_parent d g (sc_sender cmd)) ?ids = Inr ps"
    and conv: "parents_conversation ps (sc_conversationId cmd) fresh = Inr (cs_conversationId c)"
    and hop: "cs_hop c = causal_hop ps" "\<not> MAX_MESSAGE_CAUSAL_DEPTH < causal_hop ps"
    and budget: "\<not> (\<not> is_operator (sc_sender cmd) \<and>
        MAX_AUTOMATED_REPLIES_PER_CONVERSATION \<le> automated_count d g (cs_conversationId c))"
    and root: "cs_rootId c = (case ps of [] \<Rightarrow> None
        | root # _ \<Rightarrow> Some (case msg_rootId root of None \<Rightarrow> msg_id root | Some i \<Rightarrow> i))"
    using assms unfolding deriveMessageCausation_def Let_def
    by (clarsimp simp: rbind_eq_Inr split: if_splits)
  have par: "p \<in> set ps \<Longrightarrow> p \<in> set (db_messages d) \<and> msg_groupId p = g" for p
    using parse_all_Ex2 [OF ps] causal_parent_InrD find_where_SomeD by metis
  have ex: "\<exists>p\<in>set ps. find_message i (db_messages d) = Some p"
    if "sc_replyTo cmd = Some i \<or> sc_causationId cmd = Some i" for i
  proof -
    have "i \<in> set ?ids" using that by (auto simp: set_options_list)
    from parse_all_Ex [OF ps this] show ?thesis using causal_parent_InrD by blast
  qed
  show ?thesis
  proof (intro exI [of _ ps] conjI)
    show "case cs_rootId c of None \<Rightarrow> True | Some i \<Rightarrow> \<exists>p\<in>set ps. msg_rootId p = Some i \<or> msg_id p = i"
    proof (cases ps)
      case (Cons a list)
      then show ?thesis using root by (cases "msg_rootId a") auto
    qed (use root in simp)
    show "ps = [] \<longrightarrow> cs_conversationId c = fresh \<or> sc_conversationId cmd = Some (cs_conversationId c)"
      using parents_conversation_InrD(2) [OF conv] by blast
  qed (use par ex hop budget causal_hop_less parents_conversation_InrD(1) [OF conv] in force)+
qed


lemma find_message_append_Some:
  "find_message i ms = Some n \<Longrightarrow> find_message i (ms @ [m]) = Some n"
  by (simp add: find_where_append)

lemma earlier_cause_append: "earlier_cause ms n v \<Longrightarrow> earlier_cause (ms @ [m]) n v"
  by (auto simp: earlier_cause_def find_message_append_Some split: option.splits)

lemma earlier_root_append: "earlier_root ms n \<Longrightarrow> earlier_root (ms @ [m]) n"
  by (auto simp: earlier_root_def find_message_append_Some split: option.splits)

text \<open>Groups may change as long as they keep their ids apart and their counters do not go down.\<close>

definition groups_grow :: "group_row list \<Rightarrow> group_row list \<Rightarrow> bool" where
  "groups_grow gs gs' \<longleftrightarrow> distinct (map g_id gs') \<and> list_all group_ok gs' \<and>
     (\<forall>g\<in>set gs. \<exists>g'\<in>set gs'. g_id g' = g_id g \<and> g_messageSequence g \<le> g_messageSequence g')"

lemma numbered_grow: "groups_grow gs gs' \<Longrightarrow> numbered gs m \<Longrightarrow> numbered gs' m"
  unfolding groups_grow_def numbered_def list_ex_iff by (metis order.trans)

lemma message_ok_grow: "groups_grow gs gs' \<Longrightarrow> message_ok gs ms m \<Longrightarrow> message_ok gs' ms m"
  by (auto simp: message_ok_def intro: numbered_grow)

lemma groups_grow_refl: "messages_sound d \<Longrightarrow> groups_grow (db_groups d) (db_groups d)"
  by (auto simp: groups_grow_def messages_sound_def)

lemma messages_sound_groups:
  assumes "messages_sound d" and "db_messages d' = db_messages d"
    and "groups_grow (db_groups d) (db_groups d')"
  shows "messages_sound d'"
  using assms message_ok_grow [OF assms(3)]
  by (auto simp: messages_sound_def list_all_iff groups_grow_def automated_count_def)

lemma messages_sound_same:
  assumes "messages_sound d" and "db_messages d' = db_messages d" and "db_groups d' = db_groups d"
  shows "messages_sound d'"
  using messages_sound_groups [OF assms(1,2)] groups_grow_refl [OF assms(1)] assms(3) by simp

lemma bump_grow:
  assumes "messages_sound d"
  shows "groups_grow (db_groups d) (db_groups (bump_message_sequence g d))"
proof -
  let ?f = "\<lambda>x. if g_id x = g then x\<lparr>g_messageSequence := Suc (g_messageSequence x)\<rparr> else x"
  have gs: "db_groups (bump_message_sequence g d) = map ?f (db_groups d)"
    by (simp add: bump_message_sequence_def update_where_def)
  have ids: "map g_id (map ?f (db_groups d)) = map g_id (db_groups d)" by (simp add: comp_def)
  show ?thesis
    unfolding groups_grow_def gs
  proof (intro conjI ballI)
    show "distinct (map g_id (map ?f (db_groups d)))"
      unfolding ids using assms by (simp add: messages_sound_def)
    show "list_all group_ok (map ?f (db_groups d))"
      using assms by (auto simp: messages_sound_def list_all_iff group_ok_def)
    show "\<exists>g'\<in>set (map ?f (db_groups d)). g_id g' = g_id x \<and> g_messageSequence x \<le> g_messageSequence g'"
      if "x \<in> set (db_groups d)" for x
      by (rule bexI [of _ "?f x"]) (use that in auto)
  qed
qed

lemma messages_sound_add:
  assumes sound: "messages_sound d" and "db_messages d' = db_messages d @ [m]"
    and "groups_grow (db_groups d) (db_groups d')"
    and "find_message (msg_id m) (db_messages d) = None"
    and "message_ok (db_groups d') (db_messages d) m"
    and "\<not> is_operator (msg_sender m) \<longrightarrow>
      automated_count d (msg_groupId m) (msg_conversationId m) < MAX_AUTOMATED_REPLIES_PER_CONVERSATION"
  shows "messages_sound d'"
proof -
  have fresh: "msg_id m \<notin> msg_id ` set (db_messages d)"
    using assms(4) by (auto simp: find_where_None_iff)
  have ok: "message_ok (db_groups d') (db_messages d @ [m]) n"
    if "message_ok (db_groups d') (db_messages d) n" for n
    using that by (auto simp: message_ok_def earlier_cause_append earlier_root_append)
  have count: "automated_count d' g c = automated_count d g c +
      (if msg_groupId m = g \<and> msg_conversationId m = c \<and> \<not> is_operator (msg_sender m) then 1 else 0)" for g c
    by (simp add: automated_count_def assms(2) count_where_def)
  have none: "automated_count d g c = 0"
    if "\<forall>n\<in>set (db_messages d). msg_groupId n = g \<longrightarrow> msg_conversationId n \<noteq> c" for g c
    using that by (auto simp: automated_count_def count_where_def filter_empty_conv)
  have budget: "automated_count d g c \<le> MAX_AUTOMATED_REPLIES_PER_CONVERSATION" for g c
  proof (cases "\<exists>n\<in>set (db_messages d). msg_groupId n = g \<and> msg_conversationId n = c")
    case True
    then show ?thesis using sound by (auto simp: messages_sound_def list_all_iff)
  next
    case False
    then show ?thesis using none by auto
  qed
  have budget': "automated_count d' g c \<le> MAX_AUTOMATED_REPLIES_PER_CONVERSATION" for g c
    using budget [of g c] assms(6) by (auto simp: count)
  have grown: "message_ok (db_groups d') (db_messages d) n" if "n \<in> set (db_messages d)" for n
    using sound that message_ok_grow [OF assms(3)] by (auto simp: messages_sound_def list_all_iff)
  show ?thesis
    using sound fresh assms(3) assms(5) budget' grown ok
    by (auto simp: messages_sound_def assms(2) list_all_iff groups_grow_def)
qed


lemma parse_submit_InrD:
  assumes "parse_submit_command c = Inr i"
  shows "parse_opt parse_identifier (sc_conversationId i) = Inr (sc_conversationId i)"
    "parse_opt parse_identifier (sc_replyTo i) = Inr (sc_replyTo i)"
    "parse_opt parse_identifier (sc_causationId i) = Inr (sc_causationId i)"
    "parse_sender (sc_sender i) = Inr (sc_sender i)" "parse_audience (sc_audience i) = Inr (sc_audience i)"
    "parse_body (sc_body i) = Inr (sc_body i)"
  using assms unfolding parse_submit_command_def
  by (clarsimp simp: rbind_eq_Inr parse_opt_identifier_idem parse_sender_idem parse_audience_idem
      parse_body_idem)+

lemma insertDeliveries_InrD:
  assumes "insertDeliveries os d = Inr d'"
  shows "d' = d\<lparr>db_deliveries := db_deliveries d @ map delivery_row os\<rparr> \<and>
    distinct (map (\<lambda>x. (do_messageId x, do_recipient x)) os) \<and>
    (\<forall>x\<in>set os. \<forall>r\<in>set (db_deliveries d). \<not> (dv_messageId r = do_messageId x \<and> dv_recipient r = do_recipient x))"
  using assms
proof (induction os arbitrary: d)
  case (Cons x os)
  let ?d = "d\<lparr>db_deliveries := db_deliveries d @ [delivery_row x]\<rparr>"
  have x: "\<not> list_ex (\<lambda>r. dv_messageId r = do_messageId x \<and> dv_recipient r = do_recipient x) (db_deliveries d)"
    and rest: "insertDeliveries os ?d = Inr d'"
    using Cons.prems by (auto split: if_splits)
  show ?case using Cons.IH [OF rest] x by (fastforce simp: list_ex_iff delivery_row_def)
qed simp

lemma prune_InrD:
  assumes "pruneGroupMessages g retain now d = Inr d'"
  shows "db_messages d' = (let v = prune_victims d g retain in
           if v = [] then db_messages d else forget v (db_messages d)) \<and>
         db_groups d' = db_groups d \<and> db_memberships d' = db_memberships d \<and> db_runs d' = db_runs d \<and>
         db_events d' = db_events d \<and> db_eventSeq d' = db_eventSeq d \<and>
         db_deliveries d' = delete_where (\<lambda>r. dv_messageId r \<in> set (prune_victims d g retain)) (db_deliveries d)"
  using assms
  by (auto simp: pruneGroupMessages_def Let_def rbind_eq_Inr delete_messages_def delete_where_def
      invalidateMessageIdempotency_def nullMessageReferences_def forget_def split: if_splits)

text \<open>What a submission adds to the store before the retention is applied.\<close>

lemma submit_message_InrD:
  assumes "submit_message now mid fresh retain g input d = Inr (d', r)"
  shows "\<exists>grp rs c m d2 d3.
    requireGroup d g = Inr grp \<and> validateSender d g (sc_sender input) = Inr () \<and>
    resolveRecipients d grp input = Inr rs \<and> rs \<noteq> [] \<and>
    length rs \<le> MAX_MESSAGE_FAN_OUT \<and> deriveMessageCausation d fresh g input rs = Inr c \<and>
    parse_message (draft_message now mid g (Suc (g_messageSequence grp)) input c) = Inr m \<and>
    insertable_message (bump_message_sequence g d) m \<and>
    d2 = (bump_message_sequence g d)\<lparr>db_messages := db_messages d @ [m],
           db_deliveries := db_deliveries d @ map (\<lambda>x. delivery_row (resolveDelivery m now x)) rs\<rparr> \<and>
    distinct rs \<and> (\<forall>x\<in>set rs. \<forall>q\<in>set (db_deliveries d). \<not> row_is (msg_id m) x q) \<and>
    pruneGroupMessages g retain now d2 = Inr d3 \<and>
    (\<exists>st. getGroupMessageState d3 g = Inr st \<and>
      d' = append_event ''message.submitted'' ''message'' (msg_id m)
             (Pl_message_submitted g (msg_groupSeq m) st) now d3) \<and>
    r = Ir_message m (map (resolveDelivery m now) rs)"
proof -
  have seq: "requireGroup (bump_message_sequence g d) g =
      map_sum id (\<lambda>x. x\<lparr>g_messageSequence := Suc (g_messageSequence x)\<rparr>) (requireGroup d g)"
    using find_where_key_update [of g_id "\<lambda>x. x\<lparr>g_messageSequence := Suc (g_messageSequence x)\<rparr>" g "db_groups d"]
    by (auto simp: requireGroup_def bump_message_sequence_def require_def split: option.splits)
  obtain grp rs c m d2 d3 st where h: "requireGroup d g = Inr grp"
    "validateSender d g (sc_sender input) = Inr ()" "resolveRecipients d grp input = Inr rs"
    "rs \<noteq> []" "\<not> MAX_MESSAGE_FAN_OUT < length rs" "deriveMessageCausation d fresh g input rs = Inr c"
    "parse_message (draft_message now mid g (Suc (g_messageSequence grp)) input c) = Inr m"
    "insertable_message (bump_message_sequence g d) m"
    "insertDeliveries (map (resolveDelivery m now) rs)
      ((bump_message_sequence g d)\<lparr>db_messages := db_messages (bump_message_sequence g d) @ [m]\<rparr>) = Inr d2"
    "pruneGroupMessages g retain now d2 = Inr d3" "getGroupMessageState d3 g = Inr st"
    "d' = append_event ''message.submitted'' ''message'' (msg_id m)
             (Pl_message_submitted g (msg_groupSeq m) st) now d3"
    "r = Ir_message m (map (resolveDelivery m now) rs)"
    using assms unfolding submit_message_def Let_def
    by (clarsimp simp: rbind_eq_Inr seq split: if_splits)
  note ins = insertDeliveries_InrD [OF h(9)]
  have bm: "db_messages (bump_message_sequence g d) = db_messages d"
    "db_deliveries (bump_message_sequence g d) = db_deliveries d"
    by (simp_all add: bump_message_sequence_def)
  have "map (\<lambda>x. (do_messageId x, do_recipient x)) (map (resolveDelivery m now) rs) = map (Pair (msg_id m)) rs"
    by (simp add: resolveDelivery_def)
  then have dist: "distinct rs" using ins by (simp add: distinct_map del: map_map)
  show ?thesis
    using h ins dist
    by (intro exI [of _ grp] exI [of _ rs] exI [of _ c] exI [of _ m] exI [of _ d2] exI [of _ d3] conjI)
      (auto simp: bm row_is_def resolveDelivery_def comp_def)
qed

lemma requireGroup_InrD: "requireGroup d g = Inr x \<Longrightarrow> x \<in> set (db_groups d) \<and> g_id x = g"
  by (auto simp: requireGroup_def dest: find_where_SomeD)


lemma same_identifier:
  assumes "parse_identifier s = Inr t" and "parse_identifier s = Inr s" shows "t = s"
  using assms by simp

lemma new_message_ok:
  assumes sound: "messages_sound d" and grp: "requireGroup d g = Inr grp"
    and der: "deriveMessageCausation d fresh g input rs = Inr c"
    and m: "parse_message (draft_message now mid g (Suc (g_messageSequence grp)) input c) = Inr m"
    and input: "parse_submit_command cmd = Inr input" and fr: "parse_identifier fresh = Inr fresh"
  shows "message_ok (db_groups (bump_message_sequence g d)) (db_messages d) m" (is ?ok)
    and "msg_groupId m = g" and "msg_conversationId m = cs_conversationId c"
    and "msg_sender m = sc_sender input" and "msg_groupSeq m = Suc (g_messageSequence grp)"
proof -
  note inp = parse_submit_InrD [OF input]
  note md = parse_message_InrD [OF m]
  note gr = requireGroup_InrD [OF grp]
  obtain ps where causes: "\<And>i. sc_replyTo input = Some i \<or> sc_causationId input = Some i \<Longrightarrow>
      \<exists>p\<in>set ps. find_message i (db_messages d) = Some p"
    and par: "\<And>p. p \<in> set ps \<Longrightarrow> p \<in> set (db_messages d) \<and> msg_groupId p = g \<and>
      msg_conversationId p = cs_conversationId c \<and> msg_hop p < cs_hop c"
    and conv: "ps = [] \<Longrightarrow> cs_conversationId c = fresh \<or> sc_conversationId input = Some (cs_conversationId c)"
    and root: "case cs_rootId c of None \<Rightarrow> True | Some i \<Rightarrow> \<exists>p\<in>set ps. msg_rootId p = Some i \<or> msg_id p = i"
    using derive_InrD [OF der] by blast
  have ok: "message_ok (db_groups d) (db_messages d) p" if "p \<in> set (db_messages d)" for p
    using sound that by (auto simp: messages_sound_def list_all_iff)
  have "group_ok grp" using sound gr by (auto simp: messages_sound_def list_all_iff)
  then show gid: "msg_groupId m = g"
    using md(2) gr by (simp add: draft_message_def group_ok_def)
  have "parse_identifier (cs_conversationId c) = Inr (cs_conversationId c)"
  proof (cases ps)
    case Nil
    then show ?thesis using conv fr inp(1) by (auto simp: rbind_eq_Inr)
  next
    case (Cons p qs)
    then have "p \<in> set (db_messages d)" "msg_conversationId p = cs_conversationId c" using par by auto
    then show ?thesis using parse_message_InrD(3) [of p p] ok by (auto simp: message_ok_def)
  qed
  then show cid: "msg_conversationId m = cs_conversationId c"
    using md(3) by (simp add: draft_message_def)
  have reply: "msg_replyTo m = sc_replyTo input" and cause: "msg_causationId m = sc_causationId input"
    using md(7,9) inp(2,3) by (simp_all add: draft_message_def)
  show snd: "msg_sender m = sc_sender input" using md(4) inp(4) by (simp add: draft_message_def)
  show seq: "msg_groupSeq m = Suc (g_messageSequence grp)"
    using md(13) by (simp add: draft_message_def)
  have hop: "msg_hop m = cs_hop c" using md(14) by (simp add: draft_message_def)
  have below: "msg_groupSeq p < msg_groupSeq m" if pd: "p \<in> set (db_messages d)" and pg: "msg_groupId p = g" for p
  proof -
    obtain x where x: "x \<in> set (db_groups d)" "g_id x = g" "msg_groupSeq p \<le> g_messageSequence x"
      using ok [OF pd] pg by (auto simp: message_ok_def numbered_def list_ex_iff)
    have "x = grp" using sound x(1,2) gr by (auto simp: messages_sound_def distinct_map inj_on_def)
    then show ?thesis using x(3) seq by simp
  qed
  have early: "earlier_cause (db_messages d) m v" if v: "v = sc_replyTo input \<or> v = sc_causationId input" for v
  proof (cases v)
    case (Some i)
    then obtain p where p: "p \<in> set ps" "find_message i (db_messages d) = Some p"
      using causes [of i] v by metis
    then show ?thesis using par [OF p(1)] below [of p] Some gid cid hop by (simp add: earlier_cause_def)
  qed (simp add: earlier_cause_def)
  have rootp: "parse_identifier i = Inr i \<and> (\<exists>n. find_message i (db_messages d) = Some n \<and>
      msg_groupSeq n < msg_groupSeq m)" if i: "cs_rootId c = Some i" for i
  proof -
    obtain p where p: "p \<in> set ps" "msg_rootId p = Some i \<or> msg_id p = i" using root i by auto
    have pin: "p \<in> set (db_messages d)" "msg_groupId p = g" using par [OF p(1)] by auto
    note pok = ok [OF pin(1)]
    note pp = parse_message_InrD [of p p]
    show ?thesis using p(2)
    proof
      assume r: "msg_rootId p = Some i"
      then obtain n where "find_message i (db_messages d) = Some n" "msg_groupSeq n < msg_groupSeq p"
        using pok by (auto simp: message_ok_def earlier_root_def split: option.splits)
      moreover have "parse_identifier i = Inr i"
        using pp(8) pok r by (auto simp: message_ok_def rbind_eq_Inr)
      ultimately show ?thesis using below [OF pin] by auto
    next
      assume r: "msg_id p = i"
      have "find_message i (db_messages d) = Some p"
        using find_message_iff [of "db_messages d" i p] sound pin(1) r by (simp add: messages_sound_def)
      moreover have "parse_identifier i = Inr i"
        using pp(1) pok r by (auto simp: message_ok_def)
      ultimately show ?thesis using below [OF pin] by auto
    qed
  qed
  have mroot: "msg_rootId m = cs_rootId c"
    using md(8) rootp by (cases "cs_rootId c") (auto simp: draft_message_def rbind_eq_Inr)
  have "earlier_root (db_messages d) m"
    using rootp by (cases "cs_rootId c") (auto simp: earlier_root_def mroot)
  moreover have "numbered (db_groups (bump_message_sequence g d)) m"
  proof -
    have "grp\<lparr>g_messageSequence := Suc (g_messageSequence grp)\<rparr> \<in> set (db_groups (bump_message_sequence g d))"
      using gr by (force simp: bump_message_sequence_def set_update_where)
    then show ?thesis unfolding numbered_def list_ex_iff
      by (rule rev_bexI) (use gr gid seq in simp)
  qed
  ultimately show ?ok
    using early [of "msg_replyTo m"] early [of "msg_causationId m"] reply cause parse_message_idem [OF m]
    by (simp add: message_ok_def)
qed

lemma submit_message_sound:
  assumes sound: "messages_sound d" and run: "submit_message now mid fresh retain g input d = Inr (d', r)"
    and input: "parse_submit_command cmd = Inr input" and fr: "parse_identifier fresh = Inr fresh"
  shows "messages_sound d'"
proof -
  obtain grp rs c m d2 d3 st where h: "requireGroup d g = Inr grp"
    "deriveMessageCausation d fresh g input rs = Inr c"
    "parse_message (draft_message now mid g (Suc (g_messageSequence grp)) input c) = Inr m"
    "insertable_message (bump_message_sequence g d) m"
    "d2 = (bump_message_sequence g d)\<lparr>db_messages := db_messages d @ [m],
           db_deliveries := db_deliveries d @ map (\<lambda>x. delivery_row (resolveDelivery m now x)) rs\<rparr>"
    "pruneGroupMessages g retain now d2 = Inr d3"
    "d' = append_event ''message.submitted'' ''message'' (msg_id m)
             (Pl_message_submitted g (msg_groupSeq m) st) now d3"
    using submit_message_InrD [OF run] by blast
  note new = new_message_ok [OF sound h(1-3) input fr]
  have "messages_sound d2"
  proof (rule messages_sound_add [OF sound])
    show "db_messages d2 = db_messages d @ [m]" by (simp add: h(5))
    show "groups_grow (db_groups d) (db_groups d2)" using bump_grow [OF sound] by (simp add: h(5))
    show "find_message (msg_id m) (db_messages d) = None"
      using h(4) by (simp add: insertable_message_def bump_message_sequence_def)
    show "message_ok (db_groups d2) (db_messages d) m" using new(1) by (simp add: h(5))
    show "\<not> is_operator (msg_sender m) \<longrightarrow>
        automated_count d (msg_groupId m) (msg_conversationId m) < MAX_AUTOMATED_REPLIES_PER_CONVERSATION"
      using derive_InrD [OF h(2)] new by auto
  qed
  moreover note pr = prune_InrD [OF h(6)]
  ultimately have "messages_sound d3"
    using messages_sound_forget [of d2 d3] messages_sound_same [of d2 d3]
    by (auto simp: Let_def split: if_splits)
  then show ?thesis by (rule messages_sound_same) (simp_all add: h(7))
qed

end
