(* ===== verification/Mail_World.thy ===== *)
theory Mail_World
  imports Mail_Protocol
begin

text \<open>
  The mail world: every way the messages, deliveries, groups and memberships of the store change,
  as an inductive step relation. The claims and options a dispatcher step carries are arbitrary, so
  stale claims, several dispatchers and late terminal answers are covered; whatever the rest of the
  daemon does, it leaves these tables alone (\<open>elsewhere\<close>). Message ids are random UUIDs: a new
  one never occurred in the event log.
\<close>

subsection \<open>How a delivery moves\<close>

definition delivery_key :: "delivery \<Rightarrow> string \<times> string" where
  "delivery_key r = (dv_messageId r, dv_recipient r)"

definition final_delivery :: "delivery_status \<Rightarrow> bool" where
  "final_delivery s \<longleftrightarrow> \<not> active_delivery s"

definition row_moves :: "delivery \<Rightarrow> delivery \<Rightarrow> bool" where
  "row_moves r r' \<longleftrightarrow> delivery_key r' = delivery_key r \<and> dv_attempts r \<le> dv_attempts r' \<and>
     (final_delivery (dv_status r) \<longrightarrow> dv_status r' = dv_status r)"

definition logged_ids :: "db \<Rightarrow> string set" where
  "logged_ids d = ev_aggregateId ` set (db_events d)"

definition deliveries_sound :: "db \<Rightarrow> bool" where
  "deliveries_sound d \<longleftrightarrow> distinct (map delivery_key (db_deliveries d)) \<and>
     (\<forall>r\<in>set (db_deliveries d). dv_messageId r \<in> logged_ids d)"

definition mail_moves :: "db \<Rightarrow> db \<Rightarrow> bool" where
  "mail_moves d d' \<longleftrightarrow> deliveries_sound d' \<and> logged_ids d \<subseteq> logged_ids d' \<and>
     (\<forall>r'\<in>set (db_deliveries d'). dv_messageId r' \<notin> logged_ids d \<or>
        (\<exists>r\<in>set (db_deliveries d). row_moves r r'))"

lemma row_moves_refl [simp]: "row_moves r r" by (simp add: row_moves_def)

lemma row_moves_trans: "row_moves q r \<Longrightarrow> row_moves r s \<Longrightarrow> row_moves q s"
  by (auto simp: row_moves_def)

lemma mail_moves_refl: "deliveries_sound d \<Longrightarrow> mail_moves d d"
  by (auto simp: mail_moves_def intro!: bexI)

lemma row_moves_id: "row_moves r r' \<Longrightarrow> dv_messageId r' = dv_messageId r"
  by (simp add: row_moves_def delivery_key_def)

lemma mail_moves_trans:
  assumes "mail_moves d e" and "mail_moves e f" shows "mail_moves d f"
  unfolding mail_moves_def
proof (intro conjI ballI)
  show "deliveries_sound f" "logged_ids d \<subseteq> logged_ids f" using assms by (auto simp: mail_moves_def)
  fix r assume r: "r \<in> set (db_deliveries f)"
  have le: "logged_ids d \<subseteq> logged_ids e" using assms(1) by (simp add: mail_moves_def)
  consider "dv_messageId r \<notin> logged_ids e" | q where "q \<in> set (db_deliveries e)" "row_moves q r"
    using assms(2) r by (auto simp: mail_moves_def)
  then show "dv_messageId r \<notin> logged_ids d \<or> (\<exists>p\<in>set (db_deliveries d). row_moves p r)"
  proof cases
    case 2
    then consider "dv_messageId q \<notin> logged_ids d" | p where "p \<in> set (db_deliveries d)" "row_moves p q"
      using assms(1) by (auto simp: mail_moves_def)
    then show ?thesis using 2 row_moves_id by (metis row_moves_trans)
  qed (use le in blast)
qed

text \<open>A step that rewrites rows in place, deletes some, and logs events.\<close>

lemma mail_moves_map:
  assumes sound: "deliveries_sound d"
    and rows: "db_deliveries d' = filter keep (map f (db_deliveries d))"
    and "\<And>r. r \<in> set (db_deliveries d) \<Longrightarrow> row_moves r (f r)"
    and log: "logged_ids d \<subseteq> logged_ids d'"
  shows "mail_moves d d'"
proof -
  have keys: "map delivery_key (map f (db_deliveries d)) = map delivery_key (db_deliveries d)"
    using assms(3) by (simp add: row_moves_def)
  have "distinct (map delivery_key (db_deliveries d'))"
    unfolding rows using sound keys by (metis deliveries_sound_def distinct_map_filter)
  then show ?thesis
    using sound assms(3) log row_moves_id
    by (fastforce simp: mail_moves_def deliveries_sound_def rows)
qed

lemma mail_moves_update:
  assumes "deliveries_sound d" and "db_deliveries d' = update_where p f (db_deliveries d)"
    and "\<And>r. r \<in> set (db_deliveries d) \<Longrightarrow> p r \<Longrightarrow> row_moves r (f r)"
    and "logged_ids d \<subseteq> logged_ids d'"
  shows "mail_moves d d'"
  by (rule mail_moves_map [OF assms(1), where keep = "\<lambda>_. True" and f = "\<lambda>r. if p r then f r else r"])
    (use assms in \<open>auto simp: update_where_def\<close>)

lemma mail_moves_same:
  assumes "deliveries_sound d" and "db_deliveries d' = db_deliveries d" and "logged_ids d \<subseteq> logged_ids d'"
  shows "mail_moves d d'"
  by (rule mail_moves_map [OF assms(1), where keep = "\<lambda>_. True" and f = id]) (use assms in auto)

lemma logged_append [simp]: "logged_ids (append_event a b c p t d) = insert c (logged_ids d)"
  by (auto simp: logged_ids_def append_event_def)

lemma logged_update [simp]: "logged_ids (update_deliveries p f d) = logged_ids d"
  by (simp add: logged_ids_def update_deliveries_def)

lemma update_deliveries_tables [simp]:
  "db_deliveries (update_deliveries p f d) = update_where p f (db_deliveries d)"
  "db_messages (update_deliveries p f d) = db_messages d" "db_groups (update_deliveries p f d) = db_groups d"
  "db_memberships (update_deliveries p f d) = db_memberships d" "db_runs (update_deliveries p f d) = db_runs d"
  "db_events (update_deliveries p f d) = db_events d" "db_profiles (update_deliveries p f d) = db_profiles d"
  by (simp_all add: update_deliveries_def)

subsection \<open>Deliveries under a claim\<close>

text \<open>What the operations under a claim leave alone, and how they move the delivery.\<close>

definition mail_frame :: "db \<Rightarrow> db \<Rightarrow> bool" where
  "mail_frame d d' \<longleftrightarrow> db_messages d' = db_messages d \<and> db_groups d' = db_groups d \<and>
     db_memberships d' = db_memberships d"

lemma mail_frame_trans: "mail_frame d e \<Longrightarrow> mail_frame e f \<Longrightarrow> mail_frame d f"
  by (simp add: mail_frame_def)

lemma begin_moves:
  assumes "deliveries_sound d"
  shows "mail_moves d (fst (beginDelivery now c owner d)) \<and> mail_frame d (fst (beginDelivery now c owner d))"
proof (cases "dc_run c")
  case (Some run)
  have "mail_moves d (update_deliveries (begin_where c run owner d)
      (\<lambda>r. r\<lparr>dv_status := Dv_delivering, dv_reason := None, dv_runId := Some (r_id run),
             dv_runGeneration := Some (r_generation run), dv_updatedAt := now\<rparr>) d)"
    by (rule mail_moves_update [OF assms, where p = "begin_where c run owner d" and
          f = "\<lambda>r. r\<lparr>dv_status := Dv_delivering, dv_reason := None, dv_runId := Some (r_id run),
             dv_runGeneration := Some (r_generation run), dv_updatedAt := now\<rparr>"])
      (auto simp: row_moves_def delivery_key_def begin_where_def final_delivery_def active_delivery_def)
  then show ?thesis by (simp add: beginDelivery_def Some mail_frame_def)
qed (simp add: beginDelivery_def mail_moves_refl assms mail_frame_def)

lemma injected_moves:
  assumes "deliveries_sound d"
  shows "mail_moves d (fst (markDeliveryTerminalInjected now c owner d)) \<and>
    mail_frame d (fst (markDeliveryTerminalInjected now c owner d))"
proof
  show "mail_moves d (fst (markDeliveryTerminalInjected now c owner d))"
    by (rule mail_moves_update [OF assms, where p = "injected_where c owner" and
          f = "\<lambda>r. r\<lparr>dv_status := Dv_terminal_injected, dv_leaseOwner := None, dv_leaseExpiresAt := None,
                   dv_updatedAt := now\<rparr>"])
      (auto simp: markDeliveryTerminalInjected_def Let_def delivery_event_def row_moves_def
        delivery_key_def injected_where_def final_delivery_def active_delivery_def)
qed (auto simp: markDeliveryTerminalInjected_def Let_def delivery_event_def mail_frame_def)

lemma attempt_active: "attempt_where c owner r \<Longrightarrow> \<not> final_delivery (dv_status r)"
  by (auto simp: attempt_where_def final_delivery_def active_delivery_def)

lemma fail_moves:
  assumes "deliveries_sound d"
  shows "mail_moves d (fst (failDeliveryAttempt now c owner reason n retryAt d)) \<and>
    mail_frame d (fst (failDeliveryAttempt now c owner reason n retryAt d))"
proof
  show "mail_moves d (fst (failDeliveryAttempt now c owner reason n retryAt d))"
    by (rule mail_moves_update [OF assms, where p = "attempt_where c owner" and
          f = "\<lambda>r. r\<lparr>dv_status := (if n \<le> do_attempts (dc_delivery c) then Dv_dead_letter else Dv_retrying),
                   dv_reason := Some reason,
                   dv_nextAttemptAt := (if n \<le> do_attempts (dc_delivery c) then None else Some retryAt),
                   dv_leaseOwner := None, dv_leaseExpiresAt := None, dv_updatedAt := now\<rparr>"])
      (auto simp: failDeliveryAttempt_def Let_def delivery_event_def row_moves_def
        delivery_key_def attempt_active)
qed (auto simp: failDeliveryAttempt_def Let_def delivery_event_def mail_frame_def)

lemma complete_moves:
  assumes "deliveries_sound d"
  shows "mail_moves d (fst (completeDeliveryStatus now c owner s reason d)) \<and>
    mail_frame d (fst (completeDeliveryStatus now c owner s reason d))"
proof
  show "mail_moves d (fst (completeDeliveryStatus now c owner s reason d))"
    by (rule mail_moves_update [OF assms, where p = "attempt_where c owner" and
          f = "\<lambda>r. r\<lparr>dv_status := s, dv_reason := Some reason, dv_leaseOwner := None,
                   dv_leaseExpiresAt := None, dv_updatedAt := now\<rparr>"])
      (auto simp: completeDeliveryStatus_def Let_def delivery_event_def row_moves_def
        delivery_key_def attempt_active)
qed (auto simp: completeDeliveryStatus_def Let_def delivery_event_def mail_frame_def)

lemma deliver_moves:
  assumes "deliveries_sound d"
  shows "mail_moves d (fst (deliver_begin now op c d)) \<and> mail_frame d (fst (deliver_begin now op c d))"
    and "mail_moves d (deliver_done now op c d) \<and> mail_frame d (deliver_done now op c d)"
    and "mail_moves d (deliver_failed now op c msg d) \<and> mail_frame d (deliver_failed now op c msg d)"
  using begin_moves [OF assms, of now c "dp_owner op"] injected_moves [OF assms] fail_moves [OF assms]
    complete_moves [OF assms]
  by (auto simp: deliver_begin_def deliver_done_def deliver_failed_def retry_delivery_def revokeClaim_def
      rejectClaim_def Let_def split: prod.splits)

subsection \<open>Claiming\<close>

lemma claim_row_InrD:
  assumes "claim_row owner lease now row d = Inr (d', c)"
  shows "d' = update_deliveries (row_is (dv_messageId row) (dv_recipient row)) (claimed_row owner lease now) d"
    and "dc_delivery c = \<lparr>do_messageId = dv_messageId row, do_recipient = dv_recipient row,
      do_reason = dv_reason row, do_status = Dv_received, do_attempts = Suc (dv_attempts row), do_updatedAt = now\<rparr>"
    and "find_message (dv_messageId row) (db_messages d) = Some (dc_message c)"
  using assms
  by (auto simp: claim_row_def Let_def rbind_eq_Inr hydrateDelivery_def claimed_row_def getMessage_def)

lemma claim_rows_moves:
  assumes "claim_rows owner lease now rows d = Inr (d', cs)" and "deliveries_sound d"
    and "\<And>row r. row \<in> set rows \<Longrightarrow> r \<in> set (db_deliveries d) \<Longrightarrow> delivery_key r = delivery_key row \<Longrightarrow>
          active_delivery (dv_status r)"
  shows "mail_moves d d' \<and> mail_frame d d' \<and> db_runs d' = db_runs d"
  using assms
proof (induction rows arbitrary: d cs)
  case (Cons row rows)
  obtain d1 c cs' where s: "claim_row owner lease now row d = Inr (d1, c)"
    "claim_rows owner lease now rows d1 = Inr (d', cs')"
    using Cons.prems(1) by (auto simp: rbind_eq_Inr)
  note d1 = claim_row_InrD(1) [OF s(1)]
  have one: "mail_moves d d1"
    by (rule mail_moves_update [OF Cons.prems(2), where p = "row_is (dv_messageId row) (dv_recipient row)" and
        f = "claimed_row owner lease now"])
      (use Cons.prems(3) [of row] in \<open>auto simp: d1 row_moves_def delivery_key_def claimed_row_def row_is_def
        final_delivery_def\<close>)
  have act: "active_delivery (dv_status r)"
    if "q \<in> set rows" "r \<in> set (db_deliveries d1)" "delivery_key r = delivery_key q" for q r
    using that Cons.prems(3) [of q]
    by (auto simp: d1 set_update_where claimed_row_def active_delivery_def delivery_key_def)
  have "mail_moves d1 d' \<and> mail_frame d1 d' \<and> db_runs d' = db_runs d1"
    by (rule Cons.IH [OF s(2) _ act]) (use one in \<open>auto simp: mail_moves_def\<close>)
  then show ?case using one mail_moves_trans by (auto simp: d1 mail_frame_def)
qed (simp add: mail_moves_refl mail_frame_def)

lemma claimable_rows_in:
  assumes "r \<in> set (claimable_rows now limit d)"
  shows "\<exists>m\<in>set (db_messages d). r \<in> set (db_deliveries d) \<and> msg_id m = dv_messageId r \<and> claimable now d r m"
  using assms unfolding claimable_rows_def by (auto dest!: in_set_takeD) blast

lemma same_key_same_row:
  "deliveries_sound d \<Longrightarrow> r \<in> set (db_deliveries d) \<Longrightarrow> q \<in> set (db_deliveries d) \<Longrightarrow>
   delivery_key r = delivery_key q \<Longrightarrow> r = q"
  by (auto simp: deliveries_sound_def distinct_map inj_on_def)

lemma claim_moves:
  assumes "claimDeliveries owner now leaseMs limit d = Inr (d', cs)" and "deliveries_sound d"
  shows "mail_moves d d' \<and> mail_frame d d' \<and> db_runs d' = db_runs d"
proof (rule claim_rows_moves [OF _ assms(2)])
  show "claim_rows owner (now + leaseMs) now (claimable_rows now limit d) d = Inr (d', cs)"
    using assms(1) by (simp add: claimDeliveries_def)
  show "active_delivery (dv_status r)" if "row \<in> set (claimable_rows now limit d)"
    "r \<in> set (db_deliveries d)" "delivery_key r = delivery_key row" for row r
    using claimable_rows_in [OF that(1)] same_key_same_row [OF assms(2) that(2)] that(3)
    by (auto simp: claimable_def)
qed


subsection \<open>Submission and history\<close>

lemma executeIdempotent_InrD:
  assumes "executeIdempotent now scope key rd op1 d = Inr (d', r)"
  shows "d' = d \<or> (\<exists>d1 ik. op1 d = Inr (d1, r) \<and> d' = d1\<lparr>db_idempotency := ik\<rparr>)"
proof (cases key)
  case None
  then have "op1 d = Inr (d', r)" using assms by (simp add: executeIdempotent_def)
  moreover have "d' = d'\<lparr>db_idempotency := db_idempotency d'\<rparr>" by simp
  ultimately show ?thesis by blast
next
  case (Some k)
  show ?thesis
  proof (cases "idempotency_entry d scope k")
    case None
    then obtain d1 where "op1 d = Inr (d1, r)" "insert_idempotency now scope k rd r d1 = Inr d'"
      using assms Some by (auto simp: executeIdempotent_def rbind_eq_Inr)
    then show ?thesis by (auto simp: insert_idempotency_def split: if_splits)
  next
    fix row assume "idempotency_entry d scope k = Some row"
    then show ?thesis using assms Some by (auto simp: executeIdempotent_def rbind_eq_Inr)
  qed
qed

text \<open>Both kinds of soundness, and the movement of the deliveries, under an operation.\<close>

definition mail_sound :: "db \<Rightarrow> bool" where
  "mail_sound d \<longleftrightarrow> messages_sound d \<and> deliveries_sound d"

definition mail_ok :: "db \<Rightarrow> db \<Rightarrow> bool" where
  "mail_ok d d' \<longleftrightarrow> messages_sound d' \<and> mail_moves d d'"

lemma mail_ok_refl: "mail_sound d \<Longrightarrow> mail_ok d d"
  by (simp add: mail_sound_def mail_ok_def mail_moves_refl)

lemma mail_ok_sound: "mail_ok d d' \<Longrightarrow> mail_sound d'"
  by (simp add: mail_sound_def mail_ok_def mail_moves_def)

lemma mail_ok_frame: "mail_sound d \<Longrightarrow> mail_moves d d' \<and> mail_frame d d' \<Longrightarrow> mail_ok d d'"
  by (auto simp: mail_sound_def mail_ok_def mail_frame_def intro: messages_sound_same)

lemma deliveries_sound_idem [simp]:
  "deliveries_sound (d\<lparr>db_idempotency := ik\<rparr>) = deliveries_sound d"
  "messages_sound (d\<lparr>db_idempotency := ik\<rparr>) = messages_sound d"
  "mail_moves d (d'\<lparr>db_idempotency := ik\<rparr>) = mail_moves d d'"
  by (simp_all add: deliveries_sound_def logged_ids_def messages_sound_def automated_count_def mail_moves_def)

lemma mail_ok_idempotent:
  assumes "executeIdempotent now scope key rd op1 d = Inr (d', r)" and "mail_sound d"
    and "\<And>d1. op1 d = Inr (d1, r) \<Longrightarrow> mail_ok d d1"
  shows "mail_ok d d'"
  using executeIdempotent_InrD [OF assms(1)] mail_ok_refl [OF assms(2)] assms(3)
  by (auto simp: mail_ok_def)

definition fresh_ids :: "string \<Rightarrow> string \<Rightarrow> db \<Rightarrow> bool" where
  "fresh_ids messageId conversationId d \<longleftrightarrow> parse_identifier messageId = Inr messageId \<and>
     messageId \<notin> logged_ids d \<and> parse_identifier conversationId = Inr conversationId"

lemma submit_ok:
  assumes sound: "mail_sound d" and fresh: "fresh_ids mid conv d"
    and run: "submitMessage now sha mid conv retain g cmd key d = Inr (d', r)"
  shows "mail_ok d d'"
proof -
  obtain input where input: "parse_submit_command cmd = Inr input"
    and ex: "executeIdempotent now (submit_scope g) key (Some (sha g input))
      (submit_message now mid conv retain g input) d = Inr (d', r)"
    using run by (auto simp: submitMessage_def rbind_eq_Inr)
  show ?thesis
  proof (rule mail_ok_idempotent [OF ex sound])
    fix d1 assume s: "submit_message now mid conv retain g input d = Inr (d1, r)"
    have m: "messages_sound d1"
      by (rule submit_message_sound [OF _ s input]) (use sound fresh in \<open>auto simp: mail_sound_def fresh_ids_def\<close>)
    have "\<exists>(grp :: group_row) rs c m d2 d3 st. distinct rs \<and>
      parse_message (draft_message now mid g (Suc (g_messageSequence grp)) input c) = Inr m \<and>
      d2 = (bump_message_sequence g d)\<lparr>db_messages := db_messages d @ [m],
           db_deliveries := db_deliveries d @ map (\<lambda>x. delivery_row (resolveDelivery m now x)) rs\<rparr> \<and>
      pruneGroupMessages g retain now d2 = Inr d3 \<and>
      d1 = append_event ''message.submitted'' ''message'' (msg_id m)
             (Pl_message_submitted g (msg_groupSeq m) st) now d3"
      using submit_message_InrD [OF s] by blast
    then obtain grp :: group_row and rs c m d2 d3 st where h0: "distinct rs" and h:
      "parse_message (draft_message now mid g (Suc (g_messageSequence grp)) input c) = Inr m"
      "d2 = (bump_message_sequence g d)\<lparr>db_messages := db_messages d @ [m],
           db_deliveries := db_deliveries d @ map (\<lambda>x. delivery_row (resolveDelivery m now x)) rs\<rparr>"
      "pruneGroupMessages g retain now d2 = Inr d3"
      "d1 = append_event ''message.submitted'' ''message'' (msg_id m)
             (Pl_message_submitted g (msg_groupSeq m) st) now d3"
      by blast
    have mid: "msg_id m = mid"
      using parse_message_InrD(1) [OF h(1)] fresh by (simp add: draft_message_def fresh_ids_def)
    let ?new = "map (\<lambda>x. delivery_row (resolveDelivery m now x)) rs"
    have new: "dv_messageId q = mid" if "q \<in> set ?new" for q
      using that mid by (auto simp: delivery_row_def resolveDelivery_def)
    have old: "distinct (map delivery_key (db_deliveries d))"
      "\<And>q. q \<in> set (db_deliveries d) \<Longrightarrow> dv_messageId q \<in> logged_ids d"
      using sound by (auto simp: mail_sound_def deliveries_sound_def)
    have nk: "map delivery_key ?new = map (Pair mid) rs"
      using mid by (simp add: delivery_key_def delivery_row_def resolveDelivery_def)
    have dist: "distinct (map delivery_key (db_deliveries d @ ?new))"
      unfolding map_append nk distinct_append
      using old h0 fresh by (auto simp: distinct_map fresh_ids_def delivery_key_def inj_on_def)
    have ev: "db_events d2 = db_events d" by (simp add: h(2) bump_message_sequence_def)
    note pr = prune_InrD [OF h(3)]
    have "db_deliveries d3 = delete_where (\<lambda>r. dv_messageId r \<in> set (prune_victims d2 g retain)) (db_deliveries d2)"
      and ev3: "db_events d3 = db_events d2" using pr by blast+
    then have rows: "db_deliveries d1 = delete_where (\<lambda>r. dv_messageId r \<in> set (prune_victims d2 g retain))
        (db_deliveries d @ ?new)"
      unfolding h(4) by (simp only: append_event_tables) (simp add: h(2))
    have "logged_ids d3 = logged_ids d" by (simp add: logged_ids_def ev3 ev)
    then have log: "logged_ids d1 = insert mid (logged_ids d)"
      unfolding h(4) logged_append mid by simp
    have sub: "r \<in> set (db_deliveries d) \<or> r \<in> set ?new" if "r \<in> set (db_deliveries d1)" for r
      using that unfolding rows delete_where_def by (simp only: set_filter mem_Collect_eq set_append Un_iff)
    have "mail_moves d d1"
      unfolding mail_moves_def deliveries_sound_def
    proof (intro conjI ballI)
      show "distinct (map delivery_key (db_deliveries d1))"
        unfolding rows delete_where_def by (rule distinct_map_filter [OF dist])
      show "dv_messageId r \<in> logged_ids d1" if "r \<in> set (db_deliveries d1)" for r
        using sub [OF that] old(2) new unfolding log by blast
      show "dv_messageId r \<notin> logged_ids d \<or> (\<exists>q\<in>set (db_deliveries d). row_moves q r)"
        if "r \<in> set (db_deliveries d1)" for r
        using sub [OF that] new [of r] fresh row_moves_refl unfolding fresh_ids_def by blast
    qed (simp add: log subset_insertI)
    then show "mail_ok d d1" using m by (simp add: mail_ok_def)
  qed
qed

lemma forget_deleted:
  "db_messages (delete_messages ids (invalidateMessageIdempotency g ids now (nullMessageReferences ids d))) =
     forget ids (db_messages d)"
  by (simp add: delete_messages_def invalidateMessageIdempotency_def nullMessageReferences_def forget_def)

lemma clear_ok:
  assumes sound: "mail_sound d" and run: "clearMessageHistory now g key d = Inr (d', r)"
  shows "mail_ok d d'"
proof -
  have ex: "executeIdempotent now (''group.'' @ g @ ''.messages.clear'') key None (clear_messages now g) d = Inr (d', r)"
    using run by (simp add: clearMessageHistory_def)
  show ?thesis
  proof (rule mail_ok_idempotent [OF ex sound])
    fix d1 assume s: "clear_messages now g d = Inr (d1, r)"
    let ?ids = "map msg_id (group_messages d g)"
    let ?d = "delete_messages ?ids (invalidateMessageIdempotency g ?ids now (nullMessageReferences ?ids d))"
    obtain p where d1: "d1 = append_event ''message.history-cleared'' ''group'' g p now ?d"
      using s unfolding clear_messages_def Let_def by (clarsimp simp: rbind_eq_Inr)
    have "messages_sound d1"
      by (rule messages_sound_forget [of d _ ?ids])
        (use sound in \<open>simp_all add: mail_sound_def d1 forget_deleted\<close>,
         simp add: delete_messages_def invalidateMessageIdempotency_def nullMessageReferences_def)
    moreover have "mail_moves d d1"
      by (rule mail_moves_map [where keep = "\<lambda>r. dv_messageId r \<notin> set ?ids" and f = id])
        (use sound in \<open>auto simp: mail_sound_def d1 delete_messages_def invalidateMessageIdempotency_def
          nullMessageReferences_def delete_where_def logged_ids_def append_event_def\<close>)
    ultimately show "mail_ok d d1" by (simp add: mail_ok_def)
  qed
qed


subsection \<open>Groups and memberships\<close>

lemma groups_grow_update:
  assumes "messages_sound d" and "\<And>g. g \<in> set (db_groups d) \<Longrightarrow> p g \<Longrightarrow> g_id (f g) = g_id g"
    and "\<And>g. g \<in> set (db_groups d) \<Longrightarrow> p g \<Longrightarrow> g_messageSequence g \<le> g_messageSequence (f g)"
  shows "groups_grow (db_groups d) (update_where p f (db_groups d))"
proof -
  have ids: "map g_id (update_where p f (db_groups d)) = map g_id (db_groups d)"
    using assms(2) by (simp add: update_where_def)
  show ?thesis
    unfolding groups_grow_def
  proof (intro conjI ballI)
    show "distinct (map g_id (update_where p f (db_groups d)))"
      unfolding ids using assms(1) by (simp add: messages_sound_def)
    show "list_all group_ok (update_where p f (db_groups d))"
      using assms(1,2) by (auto simp: messages_sound_def list_all_iff group_ok_def set_update_where)
    show "\<exists>g'\<in>set (update_where p f (db_groups d)). g_id g' = g_id x \<and> g_messageSequence x \<le> g_messageSequence g'"
      if "x \<in> set (db_groups d)" for x
      by (rule bexI [of _ "if p x then f x else x"]) (use that assms(2,3) in \<open>auto simp: set_update_where\<close>)
  qed
qed

lemma groups_grow_add:
  assumes "messages_sound d" and "group_ok g" and "\<not> list_ex (\<lambda>q. g_id q = g_id g) (db_groups d)"
  shows "groups_grow (db_groups d) (db_groups d @ [g])"
  using assms by (auto simp: groups_grow_def messages_sound_def list_ex_iff)

lemma mail_ok_groups:
  assumes "mail_sound d" and "db_messages d' = db_messages d"
    and "groups_grow (db_groups d) (db_groups d')"
    and "db_deliveries d' = db_deliveries d" and "logged_ids d \<subseteq> logged_ids d'"
  shows "mail_ok d d'"
  using assms messages_sound_groups [of d d'] mail_moves_same [of d d']
  by (auto simp: mail_ok_def mail_sound_def)

lemma mail_ok_trans: "mail_ok d e \<Longrightarrow> mail_ok e f \<Longrightarrow> mail_ok d f"
  by (auto simp: mail_ok_def intro: mail_moves_trans)

lemma mail_ok_append: "mail_sound d \<Longrightarrow> mail_ok d (append_event a b c p t d)"
  by (rule mail_ok_frame) (auto simp: mail_sound_def mail_frame_def intro!: mail_moves_same)

lemma put_group_tables [simp]:
  "db_messages (put_group i f d) = db_messages d" "db_deliveries (put_group i f d) = db_deliveries d"
  "logged_ids (put_group i f d) = logged_ids d"
  "db_groups (put_group i f d) = update_where (\<lambda>g. g_id g = i) f (db_groups d)"
  by (simp_all add: put_group_def logged_ids_def)

lemma put_group_ok:
  assumes "mail_sound d" and "\<And>g. g \<in> set (db_groups d) \<Longrightarrow> g_id g = i \<Longrightarrow> g_id (f g) = g_id g"
    and "\<And>g. g \<in> set (db_groups d) \<Longrightarrow> g_id g = i \<Longrightarrow> g_messageSequence g \<le> g_messageSequence (f g)"
  shows "mail_ok d (put_group i f d)"
  by (rule mail_ok_groups [OF assms(1)])
    (use assms in \<open>auto simp: mail_sound_def intro!: groups_grow_update\<close>)

lemma increment_ok:
  assumes "incrementMembershipRevision now g d = Inr (d', n)" and "mail_sound d"
  shows "mail_ok d d'"
proof -
  have "d' = put_group g (\<lambda>x. x\<lparr>g_membershipRevision := Suc (g_membershipRevision x), g_updatedAt := now\<rparr>) d"
    using assms(1) by (auto simp: incrementMembershipRevision_def Let_def rbind_eq_Inr)
  then show ?thesis using put_group_ok [OF assms(2)] by simp
qed

lemma create_group_ok:
  assumes "mail_sound d" and "createGroup now i name key d = Inr (d', r)" shows "mail_ok d d'"
proof -
  obtain input where ex: "executeIdempotent now ''group.create'' key None (create_group now i input) d = Inr (d', r)"
    using assms(2) by (auto simp: createGroup_def rbind_eq_Inr)
  show ?thesis
  proof (rule mail_ok_idempotent [OF ex assms(1)])
    fix d1 assume "create_group now i input d = Inr (d1, r)"
    then obtain grp g0 where g: "parse_group g0 = Inr grp"
      and new: "\<not> list_ex (\<lambda>g. g_id g = g_id grp) (db_groups d)"
      and d1: "d1 = append_event ''group.created'' ''group'' (g_id grp) (Pl_group grp None) now
            (d\<lparr>db_groups := db_groups d @ [grp]\<rparr>)"
      by (auto simp: create_group_def rbind_eq_Inr split: if_splits)
    have "group_ok grp" using g by (auto simp: parse_group_def rbind_eq_Inr group_ok_def dest: parse_identifier_idem)
    then show "mail_ok d d1"
      by (intro mail_ok_groups [OF assms(1)])
        (use assms(1) new in \<open>auto simp: d1 mail_sound_def logged_ids_def append_event_def intro: groups_grow_add\<close>)
  qed
qed

lemma update_group_ok:
  assumes "mail_sound d" and "updateGroup now i name hi key d = Inr (d', r)" shows "mail_ok d d'"
proof -
  obtain input where ex: "executeIdempotent now (group_scope i ''update'') key None (update_group now i input) d
      = Inr (d', r)"
    using assms(2) by (auto simp: updateGroup_def rbind_eq_Inr)
  show ?thesis
  proof (rule mail_ok_idempotent [OF ex assms(1)])
    fix d1 assume "update_group now i input d = Inr (d1, r)"
    then obtain p n where d1: "d1 = append_event ''group.updated'' ''group'' i p now
        (put_group i (\<lambda>g. g\<lparr>g_name := n, g_updatedAt := now\<rparr>) d)"
      unfolding update_group_def Let_def by (clarsimp simp: rbind_eq_Inr)
    have "mail_ok d (put_group i (\<lambda>g. g\<lparr>g_name := n, g_updatedAt := now\<rparr>) d)"
      by (rule put_group_ok [OF assms(1)]) auto
    then show "mail_ok d d1" unfolding d1 using mail_ok_append mail_ok_sound mail_ok_trans by blast
  qed
qed

text \<open>Deleting a group takes its messages along, so that no other message keeps a reference to them.\<close>

lemma delete_group_ok:
  assumes sound: "mail_sound d" and run: "deleteGroup now bound delegated g key d = Inr (d', r)"
  shows "mail_ok d d'"
proof -
  have ex: "executeIdempotent now (group_scope g ''delete'') key None (delete_group now bound delegated g) d
      = Inr (d', r)" using run by (simp add: deleteGroup_def)
  show ?thesis
  proof (rule mail_ok_idempotent [OF ex sound])
    fix d1 assume s: "delete_group now bound delegated g d = Inr (d1, r)"
    let ?ids = "map msg_id (group_messages d g)"
    obtain p where d1: "d1 = append_event ''group.deleted'' ''group'' g p now (without_group bound g d)"
      using s unfolding delete_group_def Let_def by (clarsimp simp: rbind_eq_Inr split: if_splits)
    note w = without_group_def delete_group_runs_def delete_group_messages_def Let_def
    have ms: "db_messages d1 = forget ?ids (db_messages d)"
      unfolding d1 append_event_tables by (simp add: w forget_def)
    have gs: "db_groups d1 = delete_where (\<lambda>x. g_id x = g) (db_groups d)"
      unfolding d1 append_event_tables by (simp add: w)
    have log: "logged_ids d1 = insert g (logged_ids d)"
      unfolding d1 logged_append by (simp add: w logged_ids_def)
    let ?f = "\<lambda>x. case dv_runId x of None \<Rightarrow> x
            | Some i \<Rightarrow> if i \<in> set (group_run_ids d g) then x\<lparr>dv_runId := None, dv_runGeneration := None\<rparr> else x"
    have f: "row_moves x (?f x)" for x by (auto simp: row_moves_def delivery_key_def split: option.splits)
    have ds: "db_deliveries d1 = map ?f (delete_where (\<lambda>x. dv_messageId x \<in> set ?ids) (db_deliveries d))"
      unfolding d1 append_event_tables by (simp add: w)
    let ?m = "d\<lparr>db_messages := forget ?ids (db_messages d)\<rparr>"
    have forgot: "messages_sound ?m"
      by (rule messages_sound_forget [of d]) (use sound in \<open>auto simp: mail_sound_def\<close>)
    have other: "msg_groupId m \<noteq> g" if "m \<in> set (forget ?ids (db_messages d))" for m
      using that by (auto simp: forget_in group_messages_def)
    have "messages_sound d1"
      unfolding messages_sound_def
    proof (intro conjI)
      show "distinct (map g_id (db_groups d1))" "list_all group_ok (db_groups d1)"
        "distinct (map msg_id (db_messages d1))"
        using forgot by (auto simp: messages_sound_def gs ms delete_where_def list_all_iff distinct_map_filter)
      show "list_all (\<lambda>m. automated_count d1 (msg_groupId m) (msg_conversationId m)
          \<le> MAX_AUTOMATED_REPLIES_PER_CONVERSATION) (db_messages d1)"
        using forgot by (simp add: messages_sound_def ms automated_count_def)
      show "list_all (message_ok (db_groups d1) (db_messages d1)) (db_messages d1)"
        unfolding list_all_iff
      proof
        fix m assume m: "m \<in> set (db_messages d1)"
        then have ok: "message_ok (db_groups d) (db_messages d1) m"
          using forgot by (simp add: messages_sound_def ms list_all_iff)
        then obtain q where "q \<in> set (db_groups d)" "g_id q = msg_groupId m" "msg_groupSeq m \<le> g_messageSequence q"
          by (auto simp: message_ok_def numbered_def list_ex_iff)
        moreover have "msg_groupId m \<noteq> g" using other m by (simp add: ms)
        ultimately have "numbered (db_groups d1) m"
          unfolding gs numbered_def list_ex_iff delete_where_def by (intro bexI [of _ q]) auto
        then show "message_ok (db_groups d1) (db_messages d1) m" using ok by (simp add: message_ok_def)
      qed
    qed
    moreover have "mail_moves d d1"
    proof -
      have comm: "db_deliveries d1 = filter (\<lambda>x. dv_messageId x \<notin> set ?ids) (map ?f (db_deliveries d))"
        unfolding ds delete_where_def filter_map comp_def row_moves_id [OF f] ..
      show ?thesis
        by (rule mail_moves_map [OF _ comm]) (use sound f log in \<open>auto simp: mail_sound_def\<close>)
    qed
    ultimately show "mail_ok d d1" by (simp add: mail_ok_def)
  qed
qed


lemma put_membership_tables [simp]:
  "db_messages (put_membership i f d) = db_messages d" "db_groups (put_membership i f d) = db_groups d"
  "db_deliveries (put_membership i f d) = db_deliveries d" "logged_ids (put_membership i f d) = logged_ids d"
  "db_events (put_membership i f d) = db_events d"
  by (simp_all add: put_membership_def logged_ids_def)

lemma mail_ok_same:
  assumes "mail_sound d" and "db_messages d' = db_messages d" "db_groups d' = db_groups d"
    "db_deliveries d' = db_deliveries d" "logged_ids d \<subseteq> logged_ids d'"
  shows "mail_ok d d'"
  using assms by (auto simp: mail_ok_def mail_sound_def intro: messages_sound_same mail_moves_same)

lemma store_membership_ok:
  assumes "store_membership e m d = Inr d'" and "mail_sound d" shows "mail_ok d d'"
  by (rule mail_ok_same [OF assms(2)])
    (use assms(1) in \<open>auto simp: store_membership_def put_membership_def logged_ids_def split: option.splits if_splits\<close>)

lemma add_membership_ok:
  assumes "mail_sound d" and "addMembership now i names g input key d = Inr (d', r)" shows "mail_ok d d'"
proof -
  have ex: "executeIdempotent now (group_scope g ''membership.add'') key None (add_membership now i names g input) d
      = Inr (d', r)" using assms(2) by (simp add: addMembership_def)
  show ?thesis
  proof (rule mail_ok_idempotent [OF ex assms(1)])
    fix d1 assume "add_membership now i names g input d = Inr (d1, r)"
    then obtain e m d2 d3 n p where s: "store_membership e m d = Inr d2"
      "incrementMembershipRevision now g d2 = Inr (d3, n)"
      "d1 = append_event ''membership.added'' ''group'' g p now d3"
      unfolding add_membership_def Let_def by (clarsimp simp: rbind_eq_Inr split: if_splits)
    note a = store_membership_ok [OF s(1) assms(1)]
    note b = increment_ok [OF s(2) mail_ok_sound [OF a]]
    show "mail_ok d d1"
      unfolding s(3) using mail_ok_trans [OF a b] mail_ok_append [OF mail_ok_sound [OF b]] mail_ok_trans by blast
  qed
qed

lemma update_membership_ok:
  assumes "mail_sound d" and "updateMembership now g m a ro key d = Inr (d', r)" shows "mail_ok d d'"
proof -
  have ex: "executeIdempotent now (group_scope g (''membership.'' @ m @ ''.update'')) key None
      (update_membership now g m a ro) d = Inr (d', r)" using assms(2) by (simp add: updateMembership_def)
  show ?thesis
  proof (rule mail_ok_idempotent [OF ex assms(1)])
    fix d1 assume "update_membership now g m a ro d = Inr (d1, r)"
    then obtain i f p where "d1 = append_event ''membership.updated'' ''group'' g p now (put_membership i f d)"
      unfolding update_membership_def Let_def by (clarsimp simp: rbind_eq_Inr split: if_splits option.splits)
    then show "mail_ok d d1" by (intro mail_ok_same [OF assms(1)]) auto
  qed
qed

lemma revoke_member_ok:
  assumes "mail_sound d" shows "mail_ok d (revoke_member_deliveries now g m d)"
proof (rule mail_ok_frame [OF assms], intro conjI)
  show "mail_moves d (revoke_member_deliveries now g m d)"
    by (rule mail_moves_update [where
          p = "\<lambda>r. dv_recipient r = m \<and> active_delivery (dv_status r) \<and>
                 dv_messageId r \<in> set (map msg_id (group_messages d g))" and
          f = "\<lambda>r. r\<lparr>dv_status := Dv_revoked, dv_reason := Some ''membership_removed'', dv_leaseOwner := None,
               dv_leaseExpiresAt := None, dv_updatedAt := now\<rparr>"])
      (use assms in \<open>auto simp: mail_sound_def revoke_member_deliveries_def Let_def row_moves_def
        delivery_key_def final_delivery_def\<close>)
qed (simp add: revoke_member_deliveries_def Let_def mail_frame_def)

lemma put_membership_ok: "mail_sound d \<Longrightarrow> mail_ok d (put_membership i f d)"
  by (rule mail_ok_same) auto

lemma remove_membership_ok:
  assumes "mail_sound d" and "removeMembership now g m key d = Inr (d', r)" shows "mail_ok d d'"
proof -
  have ex: "executeIdempotent now (group_scope g (''membership.'' @ m @ ''.remove'')) key None
      (remove_membership now g m) d = Inr (d', r)" using assms(2) by (simp add: removeMembership_def)
  show ?thesis
  proof (rule mail_ok_idempotent [OF ex assms(1)])
    fix d1 assume "remove_membership now g m d = Inr (d1, r)"
    then obtain i f d3 n p where s:
      "incrementMembershipRevision now g (revoke_member_deliveries now g m (put_membership i f d)) = Inr (d3, n)"
      "d1 = append_event ''membership.removed'' ''group'' g p now d3"
      unfolding remove_membership_def Let_def by (clarsimp simp: rbind_eq_Inr split: if_splits option.splits)
    note a = put_membership_ok [OF assms(1), of i f]
    note b = revoke_member_ok [OF mail_ok_sound [OF a], of now g m]
    note c = increment_ok [OF s(1) mail_ok_sound [OF b]]
    have "mail_ok d d3" by (rule mail_ok_trans [OF mail_ok_trans [OF a b] c])
    then show "mail_ok d d1" unfolding s(2) using mail_ok_append mail_ok_sound mail_ok_trans by blast
  qed
qed


text \<open>Reconciliation: the identifiers of a parsed configuration satisfy the identifier schema.\<close>

definition config_ok :: "config \<Rightarrow> bool" where
  "config_ok c \<longleftrightarrow> (\<forall>e\<in>set (cf_groups c). parse_identifier (fst e) = Inr (fst e))"

lemma upsert_group_ok:
  assumes sound: "mail_sound d" and "parse_identifier i = Inr i"
  shows "mail_ok d (upsert_group (configured_group_row now i k g n (find_where (\<lambda>q. g_id q = i) (db_groups d))) d)"
proof (cases "find_where (\<lambda>q. g_id q = i) (db_groups d)")
  case None
  have "\<not> list_ex (\<lambda>q. g_id q = i) (db_groups d)" using None by (auto simp: list_ex_iff find_where_None_iff)
  then show ?thesis
    by (intro mail_ok_groups [OF sound])
      (use sound assms(2) in \<open>auto simp: upsert_group_def configured_group_row_def None mail_sound_def logged_ids_def
        group_ok_def intro!: groups_grow_add\<close>)
next
  case (Some e)
  have e: "e \<in> set (db_groups d)" "g_id e = i" using find_where_SomeD [OF Some] by auto
  have only: "x = e" if "x \<in> set (db_groups d)" "g_id x = i" for x
    using that e sound by (auto simp: mail_sound_def messages_sound_def distinct_map inj_on_def)
  have "mail_ok d (put_group i (\<lambda>_. configured_group_row now i k g n (Some e)) d)"
    by (rule put_group_ok [OF sound]) (use only e in \<open>auto simp: configured_group_row_def\<close>)
  then show ?thesis using e by (auto simp: upsert_group_def Some configured_group_row_def list_ex_iff)
qed

lemma upsert_membership_ok:
  assumes "upsert_membership m d = Inr d'" and "mail_sound d" shows "mail_ok d d'"
  by (rule mail_ok_same [OF assms(2)])
    (use assms(1) in \<open>auto simp: upsert_membership_def put_membership_def logged_ids_def split: if_splits\<close>)

lemma upsert_memberships_ok: "upsert_memberships ms d = Inr d' \<Longrightarrow> mail_sound d \<Longrightarrow> mail_ok d d'"
proof (induction ms arbitrary: d)
  case (Cons m ms)
  obtain e where e: "upsert_membership m d = Inr e" "upsert_memberships ms e = Inr d'"
    using Cons.prems(1) by (auto simp: rbind_eq_Inr)
  note a = upsert_membership_ok [OF e(1) Cons.prems(2)]
  show ?case by (rule mail_ok_trans [OF a Cons.IH [OF e(2) mail_ok_sound [OF a]]])
qed (simp add: mail_ok_refl)

lemma retire_membership_ok: "mail_sound d \<Longrightarrow> mail_ok d (retire_membership now g m d)"
  unfolding retire_membership_def
  by (meson mail_ok_sound mail_ok_trans put_membership_ok revoke_member_ok)

lemma retire_memberships_ok:
  "mail_sound d \<Longrightarrow> mail_ok d (foldl (\<lambda>d m. if m_id m \<in> keep then d else retire_membership now g m d) d ms)"
proof (induction ms arbitrary: d)
  case (Cons m ms)
  let ?d = "if m_id m \<in> keep then d else retire_membership now g m d"
  have a: "mail_ok d ?d" using Cons.prems by (simp add: mail_ok_refl retire_membership_ok)
  show ?case using mail_ok_trans [OF a Cons.IH [OF mail_ok_sound [OF a]]] by simp
qed (simp add: mail_ok_refl)

lemma reconcile_group_ok:
  assumes run: "reconcile_group now prior k (i, g) d = Inr d'" and sound: "mail_sound d"
    and "parse_identifier i = Inr i"
  shows "mail_ok d d'"
proof -
  let ?e = "find_where (\<lambda>q. g_id q = i) (db_groups d)"
  obtain n ms d2 where s:
    "upsert_memberships ms (upsert_group (configured_group_row now i k g n ?e) d) = Inr d2"
    "d' = foldl (\<lambda>d m. if m_id m \<in> set (map fst (orderedAgentEntries (cg_agents g))) then d
        else retire_membership now i m d) d2 (active_memberships d i)"
    using run unfolding reconcile_group_def Let_def by (clarsimp simp: rbind_eq_Inr)
  note a = upsert_group_ok [OF sound assms(3), of now k g n]
  note b = upsert_memberships_ok [OF s(1) mail_ok_sound [OF a]]
  show ?thesis
    unfolding s(2)
    by (rule mail_ok_trans [OF mail_ok_trans [OF a b] retire_memberships_ok [OF mail_ok_sound [OF b]]])
qed

lemma reconcile_groups_ok:
  "reconcile_groups now prior k es d = Inr d' \<Longrightarrow> mail_sound d \<Longrightarrow>
   \<forall>e\<in>set es. parse_identifier (fst e) = Inr (fst e) \<Longrightarrow> mail_ok d d'"
proof (induction es arbitrary: k d)
  case (Cons e es)
  obtain d1 where s: "reconcile_group now prior k (fst e, snd e) d = Inr d1"
    "reconcile_groups now prior (Suc k) es d1 = Inr d'"
    using Cons.prems(1) by (auto simp: rbind_eq_Inr)
  have a: "mail_ok d d1" by (rule reconcile_group_ok [OF s(1) Cons.prems(2)]) (use Cons.prems(3) in auto)
  have "mail_ok d1 d'" by (rule Cons.IH [OF s(2) mail_ok_sound [OF a]]) (use Cons.prems(3) in auto)
  then show ?case by (rule mail_ok_trans [OF a])
qed (simp add: mail_ok_refl)

lemma upsert_profiles_tables:
  "upsert_profiles is es d = Inr d' \<Longrightarrow> db_messages d' = db_messages d \<and> db_groups d' = db_groups d \<and>
   db_deliveries d' = db_deliveries d \<and> db_events d' = db_events d \<and> db_memberships d' = db_memberships d \<and>
   db_orderRevision d' = db_orderRevision d"
  by (induction "is" es d rule: upsert_profiles.induct) (auto simp: upsert_profile_def split: if_splits)

lemma reconcile_ok:
  assumes run: "reconcileTopology now c d = Inr d'" and sound: "mail_sound d" and c: "config_ok c"
  shows "mail_ok d d'"
proof -
  let ?gs = "orderedGroupEntries (cf_groups c)"
  obtain d2 d3 where s: "upsert_profiles (cf_integrations c) (concat (map (\<lambda>(i, g). cg_agents g) ?gs))
      (bump_order_revision ?gs d) = Inr d2"
    "reconcile_groups now d2 0 ?gs d2 = Inr d3" "d' = retire_missing_groups now (map fst (cf_groups c)) d3"
    using run by (auto simp: reconcileTopology_def Let_def rbind_eq_Inr)
  have "mail_ok d d2"
    by (rule mail_ok_same [OF sound])
      (use upsert_profiles_tables [OF s(1)] in \<open>auto simp: bump_order_revision_def logged_ids_def split: if_splits\<close>)
  moreover have "mail_ok d2 d3"
    by (rule reconcile_groups_ok [OF s(2)])
      (use mail_ok_sound [OF \<open>mail_ok d d2\<close>] c in \<open>auto simp: config_ok_def orderedGroupEntries_def
        enumerate_eq_zip dest!: set_zip_rightD\<close>)
  moreover have "mail_ok d3 d'"
    by (rule mail_ok_same) (use mail_ok_sound [OF \<open>mail_ok d2 d3\<close>] in
      \<open>auto simp: s(3) retire_missing_groups_def logged_ids_def\<close>)
  ultimately show ?thesis using mail_ok_trans by blast
qed


subsection \<open>The steps\<close>

inductive mail_step :: "(string \<Rightarrow> submit_command \<Rightarrow> string) \<Rightarrow> db \<Rightarrow> db \<Rightarrow> bool" for sha where
  submitted: "submitMessage now sha mid conv retain g cmd key d = Inr (d', r) \<Longrightarrow> fresh_ids mid conv d \<Longrightarrow>
    mail_step sha d d'"
| cleared: "clearMessageHistory now g key d = Inr (d', r) \<Longrightarrow> mail_step sha d d'"
| claimed: "claimDeliveries owner now leaseMs limit d = Inr (d', cs) \<Longrightarrow> mail_step sha d d'"
| delivery_begun: "mail_step sha d (fst (deliver_begin now op c d))"
| delivered: "mail_step sha d (deliver_done now op c d)"
| delivery_failed: "mail_step sha d (deliver_failed now op c msg d)"
| group_created: "createGroup now i n key d = Inr (d', r) \<Longrightarrow> mail_step sha d d'"
| group_updated: "updateGroup now i n hi key d = Inr (d', r) \<Longrightarrow> mail_step sha d d'"
| group_deleted: "deleteGroup now bound delegated g key d = Inr (d', r) \<Longrightarrow> mail_step sha d d'"
| member_added: "addMembership now i names g input key d = Inr (d', r) \<Longrightarrow> mail_step sha d d'"
| member_updated: "updateMembership now g m a ro key d = Inr (d', r) \<Longrightarrow> mail_step sha d d'"
| member_removed: "removeMembership now g m key d = Inr (d', r) \<Longrightarrow> mail_step sha d d'"
| reconciled: "reconcileTopology now c d = Inr d' \<Longrightarrow> config_ok c \<Longrightarrow> mail_step sha d d'"
| elsewhere: "mail_frame d d' \<Longrightarrow> db_deliveries d' = db_deliveries d \<Longrightarrow> logged_ids d \<subseteq> logged_ids d' \<Longrightarrow>
    mail_step sha d d'"

lemma deliver_ok:
  assumes "mail_sound d"
  shows "mail_ok d (fst (deliver_begin now op c d))" and "mail_ok d (deliver_done now op c d)"
    and "mail_ok d (deliver_failed now op c msg d)"
  using mail_ok_frame [OF assms] deliver_moves [of d] assms by (simp_all add: mail_sound_def)

lemma mail_step_ok: "mail_step sha d d' \<Longrightarrow> mail_sound d \<Longrightarrow> mail_ok d d'"
proof (induction rule: mail_step.induct)
  case (claimed owner now leaseMs limit d d' cs)
  then show ?case using claim_moves by (auto simp: mail_sound_def intro: mail_ok_frame)
next
  case (elsewhere d d')
  then show ?case using mail_ok_same by (auto simp: mail_frame_def)
qed (auto intro: submit_ok clear_ok deliver_ok create_group_ok update_group_ok
    delete_group_ok add_membership_ok update_membership_ok remove_membership_ok reconcile_ok)

inductive_cases mail_stepE: "mail_step sha d d'"

interpretation mail: moving_machine "mail_step sha" mail_sound mail_ok
  by unfold_locales (auto intro: mail_step_ok mail_ok_sound mail_ok_refl mail_ok_trans)

lemma mail_steps_ok: "(mail_step sha)\<^sup>*\<^sup>* d d' \<Longrightarrow> mail_sound d \<Longrightarrow> mail_ok d d'"
  by (rule mail.steps_move)

end
