(* ===== verification/Mail_Properties.thy ===== *)
theory Mail_Properties
  imports Mail_World "HOL-Library.Multiset"
begin

text \<open>
  Properties of the messages, deliveries, groups and idempotency keys, over every sequence of steps
  of the mail world where they speak of later states, each with a concrete instance.
\<close>

subsection \<open>A sample store\<close>

definition sample_message :: message where
  "sample_message = \<lparr>msg_id = ''m1'', msg_groupId = ''g'', msg_groupSeq = 1, msg_conversationId = ''c'',
     msg_intent = Mi_request, msg_sender = FromOperator ''op'', msg_audience = Multicast [''a'', ''b''],
     msg_body = \<lparr>b_markdown = False, b_text = ''hello''\<rparr>, msg_expiresAt = None, msg_replyTo = None, msg_rootId = None,
     msg_causationId = None, msg_hop = 0, msg_createdAt = 10\<rparr>"

definition sample_member :: "string \<Rightarrow> membership_row" where
  "sample_member i = \<lparr>m_id = i, m_groupId = ''g'', m_memberId = i, m_agentProfileId = ''p'', m_alias = i,
     m_roleId = None, m_order = 0, m_active = True, m_joinedAt = 0, m_removedAt = None\<rparr>"

definition sample_member_run :: "string \<Rightarrow> run" where
  "sample_member_run i = \<lparr>r_id = ''run-'' @ i, r_owner = MemberRun ''g'' i, r_agentProfileId = ''p'',
     r_checkoutId = None, r_resolvedWorkingDirectory = None, r_generation = 1, r_status = Rs_running,
     r_desiredState = Ds_running, r_recoveryPhase = Rp_idle, r_recoveryAttempts = 0, r_recoveryNotBefore = None,
     r_recoveryReason = None, r_launchKind = Lk_fresh, r_requestedModel = None,
     r_requestedModelSource = Ms_provider_default, r_effectiveModel = None, r_nativeSessionId = None,
     r_recoveryOutcome = None, r_terminal = None, r_startedAt = 0, r_stoppedAt = None\<rparr>"

definition sample_row :: "string \<Rightarrow> delivery_status \<Rightarrow> delivery" where
  "sample_row i s = \<lparr>dv_messageId = ''m1'', dv_recipient = i, dv_reason = None, dv_status = s, dv_attempts = 0,
     dv_leaseOwner = None, dv_leaseExpiresAt = None, dv_nextAttemptAt = None, dv_runId = None,
     dv_runGeneration = None, dv_updatedAt = 10\<rparr>"

definition mail_db :: db where
  "mail_db = empty_db\<lparr>
     db_groups := [\<lparr>g_id = ''g'', g_name = ''G'', g_order = 0, g_membershipRevision = 2, g_messageSequence = 1,
       g_createdAt = 0, g_updatedAt = 0\<rparr>],
     db_profiles := [\<lparr>ap_id = ''p'', ap_agentType = ''pi''\<rparr>],
     db_memberships := [sample_member ''a'', sample_member ''b''],
     db_runs := [sample_member_run ''a'', sample_member_run ''b''],
     db_messages := [sample_message],
     db_deliveries := [sample_row ''a'' Dv_queued, sample_row ''b'' Dv_rejected],
     db_events := [\<lparr>ev_sequence = 1, ev_type = ''message.submitted'', ev_aggregateType = ''message'',
       ev_aggregateId = ''m1'', ev_occurredAt = 10, ev_payload = Pl_id ''m1''\<rparr>],
     db_eventSeq := 1\<rparr>"

definition mail_dispatcher :: dispatcher_options where "mail_dispatcher = default_dispatcher ''owner-1''"

definition sample_claim :: delivery_claim where
  "sample_claim = \<lparr>dc_delivery = \<lparr>do_messageId = ''m1'', do_recipient = ''a'', do_reason = None,
       do_status = Dv_received, do_attempts = 1, do_updatedAt = 20\<rparr>,
     dc_message = sample_message, dc_senderAlias = ''Human'',
     dc_profile = \<lparr>ap_id = ''p'', ap_agentType = ''pi''\<rparr>, dc_run = Some (sample_member_run ''a''),
     dc_recipientActive = True\<rparr>"

lemma sample_identifiers [simp]:
  "parse_identifier ''m1'' = Inr ''m1''" "parse_identifier ''g'' = Inr ''g''" "parse_identifier ''c'' = Inr ''c''"
  "parse_identifier ''op'' = Inr ''op''" "parse_identifier ''a'' = Inr ''a''" "parse_identifier ''b'' = Inr ''b''"
  by code_simp+

lemma sample_body: "parse_body \<lparr>b_markdown = False, b_text = ''hello''\<rparr> = Inr \<lparr>b_markdown = False, b_text = ''hello''\<rparr>"
  by (simp add: parse_body_def utf8_length_def guarded_def of_char_Char MAX_MESSAGE_TEXT_BYTES_def)

lemma sample_message_parses: "parse_message sample_message = Inr sample_message"
  by (simp add: parse_message_def sample_message_def sample_body guarded_def MAX_MESSAGE_CAUSAL_DEPTH_def)

lemma mail_db_sound: "mail_sound mail_db"
proof -
  have "message_ok (db_groups mail_db) (db_messages mail_db) sample_message"
    by (simp add: message_ok_def sample_message_parses)
      (simp add: numbered_def mail_db_def sample_message_def earlier_cause_def earlier_root_def)
  then have ok: "list_all (message_ok (db_groups mail_db) (db_messages mail_db)) (db_messages mail_db)"
    by (simp add: mail_db_def)
  show ?thesis
    unfolding mail_sound_def messages_sound_def deliveries_sound_def by (intro conjI; (rule ok | code_simp))
qed

subsection \<open>Deliveries\<close>

text \<open> C7. A delivery that reached a final status (injected, rejected, revoked, dead letter) keeps it for
  ever, whatever dispatchers with old or stale claims, submissions, clearings, group and membership
  changes and reconciliations do later.\<close>

theorem final_deliveries_stay:
  assumes "mail_sound d" and "(mail_step sha)\<^sup>*\<^sup>* d d'"
    and "r \<in> set (db_deliveries d)" and "r' \<in> set (db_deliveries d')"
    and "dv_messageId r' = dv_messageId r" and "dv_recipient r' = dv_recipient r"
    and "\<not> active_delivery (dv_status r)"
  shows "dv_status r' = dv_status r"
proof -
  have mv: "mail_moves d d'" using mail_steps_ok [OF assms(2,1)] by (simp add: mail_ok_def)
  have ds: "deliveries_sound d" using assms(1) by (simp add: mail_sound_def)
  obtain q where q: "q \<in> set (db_deliveries d)" "row_moves q r'"
    using mv ds assms(3-5) by (auto simp: mail_moves_def deliveries_sound_def)
  have "q = r" by (rule same_key_same_row [OF ds q(1) assms(3)])
      (use q(2) assms(5,6) in \<open>simp add: row_moves_def delivery_key_def\<close>)
  then show ?thesis using q(2) assms(7) by (simp add: row_moves_def final_delivery_def)
qed

lemma final_deliveries_stay_witness:
  "set (map dv_status (filter (row_is ''m1'' ''b'') (db_deliveries (deliver_failed 60 mail_dispatcher sample_claim None
       (fst (deliver_begin 50 mail_dispatcher sample_claim mail_db)))))) \<subseteq> {Dv_rejected}"
proof -
  let ?d = "deliver_failed 60 mail_dispatcher sample_claim None
       (fst (deliver_begin 50 mail_dispatcher sample_claim mail_db))"
  have steps: "(mail_step (\<lambda>_ _. []))\<^sup>*\<^sup>* mail_db ?d"
    by (meson mail_step.delivery_begun mail_step.delivery_failed r_into_rtranclp rtranclp.rtrancl_into_rtrancl)
  have "dv_status r = Dv_rejected" if r: "r \<in> set (db_deliveries ?d)" "row_is ''m1'' ''b'' r" for r
  proof -
    have "dv_status r = dv_status (sample_row ''b'' Dv_rejected)"
      by (rule final_deliveries_stay [OF mail_db_sound steps _ r(1)])
        (use r(2) in \<open>auto simp: mail_db_def sample_row_def active_delivery_def row_is_def\<close>)
    then show ?thesis by (simp add: sample_row_def)
  qed
  then show ?thesis by auto
qed

definition leased_to :: "string \<Rightarrow> string \<Rightarrow> string \<Rightarrow> db \<Rightarrow> bool" where
  "leased_to owner i x d \<longleftrightarrow> (\<forall>r\<in>set (db_deliveries d). row_is i x r \<longrightarrow> dv_leaseOwner r = Some owner)"

lemma claim_row_leased:
  assumes "claim_row owner lease now row d = Inr (d1, c)"
  shows "leased_to owner i x d \<Longrightarrow> leased_to owner i x d1"
    and "leased_to owner (msg_id (dc_message c)) (do_recipient (dc_delivery c)) d1"
proof -
  note d1 = claim_row_InrD [OF assms]
  have "msg_id (dc_message c) = dv_messageId row" "do_recipient (dc_delivery c) = dv_recipient row"
    using d1(2) find_where_SomeD [OF d1(3)] by simp_all
  then show "leased_to owner (msg_id (dc_message c)) (do_recipient (dc_delivery c)) d1"
    by (auto simp: leased_to_def d1(1) set_update_where claimed_row_def)
  show "leased_to owner i x d \<Longrightarrow> leased_to owner i x d1"
    by (auto simp: leased_to_def d1(1) set_update_where claimed_row_def row_is_def)
qed

lemma claim_rows_leased:
  "claim_rows owner lease now rows d = Inr (d', cs) \<Longrightarrow> leased_to owner i x d \<Longrightarrow> leased_to owner i x d'"
proof (induction rows arbitrary: d cs)
  case (Cons row rows)
  then show ?case using claim_row_leased(1) by (fastforce simp: rbind_eq_Inr)
qed simp

lemma claims_leased:
  "claim_rows owner lease now rows d = Inr (d', cs) \<Longrightarrow> c \<in> set cs \<Longrightarrow>
   leased_to owner (msg_id (dc_message c)) (do_recipient (dc_delivery c)) d'"
proof (induction rows arbitrary: d cs)
  case (Cons row rows)
  obtain d1 c1 cs' where s: "claim_row owner lease now row d = Inr (d1, c1)"
    "claim_rows owner lease now rows d1 = Inr (d', cs')" "cs = c1 # cs'"
    using Cons.prems(1) by (auto simp: rbind_eq_Inr)
  show ?case
  proof (cases "c = c1")
    case True
    then show ?thesis using claim_rows_leased [OF s(2)] claim_row_leased(2) [OF s(1)] by simp
  qed (use Cons.IH [OF s(2)] Cons.prems(2) s(3) in simp)
qed simp

lemma owned_elsewhere:
  assumes "\<And>r. r \<in> set (db_deliveries d) \<Longrightarrow>
    row_is (msg_id (dc_message c)) (do_recipient (dc_delivery c)) r \<Longrightarrow> dv_leaseOwner r \<noteq> Some owner"
  shows "\<forall>r\<in>set (db_deliveries d). \<not> claim_row_is c owner r"
  using assms by (auto simp: claim_row_is_def)

lemma untouched_rows: "\<forall>r\<in>set rs. \<not> p r \<Longrightarrow> update_where p f rs = rs \<and> count_where p rs = 0"
  by (auto simp: update_where_def count_where_def filter_empty_conv intro: map_idI)

lemma unclaimed_attempts:
  assumes "\<forall>r\<in>set (db_deliveries d). \<not> claim_row_is c (dp_owner options) r"
  shows "db_deliveries (fst (deliver_begin t options c d)) = db_deliveries d \<and>
    snd (deliver_begin t options c d) = None \<and>
    deliver_done t options c d = d \<and>
    db_deliveries (deliver_failed t options c msg d) = db_deliveries d"
proof -
  let ?o = "dp_owner options"
  have at: "update_where (attempt_where c ?o) f (db_deliveries d) = db_deliveries d \<and>
      count_where (attempt_where c ?o) (db_deliveries d) = 0" for f
    by (rule untouched_rows) (use assms in \<open>simp add: attempt_where_def\<close>)
  have inj: "update_where (injected_where c ?o) f (db_deliveries d) = db_deliveries d \<and>
      count_where (injected_where c ?o) (db_deliveries d) = 0" for f
    by (rule untouched_rows) (use assms in \<open>simp add: injected_where_def\<close>)
  have bg: "update_where (begin_where c q ?o d) f (db_deliveries d) = db_deliveries d \<and>
      count_where (begin_where c q ?o d) (db_deliveries d) = 0" for q f
    by (rule untouched_rows) (use assms in \<open>simp add: begin_where_def\<close>)
  show ?thesis
    by (auto simp: deliver_begin_def deliver_done_def deliver_failed_def retry_delivery_def revokeClaim_def
        rejectClaim_def completeDeliveryStatus_def failDeliveryAttempt_def markDeliveryTerminalInjected_def
        beginDelivery_def Let_def at inj bg update_deliveries_def split: option.splits)
qed

text \<open> C8. A dispatcher whose lease was taken over writes nothing: once another owner has claimed the
  delivery, beginning, completing or failing it under the old claim types nothing and changes no row.\<close>

theorem stale_claims_are_fenced:
  assumes "claimDeliveries other now leaseMs limit d = Inr (d', cs)" and "dp_owner options \<noteq> other"
    and "c' \<in> set cs" and "msg_id (dc_message c') = msg_id (dc_message c)"
    and "do_recipient (dc_delivery c') = do_recipient (dc_delivery c)"
  shows "db_deliveries (fst (deliver_begin t options c d')) = db_deliveries d' \<and>
    snd (deliver_begin t options c d') = None \<and>
    deliver_done t options c d' = d' \<and>
    db_deliveries (deliver_failed t options c msg d') = db_deliveries d'"
proof (rule unclaimed_attempts, rule owned_elsewhere)
  fix r assume "r \<in> set (db_deliveries d')" "row_is (msg_id (dc_message c)) (do_recipient (dc_delivery c)) r"
  moreover have "claim_rows other (now + leaseMs) now (claimable_rows now limit d) d = Inr (d', cs)"
    using assms(1) by (simp add: claimDeliveries_def)
  note claims_leased [OF this assms(3)]
  ultimately have "dv_leaseOwner r = Some other" using assms(4,5) by (simp add: leased_to_def)
  then show "dv_leaseOwner r \<noteq> Some (dp_owner options)" using assms(2) by simp
qed

definition claimed_db :: db where
  "claimed_db = mail_db\<lparr>db_deliveries :=
     [claimed_row ''owner-2'' 30020 20 (sample_row ''a'' Dv_queued), sample_row ''b'' Dv_rejected]\<rparr>"

lemma sample_claimable: "claimable_rows 20 32 mail_db = [sample_row ''a'' Dv_queued]"
  by code_simp

lemma sample_claims: "claimDeliveries ''owner-2'' 20 30000 32 mail_db = Inr (claimed_db, [sample_claim])"
  unfolding claimDeliveries_def sample_claimable
  by (simp add: claim_row_def Let_def update_deliveries_def mail_db_def claimed_db_def row_is_def sample_row_def
      update_where_def claimed_row_def getMessage_def require_def sample_message_def getMembershipRow_def
      sample_member_def requireAgentProfile_def hydrateDelivery_def guarded_def sample_claim_def getActiveRun_def
      sample_member_run_def active_status_def)

lemma stale_claims_are_fenced_witness:
  "snd (deliver_begin 60 mail_dispatcher sample_claim claimed_db) = None \<and>
   deliver_done 60 mail_dispatcher sample_claim claimed_db = claimed_db"
  using stale_claims_are_fenced [OF sample_claims, of mail_dispatcher sample_claim sample_claim 60]
  by (simp add: mail_dispatcher_def default_dispatcher_def)


definition failed_row :: "timestamp \<Rightarrow> dispatcher_options \<Rightarrow> delivery_claim \<Rightarrow> string option \<Rightarrow> delivery \<Rightarrow> delivery" where
  "failed_row now options c msg r =
     (let dead = dp_maxAttempts options \<le> do_attempts (dc_delivery c) in
      r\<lparr>dv_status := (if dead then Dv_dead_letter else Dv_retrying),
        dv_reason := Some (case msg of None \<Rightarrow> ''terminal_delivery_failed'' | Some x \<Rightarrow> x),
        dv_nextAttemptAt := (if dead then None else Some (now + retry_delay options (do_attempts (dc_delivery c)))),
        dv_leaseOwner := None, dv_leaseExpiresAt := None, dv_updatedAt := now\<rparr>)"

definition held_row :: delivery where "held_row = claimed_row ''owner-1'' 30020 20 (sample_row ''a'' Dv_queued)"

definition held_db :: db where "held_db = mail_db\<lparr>db_deliveries := [held_row]\<rparr>"

text \<open> C19. When the terminal fails under a live claim, the delivery is claimable again exactly when its
  attempts are below the limit, the back-off (doubling with the attempts up to the maximum) has
  passed and the recipient is an active member with a running run: neither lost, nor retried early,
  nor retried for ever.\<close>

theorem failed_attempts_back_off:
  assumes "deliveries_sound d" and "q \<in> set (db_deliveries d)" and "attempt_where c (dp_owner options) q"
    and "r \<in> set (db_deliveries (deliver_failed now options c msg d))" and "delivery_key r = delivery_key q"
  shows "claimable t (deliver_failed now options c msg d) r m \<longleftrightarrow>
    do_attempts (dc_delivery c) < dp_maxAttempts options \<and>
    now + min (dp_retryMaxMs options) (dp_retryBaseMs options * 2 ^ (do_attempts (dc_delivery c) - 1)) \<le> t \<and>
    running_recipient d (msg_groupId m) (dv_recipient q)"
proof -
  let ?d = "deliver_failed now options c msg d"
  have rows: "db_deliveries ?d = update_where (attempt_where c (dp_owner options)) (failed_row now options c msg)
      (db_deliveries d)" and same: "db_memberships ?d = db_memberships d" "db_runs ?d = db_runs d"
    by (simp_all add: deliver_failed_def retry_delivery_def failDeliveryAttempt_def Let_def delivery_event_def
        update_deliveries_def failed_row_def [abs_def])
  obtain q' where q': "q' \<in> set (db_deliveries d)"
    "r = (if attempt_where c (dp_owner options) q' then failed_row now options c msg q' else q')"
    using assms(4) unfolding rows set_update_where by auto
  have "delivery_key q' = delivery_key q"
    using assms(5) q'(2) by (auto simp: failed_row_def Let_def delivery_key_def split: if_splits)
  then have "q' = q" using same_key_same_row [OF assms(1)] q'(1) assms(2) by blast
  then have r: "r = failed_row now options c msg q" using q'(2) assms(3) by simp
  have run: "running_recipient ?d g x = running_recipient d g x" for g x
    by (simp add: running_recipient_def same)
  show ?thesis unfolding claimable_def run by (auto simp: r failed_row_def Let_def retry_delay_def active_delivery_def lease_free_def)
qed

lemma held_db_member: "held_row \<in> set (db_deliveries held_db)" by (simp add: held_db_def)

lemma failed_key: "delivery_key (failed_row now options c msg r) = delivery_key r"
  by (simp add: failed_row_def Let_def delivery_key_def)

lemma failed_attempts_back_off_witness:
  "\<not> claimable 309 (deliver_failed 60 mail_dispatcher sample_claim None held_db)
     (failed_row 60 mail_dispatcher sample_claim None held_row) sample_message \<and>
   claimable 310 (deliver_failed 60 mail_dispatcher sample_claim None held_db)
     (failed_row 60 mail_dispatcher sample_claim None held_row) sample_message"
proof -
  have *: "deliveries_sound held_db" "attempt_where sample_claim (dp_owner mail_dispatcher) held_row"
    by code_simp+
  have d: "db_deliveries (deliver_failed 60 mail_dispatcher sample_claim None held_db) =
      [failed_row 60 mail_dispatcher sample_claim None held_row]" by code_simp
  have run: "running_recipient held_db ''g'' ''a''" by code_simp
  have "claimable t (deliver_failed 60 mail_dispatcher sample_claim None held_db)
     (failed_row 60 mail_dispatcher sample_claim None held_row) sample_message \<longleftrightarrow>
    do_attempts (dc_delivery sample_claim) < dp_maxAttempts mail_dispatcher \<and>
    60 + min (dp_retryMaxMs mail_dispatcher)
      (dp_retryBaseMs mail_dispatcher * 2 ^ (do_attempts (dc_delivery sample_claim) - 1)) \<le> t \<and>
    running_recipient held_db (msg_groupId sample_message) (dv_recipient held_row)" for t
    by (rule failed_attempts_back_off [OF *(1) _ *(2)]) (simp_all add: d held_db_member failed_key)
  then show ?thesis using run
    by (simp add: sample_claim_def mail_dispatcher_def default_dispatcher_def sample_message_def held_row_def
        claimed_row_def sample_row_def)
qed

subsection \<open>Messages\<close>

text \<open> C12. Every message ever stored satisfies its schema as it is read back, stands in an existing group at
  a number its group has handed out, and is at most eight replies away from what caused it.\<close>

theorem stored_messages_well_formed:
  assumes "mail_sound d" and "(mail_step sha)\<^sup>*\<^sup>* d d'" and "m \<in> set (db_messages d')"
  shows "parse_message m = Inr m \<and> msg_hop m \<le> MAX_MESSAGE_CAUSAL_DEPTH \<and>
    (\<exists>g\<in>set (db_groups d'). g_id g = msg_groupId m \<and> msg_groupSeq m \<le> g_messageSequence g)"
proof -
  have "messages_sound d'" using mail_steps_ok [OF assms(2,1)] by (simp add: mail_ok_def)
  then have ok: "message_ok (db_groups d') (db_messages d') m"
    using assms(3) by (auto simp: messages_sound_def list_all_iff)
  then have "parse_message m = Inr m" by (simp add: message_ok_def)
  with parse_message_InrD(11) [OF this] ok show ?thesis
    by (auto simp: message_ok_def numbered_def list_ex_iff)
qed

lemma stored_messages_well_formed_witness:
  "parse_message sample_message = Inr sample_message \<and> msg_hop sample_message \<le> MAX_MESSAGE_CAUSAL_DEPTH \<and>
    (\<exists>g\<in>set (db_groups mail_db). g_id g = msg_groupId sample_message \<and>
       msg_groupSeq sample_message \<le> g_messageSequence g)"
  by (rule stored_messages_well_formed [OF mail_db_sound rtranclp.rtrancl_refl])
    (simp add: mail_db_def)

text \<open> C13. However messages are sent, pruned and cleared, no conversation of a group ever holds more than
  sixteen messages of agents.\<close>

theorem automated_replies_bounded:
  assumes "mail_sound d" and "(mail_step sha)\<^sup>*\<^sup>* d d'"
  shows "automated_count d' g c \<le> MAX_AUTOMATED_REPLIES_PER_CONVERSATION"
proof -
  have s: "messages_sound d'" using mail_steps_ok [OF assms(2,1)] by (simp add: mail_ok_def)
  show ?thesis
  proof (cases "\<exists>m\<in>set (db_messages d'). msg_groupId m = g \<and> msg_conversationId m = c")
    case True
    then show ?thesis using s by (auto simp: messages_sound_def list_all_iff)
  next
    case False
    then have "automated_count d' g c = 0"
      by (auto simp: automated_count_def count_where_def filter_empty_conv)
    then show ?thesis by simp
  qed
qed

lemma automated_replies_bounded_witness:
  "automated_count (deliver_done 60 mail_dispatcher sample_claim mail_db) ''g'' ''c'' \<le> 16"
  using automated_replies_bounded [OF mail_db_sound r_into_rtranclp, where g = "''g''" and c = "''c''",
      OF mail_step.delivered [of "\<lambda>_ _. []" _ 60 mail_dispatcher sample_claim]]
  by (simp add: MAX_AUTOMATED_REPLIES_PER_CONVERSATION_def)

text \<open> C17. The walk that looks for a cycle, with its set of visited messages, refuses a submission exactly
  when a cause of the message it starts from, at any distance, was the same exchange.\<close>

theorem cycle_walk_exact:
  assumes "messages_sound d" and "m \<in> set (db_messages d)"
  shows "walk_causes d sg [] m =
    (if \<exists>a. (cause_step d)\<^sup>*\<^sup>* m a \<and> stored_exchange d a = sg then Inl causal_cycle else Inr ())"
  by (rule walk_causes_visits [OF assms]) simp

lemma cycle_walk_exact_witness:
  "walk_causes mail_db (exchange (FromOperator ''op'') [''a'', ''b'']) [] sample_message = Inl causal_cycle"
proof -
  have "stored_exchange mail_db sample_message = exchange (FromOperator ''op'') [''a'', ''b'']" by code_simp
  then have "\<exists>a. (cause_step mail_db)\<^sup>*\<^sup>* sample_message a \<and>
      stored_exchange mail_db a = exchange (FromOperator ''op'') [''a'', ''b'']" by blast
  moreover have "messages_sound mail_db" using mail_db_sound by (simp add: mail_sound_def)
  moreover have "sample_message \<in> set (db_messages mail_db)" by (simp add: mail_db_def)
  ultimately show ?thesis by (simp only: cycle_walk_exact if_True)
qed

text \<open>Whom a command addresses: everybody else in the group, or the members it names.\<close>

definition addressed :: "db \<Rightarrow> string \<Rightarrow> submit_command \<Rightarrow> string set" where
  "addressed d g command =
     (case sc_audience command of
        GroupBroadcast revision \<Rightarrow>
          {x \<in> m_memberId ` {q \<in> set (db_memberships d). m_groupId q = g \<and> m_active q}.
             sender_member (sc_sender command) \<noteq> Some x}
      | Dm x \<Rightarrow> {x}
      | Multicast xs \<Rightarrow> set xs)"

definition may_receive :: "db \<Rightarrow> string \<Rightarrow> submit_command \<Rightarrow> string \<Rightarrow> bool" where
  "may_receive d g command x \<longleftrightarrow> sender_member (sc_sender command) \<noteq> Some x \<and>
     (\<exists>q\<in>set (db_memberships d). m_groupId q = g \<and> m_memberId q = x \<and> m_active q)"

definition waiting_row :: "delivery \<Rightarrow> bool" where
  "waiting_row r \<longleftrightarrow> dv_status r = Dv_queued \<and> dv_attempts r = 0 \<and> dv_leaseOwner r = None \<and>
     dv_leaseExpiresAt r = None \<and> dv_nextAttemptAt r = None \<and> dv_runId r = None"

lemma active_member_row:
  assumes "active_member d g x"
  shows "\<exists>q\<in>set (db_memberships d). m_groupId q = g \<and> m_memberId q = x \<and> m_active q"
  using assms
  by (auto simp: active_member_def getMembershipRow_def dest!: find_where_SomeD split: option.splits)

lemma recipients_addressed:
  assumes "resolveRecipients d grp command = Inr rs" and "g_id grp = g"
  shows "set rs = addressed d g command" and "\<forall>x\<in>set rs. may_receive d g command x"
proof -
  show "set rs = addressed d g command"
    using assms
    by (auto simp: resolveRecipients_def addressed_def direct_recipients_def
        split: audience.splits if_splits option.splits)
  show "\<forall>x\<in>set rs. may_receive d g command x"
    using assms active_member_row
    by (fastforce simp: resolveRecipients_def direct_recipients_def list_all_iff may_receive_def
        split: audience.splits if_splits option.splits)
qed

lemma prune_spares_newest:
  assumes "distinct (map msg_id (group_messages d g))" and "m \<in> set (group_messages d g)"
    and newest: "\<And>x. x \<in> set (group_messages d g) \<Longrightarrow> x \<noteq> m \<Longrightarrow> msg_groupSeq x < msg_groupSeq m"
    and "0 < n"
  shows "msg_id m \<notin> set (prune_victims d g n)"
proof -
  let ?L = "rev (sort_key msg_groupSeq (group_messages d g))"
  have set_L: "set ?L = set (group_messages d g)" by simp
  have dist: "distinct (map msg_id ?L)"
    using assms(1) by (simp add: distinct_map rev_map [symmetric])
  have desc: "sorted_wrt (\<lambda>a b. msg_groupSeq b \<le> msg_groupSeq a) ?L"
    unfolding sorted_wrt_rev using sorted_sort_key [of msg_groupSeq "group_messages d g"]
    by (simp add: sorted_map)
  obtain x xs where L: "?L = x # xs" using assms(2) set_L by (cases ?L) auto
  have "x = m"
  proof (rule ccontr)
    assume "x \<noteq> m"
    then have "m \<in> set xs" using assms(2) set_L L by auto
    then have "msg_groupSeq m \<le> msg_groupSeq x" using desc L by auto
    moreover have "msg_groupSeq x < msg_groupSeq m"
      using newest [of x] \<open>x \<noteq> m\<close> set_L L by auto
    ultimately show False by simp
  qed
  then have "msg_id m \<notin> msg_id ` set xs" using dist L by simp
  moreover have "set (drop n ?L) \<subseteq> set xs"
    using \<open>0 < n\<close> L by (cases n) (auto dest: in_set_dropD)
  ultimately show ?thesis unfolding prune_victims_def by auto
qed

text \<open>The number of a new message is above every number of its group.\<close>

lemma next_number:
  assumes "messages_sound d" and "requireGroup d g = Inr grp" and "x \<in> set (group_messages d g)"
  shows "msg_groupSeq x \<le> g_messageSequence grp"
proof -
  have x: "x \<in> set (db_messages d)" "msg_groupId x = g" using assms(3) by (auto simp: group_messages_def)
  then have "numbered (db_groups d) x"
    using assms(1) by (auto simp: messages_sound_def list_all_iff message_ok_def)
  then obtain y where y: "y \<in> set (db_groups d)" "g_id y = g" "msg_groupSeq x \<le> g_messageSequence y"
    using x by (auto simp: numbered_def list_ex_iff)
  moreover have "grp \<in> set (db_groups d)" "g_id grp = g" using requireGroup_InrD [OF assms(2)] by auto
  ultimately have "y = grp" using assms(1) by (auto simp: messages_sound_def distinct_map inj_on_def)
  with y show ?thesis by simp
qed

lemma submitted_rows:
  assumes sound: "mail_sound d" and fresh: "fresh_ids mid conv d" and "0 < retain"
    and run: "submit_message now mid conv retain g input d = Inr (d', Ir_message m os)"
  shows "filter (\<lambda>r. dv_messageId r = msg_id m) (db_deliveries d') = map delivery_row os"
    and "msg_id m \<in> msg_id ` set (group_messages d' g)"
    and "\<And>r. r \<in> set (db_deliveries d') \<Longrightarrow> dv_messageId r = msg_id m \<or> r \<in> set (db_deliveries d)"
proof -
  obtain grp rs c d2 d3 st where h: "requireGroup d g = Inr (grp :: group_row)"
    "parse_message (draft_message now mid g (Suc (g_messageSequence grp)) input c) = Inr m"
    "insertable_message (bump_message_sequence g d) m"
    "d2 = (bump_message_sequence g d)\<lparr>db_messages := db_messages d @ [m],
           db_deliveries := db_deliveries d @ map (\<lambda>x. delivery_row (resolveDelivery m now x)) rs\<rparr>"
    "pruneGroupMessages g retain now d2 = Inr d3"
    "d' = append_event ''message.submitted'' ''message'' (msg_id m)
             (Pl_message_submitted g (msg_groupSeq m) st) now d3"
    "os = map (resolveDelivery m now) rs"
    using submit_message_InrD [OF run] by blast
  have ms: "messages_sound d" and ds: "deliveries_sound d" using sound by (simp_all add: mail_sound_def)
  have grp: "grp \<in> set (db_groups d)" "g_id grp = g" using requireGroup_InrD [OF h(1)] by auto
  then have g: "parse_identifier g = Inr g"
    using ms by (auto simp: messages_sound_def list_all_iff group_ok_def)
  note p = parse_message_InrD [OF h(2)]
  have mid: "msg_id m = mid" using p(1) fresh by (simp add: draft_message_def fresh_ids_def)
  have mg: "msg_groupId m = g" using p(2) g by (simp add: draft_message_def)
  have seq: "msg_groupSeq m = Suc (g_messageSequence grp)" using p(13) by (simp add: draft_message_def)
  have gm: "group_messages d2 g = group_messages d g @ [m]"
    using mg by (simp add: group_messages_def h(4))
  have new_id: "find_message (msg_id m) (db_messages d) = None"
    using h(3) by (simp add: insertable_message_def bump_message_sequence_def)
  have "distinct (map msg_id (db_messages d2))"
    using ms new_id by (auto simp: h(4) messages_sound_def find_where_None_iff)
  then have dist: "distinct (map msg_id (group_messages d2 g))"
    unfolding group_messages_def by (rule distinct_map_filter)
  have spared: "msg_id m \<notin> set (prune_victims d2 g retain)"
  proof (rule prune_spares_newest [OF dist _ _ \<open>0 < retain\<close>])
    show "m \<in> set (group_messages d2 g)" by (simp add: gm)
    show "msg_groupSeq x < msg_groupSeq m" if "x \<in> set (group_messages d2 g)" "x \<noteq> m" for x
      using next_number [OF ms h(1), of x] that by (simp add: gm seq)
  qed
  let ?new = "map (\<lambda>x. delivery_row (resolveDelivery m now x)) rs"
  have new: "dv_messageId q = mid" if "q \<in> set ?new" for q
    using that mid by (auto simp: delivery_row_def resolveDelivery_def)
  have old: "dv_messageId q \<noteq> mid" if "q \<in> set (db_deliveries d)" for q
    using ds fresh that by (auto simp: deliveries_sound_def fresh_ids_def)
  note pr = prune_InrD [OF h(5)]
  have rows: "db_deliveries d' = delete_where (\<lambda>r. dv_messageId r \<in> set (prune_victims d2 g retain))
      (db_deliveries d @ ?new)"
    using pr by (simp add: h(6)) (simp add: h(4))
  have "filter (\<lambda>r. dv_messageId r = mid) (db_deliveries d') =
      filter (\<lambda>r. dv_messageId r = mid) (db_deliveries d @ ?new)"
    unfolding rows delete_where_def filter_filter
    by (rule filter_cong [OF refl]) (use spared mid in auto)
  also have "\<dots> = ?new"
    using old new by (simp add: filter_empty_conv filter_id_conv del: set_map)
  finally show "filter (\<lambda>r. dv_messageId r = msg_id m) (db_deliveries d') = map delivery_row os"
    by (simp add: mid h(7) comp_def)
  show "dv_messageId r = msg_id m \<or> r \<in> set (db_deliveries d)" if "r \<in> set (db_deliveries d')" for r
    using that new [of r] unfolding rows delete_where_def mid by (auto simp del: set_map)
  have "db_messages d' = (let v = prune_victims d2 g retain in
      if v = [] then db_messages d2 else forget v (db_messages d2))" using pr by (simp add: h(6))
  then show "msg_id m \<in> msg_id ` set (group_messages d' g)"
    using spared mg by (auto simp: group_messages_def forget_in Let_def h(4) image_iff)
qed

text \<open>
  C31. A submission of a fresh message leaves in the store exactly one delivery of it for each
  recipient the command addresses, queued, never tried and leased to nobody: for a broadcast every
  active member of the group except the sender, else the members named, all of them active and none
  of them the sender. There is at least one and at most 32, they are the outcomes the call
  returns, the message itself is in the history, and no other delivery is added or changed.
\<close>

theorem submission_fans_out:
  assumes "mail_sound d" and "fresh_ids mid conv d" and "0 < retain"
    and "submit_message now mid conv retain g input d = Inr (d', Ir_message m os)"
  shows "let rows = filter (\<lambda>r. dv_messageId r = msg_id m) (db_deliveries d') in
    distinct (map dv_recipient rows) \<and> dv_recipient ` set rows = addressed d g input \<and>
    list_all waiting_row rows \<and> rows \<noteq> [] \<and> length rows \<le> MAX_MESSAGE_FAN_OUT \<and>
    rows = map delivery_row os \<and>
    addressed d g input \<subseteq> {x. may_receive d g input x} \<and>
    msg_id m \<in> msg_id ` set (group_messages d' g) \<and>
    set (db_deliveries d') \<subseteq> set (db_deliveries d) \<union> set rows"
proof -
  note rows = submitted_rows [OF assms]
  obtain grp rs where h: "resolveRecipients d grp input = Inr rs" "requireGroup d g = Inr grp" "rs \<noteq> []"
    "length rs \<le> MAX_MESSAGE_FAN_OUT" "distinct rs" "os = map (resolveDelivery m now) rs"
    using submit_message_InrD [OF assms(4)] by auto
  have g: "g_id grp = g" using requireGroup_InrD [OF h(2)] by simp
  have recipients: "map dv_recipient (map delivery_row os) = rs"
    by (simp add: h(6) comp_def delivery_row_def resolveDelivery_def)
  have waiting: "list_all waiting_row (map delivery_row os)"
    by (simp add: h(6) list_all_iff waiting_row_def delivery_row_def resolveDelivery_def)
  note a = recipients_addressed [OF h(1) g]
  have "dv_recipient ` set (map delivery_row os) = addressed d g input"
    using recipients a(1) by (metis set_map)
  moreover have "set (db_deliveries d') \<subseteq> set (db_deliveries d) \<union> set (map delivery_row os)"
    unfolding rows(1) [symmetric] using rows(3) by auto
  moreover have "distinct (map dv_recipient (map delivery_row os))" "map delivery_row os \<noteq> []"
    "length (map delivery_row os) \<le> MAX_MESSAGE_FAN_OUT"
    using h(3,4,5) unfolding recipients by (simp_all add: h(6))
  moreover have "addressed d g input \<subseteq> {x. may_receive d g input x}" using a by blast
  ultimately show ?thesis unfolding Let_def rows(1) using waiting rows(2) by blast
qed

definition sample_submit :: submit_command where
  "sample_submit = \<lparr>sc_conversationId = None, sc_intent = Mi_response, sc_sender = FromAgent ''b'' ''run-b'',
     sc_audience = GroupBroadcast 2, sc_body = \<lparr>b_markdown = False, b_text = ''hello''\<rparr>, sc_expiresAt = None,
     sc_replyTo = Some ''m1'', sc_causationId = None\<rparr>"

definition sample_reply :: message where
  "sample_reply = \<lparr>msg_id = ''m2'', msg_groupId = ''g'', msg_groupSeq = 2, msg_conversationId = ''c'',
     msg_intent = Mi_response, msg_sender = FromAgent ''b'' ''run-b'', msg_audience = GroupBroadcast 2,
     msg_body = \<lparr>b_markdown = False, b_text = ''hello''\<rparr>, msg_expiresAt = None, msg_replyTo = Some ''m1'',
     msg_rootId = Some ''m1'', msg_causationId = None, msg_hop = 1, msg_createdAt = 30\<rparr>"

definition replied_db :: db where
  "replied_db = mail_db\<lparr>
     db_groups := [\<lparr>g_id = ''g'', g_name = ''G'', g_order = 0, g_membershipRevision = 2, g_messageSequence = 2,
       g_createdAt = 0, g_updatedAt = 0\<rparr>],
     db_messages := [sample_message, sample_reply],
     db_deliveries := [sample_row ''a'' Dv_queued, sample_row ''b'' Dv_rejected,
       delivery_row (resolveDelivery sample_reply 30 ''a'')]\<rparr>"

lemma more_identifiers [simp]: "parse_identifier ''m2'' = Inr ''m2''" "parse_identifier ''run-b'' = Inr ''run-b''"
  by code_simp+

lemma sample_submitted:
  "\<exists>st. submit_message 30 ''m2'' ''c2'' 100 ''g'' sample_submit mail_db =
     Inr (append_event ''message.submitted'' ''message'' ''m2'' (Pl_message_submitted ''g'' 2 st) 30 replied_db,
       Ir_message sample_reply [resolveDelivery sample_reply 30 ''a''])"
proof -
  have 1: "requireGroup mail_db ''g'' = Inr (hd (db_groups mail_db))" by code_simp
  have 2: "validateSender mail_db ''g'' (sc_sender sample_submit) = Inr ()" by code_simp
  have 3: "resolveRecipients mail_db (hd (db_groups mail_db)) sample_submit = Inr [''a'']" by code_simp
  have 4: "deriveMessageCausation mail_db ''c2'' ''g'' sample_submit [''a''] =
    Inr \<lparr>cs_conversationId = ''c'', cs_rootId = Some ''m1'', cs_hop = 1\<rparr>" by code_simp
  have 5: "requireGroup (bump_message_sequence ''g'' mail_db) ''g'' = Inr (hd (db_groups replied_db))" by code_simp
  have 6: "parse_message (draft_message 30 ''m2'' ''g'' 2 sample_submit
      \<lparr>cs_conversationId = ''c'', cs_rootId = Some ''m1'', cs_hop = 1\<rparr>) = Inr sample_reply"
    by (simp add: parse_message_def draft_message_def sample_submit_def sample_reply_def sample_body guarded_def
        MAX_MESSAGE_CAUSAL_DEPTH_def)
  have 7: "insertable_message (bump_message_sequence ''g'' mail_db) sample_reply" by code_simp
  have 8: "insertDeliveries (map (resolveDelivery sample_reply 30) [''a'']) ((bump_message_sequence ''g'' mail_db)
      \<lparr>db_messages := db_messages (bump_message_sequence ''g'' mail_db) @ [sample_reply]\<rparr>) = Inr replied_db"
    by (simp add: bump_message_sequence_def mail_db_def replied_db_def resolveDelivery_def sample_reply_def
        sample_row_def update_where_def)
  have 9: "pruneGroupMessages ''g'' 100 30 replied_db = Inr replied_db" by code_simp
  have 10: "\<not> isl (getGroupMessageState replied_db ''g'')" by code_simp
  have s: "g_messageSequence (hd (db_groups replied_db)) = 2" "msg_id sample_reply = ''m2''"
    "msg_groupSeq sample_reply = 2" "\<not> MAX_MESSAGE_FAN_OUT < length [''a'']"
    by (simp_all add: replied_db_def sample_reply_def MAX_MESSAGE_FAN_OUT_def)
  obtain st where st: "getGroupMessageState replied_db ''g'' = Inr st"
    using 10 by (cases "getGroupMessageState replied_db ''g''") auto
  show ?thesis
    unfolding submit_message_def Let_def 1 2 rbind_simps 3 4 5 s 6 8 9 st using 7 by (auto simp: MAX_MESSAGE_FAN_OUT_def)
qed


lemma submission_fans_out_witness:
  "\<exists>d' r. submit_message 30 ''m2'' ''c2'' 100 ''g'' sample_submit mail_db = Inr (d', r) \<and>
     dv_recipient ` set (filter (\<lambda>r. dv_messageId r = ''m2'') (db_deliveries d')) =
       addressed mail_db ''g'' sample_submit \<and>
     list_all waiting_row (filter (\<lambda>r. dv_messageId r = ''m2'') (db_deliveries d'))"
proof -
  obtain st where s: "submit_message 30 ''m2'' ''c2'' 100 ''g'' sample_submit mail_db =
     Inr (append_event ''message.submitted'' ''message'' ''m2'' (Pl_message_submitted ''g'' 2 st) 30 replied_db,
       Ir_message sample_reply [resolveDelivery sample_reply 30 ''a''])" using sample_submitted by blast
  have f: "fresh_ids ''m2'' ''c2'' mail_db" by code_simp
  have r: "0 < (100::nat)" by simp
  have i: "msg_id sample_reply = ''m2''" by (simp add: sample_reply_def)
  note t = submission_fans_out [OF mail_db_sound f r s, unfolded Let_def i]
  show ?thesis by (intro exI conjI, rule s) (use t in blast)+
qed

text \<open>What pruning keeps: the newest messages of the group, in the order of their numbers.\<close>

lemma take_keeps:
  assumes "distinct (map msg_id L)"
  shows "filter (\<lambda>m. msg_id m \<notin> set (map msg_id (drop n L))) L = take n L"
proof -
  have "filter (\<lambda>m. msg_id m \<notin> set (map msg_id (drop n L))) (take n L @ drop n L) = take n L"
  proof -
    have "distinct (map msg_id (take n L @ drop n L))" using assms by simp
    then have "\<And>m. m \<in> set (take n L) \<Longrightarrow> msg_id m \<notin> msg_id ` set (drop n L)"
      unfolding map_append distinct_append by fastforce
    then show ?thesis unfolding filter_append by (simp add: filter_id_conv filter_empty_conv)
  qed
  then show ?thesis by simp
qed

lemma kept_messages:
  assumes "distinct (map msg_id (db_messages d))"
  shows "mset (filter (\<lambda>m. msg_id m \<notin> set (prune_victims d g n)) (group_messages d g)) =
    mset (take n (rev (sort_key msg_groupSeq (group_messages d g))))"
proof -
  let ?L = "rev (sort_key msg_groupSeq (group_messages d g))"
  have L: "mset ?L = mset (group_messages d g)" by simp
  have "distinct (map msg_id (group_messages d g))"
    using assms by (simp add: group_messages_def distinct_map_filter)
  then have "distinct (map msg_id ?L)" using L by (metis mset_eq_imp_distinct_iff mset_map)
  then have "filter (\<lambda>m. msg_id m \<notin> set (prune_victims d g n)) ?L = take n ?L"
    unfolding prune_victims_def by (rule take_keeps)
  then show ?thesis using L by (metis mset_filter)
qed


lemma forget_nothing: "forget [] ms = ms"
  by (induction ms) (auto simp: forget_def delete_where_def drop_references_def null_if_def split: option.splits)

lemma pruned_group:
  assumes "distinct (map msg_id (db_messages d))"
    and "db_messages d' = forget (prune_victims d g n) (db_messages d)"
  shows "length (group_messages d' g) \<le> n \<and>
    (\<forall>x\<in>set (group_messages d g). \<forall>y\<in>set (group_messages d' g).
       msg_id x \<notin> msg_id ` set (group_messages d' g) \<longrightarrow> msg_groupSeq x \<le> msg_groupSeq y)"
proof -
  let ?v = "prune_victims d g n" and ?L = "rev (sort_key msg_groupSeq (group_messages d g))"
  have kept: "group_messages d' g = map (drop_references ?v) (filter (\<lambda>m. msg_id m \<notin> set ?v) (group_messages d g))"
    unfolding group_messages_def assms(2) forget_def delete_where_def filter_map by (simp add: comp_def conj_commute)
  have same: "mset (filter (\<lambda>m. msg_id m \<notin> set ?v) (group_messages d g)) = mset (take n ?L)"
    by (rule kept_messages [OF assms(1)])
  have "length (group_messages d' g) = length (take n ?L)"
    unfolding kept length_map using same by (metis size_mset)
  moreover have "msg_groupSeq x \<le> msg_groupSeq y"
    if x: "x \<in> set (group_messages d g)" and y: "y \<in> set (group_messages d' g)"
      and gone: "msg_id x \<notin> msg_id ` set (group_messages d' g)" for x y
  proof -
    have "set (filter (\<lambda>m. msg_id m \<notin> set ?v) (group_messages d g)) = set (take n ?L)"
      using same by (metis set_mset_mset)
    then have ids: "msg_id ` set (group_messages d' g) = msg_id ` set (take n ?L)"
      and seqs: "\<exists>z\<in>set (take n ?L). msg_groupSeq z = msg_groupSeq y"
      using y unfolding kept by (auto simp: image_image)
    obtain z where z: "z \<in> set (take n ?L)" "msg_groupSeq z = msg_groupSeq y" using seqs by blast
    have "x \<in> set (take n ?L) \<or> x \<in> set (drop n ?L)"
      using x by (metis Un_iff append_take_drop_id set_append set_rev set_sort)
    then have xd: "x \<in> set (drop n ?L)" using gone ids by blast
    have "sorted_wrt (\<lambda>a b. b \<le> a) (map msg_groupSeq ?L)"
      unfolding rev_map [symmetric] sorted_wrt_rev by (simp add: sorted_sort_key)
    then have "sorted_wrt (\<lambda>a b. b \<le> a) (map msg_groupSeq (take n ?L) @ map msg_groupSeq (drop n ?L))"
      by (metis append_take_drop_id map_append)
    then show ?thesis using z xd by (fastforce simp: sorted_wrt_append)
  qed
  ultimately show ?thesis by auto
qed

text \<open> C20. After a submission the group holds at most as many messages as its retention allows, and they are
  the newest: a message that was dropped does not have a higher number than one that stayed.\<close>

theorem retention_keeps_newest:
  assumes "messages_sound d" and "submit_message now mid fresh retain g input d = Inr (d', r)"
    and "parse_submit_command cmd = Inr input" and "parse_identifier fresh = Inr fresh"
  shows "length (group_messages d' g) \<le> retain \<and>
    (\<forall>x\<in>set (group_messages d g). \<forall>y\<in>set (group_messages d' g).
       msg_id x \<notin> msg_id ` set (group_messages d' g) \<longrightarrow> msg_groupSeq x \<le> msg_groupSeq y)"
proof -
  obtain grp rs c m d2 d3 st where h: "requireGroup d g = Inr (grp :: group_row)"
    "deriveMessageCausation d fresh g input rs = Inr c"
    "parse_message (draft_message now mid g (Suc (g_messageSequence grp)) input c) = Inr m"
    "insertable_message (bump_message_sequence g d) m"
    "d2 = (bump_message_sequence g d)\<lparr>db_messages := db_messages d @ [m],
           db_deliveries := db_deliveries d @ map (\<lambda>x. delivery_row (resolveDelivery m now x)) rs\<rparr>"
    "pruneGroupMessages g retain now d2 = Inr d3"
    "d' = append_event ''message.submitted'' ''message'' (msg_id m)
             (Pl_message_submitted g (msg_groupSeq m) st) now d3"
    using submit_message_InrD [OF assms(2)] by blast
  have fresh: "find_message (msg_id m) (db_messages d) = None"
    using h(4) by (simp add: insertable_message_def bump_message_sequence_def)
  have dist: "distinct (map msg_id (db_messages d2))"
    using assms(1) fresh by (auto simp: h(5) messages_sound_def find_where_None_iff)
  have "db_messages d' = forget (prune_victims d2 g retain) (db_messages d2)"
    using prune_InrD [OF h(6)] by (auto simp: h(7) Let_def forget_nothing split: if_splits)
  from pruned_group [OF dist this] show ?thesis by (auto simp: group_messages_def h(5))
qed

lemma sample_submit_parses: "parse_submit_command sample_submit = Inr sample_submit"
  by (simp add: parse_submit_command_def sample_submit_def sample_body guarded_def)

lemma retention_keeps_newest_witness:
  "\<exists>d' r. submit_message 30 ''m2'' ''c2'' 100 ''g'' sample_submit mail_db = Inr (d', r) \<and>
     length (group_messages d' ''g'') \<le> 100"
proof -
  obtain st where s: "submit_message 30 ''m2'' ''c2'' 100 ''g'' sample_submit mail_db =
     Inr (append_event ''message.submitted'' ''message'' ''m2'' (Pl_message_submitted ''g'' 2 st) 30 replied_db,
       Ir_message sample_reply [resolveDelivery sample_reply 30 ''a''])" using sample_submitted by blast
  have "parse_identifier ''c2'' = Inr ''c2''" by code_simp
  then show ?thesis
    using s retention_keeps_newest [OF _ s sample_submit_parses] mail_db_sound by (auto simp: mail_sound_def)
qed

subsection \<open>Pages\<close>

definition backward :: "int \<Rightarrow> int option \<Rightarrow> page_options" where
  "backward limit before = \<lparr>po_limit = Some limit, po_before = before, po_after = None\<rparr>"

definition older_than :: "int option \<Rightarrow> message \<Rightarrow> bool" where
  "older_than before m \<longleftrightarrow> (case before of None \<Rightarrow> True | Some n \<Rightarrow> int (msg_groupSeq m) < n)"

lemma filter_sorted_prefix:
  assumes "sorted (map msg_groupSeq L)"
  shows "L = filter (older_than b) L @ filter (\<lambda>m. \<not> older_than b m) L"
  using assms
proof (induction L)
  case (Cons m L)
  show ?case
  proof (cases "older_than b m")
    case False
    then have "\<forall>x\<in>set L. \<not> older_than b x" using Cons.prems by (auto simp: older_than_def split: option.splits)
    then show ?thesis using False by (simp add: filter_empty_conv filter_id_conv)
  qed (use Cons in simp)
qed simp

lemma foldr_min_le: "foldr min xs (a::nat) \<le> a \<and> (x \<in> set xs \<longrightarrow> foldr min xs a \<le> x)"
  by (induction xs) (auto simp: min_le_iff_disj)

lemma foldr_min_in: "foldr min xs (a::nat) \<in> insert a (set xs)"
  by (induction xs) (auto simp: min_def)

lemma strictly_below: "sorted (xs @ y # ys) \<Longrightarrow> distinct (xs @ y # ys) \<Longrightarrow> \<forall>x\<in>set xs. x < (y::nat)"
  by (induction xs) (auto simp: order.order_iff_strict)

lemma page_rows_backward:
  "page_rows d g (backward limit before) before n =
     take n (rev (filter (older_than before) (sort_key msg_groupSeq (group_messages d g))))"
  by (cases before) (simp_all add: page_rows_def backward_def Let_def older_than_def [abs_def])

lemma backward_page_InrD:
  assumes "listMessagePage d g (backward limit before) = Inr page"
  shows "1 \<le> limit \<and> mp_messages page = rev (take (nat limit)
       (rev (filter (older_than before) (sort_key msg_groupSeq (group_messages d g))))) \<and>
    (\<exists>st. getGroupMessageState d g = Inr st \<and>
       mp_nextBefore page = (case (mp_messages page, gm_oldestRetainedGroupSeq st) of
         (m # ms, Some b) \<Rightarrow> if b < msg_groupSeq m then Some (msg_groupSeq m) else None | _ \<Rightarrow> None))"
proof -
  obtain c where c: "check_page_options (backward limit before) = Inr (nat limit, c)" and l: "1 \<le> limit"
    using assms by (auto simp: listMessagePage_def rbind_eq_Inr check_page_options_def backward_def Let_def
        split: if_splits)
  have cb: "c = before"
    using c by (auto simp: check_page_options_def backward_def Let_def split: if_splits option.splits)
  have desc: "po_after (backward limit before) = None" by (simp add: backward_def)
  define M where "M = rev (take (nat limit) (rev (filter (older_than before)
      (sort_key msg_groupSeq (group_messages d g)))))"
  have tk: "rev (take (nat limit) (page_rows d g (backward limit before) before (nat limit + 1))) = M"
    by (simp add: page_rows_backward M_def)
  have "mp_messages page = M \<and> (\<exists>st. getGroupMessageState d g = Inr st \<and>
      mp_nextBefore page = (if (case (case M of [] \<Rightarrow> None | m # _ \<Rightarrow> Some (msg_groupSeq m),
          gm_oldestRetainedGroupSeq st) of (Some a, Some b) \<Rightarrow> b < a | _ \<Rightarrow> False)
        then (case M of [] \<Rightarrow> None | m # _ \<Rightarrow> Some (msg_groupSeq m)) else None))"
    using assms unfolding listMessagePage_def Let_def c rbind_simps prod.case cb desc simp_thms if_True tk
    by (clarsimp simp: rbind_eq_Inr) (auto split: list.split option.split)
  then show ?thesis
    using l unfolding M_def [symmetric] by (cases M) (auto split: option.split)
qed

text \<open>The oldest retained number is below a message of the history exactly when something precedes it.\<close>

lemma oldest_before:
  assumes st: "getGroupMessageState d g = Inr st"
    and split: "sort_key msg_groupSeq (group_messages d g) = older @ (m # rest) @ newer"
    and dist: "distinct (map msg_groupSeq (group_messages d g))"
  shows "gm_oldestRetainedGroupSeq st = Some b \<longrightarrow> (b < msg_groupSeq m \<longleftrightarrow> older \<noteq> [])"
proof
  assume b: "gm_oldestRetainedGroupSeq st = Some b"
  let ?ms = "group_messages d g" and ?S = "sort_key msg_groupSeq (group_messages d g)"
  have mem: "set ?ms = set older \<union> set (m # rest) \<union> set newer"
    using arg_cong [OF split, of set] by (simp add: Un_assoc)
  then have ne: "?ms \<noteq> []" by auto
  then have bmin: "b = foldr min (map msg_groupSeq ?ms) (msg_groupSeq (hd ?ms))"
    using st b by (auto simp: getGroupMessageState_def Let_def rbind_eq_Inr)
  have srt: "sorted (map msg_groupSeq (older @ (m # rest) @ newer))"
    by (subst split [symmetric]) (simp add: sorted_sort_key)
  have dst: "distinct (map msg_groupSeq (older @ (m # rest) @ newer))"
    using dist split by (metis mset_eq_imp_distinct_iff mset_map mset_sort)
  have below: "\<forall>x\<in>set older. msg_groupSeq x < msg_groupSeq m"
    using strictly_below [of "map msg_groupSeq older" "msg_groupSeq m" "map msg_groupSeq (rest @ newer)"] srt dst
    by simp
  have least: "\<forall>x\<in>set ((m # rest) @ newer). msg_groupSeq m \<le> msg_groupSeq x"
    using srt unfolding map_append sorted_append by auto
  show "b < msg_groupSeq m \<longleftrightarrow> older \<noteq> []"
  proof
    assume "older \<noteq> []"
    then obtain x where x: "x \<in> set older" by (meson list.set_sel(1))
    then have "b \<le> msg_groupSeq x" using foldr_min_le mem by (auto simp: bmin)
    then show "b < msg_groupSeq m" using below x by fastforce
  next
    assume lt: "b < msg_groupSeq m"
    have "b \<in> msg_groupSeq ` set ?ms"
      using foldr_min_in [of "map msg_groupSeq ?ms" "msg_groupSeq (hd ?ms)"] hd_in_set [OF ne]
      unfolding bmin by (metis imageI insertE set_map)
    then obtain x where x: "x \<in> set ?ms" "msg_groupSeq x = b" by auto
    have "x \<notin> set ((m # rest) @ newer)" using least x(2) lt by (metis leD)
    then have "x \<in> set older" using x(1) mem by auto
    then show "older \<noteq> []" by (metis empty_iff set_empty)
  qed
qed

text \<open> C30. A page read backwards is the stretch of the group's history, in order and of at most the asked
  length, that ends right before the cursor; its next cursor is its oldest message, and there is none
  exactly when nothing older is retained. Following the cursors therefore visits every message once.\<close>

theorem pages_walk_history:
  assumes page: "listMessagePage d g (backward limit before) = Inr page"
    and dist: "distinct (map msg_groupSeq (group_messages d g))"
  shows "\<exists>older newer. sort_key msg_groupSeq (group_messages d g) = older @ mp_messages page @ newer \<and>
    list_all (older_than before) (mp_messages page) \<and> list_all (\<lambda>m. \<not> older_than before m) newer \<and>
    int (length (mp_messages page)) \<le> limit \<and>
    mp_nextBefore page = (if older = [] then None else Some (msg_groupSeq (hd (mp_messages page))))"
proof -
  define S where "S = sort_key msg_groupSeq (group_messages d g)"
  define F where "F = filter (older_than before) S"
  define N where "N = filter (\<lambda>m. \<not> older_than before m) S"
  define k where "k = length F - nat limit"
  obtain st where l: "1 \<le> limit" and ms: "mp_messages page = rev (take (nat limit) (rev F))"
    and st: "getGroupMessageState d g = Inr st"
    and nb: "mp_nextBefore page = (case (mp_messages page, gm_oldestRetainedGroupSeq st) of
         (m # ms, Some b) \<Rightarrow> if b < msg_groupSeq m then Some (msg_groupSeq m) else None | _ \<Rightarrow> None)"
    using backward_page_InrD [OF page] unfolding F_def S_def by blast
  have ms': "mp_messages page = drop k F" by (simp add: ms take_rev k_def)
  have "S = F @ N" unfolding F_def N_def by (rule filter_sorted_prefix) (simp add: S_def sorted_sort_key)
  then have split: "S = take k F @ mp_messages page @ N" by (simp add: ms' flip: append_assoc)
  have "mp_nextBefore page = (if take k F = [] then None else Some (msg_groupSeq (hd (mp_messages page))))"
  proof (cases "mp_messages page")
    case Nil
    then have "length F \<le> k" by (simp add: ms')
    then have "length F = 0" using l unfolding k_def by linarith
    then have "F = []" by simp
    then show ?thesis using Nil nb by simp
  next
    case (Cons m rest)
    have least: "gm_oldestRetainedGroupSeq st = Some b \<longrightarrow> (b < msg_groupSeq m \<longleftrightarrow> take k F \<noteq> [])" for b
      by (rule oldest_before [OF st]) (use split Cons dist in \<open>simp_all add: S_def\<close>)
    have "group_messages d g \<noteq> []" using split Cons by (auto simp: S_def)
    then have "gm_oldestRetainedGroupSeq st \<noteq> None"
      using st by (auto simp: getGroupMessageState_def Let_def rbind_eq_Inr)
    then show ?thesis using nb least Cons by auto
  qed
  moreover have "list_all (older_than before) (mp_messages page)"
  proof -
    have "\<forall>x\<in>set F. older_than before x" by (simp add: F_def)
    then show ?thesis unfolding ms' list_all_iff by (auto dest: in_set_dropD)
  qed
  moreover have "int (length (mp_messages page)) \<le> limit" using l by (simp add: ms)
  ultimately show ?thesis using split unfolding S_def [symmetric] by (intro exI [of _ "take k F"] exI [of _ N]) (auto simp: list_all_iff N_def)
qed

lemma pages_walk_history_witness:
  "\<exists>page. listMessagePage mail_db ''g'' (backward 5 None) = Inr page \<and>
     (\<exists>older newer. sort_key msg_groupSeq (group_messages mail_db ''g'') = older @ mp_messages page @ newer)"
proof -
  have "\<not> isl (listMessagePage mail_db ''g'' (backward 5 None))" by code_simp
  then obtain page where p: "listMessagePage mail_db ''g'' (backward 5 None) = Inr page"
    by (cases "listMessagePage mail_db ''g'' (backward 5 None)") auto
  have "distinct (map msg_groupSeq (group_messages mail_db ''g''))" by code_simp
  from pages_walk_history [OF p this] show ?thesis using p by blast
qed

subsection \<open>Idempotency\<close>

text \<open> C32. A submission repeated under its key answers with the same message and deliveries and changes
  nothing, whatever ids and time the repetition would have used.\<close>

theorem resubmission_replays:
  assumes "submitMessage now sha mid fresh retain g cmd (Some key) d = Inr (d', r)"
  shows "submitMessage now2 sha mid2 fresh2 retain2 g cmd (Some key) d' = Inr (d', r)"
proof -
  obtain input where i: "parse_submit_command cmd = Inr input"
    "executeIdempotent now (submit_scope g) (Some key) (Some (sha g input))
       (submit_message now mid fresh retain g input) d = Inr (d', r)"
    using assms by (auto simp: submitMessage_def rbind_eq_Inr)
  obtain row where "idempotency_entry d' (submit_scope g) key = Some row" "ik_response row = r"
    "ik_invalidatedAt row = None" "ik_requestDigest row = Some (sha g input)"
    using executeIdempotent_retains [OF i(2)] by auto
  then show ?thesis using executeIdempotent_replays i(1) by (simp add: submitMessage_def)
qed

lemma resubmission_replays_witness:
  "\<exists>d'. submitMessage 30 (\<lambda>_ _. ''h'') ''m2'' ''c2'' 100 ''g'' sample_submit (Some ''k'') mail_db = Inr (d',
       Ir_message sample_reply [resolveDelivery sample_reply 30 ''a'']) \<and>
     submitMessage 90 (\<lambda>_ _. ''h'') ''m9'' ''c9'' 100 ''g'' sample_submit (Some ''k'') d' = Inr (d',
       Ir_message sample_reply [resolveDelivery sample_reply 30 ''a''])"
proof -
  obtain st where s: "submit_message 30 ''m2'' ''c2'' 100 ''g'' sample_submit mail_db =
     Inr (append_event ''message.submitted'' ''message'' ''m2'' (Pl_message_submitted ''g'' 2 st) 30 replied_db,
       Ir_message sample_reply [resolveDelivery sample_reply 30 ''a''])" using sample_submitted by blast
  have ik: "db_idempotency mail_db = []" "db_idempotency replied_db = []"
    by (simp_all add: mail_db_def replied_db_def empty_db_def)
  have "\<exists>d'. submitMessage 30 (\<lambda>_ _. ''h'') ''m2'' ''c2'' 100 ''g'' sample_submit (Some ''k'') mail_db = Inr (d',
       Ir_message sample_reply [resolveDelivery sample_reply 30 ''a''])"
    by (simp add: submitMessage_def sample_submit_parses executeIdempotent_def idempotency_entry_def ik s
        insert_idempotency_def)
  then show ?thesis using resubmission_replays by blast
qed

lemma find_where_skip: "\<forall>r\<in>set rs. \<not> p r \<Longrightarrow> find_where p (rs @ [x]) = (if p x then Some x else None)"
  by (simp add: find_where_append find_where_None_iff [THEN iffD2])

text \<open> C18. An HTTP request that is answered under its key is executed once: until the retained response
  expires, the same request gets that response without its handler being run, and another body under
  the key is refused. (No handler writes the table of reservations.)\<close>

theorem http_executed_once:
  assumes run: "executeHttpIdempotency now completedAt q operation d = Inr (d1, He_executed code response)"
    and keep: "\<And>e e' out. operation e = Inr (e', out) \<Longrightarrow> db_http e' = db_http e"
    and t: "t < completedAt + 24 * 60 * 60000" and q': "same_request q' = same_request q"
  shows "executeHttpIdempotency t done_at q' operation' d1 =
    (if hq_requestDigest q' = hq_requestDigest q then Inr (drop_expired_http t d1, He_replay code response)
     else Inl (DomainError ''idempotency_request_conflict'' 409))"
proof -
  obtain d0 d2 where h: "claimHttpIdempotency now None q d = Inr (d0, Hc_execute)"
    "operation d0 = Inr (d2, Settled code response)"
    "completeHttpIdempotency completedAt None q code response d2 = Inr (d1, ())"
  proof -
    obtain d0 claim where c: "claimHttpIdempotency now None q d = Inr (d0, claim)"
      "(case claim of Hc_replay code response \<Rightarrow> Inr (d0, He_replay code response)
       | Hc_execute \<Rightarrow> rbind (operation d0) (\<lambda>(d2, outcome). case outcome of
           Promise \<Rightarrow> Inl (PlainError ''Transactional HTTP idempotency handlers must be synchronous'')
         | Settled code response \<Rightarrow> rbind (completeHttpIdempotency completedAt None q code response d2)
             (\<lambda>(d3, _). Inr (d3, He_executed code response)))) = Inr (d1, He_executed code response)"
      using run by (auto simp: executeHttpIdempotency_def rbind_eq_Inr)
    then obtain d2 out where e: "claim = Hc_execute" "operation d0 = Inr (d2, out)"
      "(case out of Promise \<Rightarrow> Inl (PlainError ''Transactional HTTP idempotency handlers must be synchronous'')
       | Settled code response \<Rightarrow> rbind (completeHttpIdempotency completedAt None q code response d2)
             (\<lambda>(d3, _). Inr (d3, He_executed code response))) = Inr (d1, He_executed code response)"
      by (cases claim) (auto simp: rbind_eq_Inr)
    then show thesis using c(1) that by (cases out) (auto simp: rbind_eq_Inr)
  qed
  let ?f = "\<lambda>r. r\<lparr>hk_response := response, hk_completed := True, hk_statusCode := Some code,
                 hk_updatedAt := completedAt, hk_expiresAt := completedAt + 24 * 60 * 60000\<rparr>"
  define rs where "rs = db_http (drop_expired_http now d)"
  obtain new where none: "find_where (same_request q) rs = None" and d0: "db_http d0 = rs @ [new]"
    and new: "reserved q new" "same_request q new" "hk_requestDigest new = hq_requestDigest q"
    using h(1)
    by (auto simp: claimHttpIdempotency_def Let_def rbind_eq_Inr http_replay_def http_entry_def rs_def
        reserved_def same_request_def split: option.splits if_splits)
  have free: "\<forall>r\<in>set rs. \<not> same_request q r" using none by (simp add: find_where_None_iff)
  then have "update_where (reserved q) ?f rs = rs" by (intro untouched_rows [THEN conjunct1]) (auto simp: reserved_def)
  then have d1: "db_http d1 = rs @ [?f new]"
    using h(3) keep [OF h(2)] new d0
    by (auto simp: completeHttpIdempotency_def update_where_def split: if_splits)
  have "\<forall>r\<in>set (delete_where (\<lambda>r. hk_completed r \<and> hk_expiresAt r \<le> t) rs). \<not> same_request q r"
    using free by (auto simp: delete_where_def)
  then have "http_entry (drop_expired_http t d1) q' = Some (?f new)"
    using t new(2) by (simp add: http_entry_def drop_expired_http_def d1 delete_where_def q' find_where_skip)
      (simp add: same_request_def)
  then show ?thesis
    using new(3) by (simp add: executeHttpIdempotency_def claimHttpIdempotency_def Let_def http_replay_def)
qed

definition sample_request :: http_request where
  "sample_request = \<lparr>hq_principalId = ''op'', hq_routeId = ''r'', hq_key = ''k'', hq_requestDigest = ''h''\<rparr>"

lemma http_executed_once_witness:
  "\<exists>d1. executeHttpIdempotency 0 1 sample_request (\<lambda>d. Inr (d, Settled 201 ''ok'')) empty_db =
      Inr (d1, He_executed 201 ''ok'') \<and>
    executeHttpIdempotency 5 6 sample_request (\<lambda>d. Inl ConstraintError) d1 =
      Inr (drop_expired_http 5 d1, He_replay 201 ''ok'')"
proof -
  have "\<exists>d1. executeHttpIdempotency 0 1 sample_request (\<lambda>d. Inr (d, Settled 201 ''ok'')) empty_db =
      Inr (d1, He_executed 201 ''ok'')"
    by (simp add: executeHttpIdempotency_def claimHttpIdempotency_def http_entry_def drop_expired_http_def
        empty_db_def delete_where_def completeHttpIdempotency_def count_where_def reserved_def same_request_def)
  then obtain d1 where d1: "executeHttpIdempotency 0 1 sample_request (\<lambda>d. Inr (d, Settled 201 ''ok'')) empty_db =
      Inr (d1, He_executed 201 ''ok'')" by blast
  have "executeHttpIdempotency 5 6 sample_request (\<lambda>d. Inl ConstraintError) d1 =
      Inr (drop_expired_http 5 d1, He_replay 201 ''ok'')"
    by (subst http_executed_once [OF d1]) auto
  then show ?thesis using d1 by blast
qed


subsection \<open>The order of groups and agents\<close>

lemma sort_key_id: "sorted (map f xs) \<Longrightarrow> sort_key f xs = xs"
  by (induction xs) (auto intro: insort_is_Cons)

lemma orderedAgentEntries_normal:
  "orderedAgentEntries (normalizeAgentOrder agents) = normalizeAgentOrder agents"
proof -
  let ?xs = "orderedAgentEntries agents"
  have "map (\<lambda>p. agent_rank (snd p)) (normalizeAgentOrder agents) = map (\<lambda>k. (0, k)) [0..<length ?xs]"
    unfolding normalizeAgentOrder_def enumerate_eq_zip
    by (rule nth_equalityI) (auto simp: agent_rank_def split: prod.splits)
  moreover have "sorted (map (\<lambda>k. (0::nat, k)) [0..<n])" for n
    by (auto simp: sorted_iff_nth_mono less_eq_prod_def)
  ultimately show ?thesis unfolding orderedAgentEntries_def by (simp add: sort_key_id)
qed

lemma normalizeAgentOrder_idem: "normalizeAgentOrder (normalizeAgentOrder agents) = normalizeAgentOrder agents"
  unfolding normalizeAgentOrder_def [of "normalizeAgentOrder agents"] orderedAgentEntries_normal
  by (rule nth_equalityI) (auto simp: normalizeAgentOrder_def nth_enumerate_eq split: prod.splits)

lemma orderedGroupEntries_normal:
  "orderedGroupEntries (normalizeGroupOrder groups) = normalizeGroupOrder groups"
proof -
  let ?xs = "orderedGroupEntries groups"
  have "map group_rank (enumerate 0 (normalizeGroupOrder groups)) = [0..<length ?xs]"
    by (rule nth_equalityI)
      (auto simp: normalizeGroupOrder_def group_rank_def nth_enumerate_eq split: prod.splits)
  then have "sort_key group_rank (enumerate 0 (normalizeGroupOrder groups)) = enumerate 0 (normalizeGroupOrder groups)"
    by (simp add: sort_key_id)
  then show ?thesis by (simp add: orderedGroupEntries_def)
qed

text \<open> C33. Writing the normalised order into the configuration settles it: normalising again changes nothing,
  and reading the groups back in order gives them as they were written.\<close>

theorem normalised_order_is_stable:
  "orderedGroupEntries (normalizeGroupOrder groups) = normalizeGroupOrder groups \<and>
   normalizeGroupOrder (normalizeGroupOrder groups) = normalizeGroupOrder groups"
proof
  show ordered: "orderedGroupEntries (normalizeGroupOrder groups) = normalizeGroupOrder groups"
    by (rule orderedGroupEntries_normal)
  show "normalizeGroupOrder (normalizeGroupOrder groups) = normalizeGroupOrder groups"
    unfolding normalizeGroupOrder_def [of "normalizeGroupOrder groups"] ordered
    by (rule nth_equalityI)
      (auto simp: normalizeGroupOrder_def nth_enumerate_eq normalizeAgentOrder_idem split: prod.splits)
qed

end
