(* ===== verification/Topology_Convergence.thy ===== *)
theory Topology_Convergence
  imports Store_Groups "HOL-Library.Multiset"
begin

text \<open>
  What \<open>reconcileTopology\<close> achieves: afterwards the group rows, the profiles and the active
  memberships are those of the configuration, and reconciling with the same configuration again
  changes nothing (but, while the table holds groups the configuration lacks, the order revision).
\<close>

subsection \<open>Keys of the tables\<close>

definition keyed :: "db \<Rightarrow> bool" where
  "keyed d \<longleftrightarrow> distinct (map g_id (db_groups d)) \<and> distinct (map m_id (db_memberships d)) \<and>
     distinct (map (\<lambda>m. (m_groupId m, m_memberId m)) (db_memberships d)) \<and> distinct (map ap_id (db_profiles d))"

text \<open>The configuration schema: keys of an object, agent ids unique, member ids unique in a group.\<close>

definition config_unique :: "config \<Rightarrow> bool" where
  "config_unique c \<longleftrightarrow> distinct (map fst (cf_groups c)) \<and>
     distinct (concat (map (\<lambda>(i, g). map fst (cg_agents g)) (cf_groups c))) \<and>
     (\<forall>(i, g)\<in>set (cf_groups c). distinct (map (\<lambda>(a, x). ca_memberId x) (cg_agents g)))"

subsection \<open>Settled stores\<close>

definition as_configured :: "string \<Rightarrow> nat \<Rightarrow> string \<Rightarrow> configured_agent \<Rightarrow> membership_row \<Rightarrow> bool" where
  "as_configured i j agentId a q \<longleftrightarrow> configured_membership (m_joinedAt q) i j agentId a = q"

definition profile_settled :: "db \<Rightarrow> string \<times> configured_agent \<Rightarrow> bool" where
  "profile_settled d e \<longleftrightarrow> \<lparr>ap_id = fst e, ap_agentType = ca_integrationId (snd e)\<rparr> \<in> set (db_profiles d)"

definition members_settled :: "db \<Rightarrow> string \<Rightarrow> configured_group \<Rightarrow> bool" where
  "members_settled d i g \<longleftrightarrow>
     (\<forall>(j, a, x)\<in>set (enumerate 0 (orderedAgentEntries (cg_agents g))). \<exists>q\<in>set (db_memberships d). as_configured i j a x q) \<and>
     (\<forall>q\<in>set (active_memberships d i). m_id q \<in> fst ` set (cg_agents g))"

definition group_settled :: "db \<Rightarrow> nat \<times> string \<times> configured_group \<Rightarrow> bool" where
  "group_settled d e \<longleftrightarrow> (case e of (k, i, g) \<Rightarrow>
     (\<exists>r\<in>set (db_groups d). g_id r = i \<and> g_name r = cg_name g \<and> g_order r = k) \<and> members_settled d i g)"

definition settled :: "config \<Rightarrow> db \<Rightarrow> bool" where
  "settled c d \<longleftrightarrow> keyed d \<and>
     (\<forall>(i, g)\<in>set (cf_groups c). \<forall>e\<in>set (cg_agents g). ca_integrationId (snd e) \<in> set (cf_integrations c) \<and> profile_settled d e) \<and>
     (\<forall>e\<in>set (enumerate 0 (orderedGroupEntries (cf_groups c))). group_settled d e) \<and>
     (\<forall>m\<in>set (db_memberships d). m_active m \<longrightarrow> list_ex (\<lambda>g. g_id g = m_groupId m) (db_groups d) \<longrightarrow>
        m_groupId m \<in> fst ` set (cf_groups c))"

subsection \<open>A settled store stays\<close>

lemma keyed_update_same:
  assumes "distinct (map key rs)" and "r \<in> set rs" and "f r = r"
  shows "update_where (\<lambda>q. key q = key r) f rs = rs"
proof -
  have "(if key q = key r then f q else q) = q" if "q \<in> set rs" for q
  proof (cases "key q = key r")
    case True
    then have "q = r" using assms(1,2) that by (auto simp: distinct_map inj_on_def)
    then show ?thesis using assms(3) by simp
  qed simp
  then show ?thesis unfolding update_where_def by (rule map_idI)
qed

lemma set_ordered [simp]: "set (orderedAgentEntries as) = set as" "set (orderedGroupEntries gs) = set gs"
  by (auto simp: orderedAgentEntries_def orderedGroupEntries_def enumerate_eq_zip set_zip image_iff in_set_conv_nth)
    (metis length_upt minus_nat.diff_0 nth_mem)+

lemma upsert_profiles_settled:
  assumes "keyed d" and "\<forall>e\<in>set es. ca_integrationId (snd e) \<in> set ints \<and> profile_settled d e"
  shows "upsert_profiles ints es d = Inr d"
  using assms(2)
proof (induction es)
  case (Cons e es)
  obtain i a where e: "e = (i, a)" by (cases e)
  let ?p = "\<lparr>ap_id = i, ap_agentType = ca_integrationId a\<rparr>"
  have p: "?p \<in> set (db_profiles d)" using Cons.prems by (simp add: e profile_settled_def)
  have "update_where (\<lambda>q. ap_id q = ap_id ?p) (\<lambda>q. q\<lparr>ap_agentType := ca_integrationId a\<rparr>) (db_profiles d) = db_profiles d"
    by (rule keyed_update_same [OF _ p]) (use assms(1) in \<open>simp_all add: keyed_def\<close>)
  then have "upsert_profile i (ca_integrationId a) d = d"
    using p by (auto simp: upsert_profile_def list_ex_iff intro!: bexI [of _ ?p])
  then show ?case using Cons by (simp add: e)
qed simp

lemma as_configured_fields:
  "as_configured i j a x q \<longleftrightarrow> m_id q = a \<and> m_groupId q = i \<and> m_memberId q = ca_memberId x \<and>
     m_agentProfileId q = a \<and> m_alias q = ca_name x \<and> m_roleId q = ca_roleId x \<and> m_order q = j \<and> m_active q \<and>
     m_removedAt q = None"
  by (cases q) (auto simp: as_configured_def configured_membership_def)

lemma upsert_settled_membership:
  assumes k: "keyed d" and q: "q \<in> set (db_memberships d)" "as_configured i j a x q"
  shows "upsert_membership (configured_membership now i j a x) d = Inr d"
proof -
  let ?m = "configured_membership now i j a x"
  have m4: "?m\<lparr>m_joinedAt := m_joinedAt q\<rparr> = q"
    using q(2) by (simp add: as_configured_def configured_membership_def)
  have m: "m_id ?m = m_id q" "m_groupId ?m = m_groupId q" "m_memberId ?m = m_memberId q"
    using q(2) by (auto simp: as_configured_fields configured_membership_def)
  have "\<not> list_ex (\<lambda>r. m_id r \<noteq> m_id q \<and> m_groupId r = m_groupId q \<and> m_memberId r = m_memberId q) (db_memberships d)"
    using k q(1) by (auto simp: keyed_def distinct_map inj_on_def list_ex_iff)
  moreover have "update_where (\<lambda>r. m_id r = m_id q) (\<lambda>r. ?m\<lparr>m_joinedAt := m_joinedAt r\<rparr>) (db_memberships d) = db_memberships d"
    by (rule keyed_update_same [OF _ q(1)]) (use k m4 in \<open>simp_all add: keyed_def\<close>)
  ultimately show ?thesis using q(1)
    by (auto simp: upsert_membership_def m put_membership_def list_ex_iff)
qed

lemma upsert_settled_memberships:
  assumes "keyed d" and "\<forall>(j, a, x)\<in>set es. \<exists>q\<in>set (db_memberships d). as_configured i j a x q"
  shows "upsert_memberships (map (\<lambda>(j, a, x). configured_membership now i j a x) es) d = Inr d"
  using assms(2) by (induction es) (auto simp: upsert_settled_membership [OF assms(1)])


lemma sort_same_mset: "mset xs = mset ys \<Longrightarrow> sort xs = sort ys"
  by (metis sorted_list_of_multiset_mset)

lemma settled_identity:
  assumes k: "keyed d" and s: "members_settled d i g" and dist: "distinct (map fst (cg_agents g))"
    and prior: "db_memberships prior = db_memberships d"
  shows "prior_identity prior i = desired_identity g"
proof -
  let ?R = "active_memberships d i" and ?A = "cg_agents g"
  let ?r = "\<lambda>m. (m_id m, m_memberId m, m_agentProfileId m)" and ?t = "\<lambda>(a, x). (a, ca_memberId x, a)"
  have row: "\<exists>q\<in>set ?R. ?r q = ?t e \<and> m_id q = fst e" if "e \<in> set ?A" for e
  proof -
    obtain a x where e: "e = (a, x)" by (cases e)
    have "(a, x) \<in> snd ` set (enumerate 0 (orderedAgentEntries ?A))"
      using that e by (simp flip: set_map)
    then obtain j where "(j, a, x) \<in> set (enumerate 0 (orderedAgentEntries ?A))" by force
    then obtain q where q: "q \<in> set (db_memberships d)" "as_configured i j a x q"
      using s by (auto simp: members_settled_def)
    then show ?thesis using e by (auto simp: as_configured_fields active_memberships_def)
  qed
  have ids: "distinct (map m_id ?R)" using k by (simp add: keyed_def active_memberships_def distinct_map_filter)
  have agent_of: "\<exists>e\<in>set ?A. ?r q = ?t e" if q: "q \<in> set ?R" for q
  proof -
    obtain e where e: "e \<in> set ?A" "m_id q = fst e" using s q by (auto simp: members_settled_def)
    obtain q' where "q' \<in> set ?R" "?r q' = ?t e" "m_id q' = fst e" using row [OF e(1)] by blast
    moreover have "q' = q" using ids calculation(1,3) q e(2) by (auto simp: distinct_map inj_on_def)
    ultimately show ?thesis using e(1) by blast
  qed
  have "set (map ?r ?R) = set (map ?t ?A)"
  proof
    show "set (map ?r ?R) \<subseteq> set (map ?t ?A)" using agent_of by (fastforce simp: image_iff)
    show "set (map ?t ?A) \<subseteq> set (map ?r ?R)" using row by (fastforce simp: image_iff)
  qed
  moreover have "distinct (map ?r ?R)" using ids by (auto simp: distinct_map inj_on_def)
  moreover have "distinct (map fst (map ?t ?A))" using dist by (simp add: comp_def case_prod_unfold)
  then have "distinct (map ?t ?A)" using distinct_map [of fst "map ?t ?A"] by blast
  ultimately have "mset (map ?r ?R) = mset (map ?t ?A)" using set_eq_iff_mset_eq_distinct by blast
  then have "image_mset (\<lambda>(a, b, c). identity_entry a b c) (mset (map ?r ?R)) =
      image_mset (\<lambda>(a, b, c). identity_entry a b c) (mset (map ?t ?A))" by (rule arg_cong)
  then have "mset (map (\<lambda>m. identity_entry (m_id m) (m_memberId m) (m_agentProfileId m)) ?R) =
      mset (map (\<lambda>(a, x). identity_entry a (ca_memberId x) a) ?A)"
    by (simp add: image_mset.compositionality comp_def case_prod_unfold)
  then show ?thesis
    unfolding prior_identity_def desired_identity_def active_memberships_def prior
    by (rule sort_same_mset)
qed

lemma reconcile_settled_group:
  assumes k: "keyed d" and s: "group_settled d (n, i, g)" and dist: "distinct (map fst (cg_agents g))"
    and prior: "db_memberships prior = db_memberships d"
  shows "reconcile_group now prior n (i, g) d = Inr d"
proof -
  have ms: "members_settled d i g" using s by (simp add: group_settled_def)
  obtain r where r: "r \<in> set (db_groups d)" "g_id r = i" "g_name r = cg_name g" "g_order r = n"
    using s by (auto simp: group_settled_def)
  have find: "find_where (\<lambda>q. g_id q = i) (db_groups d) = Some r"
  proof (cases "find_where (\<lambda>q. g_id q = i) (db_groups d)")
    case None
    then show ?thesis using r by (auto simp: find_where_None_iff)
  next
    case (Some e)
    then have "e \<in> set (db_groups d)" "g_id e = i" by (auto dest: find_where_SomeD)
    then show ?thesis using Some r k by (auto simp: keyed_def distinct_map inj_on_def)
  qed
  have row: "configured_group_row now i n g (g_membershipRevision r + 0) (Some r) = r"
    using r by (simp add: configured_group_row_def)
  have "update_where (\<lambda>q. g_id q = g_id r) (\<lambda>_. r) (db_groups d) = db_groups d"
    by (rule keyed_update_same [OF _ r(1)]) (use k in \<open>simp_all add: keyed_def\<close>)
  then have up: "upsert_group r d = d"
    using r(1) by (auto simp: upsert_group_def put_group_def list_ex_iff)
  have mem: "upsert_memberships (map (\<lambda>(j, a, x). configured_membership now i j a x)
      (enumerate 0 (orderedAgentEntries (cg_agents g)))) d = Inr d"
    by (rule upsert_settled_memberships [OF k]) (use ms in \<open>simp add: members_settled_def\<close>)
  have "foldl (\<lambda>d3 m. if m_id m \<in> fst ` set (cg_agents g) then d3 else retire_membership now i m d3) d qs = d"
    if "\<forall>q\<in>set qs. m_id q \<in> fst ` set (cg_agents g)" for qs
    using that by (induction qs) auto
  then have fold: "foldl (\<lambda>d3 m. if m_id m \<in> fst ` set (cg_agents g) then d3 else retire_membership now i m d3) d
      (active_memberships d i) = d" using ms by (simp add: members_settled_def)
  show ?thesis
    unfolding reconcile_group_def Let_def prod.case find option.case settled_identity [OF k ms dist prior]
    by (simp add: row up mem fold del: add_0_right) (simp add: row [simplified] up mem fold)
qed


lemma reconcile_settled_groups:
  "keyed d \<Longrightarrow> \<forall>e\<in>set (enumerate n es). group_settled d e \<Longrightarrow> \<forall>(i, g)\<in>set es. distinct (map fst (cg_agents g)) \<Longrightarrow>
   db_memberships prior = db_memberships d \<Longrightarrow> reconcile_groups now prior n es d = Inr d"
proof (induction es arbitrary: n)
  case (Cons e es)
  obtain i g where e: "e = (i, g)" by (cases e)
  have "reconcile_group now prior n (i, g) d = Inr d"
    by (rule reconcile_settled_group [OF Cons.prems(1) _ _ Cons.prems(4)]) (use Cons.prems(2,3) e in auto)
  then show ?case using Cons.IH [of "Suc n"] Cons.prems by (simp add: e)
qed simp

lemma settled_order_revision [simp]: "settled c (d\<lparr>db_orderRevision := n\<rparr>) = settled c d"
  by (simp add: settled_def keyed_def profile_settled_def group_settled_def members_settled_def
      active_memberships_def)

lemma settled_reconciles:
  assumes s: "settled c d" and u: "config_unique c"
  shows "\<exists>n. reconcileTopology now c d = Inr (d\<lparr>db_orderRevision := n\<rparr>)"
proof -
  let ?gs = "orderedGroupEntries (cf_groups c)"
  define d1 where "d1 = bump_order_revision ?gs d"
  obtain n where n: "d1 = d\<lparr>db_orderRevision := n\<rparr>"
  proof (cases "desired_order ?gs = persisted_order d")
    case True
    then have "d1 = d\<lparr>db_orderRevision := db_orderRevision d\<rparr>" by (simp add: d1_def bump_order_revision_def)
    then show ?thesis by (rule that)
  next
    case False
    then have "d1 = d\<lparr>db_orderRevision := Suc (db_orderRevision d)\<rparr>" by (simp add: d1_def bump_order_revision_def)
    then show ?thesis by (rule that)
  qed
  have s1: "settled c d1" using s n by simp
  have agents: "distinct (map fst (cg_agents g))" if "(i, g) \<in> set (cf_groups c)" for i g
    using u that by (auto simp: config_unique_def distinct_concat_iff)
  have p: "upsert_profiles (cf_integrations c) (concat (map (\<lambda>(i, g). cg_agents g) ?gs)) d1 = Inr d1"
    by (rule upsert_profiles_settled) (use s1 in \<open>fastforce simp: settled_def\<close>)+
  have g: "reconcile_groups now d1 0 ?gs d1 = Inr d1"
    by (rule reconcile_settled_groups) (use s1 agents in \<open>auto simp: settled_def\<close>)
  have "update_where (\<lambda>m. m_active m \<and> m_groupId m \<notin> set (map fst (cf_groups c)) \<and>
      list_ex (\<lambda>g. g_id g = m_groupId m) (db_groups d1)) f (db_memberships d1) = db_memberships d1" for f
    by (rule update_where_none) (use s1 in \<open>auto simp: settled_def\<close>)
  then have "retire_missing_groups now (map fst (cf_groups c)) d1 = d1"
    by (simp add: retire_missing_groups_def)
  then show ?thesis using p g n by (auto simp: reconcileTopology_def Let_def d1_def)
qed


subsection \<open>Reconciliation settles\<close>

lemma distinct_update_where:
  assumes "\<And>r. key (f r) = key r" and "distinct (map key rs)"
  shows "distinct (map key (update_where p f rs))"
proof -
  have "map key (update_where p f rs) = map key rs" by (simp add: update_where_def assms(1))
  then show ?thesis using assms(2) by simp
qed

lemma upsert_profile_rows:
  assumes "keyed d"
  shows "keyed (upsert_profile i t d)" and "\<lparr>ap_id = i, ap_agentType = t\<rparr> \<in> set (db_profiles (upsert_profile i t d))"
    and "\<forall>p\<in>set (db_profiles d). ap_id p \<noteq> i \<longrightarrow> p \<in> set (db_profiles (upsert_profile i t d))"
    and "db_groups (upsert_profile i t d) = db_groups d" and "db_memberships (upsert_profile i t d) = db_memberships d"
proof -
  show "keyed (upsert_profile i t d)"
    using assms by (auto simp: upsert_profile_def keyed_def list_ex_iff intro!: distinct_update_where)
  show "\<lparr>ap_id = i, ap_agentType = t\<rparr> \<in> set (db_profiles (upsert_profile i t d))"
  proof (cases "list_ex (\<lambda>p. ap_id p = i) (db_profiles d)")
    case True
    then obtain p where p: "p \<in> set (db_profiles d)" "ap_id p = i" by (auto simp: list_ex_iff)
    from p(2) have "\<lparr>ap_id = i, ap_agentType = t\<rparr> = p\<lparr>ap_agentType := t\<rparr>" by (cases p) auto
    then show ?thesis using p True
      by (auto simp: upsert_profile_def set_update_where intro!: image_eqI [of _ _ p])
  qed (simp add: upsert_profile_def)
qed (auto simp: upsert_profile_def set_update_where)

lemma upsert_profiles_settle:
  "upsert_profiles ints es d = Inr d' \<Longrightarrow> keyed d \<Longrightarrow> distinct (map fst es) \<Longrightarrow>
   keyed d' \<and> db_groups d' = db_groups d \<and> db_memberships d' = db_memberships d \<and>
   (\<forall>e\<in>set es. ca_integrationId (snd e) \<in> set ints \<and> profile_settled d' e) \<and>
   (\<forall>p\<in>set (db_profiles d). ap_id p \<notin> fst ` set es \<longrightarrow> p \<in> set (db_profiles d'))"
proof (induction es arbitrary: d)
  case (Cons e es)
  obtain i a where e: "e = (i, a)" by (cases e)
  let ?d = "upsert_profile i (ca_integrationId a) d"
  note rows = upsert_profile_rows [OF Cons.prems(2), where i = i and t = "ca_integrationId a"]
  have ih: "keyed d' \<and> db_groups d' = db_groups ?d \<and> db_memberships d' = db_memberships ?d \<and>
     (\<forall>e\<in>set es. ca_integrationId (snd e) \<in> set ints \<and> profile_settled d' e) \<and>
     (\<forall>p\<in>set (db_profiles ?d). ap_id p \<notin> fst ` set es \<longrightarrow> p \<in> set (db_profiles d'))"
    by (rule Cons.IH) (use Cons.prems rows(1) e in \<open>auto split: if_splits\<close>)
  have "profile_settled d' e" using ih rows(2) Cons.prems(3) by (auto simp: e profile_settled_def)
  moreover have "ca_integrationId a \<in> set ints" using Cons.prems(1) e by (auto split: if_splits)
  ultimately show ?case using ih rows(3-5) by (auto simp: e)
qed simp

definition same_but_joined :: "membership_row \<Rightarrow> membership_row \<Rightarrow> bool" where
  "same_but_joined m q \<longleftrightarrow> m\<lparr>m_joinedAt := 0\<rparr> = q\<lparr>m_joinedAt := 0\<rparr>"

lemma same_but_joined_id: "same_but_joined m q \<Longrightarrow> m_id q = m_id m"
  by (cases m, cases q) (simp add: same_but_joined_def)

lemma upsert_membership_rows:
  assumes run: "upsert_membership m d = Inr d'" and k: "keyed d"
  shows "keyed d' \<and> db_groups d' = db_groups d \<and> db_profiles d' = db_profiles d \<and>
    (\<exists>q\<in>set (db_memberships d'). same_but_joined m q) \<and>
    (\<forall>q. m_id q \<noteq> m_id m \<longrightarrow> (q \<in> set (db_memberships d') \<longleftrightarrow> q \<in> set (db_memberships d))) \<and>
    (\<forall>q\<in>set (db_memberships d'). m_id q = m_id m \<longrightarrow> same_but_joined m q)"
proof -
  have free: "\<forall>q\<in>set (db_memberships d). m_id q \<noteq> m_id m \<longrightarrow> (m_groupId q, m_memberId q) \<noteq> (m_groupId m, m_memberId m)"
    using run by (auto simp: upsert_membership_def list_ex_iff split: if_splits)
  show ?thesis
  proof (cases "list_ex (\<lambda>q. m_id q = m_id m) (db_memberships d)")
    case True
    let ?f = "\<lambda>q. m\<lparr>m_joinedAt := m_joinedAt q\<rparr>"
    have d': "d' = put_membership (m_id m) ?f d" using run True by (auto simp: upsert_membership_def split: if_splits)
    have ms: "db_memberships d' = map (\<lambda>q. if m_id q = m_id m then ?f q else q) (db_memberships d)"
      by (simp add: d' put_membership_def update_where_def)
    have "map m_id (db_memberships d') = map m_id (db_memberships d)" by (simp add: ms)
    moreover have "distinct (map (\<lambda>m. (m_groupId m, m_memberId m)) (db_memberships d'))"
      unfolding ms map_map distinct_map using k free
      by (auto simp: keyed_def distinct_map inj_on_def split: if_splits)
    ultimately have "keyed d'" using k by (simp add: keyed_def d' put_membership_def)
    moreover have rows: "set (db_memberships d') = ?f ` {q \<in> set (db_memberships d). m_id q = m_id m} \<union>
        {q \<in> set (db_memberships d). m_id q \<noteq> m_id m}"
      unfolding ms by auto
    moreover have "\<exists>q\<in>set (db_memberships d'). same_but_joined m q"
    proof -
      obtain q where q: "q \<in> set (db_memberships d)" "m_id q = m_id m" using True by (auto simp: list_ex_iff)
      then have "?f q \<in> set (db_memberships d')" unfolding rows by blast
      then show ?thesis by (rule rev_bexI) (simp add: same_but_joined_def)
    qed
    moreover have "\<forall>q\<in>set (db_memberships d'). m_id q = m_id m \<longrightarrow> same_but_joined m q"
      unfolding rows by (auto simp: same_but_joined_def)
    ultimately show ?thesis by (auto simp: d' put_membership_def)
  next
    case False
    then have d': "d' = d\<lparr>db_memberships := db_memberships d @ [m]\<rparr>"
      using run by (auto simp: upsert_membership_def split: if_splits)
    have "keyed d'" using k False free by (auto simp: keyed_def d' list_ex_iff)
    then show ?thesis using False by (auto simp: d' same_but_joined_def list_ex_iff)
  qed
qed

lemma upsert_memberships_rows:
  "upsert_memberships ms d = Inr d' \<Longrightarrow> keyed d \<Longrightarrow> distinct (map m_id ms) \<Longrightarrow>
   keyed d' \<and> db_groups d' = db_groups d \<and> db_profiles d' = db_profiles d \<and>
   (\<forall>m\<in>set ms. \<exists>q\<in>set (db_memberships d'). same_but_joined m q) \<and>
   (\<forall>q. m_id q \<notin> m_id ` set ms \<longrightarrow> (q \<in> set (db_memberships d') \<longleftrightarrow> q \<in> set (db_memberships d))) \<and>
   (\<forall>q\<in>set (db_memberships d'). m_id q \<in> m_id ` set ms \<longrightarrow> (\<exists>m\<in>set ms. same_but_joined m q))"
proof (induction ms arbitrary: d)
  case (Cons m ms)
  obtain d1 where d1: "upsert_membership m d = Inr d1" "upsert_memberships ms d1 = Inr d'"
    using Cons.prems(1) by (auto simp: rbind_eq_Inr)
  note a = upsert_membership_rows [OF d1(1) Cons.prems(2)]
  have b: "keyed d' \<and> db_groups d' = db_groups d1 \<and> db_profiles d' = db_profiles d1 \<and>
   (\<forall>m\<in>set ms. \<exists>q\<in>set (db_memberships d'). same_but_joined m q) \<and>
   (\<forall>q. m_id q \<notin> m_id ` set ms \<longrightarrow> (q \<in> set (db_memberships d') \<longleftrightarrow> q \<in> set (db_memberships d1))) \<and>
   (\<forall>q\<in>set (db_memberships d'). m_id q \<in> m_id ` set ms \<longrightarrow> (\<exists>m\<in>set ms. same_but_joined m q))"
    by (rule Cons.IH [OF d1(2)]) (use a Cons.prems(3) in auto)
  have fresh: "m_id m \<notin> m_id ` set ms" using Cons.prems(3) by auto
  obtain q where q: "q \<in> set (db_memberships d1)" "same_but_joined m q" using a by blast
  then have "q \<in> set (db_memberships d')" using b fresh same_but_joined_id [OF q(2)] by metis
  then have 1: "\<forall>x\<in>set (m # ms). \<exists>q\<in>set (db_memberships d'). same_but_joined x q" using b q(2) by auto
  have 2: "\<forall>q. m_id q \<notin> m_id ` set (m # ms) \<longrightarrow> (q \<in> set (db_memberships d') \<longleftrightarrow> q \<in> set (db_memberships d))"
    using a b by auto
  have 3: "\<forall>q\<in>set (db_memberships d'). m_id q \<in> m_id ` set (m # ms) \<longrightarrow> (\<exists>m\<in>set (m # ms). same_but_joined m q)"
    using a b by (metis image_insert insert_iff list.set(2))
  show ?case using a b 1 2 3 by simp
qed simp


lemma retire_memberships_rows:
  assumes "keyed d"
  shows "keyed (foldl (\<lambda>d m. if m_id m \<in> keep then d else retire_membership now g m d) d rs) \<and>
    db_groups (foldl (\<lambda>d m. if m_id m \<in> keep then d else retire_membership now g m d) d rs) = db_groups d \<and>
    db_profiles (foldl (\<lambda>d m. if m_id m \<in> keep then d else retire_membership now g m d) d rs) = db_profiles d \<and>
    (\<forall>q. m_active q \<longrightarrow> q \<in> set (db_memberships (foldl (\<lambda>d m. if m_id m \<in> keep then d
         else retire_membership now g m d) d rs)) \<longleftrightarrow>
       q \<in> set (db_memberships d) \<and> m_id q \<notin> m_id ` set rs - keep)"
  using assms
proof (induction rs arbitrary: d)
  case (Cons m rs)
  let ?d = "if m_id m \<in> keep then d else retire_membership now g m d"
  have k: "keyed ?d"
    using Cons.prems
    by (auto simp: keyed_def retire_membership_def revoke_member_deliveries_def update_deliveries_def Let_def
        put_membership_def intro!: distinct_update_where)
  have tables: "db_groups ?d = db_groups d" "db_profiles ?d = db_profiles d"
    by (simp_all add: retire_membership_def revoke_member_deliveries_def update_deliveries_def Let_def put_membership_def)
  have rows: "q \<in> set (db_memberships ?d) \<longleftrightarrow> q \<in> set (db_memberships d) \<and> (m_id q \<noteq> m_id m \<or> m_id m \<in> keep)"
    if "m_active q" for q
    using that
    by (auto simp: retire_membership_def revoke_member_deliveries_def update_deliveries_def Let_def
        put_membership_def set_update_where)
  show ?case using Cons.IH [OF k] by (auto simp: tables rows)
qed simp

lemma upsert_group_rows:
  assumes "keyed d"
  shows "keyed (upsert_group r d)" and "r \<in> set (db_groups (upsert_group r d))"
    and "\<forall>q. g_id q \<noteq> g_id r \<longrightarrow> (q \<in> set (db_groups (upsert_group r d)) \<longleftrightarrow> q \<in> set (db_groups d))"
    and "db_memberships (upsert_group r d) = db_memberships d" and "db_profiles (upsert_group r d) = db_profiles d"
proof -
  have "distinct (map g_id (update_where (\<lambda>g. g_id g = g_id r) (\<lambda>_. r) (db_groups d)))"
  proof -
    have "map g_id (update_where (\<lambda>g. g_id g = g_id r) (\<lambda>_. r) (db_groups d)) = map g_id (db_groups d)"
      by (simp add: update_where_def)
    then show ?thesis using assms by (simp add: keyed_def)
  qed
  then show "keyed (upsert_group r d)"
    using assms by (auto simp: upsert_group_def put_group_def keyed_def list_ex_iff)
qed (auto simp: upsert_group_def put_group_def set_update_where list_ex_iff)

text \<open>What one turn of the loop does to the active memberships and the group rows.\<close>

lemma reconcile_group_rows:
  assumes run: "reconcile_group now prior n (i, g) d = Inr d'" and k: "keyed d"
    and dist: "distinct (map fst (cg_agents g))"
  shows "keyed d' \<and> db_profiles d' = db_profiles d \<and>
    (\<exists>r\<in>set (db_groups d'). g_id r = i \<and> g_name r = cg_name g \<and> g_order r = n) \<and>
    (\<forall>q. g_id q \<noteq> i \<longrightarrow> (q \<in> set (db_groups d') \<longleftrightarrow> q \<in> set (db_groups d))) \<and>
    (\<forall>(j, a, x)\<in>set (enumerate 0 (orderedAgentEntries (cg_agents g))).
       \<exists>q\<in>set (db_memberships d'). as_configured i j a x q) \<and>
    (\<forall>q\<in>set (db_memberships d'). m_active q \<longrightarrow> m_id q \<in> fst ` set (cg_agents g) \<longrightarrow> m_groupId q = i) \<and>
    (\<forall>q. m_active q \<longrightarrow> m_id q \<notin> fst ` set (cg_agents g) \<longrightarrow>
       (q \<in> set (db_memberships d') \<longleftrightarrow> q \<in> set (db_memberships d) \<and> m_groupId q \<noteq> i))"
proof -
  let ?agents = "enumerate 0 (orderedAgentEntries (cg_agents g))"
  let ?ms = "map (\<lambda>(j, a, x). configured_membership now i j a x) ?agents"
  let ?ids = "fst ` set (cg_agents g)"
  obtain rev d2 where s:
    "upsert_memberships ?ms (upsert_group (configured_group_row now i n g rev
       (find_where (\<lambda>q. g_id q = i) (db_groups d))) d) = Inr d2"
    "d' = foldl (\<lambda>d m. if m_id m \<in> ?ids then d else retire_membership now i m d) d2 (active_memberships d i)"
    using run unfolding reconcile_group_def Let_def by (clarsimp simp: rbind_eq_Inr)
  let ?r = "configured_group_row now i n g rev (find_where (\<lambda>q. g_id q = i) (db_groups d))"
  have r: "g_id ?r = i" "g_name ?r = cg_name g" "g_order ?r = n"
    by (auto simp: configured_group_row_def split: option.split dest: find_where_SomeD)
  note up = upsert_group_rows [OF k, of ?r]
  have idm: "map m_id ?ms = map fst (orderedAgentEntries (cg_agents g))"
  proof -
    have "map m_id ?ms = map fst (map snd ?agents)"
      unfolding map_map by (rule map_cong) (auto simp: configured_membership_def)
    then show ?thesis by (simp only: map_snd_enumerate)
  qed
  have "m_id ` set ?ms = set (map m_id ?ms)" by (rule set_map [symmetric])
  also have "\<dots> = ?ids" unfolding idm by simp
  finally have ids: "m_id ` set ?ms = ?ids" .
  have "distinct (map fst (orderedAgentEntries (cg_agents g)))"
    unfolding orderedAgentEntries_def using dist by (metis mset_eq_imp_distinct_iff mset_map mset_sort)
  then have dm: "distinct (map m_id ?ms)" unfolding idm .
  note ms = upsert_memberships_rows [OF s(1) up(1) dm]
  have re: "keyed d' \<and> db_groups d' = db_groups d2 \<and> db_profiles d' = db_profiles d2 \<and>
    (\<forall>q. m_active q \<longrightarrow> q \<in> set (db_memberships d') \<longleftrightarrow>
       q \<in> set (db_memberships d2) \<and> m_id q \<notin> m_id ` set (active_memberships d i) - ?ids)"
    unfolding s(2) by (rule retire_memberships_rows) (use ms in blast)
  have groups: "(\<exists>r\<in>set (db_groups d'). g_id r = i \<and> g_name r = cg_name g \<and> g_order r = n) \<and>
    (\<forall>q. g_id q \<noteq> i \<longrightarrow> (q \<in> set (db_groups d') \<longleftrightarrow> q \<in> set (db_groups d)))"
    using re ms up(2,3) r by metis
  have conf: "as_configured i j a x q \<and> m_active q \<and> m_id q = a \<and> m_groupId q = i"
    if "same_but_joined (configured_membership now i j a x) q" for j a x q
    using that by (cases q) (auto simp: same_but_joined_def as_configured_fields configured_membership_def)
  have member: "\<exists>q\<in>set (db_memberships d'). as_configured i j a x q" if e: "(j, a, x) \<in> set ?agents" for j a x
  proof -
    have m: "configured_membership now i j a x \<in> set ?ms" using e by force
    then obtain q where q: "q \<in> set (db_memberships d2)" "same_but_joined (configured_membership now i j a x) q"
      using ms by blast
    have "m_id q \<in> ?ids" using m ids same_but_joined_id [OF q(2)] by (metis imageI)
    then show ?thesis using re q conf [OF q(2)] by auto
  qed
  have owner: "m_groupId q = i" if "q \<in> set (db_memberships d')" "m_active q" "m_id q \<in> ?ids" for q
  proof -
    have "q \<in> set (db_memberships d2)" "m_id q \<in> m_id ` set ?ms" using re that unfolding ids by auto
    then obtain m where "m \<in> set ?ms" "same_but_joined m q" using ms by blast
    then show ?thesis using conf by auto
  qed
  have other: "q \<in> set (db_memberships d') \<longleftrightarrow> q \<in> set (db_memberships d) \<and> m_groupId q \<noteq> i"
    if act: "m_active q" and q: "m_id q \<notin> ?ids" for q
  proof -
    have "q \<in> set (db_memberships d2) \<longleftrightarrow> q \<in> set (db_memberships d)" using ms q up(4) unfolding ids by metis
    moreover have "m_id q \<in> m_id ` set (active_memberships d i) \<longleftrightarrow> m_groupId q = i" if "q \<in> set (db_memberships d)"
      using k that act by (auto simp: keyed_def active_memberships_def distinct_map inj_on_def)
    ultimately show ?thesis using re act q by auto
  qed
  have "db_profiles d' = db_profiles d" using re ms up(5) by simp
  moreover have "\<forall>(j, a, x)\<in>set ?agents. \<exists>q\<in>set (db_memberships d'). as_configured i j a x q"
    by clarify (rule member)
  moreover note re groups owner other
  ultimately show ?thesis by blast
qed


lemma enumerate_in: "(j, y) \<in> set (enumerate n xs) \<Longrightarrow> y \<in> set xs"
  by (auto simp: enumerate_eq_zip dest: set_zip_rightD)

definition agents_of :: "(string \<times> configured_group) list \<Rightarrow> string set" where
  "agents_of es = (\<Union>(i, g)\<in>set es. fst ` set (cg_agents g))"

lemma reconcile_groups_settle:
  "reconcile_groups now prior n es d = Inr d' \<Longrightarrow> keyed d \<Longrightarrow> distinct (map fst es) \<Longrightarrow>
   distinct (concat (map (\<lambda>(i, g). map fst (cg_agents g)) es)) \<Longrightarrow>
   keyed d' \<and> db_profiles d' = db_profiles d \<and> (\<forall>e\<in>set (enumerate n es). group_settled d' e) \<and>
   (\<forall>q. g_id q \<notin> fst ` set es \<longrightarrow> (q \<in> set (db_groups d') \<longleftrightarrow> q \<in> set (db_groups d))) \<and>
   (\<forall>q\<in>set (db_memberships d'). m_active q \<longrightarrow> m_id q \<in> agents_of es \<longrightarrow> m_groupId q \<in> fst ` set es) \<and>
   (\<forall>q. m_active q \<longrightarrow> m_id q \<notin> agents_of es \<longrightarrow>
      (q \<in> set (db_memberships d') \<longleftrightarrow> q \<in> set (db_memberships d) \<and> m_groupId q \<notin> fst ` set es))"
proof (induction es arbitrary: n d)
  case (Cons e es)
  obtain i g where e: "e = (i, g)" by (cases e)
  obtain d1 where d1: "reconcile_group now prior n (i, g) d = Inr d1" "reconcile_groups now prior (Suc n) es d1 = Inr d'"
    using Cons.prems(1) by (auto simp: rbind_eq_Inr e)
  have "agents_of es = set (concat (map (\<lambda>(i, g). map fst (cg_agents g)) es))" by (auto simp: agents_of_def)
  then have dist: "distinct (map fst (cg_agents g))" "i \<notin> fst ` set es" "fst ` set (cg_agents g) \<inter> agents_of es = {}"
    using Cons.prems(3,4) by (simp_all add: e)
  note a = reconcile_group_rows [OF d1(1) Cons.prems(2) dist(1)]
  have b: "keyed d' \<and> db_profiles d' = db_profiles d1 \<and> (\<forall>e\<in>set (enumerate (Suc n) es). group_settled d' e) \<and>
   (\<forall>q. g_id q \<notin> fst ` set es \<longrightarrow> (q \<in> set (db_groups d') \<longleftrightarrow> q \<in> set (db_groups d1))) \<and>
   (\<forall>q\<in>set (db_memberships d'). m_active q \<longrightarrow> m_id q \<in> agents_of es \<longrightarrow> m_groupId q \<in> fst ` set es) \<and>
   (\<forall>q. m_active q \<longrightarrow> m_id q \<notin> agents_of es \<longrightarrow>
      (q \<in> set (db_memberships d') \<longleftrightarrow> q \<in> set (db_memberships d1) \<and> m_groupId q \<notin> fst ` set es))"
    by (rule Cons.IH [OF d1(2)]) (use a Cons.prems(3,4) e in auto)
  have all: "agents_of (e # es) = fst ` set (cg_agents g) \<union> agents_of es" by (simp add: agents_of_def e)
  obtain r where r: "r \<in> set (db_groups d1)" "g_id r = i" "g_name r = cg_name g" "g_order r = n" using a by blast
  then have "r \<in> set (db_groups d')" using b dist(2) by metis
  moreover have "members_settled d' i g"
    unfolding members_settled_def
  proof (intro conjI ballI, clarify)
    fix j c x assume x: "(j, c, x) \<in> set (enumerate 0 (orderedAgentEntries (cg_agents g)))"
    then obtain q where q: "q \<in> set (db_memberships d1)" "as_configured i j c x q" using a by blast
    have "c \<in> fst ` set (cg_agents g)" using enumerate_in [OF x] by force
    then have "m_active q" "m_id q \<notin> agents_of es" "m_groupId q \<notin> fst ` set es"
      using q(2) dist(2,3) by (auto simp: as_configured_fields)
    then have "q \<in> set (db_memberships d')" using b q(1) by metis
    then show "\<exists>q\<in>set (db_memberships d'). as_configured i j c x q" using q(2) by blast
  next
    fix q assume "q \<in> set (active_memberships d' i)"
    then have q: "q \<in> set (db_memberships d')" "m_active q" "m_groupId q = i" by (auto simp: active_memberships_def)
    have "m_id q \<notin> agents_of es" using b q dist(2) by metis
    then have "q \<in> set (db_memberships d1)" using b q by metis
    then show "m_id q \<in> fst ` set (cg_agents g)" using a q(2,3) by metis
  qed
  ultimately have here: "group_settled d' (n, i, g)" using r by (auto simp: group_settled_def)
  have owner: "m_groupId q \<in> fst ` set (e # es)"
    if q: "q \<in> set (db_memberships d')" "m_active q" "m_id q \<in> agents_of (e # es)" for q
  proof (cases "m_id q \<in> agents_of es")
    case True
    then show ?thesis using b q by auto
  next
    case False
    then have "m_id q \<in> fst ` set (cg_agents g)" "q \<in> set (db_memberships d1)" using q b all by auto
    then have "m_groupId q = i" using a q(2) by blast
    then show ?thesis by (simp add: e)
  qed
  have other: "q \<in> set (db_memberships d') \<longleftrightarrow> q \<in> set (db_memberships d) \<and> m_groupId q \<notin> fst ` set (e # es)"
    if "m_active q" "m_id q \<notin> agents_of (e # es)" for q
  proof -
    have q: "m_id q \<notin> fst ` set (cg_agents g)" "m_id q \<notin> agents_of es" using that(2) unfolding all by auto
    have "q \<in> set (db_memberships d') \<longleftrightarrow> q \<in> set (db_memberships d1) \<and> m_groupId q \<notin> fst ` set es"
      using b that(1) q(2) by blast
    moreover have "q \<in> set (db_memberships d1) \<longleftrightarrow> q \<in> set (db_memberships d) \<and> m_groupId q \<noteq> i"
      using a that(1) q(1) by blast
    ultimately show ?thesis by (auto simp: e)
  qed
  have groups: "q \<in> set (db_groups d') \<longleftrightarrow> q \<in> set (db_groups d)" if "g_id q \<notin> fst ` set (e # es)" for q
  proof -
    have q: "g_id q \<noteq> i" "g_id q \<notin> fst ` set es" using that by (auto simp: e)
    have "q \<in> set (db_groups d') \<longleftrightarrow> q \<in> set (db_groups d1)" using b q(2) by blast
    moreover have "q \<in> set (db_groups d1) \<longleftrightarrow> q \<in> set (db_groups d)" using a q(1) by blast
    ultimately show ?thesis by simp
  qed
  show ?case using a b here owner other groups by (simp add: e)
qed (simp add: agents_of_def)

lemma ordered_mset: "mset (orderedGroupEntries gs) = mset gs"
  unfolding orderedGroupEntries_def mset_map mset_sort
  by (simp only: mset_map [symmetric] map_snd_enumerate)

lemma ordered_keys: "mset (map fst (orderedGroupEntries gs)) = mset (map fst gs)"
  by (simp add: ordered_mset)

lemma distinct_concat_mset:
  assumes "mset xs = mset ys" and "distinct (concat (map f ys))" shows "distinct (concat (map f xs))"
proof -
  have "mset (concat (map f xs)) = mset (concat (map f ys))"
    unfolding mset_concat map_map sum_mset_sum_list [symmetric] mset_map assms(1) ..
  then show ?thesis using assms(2) by (metis mset_eq_imp_distinct_iff)
qed

lemma reconcile_settles:
  assumes run: "reconcileTopology now c d = Inr d'" and k: "keyed d" and u: "config_unique c"
  shows "settled c d'"
proof -
  let ?gs = "orderedGroupEntries (cf_groups c)"
  let ?agents = "concat (map (\<lambda>(i, g). cg_agents g) ?gs)"
  define d1 where "d1 = bump_order_revision ?gs d"
  obtain d2 d3 where s: "upsert_profiles (cf_integrations c) ?agents d1 = Inr d2"
    "reconcile_groups now d2 0 ?gs d2 = Inr d3" "d' = retire_missing_groups now (map fst (cf_groups c)) d3"
    using run by (auto simp: reconcileTopology_def Let_def rbind_eq_Inr d1_def)
  have k1: "keyed d1" using k by (auto simp: d1_def bump_order_revision_def keyed_def)
  have dg: "distinct (map fst ?gs)"
    using u ordered_keys [of "cf_groups c"] by (metis config_unique_def mset_eq_imp_distinct_iff)
  have da: "distinct (concat (map (\<lambda>(i, g). map fst (cg_agents g)) ?gs))"
    by (rule distinct_concat_mset [OF ordered_mset]) (use u in \<open>simp add: config_unique_def\<close>)
  have "map fst ?agents = concat (map (\<lambda>(i, g). map fst (cg_agents g)) ?gs)"
    by (simp add: map_concat case_prod_unfold comp_def)
  then have "distinct (map fst ?agents)" using da by simp
  note p = upsert_profiles_settle [OF s(1) k1 this]
  note g = reconcile_groups_settle [OF s(2) _ dg da]
  have k2: "keyed d2" using p by blast
  note g = g [OF this]
  have rows: "db_groups d' = db_groups d3" "db_profiles d' = db_profiles d3" by (simp_all add: s(3) retire_missing_groups_def)
  have act: "m_active q \<Longrightarrow> q \<in> set (db_memberships d') \<longleftrightarrow> q \<in> set (db_memberships d3) \<and>
      (m_groupId q \<in> fst ` set (cf_groups c) \<or> \<not> list_ex (\<lambda>g. g_id g = m_groupId q) (db_groups d3))" for q
    by (auto simp: s(3) retire_missing_groups_def set_update_where)
  have kd: "keyed d'"
    using g by (auto simp: s(3) retire_missing_groups_def keyed_def intro!: distinct_update_where)
  have settled_group: "group_settled d' e" if e: "e \<in> set (enumerate 0 ?gs)" for e
  proof -
    obtain n i x where x: "e = (n, i, x)" by (cases e)
    have i: "i \<in> fst ` set (cf_groups c)" using enumerate_in e x by force
    have g3: "group_settled d3 (n, i, x)" using g e x by blast
    have "members_settled d' i x"
      unfolding members_settled_def
    proof (intro conjI ballI, clarify)
      fix j c y assume "(j, c, y) \<in> set (enumerate 0 (orderedAgentEntries (cg_agents x)))"
      then obtain q where q: "q \<in> set (db_memberships d3)" "as_configured i j c y q"
        using g3 by (auto simp: group_settled_def members_settled_def)
      then have "m_active q" "m_groupId q = i" by (simp_all add: as_configured_fields)
      then show "\<exists>q\<in>set (db_memberships d'). as_configured i j c y q" using act i q by blast
    next
      fix q assume "q \<in> set (active_memberships d' i)"
      then have "q \<in> set (active_memberships d3 i)" using act by (auto simp: active_memberships_def)
      then show "m_id q \<in> fst ` set (cg_agents x)" using g3 by (simp add: group_settled_def members_settled_def)
    qed
    then show ?thesis using g3 by (simp add: x group_settled_def rows)
  qed
  have "\<forall>e\<in>set ?agents. ca_integrationId (snd e) \<in> set (cf_integrations c) \<and> profile_settled d2 e" using p by blast
  moreover have "db_profiles d' = db_profiles d2" using g rows by simp
  ultimately have "\<forall>e\<in>set ?agents. ca_integrationId (snd e) \<in> set (cf_integrations c) \<and> profile_settled d' e"
    by (simp add: profile_settled_def)
  then have prof: "\<forall>(i, x)\<in>set (cf_groups c). \<forall>e\<in>set (cg_agents x). ca_integrationId (snd e) \<in> set (cf_integrations c) \<and>
      profile_settled d' e" by auto
  have "\<forall>m\<in>set (db_memberships d'). m_active m \<longrightarrow> list_ex (\<lambda>g. g_id g = m_groupId m) (db_groups d') \<longrightarrow>
      m_groupId m \<in> fst ` set (cf_groups c)" using act unfolding rows by blast
  then show ?thesis unfolding settled_def using kd prof settled_group by blast
qed


subsection \<open>Properties\<close>

text \<open> C25. Reconciliation converges: reconciling a second time with the same configuration succeeds and
  changes nothing but, at most, the order revision.\<close>

theorem reconciliation_is_idempotent:
  assumes "reconcileTopology now c d = Inr d'" and "keyed d" and "config_unique c"
  shows "\<exists>n. reconcileTopology now' c d' = Inr (d'\<lparr>db_orderRevision := n\<rparr>)"
  by (rule settled_reconciles [OF reconcile_settles [OF assms] assms(3)])

lemma in_enumerate: "y \<in> set xs \<Longrightarrow> \<exists>j. (j, y) \<in> set (enumerate n xs)"
  using map_snd_enumerate [of n xs] by (metis (no_types) imageE prod.collapse set_map)

lemma settled_members:
  assumes s: "settled c d" and x: "(i, x) \<in> set (cf_groups c)"
  shows "(\<lambda>m. (m_id m, m_memberId m, m_alias m, m_order m)) ` set (active_memberships d i) =
    (\<lambda>(j, a, y). (a, ca_memberId y, ca_name y, j)) ` set (enumerate 0 (orderedAgentEntries (cg_agents x)))"
    (is "?r ` ?R = ?t ` ?E")
proof -
  have "(i, x) \<in> set (orderedGroupEntries (cf_groups c))" using x by simp
  from in_enumerate [OF this] obtain n where "(n, i, x) \<in> set (enumerate 0 (orderedGroupEntries (cf_groups c)))" by blast
  then have g: "members_settled d i x" using s by (auto simp: settled_def group_settled_def)
  have row: "\<exists>q\<in>?R. m_id q = a \<and> ?r q = ?t (j, a, y)" if e: "(j, a, y) \<in> ?E" for j a y
  proof -
    obtain q where "q \<in> set (db_memberships d)" "as_configured i j a y q"
      using g e by (auto simp: members_settled_def)
    then show ?thesis by (auto simp: as_configured_fields active_memberships_def)
  qed
  show ?thesis
  proof
    show "?t ` ?E \<subseteq> ?r ` ?R" using row by fastforce
    show "?r ` ?R \<subseteq> ?t ` ?E"
    proof clarify
      fix q assume q: "q \<in> ?R"
      then have "m_id q \<in> fst ` set (orderedAgentEntries (cg_agents x))" using g by (simp add: members_settled_def)
      then obtain y where "(m_id q, y) \<in> set (orderedAgentEntries (cg_agents x))" by auto
      from in_enumerate [OF this] obtain j where e: "(j, m_id q, y) \<in> ?E" by blast
      then obtain q' where q': "q' \<in> ?R" "m_id q' = m_id q" "?r q' = ?t (j, m_id q, y)" using row by blast
      have "inj_on m_id (set (db_memberships d))" using s by (simp add: settled_def keyed_def distinct_map)
      moreover have "q \<in> set (db_memberships d)" "q' \<in> set (db_memberships d)"
        using q q'(1) by (simp_all add: active_memberships_def)
      ultimately have "q' = q" using q'(2) by (meson inj_onD)
      with q'(3) have "?r q = ?t (j, m_id q, y)" by (simp only:)
      then show "?r q \<in> ?t ` ?E" using e by (rule image_eqI)
    qed
  qed
qed

text \<open> C26. After a reconciliation the active members of every group the store knows are exactly the agents
  configured for it, with their configured identity and position.\<close>

theorem members_are_configured:
  assumes "reconcileTopology now c d = Inr d'" and "keyed d" and "config_unique c"
    and "(i, x) \<in> set (cf_groups c)"
  shows "(\<lambda>m. (m_id m, m_memberId m, m_alias m, m_order m)) ` set (active_memberships d' i) =
    (\<lambda>(j, a, y). (a, ca_memberId y, ca_name y, j)) ` set (enumerate 0 (orderedAgentEntries (cg_agents x)))"
  by (rule settled_members [OF reconcile_settles [OF assms(1-3)] assms(4)])

definition sample_config :: config where
  "sample_config = \<lparr>cf_integrations = [''pi''], cf_roles = [],
     cf_groups = [(''g'', \<lparr>cg_name = ''Group'', cg_order = None, cg_instructions = [],
       cg_agents = [(''x'', \<lparr>ca_memberId = ''mx'', ca_name = ''X'', ca_integrationId = ''pi'', ca_roleId = None,
           ca_instructions = [], ca_order = Some 1\<rparr>),
         (''y'', \<lparr>ca_memberId = ''my'', ca_name = ''Y'', ca_integrationId = ''pi'', ca_roleId = None,
           ca_instructions = [], ca_order = Some 0\<rparr>)]\<rparr>)],
     cf_retentionPerGroup = 1000\<rparr>"

lemma sample_config_unique: "config_unique sample_config" "keyed empty_db"
  by code_simp+

lemma sample_reconciled: "\<not> isl (reconcileTopology 5 sample_config empty_db)"
  by code_simp

lemma reconciliation_is_idempotent_witness:
  "\<exists>d' n. reconcileTopology 5 sample_config empty_db = Inr d' \<and>
     reconcileTopology 9 sample_config d' = Inr (d'\<lparr>db_orderRevision := n\<rparr>)"
proof -
  obtain d' where d: "reconcileTopology 5 sample_config empty_db = Inr d'"
    using sample_reconciled by (cases "reconcileTopology 5 sample_config empty_db") auto
  show ?thesis using d reconciliation_is_idempotent [OF d sample_config_unique(2,1), of 9] by blast
qed

lemma members_are_configured_witness:
  "\<exists>d'. reconcileTopology 5 sample_config empty_db = Inr d' \<and>
     (\<lambda>m. (m_id m, m_memberId m, m_alias m, m_order m)) ` set (active_memberships d' ''g'') =
       {(''y'', ''my'', ''Y'', 0), (''x'', ''mx'', ''X'', 1)}"
proof -
  obtain d' where d: "reconcileTopology 5 sample_config empty_db = Inr d'"
    using sample_reconciled by (cases "reconcileTopology 5 sample_config empty_db") auto
  have x: "(''g'', snd (hd (cf_groups sample_config))) \<in> set (cf_groups sample_config)" by (simp add: sample_config_def)
  have "(\<lambda>(j, a, y). (a, ca_memberId y, ca_name y, j)) `
      set (enumerate 0 (orderedAgentEntries (cg_agents (snd (hd (cf_groups sample_config)))))) =
    {(''y'', ''my'', ''Y'', 0), (''x'', ''mx'', ''X'', 1)}"
    by (simp add: sample_config_def orderedAgentEntries_def agent_rank_def less_eq_prod_def)
  then show ?thesis using d members_are_configured [OF d sample_config_unique(2,1) x] by auto
qed

end
