(* ===== verification/Topology_Services.thy ===== *)
theory Topology_Services
  imports Store_Groups
begin

text \<open>
  The services that change the topology: \<open>config-repository.ts\<close> (\<open>mutate\<close>, with the schema of
  \<open>packages/contracts/src/config.ts\<close> for the modelled part of the configuration),
  \<open>topology-service.ts\<close>, \<open>topology-order-service.ts\<close> and the two coordinator operations of
  \<open>run-runtime-coordinator.ts\<close> they await.

  The state is the configuration file and the store. A mutation replaces the file before the store is
  reconciled, and an error of the reconciliation does not take it back: a service returns the state
  it leaves together with its result. Where a service reads before it awaits the queue of mutations,
  the reading is a definition of its own. Stopping a run is I/O: \<open>stop\<close> is what it does to the store.
\<close>

subsection \<open>The configuration schema\<close>

definition parse_role_id :: "string \<Rightarrow> string result" where
  "parse_role_id s =
     rbind (parse_text 64 s) (\<lambda>t. guarded (joined_runs (\<lambda>c. c = CHR ''-'') False t) (Inr t))"

definition parse_agent_id :: "string \<Rightarrow> string result" where
  "parse_agent_id s =
     rbind (parse_text 128 s) (\<lambda>t. guarded (joined_runs (\<lambda>c. c \<in> {CHR ''.'', CHR ''_'', CHR ''-''}) False t) (Inr t))"

fun split_on :: "char \<Rightarrow> string \<Rightarrow> string list" where
  "split_on c [] = [[]]"
| "split_on c (x # xs) = (if x = c then [] # split_on c xs else case split_on c xs of
      [] \<Rightarrow> [[x]] | s # ss \<Rightarrow> (x # s) # ss)"

definition ascii_letter :: "char \<Rightarrow> bool" where
  "ascii_letter c = (let n = of_char c :: nat in (97 \<le> n \<and> n \<le> 122) \<or> (65 \<le> n \<and> n \<le> 90))"

definition drive_path :: "string \<Rightarrow> bool" where
  "drive_path p = (case p of a # b # c # _ \<Rightarrow> ascii_letter a \<and> b = CHR '':'' \<and> c = CHR ''/'' | _ \<Rightarrow> False)"

definition parse_instruction_path :: "string \<Rightarrow> string result" where
  "parse_instruction_path s =
     rbind (parse_text 4096 s) (\<lambda>p.
       guarded (CHR 0x00 \<notin> set p \<and> \<not> js_startsWith ''/'' p \<and> \<not> drive_path p \<and> CHR 0x5C \<notin> set p \<and>
                ''..'' \<notin> set (split_on (CHR ''/'') p) \<and> js_startsWith (rev ''.md'') (rev (map ascii_lower p)))
         (Inr p))"

definition parse_instructions :: "string list \<Rightarrow> string list result" where
  "parse_instructions ps = (if 32 < length ps then Inl SchemaError else parse_all parse_instruction_path ps)"

definition parse_order :: "nat \<Rightarrow> nat result" where
  "parse_order n = (if n \<le> 255 then Inr n else Inl SchemaError)"

definition parse_configured_agent :: "configured_agent \<Rightarrow> configured_agent result" where
  "parse_configured_agent a =
     rbind (parse_identifier (ca_memberId a)) (\<lambda>memberId.
     rbind (parse_text 100 (ca_name a)) (\<lambda>name.
     rbind (parse_integration_id (ca_integrationId a)) (\<lambda>integrationId.
     rbind (parse_opt parse_role_id (ca_roleId a)) (\<lambda>roleId.
     rbind (parse_instructions (ca_instructions a)) (\<lambda>instructions.
     rbind (parse_opt parse_order (ca_order a)) (\<lambda>order.
       Inr \<lparr>ca_memberId = memberId, ca_name = name, ca_integrationId = integrationId, ca_roleId = roleId,
         ca_instructions = instructions, ca_order = order\<rparr>))))))"

text \<open>The entries of a record schema, in order; the keys are parsed too.\<close>

definition from_entries :: "(string \<times> 'v) list \<Rightarrow> (string \<times> 'v) list" where
  "from_entries es = foldl (\<lambda>acc (k, v). put_entry k v acc) [] es"

definition parse_record ::
  "(string \<Rightarrow> string result) \<Rightarrow> ('v \<Rightarrow> 'v result) \<Rightarrow> (string \<times> 'v) list \<Rightarrow> (string \<times> 'v) list result" where
  "parse_record parse_key parse_value es =
     rbind (parse_all (\<lambda>(k, v). rbind (parse_key k) (\<lambda>k'. rbind (parse_value v) (\<lambda>v'. Inr (k', v')))) es)
       (\<lambda>es'. Inr (from_entries es'))"

definition parse_configured_group :: "configured_group \<Rightarrow> configured_group result" where
  "parse_configured_group g =
     rbind (parse_text 100 (cg_name g)) (\<lambda>name.
     rbind (parse_opt parse_order (cg_order g)) (\<lambda>order.
     rbind (parse_instructions (cg_instructions g)) (\<lambda>instructions.
     rbind (parse_record parse_agent_id parse_configured_agent (cg_agents g)) (\<lambda>agents.
       Inr \<lparr>cg_name = name, cg_order = order, cg_instructions = instructions, cg_agents = agents\<rparr>))))"

text \<open>The checks across fields.\<close>

definition config_rules :: "config \<Rightarrow> bool" where
  "config_rules c \<longleftrightarrow>
     (let agents = concat (map (\<lambda>(i, g). cg_agents g) (cf_groups c)) in
      list_all (\<lambda>(i, a). ca_integrationId a \<in> set (cf_integrations c) \<and>
         (case ca_roleId a of None \<Rightarrow> True | Some r \<Rightarrow> r \<in> set (cf_roles c))) agents \<and>
      distinct (map fst agents) \<and>
      list_all (\<lambda>(i, g). distinct (map (\<lambda>(j, a). ca_memberId a) (cg_agents g))) (cf_groups c))"

definition parse_config :: "config \<Rightarrow> config result" where
  "parse_config c =
     rbind (parse_record parse_identifier parse_configured_group (cf_groups c)) (\<lambda>groups.
       let c' = c\<lparr>cf_groups := groups\<rparr>
       in guarded (1 \<le> cf_retentionPerGroup c \<and> cf_retentionPerGroup c \<le> 100000 \<and> config_rules c') (Inr c'))"

subsection \<open>Mutations\<close>

record topology =
  tp_config :: config
  tp_db :: db

text \<open>\<open>mutate\<close>: the candidate is validated before it replaces the file, and read back.\<close>

definition mutate_config :: "(config \<Rightarrow> (config \<times> 'a) result) \<Rightarrow> config \<Rightarrow> (config \<times> 'a) result" where
  "mutate_config change c =
     rbind (change c) (\<lambda>(c1, r). rbind (parse_config c1) (\<lambda>c2. Inr (c2, r)))"

text \<open>
  A service: mutate, reconcile the store with the loaded configuration, then finish with the result
  of the mutation (record an event, read the store).
\<close>

definition commit_topology ::
  "timestamp \<Rightarrow> (config \<Rightarrow> (config \<times> 'a) result) \<Rightarrow> ('a \<Rightarrow> db \<Rightarrow> db \<times> 'b result) \<Rightarrow> topology \<Rightarrow>
   topology \<times> 'b result" where
  "commit_topology now change finish t =
     (case mutate_config change (tp_config t) of
        Inl e \<Rightarrow> (t, Inl e)
      | Inr (c, r) \<Rightarrow>
          (case reconcileTopology now c (tp_db t) of
             Inl e \<Rightarrow> (t\<lparr>tp_config := c\<rparr>, Inl e)
           | Inr d \<Rightarrow> let (d', out) = finish r d in (\<lparr>tp_config = c, tp_db = d'\<rparr>, out)))"

abbreviation group_entry :: "config \<Rightarrow> string \<Rightarrow> configured_group option" where
  "group_entry c i \<equiv> map_of (cf_groups c) i"

definition order_stale :: error where "order_stale = DomainError ''topology_order_stale'' 409"

subsection \<open>Order\<close>

definition reorder_groups_change :: "string list \<Rightarrow> config \<Rightarrow> (config \<times> string list) result" where
  "reorder_groups_change groupIds c =
     (if length groupIds \<noteq> length (cf_groups c) \<or> list_ex (\<lambda>i. group_entry c i = None) groupIds
      then Inl order_stale
      else Inr (c\<lparr>cf_groups := from_entries (map (\<lambda>(k, i). (i, (the (group_entry c i))\<lparr>cg_order := Some k\<rparr>))
             (enumerate 0 groupIds))\<rparr>, groupIds))"

text \<open>The command is parsed by its schema before: identifiers without duplicates, at most 256.\<close>

definition reorderGroups ::
  "timestamp \<Rightarrow> string list \<Rightarrow> nat \<Rightarrow> topology \<Rightarrow> topology \<times> (string list \<times> nat) result" where
  "reorderGroups now groupIds expected t =
     (if getOrderRevision (tp_db t) \<noteq> expected then (t, Inl order_stale)
      else commit_topology now (reorder_groups_change groupIds)
        (\<lambda>ids d. (recordRuntimeEvent now ''group.reordered'' ''topology'' ''groups''
                    (Pl_order ids (getOrderRevision d)) d, Inr (ids, getOrderRevision d))) t)"

definition reorder_agents_change ::
  "string \<Rightarrow> string list \<Rightarrow> config \<Rightarrow> (config \<times> string list) result" where
  "reorder_agents_change groupId agentIds c =
     (case group_entry c groupId of
        None \<Rightarrow> Inl order_stale
      | Some g \<Rightarrow>
          if length agentIds \<noteq> length (cg_agents g) \<or> list_ex (\<lambda>i. map_of (cg_agents g) i = None) agentIds
          then Inl order_stale
          else let agents = from_entries (map (\<lambda>(k, i). (i, (the (map_of (cg_agents g) i))\<lparr>ca_order := Some k\<rparr>))
                     (enumerate 0 agentIds))
               in Inr (c\<lparr>cf_groups := put_entry groupId (g\<lparr>cg_agents := agents\<rparr>) (cf_groups c)\<rparr>, agentIds))"

definition reorderAgents ::
  "timestamp \<Rightarrow> string \<Rightarrow> string list \<Rightarrow> nat \<Rightarrow> topology \<Rightarrow> topology \<times> (string list \<times> nat) result" where
  "reorderAgents now groupId agentIds expected t =
     (if getOrderRevision (tp_db t) \<noteq> expected then (t, Inl order_stale)
      else commit_topology now (reorder_agents_change groupId agentIds)
        (\<lambda>ids d. (recordRuntimeEvent now ''agent.reordered'' ''group'' groupId
                    (Pl_order ids (getOrderRevision d)) d, Inr (ids, getOrderRevision d))) t)"

definition reparent_change :: "string \<Rightarrow> string \<Rightarrow> string \<Rightarrow> config \<Rightarrow> (config \<times> string) result" where
  "reparent_change sourceId agentId targetId c =
     (case (group_entry c sourceId, group_entry c targetId) of
        (Some source, Some target) \<Rightarrow>
          (case map_of (cg_agents source) agentId of
             None \<Rightarrow> Inl order_stale
           | Some agent \<Rightarrow>
               if list_ex (\<lambda>(i, a). ca_memberId a = ca_memberId agent) (cg_agents target)
               then Inl (DomainError ''target_member_id_conflict'' 409)
               else let sourceAgents = drop_entry agentId (cg_agents source);
                        targetAgents = normalizeAgentOrder (put_entry agentId
                          (agent\<lparr>ca_order := Some (length (cg_agents target))\<rparr>) (cg_agents target))
                    in Inr (c\<lparr>cf_groups := normalizeGroupOrder
                          (put_entry targetId (target\<lparr>cg_agents := targetAgents\<rparr>)
                            (put_entry sourceId (source\<lparr>cg_agents := normalizeAgentOrder sourceAgents\<rparr>) (cf_groups c)))\<rparr>,
                        ca_memberId agent))
      | _ \<Rightarrow> Inl order_stale)"

definition reparentAgent ::
  "timestamp \<Rightarrow> string \<Rightarrow> string \<Rightarrow> string \<Rightarrow> nat \<Rightarrow> topology \<Rightarrow> topology \<times> (string \<times> nat) result" where
  "reparentAgent now sourceId agentId targetId expected t =
     (let d = tp_db t in
      if getOrderRevision d \<noteq> expected then (t, Inl order_stale) else
      case listActiveMemberships d sourceId of
        Inl e \<Rightarrow> (t, Inl e)
      | Inr members \<Rightarrow>
          (case find_where (\<lambda>m. m_id m = agentId) members of
             None \<Rightarrow> (t, Inl (DomainError ''agent_not_found'' 404))
           | Some membership \<Rightarrow>
               if getActiveRun d sourceId (m_memberId membership) \<noteq> None \<or>
                  (case getLatestRunForMembership d sourceId (m_memberId membership) of
                     None \<Rightarrow> False | Some r \<Rightarrow> r_desiredState r = Ds_running)
               then (t, Inl (DomainError ''active_run_reparent_refused'' 409))
               else if sourceId = targetId then (t, Inl (DomainError ''agent_already_in_group'' 409))
               else commit_topology now (reparent_change sourceId agentId targetId)
                 (\<lambda>memberId d1. (recordRuntimeEvent now ''agent.reparented'' ''membership'' agentId
                    (Pl_reparented memberId sourceId targetId (getOrderRevision d1)) d1,
                  Inr (memberId, getOrderRevision d1))) t))"

subsection \<open>Groups\<close>

text \<open>The id is derived from the idempotency key when there is one, and random otherwise: a parameter.\<close>

definition create_group_change :: "string \<Rightarrow> string \<Rightarrow> string list option \<Rightarrow> config \<Rightarrow> (config \<times> string) result" where
  "create_group_change groupId name instructions c =
     (let g = (case group_entry c groupId of
           Some g \<Rightarrow> g
         | None \<Rightarrow> \<lparr>cg_name = js_trim name, cg_order = None,
             cg_instructions = (case instructions of None \<Rightarrow> [] | Some x \<Rightarrow> x), cg_agents = []\<rparr>)
      in Inr (c\<lparr>cf_groups := normalizeGroupOrder (put_entry groupId g (cf_groups c))\<rparr>, groupId))"

definition service_createGroup ::
  "timestamp \<Rightarrow> string \<Rightarrow> string \<Rightarrow> string list option \<Rightarrow> topology \<Rightarrow> topology \<times> group_row result" where
  "service_createGroup now groupId name instructions =
     commit_topology now (create_group_change groupId name instructions)
       (\<lambda>_ d. let d1 = recordRuntimeEvent now ''group.created'' ''group'' groupId (Pl_id groupId) d
              in (d1, requireGroup d1 groupId))"

definition group_not_found :: error where "group_not_found = DomainError ''group_not_found'' 404"
definition agent_not_found :: error where "agent_not_found = DomainError ''agent_not_found'' 404"

definition update_group_change ::
  "string \<Rightarrow> string option \<Rightarrow> string list option \<Rightarrow> config \<Rightarrow> (config \<times> string) result" where
  "update_group_change groupId name instructions c =
     (case group_entry c groupId of
        None \<Rightarrow> Inl group_not_found
      | Some g \<Rightarrow> Inr (c\<lparr>cf_groups := put_entry groupId
          (g\<lparr>cg_name := (case name of None \<Rightarrow> cg_name g | Some n \<Rightarrow> js_trim n),
             cg_instructions := (case instructions of None \<Rightarrow> cg_instructions g | Some x \<Rightarrow> x)\<rparr>) (cf_groups c)\<rparr>,
        groupId))"

definition active_run_in :: "db \<Rightarrow> string \<Rightarrow> bool result" where
  "active_run_in d groupId =
     rbind (listActiveMemberships d groupId) (\<lambda>members.
       Inr (list_ex (\<lambda>m. getActiveRun d groupId (m_memberId m) \<noteq> None) members))"

definition service_updateGroup ::
  "timestamp \<Rightarrow> string \<Rightarrow> string option \<Rightarrow> string list option \<Rightarrow> topology \<Rightarrow> topology \<times> group_row result" where
  "service_updateGroup now groupId name instructions t =
     (case (if instructions = None then Inr False else active_run_in (tp_db t) groupId) of
        Inl e \<Rightarrow> (t, Inl e)
      | Inr True \<Rightarrow> (t, Inl (DomainError ''active_run_group_change_requires_restart'' 409))
      | Inr False \<Rightarrow> commit_topology now (update_group_change groupId name instructions)
          (\<lambda>_ d. let d1 = recordRuntimeEvent now ''group.updated'' ''group'' groupId (Pl_id groupId) d
                 in (d1, requireGroup d1 groupId)) t)"

text \<open>
  \<open>deleteGroup\<close>: the mutation takes the group out of the file, or accepts that it is gone when the
  retained result is there; then the coordinator stops the runs and deletes the rows. The store is
  not reconciled in between.
\<close>

definition delete_group_change :: "db \<Rightarrow> string \<Rightarrow> string option \<Rightarrow> config \<Rightarrow> (config \<times> string) result" where
  "delete_group_change d groupId key c =
     (if group_entry c groupId = None
      then if getDeleteGroupResult d groupId key \<noteq> None then Inr (c, groupId) else Inl group_not_found
      else Inr (c\<lparr>cf_groups := normalizeGroupOrder (drop_entry groupId (cf_groups c))\<rparr>, groupId))"

definition newest_of_member :: "db \<Rightarrow> run \<Rightarrow> bool" where
  "newest_of_member d r \<longleftrightarrow> list_all (\<lambda>q. r_owner q = r_owner r \<longrightarrow> r_generation q \<le> r_generation r) (db_runs d)"

definition run_group :: "run \<Rightarrow> string option" where
  "run_group r = (case r_owner r of MemberRun g _ \<Rightarrow> Some g | ForemanRun _ \<Rightarrow> None)"

definition run_member :: "run \<Rightarrow> string" where
  "run_member r = (case r_owner r of MemberRun _ m \<Rightarrow> m | ForemanRun f \<Rightarrow> f)"

definition listGroupRunsRequiringStop :: "db \<Rightarrow> string \<Rightarrow> run list result" where
  "listGroupRunsRequiringStop d groupId =
     rbind (requireGroup d groupId) (\<lambda>_. Inr (sort_key (\<lambda>r. (r_startedAt r, r_id r))
       (filter (\<lambda>r. run_group r = Some groupId \<and>
          (active_status (r_status r) \<or> r_desiredState r = Ds_running) \<and> newest_of_member d r) (db_runs d))))"

type_synonym stop_run = "string \<Rightarrow> string \<Rightarrow> db \<Rightarrow> db \<times> unit result"

fun stop_runs :: "stop_run \<Rightarrow> string \<Rightarrow> run list \<Rightarrow> db \<Rightarrow> db \<times> unit result" where
  "stop_runs stop groupId [] d = (d, Inr ())"
| "stop_runs stop groupId (r # rs) d =
     (case stop groupId (run_member r) d of
        (d1, Inl e) \<Rightarrow> (d1, Inl e)
      | (d1, Inr _) \<Rightarrow> stop_runs stop groupId rs d1)"

definition keep_on_error :: "db \<Rightarrow> (db \<times> 'a) result \<Rightarrow> db \<times> 'a result" where
  "keep_on_error d r = (case r of Inl e \<Rightarrow> (d, Inl e) | Inr (d', x) \<Rightarrow> (d', Inr x))"

definition coordinator_deleteGroup ::
  "stop_run \<Rightarrow> timestamp \<Rightarrow> (string \<Rightarrow> bool) \<Rightarrow> (string \<Rightarrow> bool) \<Rightarrow> string \<Rightarrow> string option \<Rightarrow> db \<Rightarrow>
   db \<times> idem_response result" where
  "coordinator_deleteGroup stop now bound delegated groupId key d =
     (case getDeleteGroupResult d groupId key of
        Some replay \<Rightarrow> (d, Inr replay)
      | None \<Rightarrow>
          (case listGroupRunsRequiringStop d groupId of
             Inl e \<Rightarrow> (d, Inl e)
           | Inr runs \<Rightarrow>
               (case stop_runs stop groupId runs d of
                  (d1, Inl e) \<Rightarrow> (d1, Inl e)
                | (d1, Inr _) \<Rightarrow> keep_on_error d1 (deleteGroup now bound delegated groupId key d1))))"

definition coordinator_removeMembership ::
  "stop_run \<Rightarrow> timestamp \<Rightarrow> string \<Rightarrow> string \<Rightarrow> string option \<Rightarrow> db \<Rightarrow> db \<times> idem_response result" where
  "coordinator_removeMembership stop now groupId memberId key d =
     (if getActiveRun d groupId memberId \<noteq> None \<or>
         (case getLatestRunForMembership d groupId memberId of
            None \<Rightarrow> False | Some r \<Rightarrow> r_desiredState r = Ds_running)
      then case stop groupId memberId d of
             (d1, Inl e) \<Rightarrow> (d1, Inl e)
           | (d1, Inr _) \<Rightarrow> keep_on_error d1 (removeMembership now groupId memberId key d1)
      else keep_on_error d (removeMembership now groupId memberId key d))"

definition service_deleteGroup ::
  "stop_run \<Rightarrow> timestamp \<Rightarrow> (string \<Rightarrow> bool) \<Rightarrow> (string \<Rightarrow> bool) \<Rightarrow> string \<Rightarrow> string option \<Rightarrow> topology \<Rightarrow>
   topology \<times> idem_response result" where
  "service_deleteGroup stop now bound delegated groupId key t =
     (case mutate_config (delete_group_change (tp_db t) groupId key) (tp_config t) of
        Inl e \<Rightarrow> (t, Inl e)
      | Inr (c, _) \<Rightarrow>
          let (d, out) = coordinator_deleteGroup stop now bound delegated groupId key (tp_db t)
          in (\<lparr>tp_config = c, tp_db = d\<rparr>, out))"

subsection \<open>Agents\<close>

text \<open>The member name is drawn until it is free in the group; \<open>names\<close> are the draws.\<close>

fun free_member :: "(string \<times> configured_agent) list \<Rightarrow> string list \<Rightarrow> string result" where
  "free_member agents [] = Inl (PlainError ''no name drawn'')"
| "free_member agents (n # ns) =
     rbind (formatMemberId n) (\<lambda>m.
       if list_ex (\<lambda>(i, a). ca_memberId a = m) agents then free_member agents ns else Inr m)"

record create_agent =
  cga_name :: string
  cga_integrationId :: string
  cga_roleId :: "string option"
  cga_instructions :: "string list option"

definition create_agent_change ::
  "string \<Rightarrow> string \<Rightarrow> string list \<Rightarrow> create_agent \<Rightarrow> config \<Rightarrow> (config \<times> string \<times> string) result" where
  "create_agent_change groupId agentId names command c =
     (case group_entry c groupId of
        None \<Rightarrow> Inl group_not_found
      | Some g \<Rightarrow>
          if cga_integrationId command \<notin> set (cf_integrations c)
          then Inl (DomainError ''integration_not_found'' 400)
          else if (case cga_roleId command of None \<Rightarrow> False | Some r \<Rightarrow> r \<notin> set (cf_roles c))
          then Inl (DomainError ''role_not_found'' 404)
          else let existing = map_of (cg_agents g) agentId in
            rbind (case existing of Some a \<Rightarrow> Inr (ca_memberId a) | None \<Rightarrow> free_member (cg_agents g) names) (\<lambda>memberId.
            let a = (case existing of Some a \<Rightarrow> a
                 | None \<Rightarrow> \<lparr>ca_memberId = memberId, ca_name = js_trim (cga_name command),
                     ca_integrationId = cga_integrationId command, ca_roleId = cga_roleId command,
                     ca_instructions = (case cga_instructions command of None \<Rightarrow> [] | Some x \<Rightarrow> x),
                     ca_order = None\<rparr>)
            in Inr (c\<lparr>cf_groups := put_entry groupId
                  (g\<lparr>cg_agents := normalizeAgentOrder (put_entry agentId a (cg_agents g))\<rparr>) (cf_groups c)\<rparr>,
                agentId, memberId)))"

definition find_membership :: "string \<Rightarrow> string \<Rightarrow> db \<Rightarrow> membership_row option result" where
  "find_membership groupId agentId d =
     rbind (listActiveMemberships d groupId) (\<lambda>members. Inr (find_where (\<lambda>m. m_id m = agentId) members))"

definition createAgent ::
  "timestamp \<Rightarrow> string \<Rightarrow> string \<Rightarrow> string list \<Rightarrow> create_agent \<Rightarrow> topology \<Rightarrow> topology \<times> membership_row option result" where
  "createAgent now groupId agentId names command =
     commit_topology now (create_agent_change groupId agentId names command)
       (\<lambda>(i, memberId) d. let d1 = recordRuntimeEvent now ''agent.created'' ''group'' groupId (Pl_agent i memberId) d
          in (d1, find_membership groupId i d1))"

record update_agent =
  uga_name :: "string option"
  uga_integrationId :: "string option"
  uga_roleId :: "string option option"
  uga_instructions :: "string list option"

text \<open>
  What \<open>updateAgent\<close> decides before it awaits the mutation queue: the role to write, from the agent
  it reads there, and whether an active run forbids the change. A role of \<open>Some None\<close> is null.
\<close>

definition update_agent_plan :: "string \<Rightarrow> string \<Rightarrow> update_agent \<Rightarrow> topology \<Rightarrow> string option result" where
  "update_agent_plan groupId agentId command t =
     (case Option.bind (group_entry (tp_config t) groupId) (\<lambda>g. map_of (cg_agents g) agentId) of
        None \<Rightarrow> Inl agent_not_found
      | Some current \<Rightarrow>
          let roleId = (case uga_roleId command of None \<Rightarrow> ca_roleId current | Some r \<Rightarrow> r);
              restart = (case uga_integrationId command of None \<Rightarrow> False | Some i \<Rightarrow> i \<noteq> ca_integrationId current) \<or>
                (uga_roleId command \<noteq> None \<and> roleId \<noteq> ca_roleId current) \<or>
                (case uga_instructions command of None \<Rightarrow> False | Some x \<Rightarrow> x \<noteq> ca_instructions current)
          in if restart \<and> getActiveRun (tp_db t) groupId (ca_memberId current) \<noteq> None
             then Inl (DomainError ''active_run_agent_change_requires_restart'' 409) else Inr roleId)"

definition update_agent_change ::
  "string \<Rightarrow> string \<Rightarrow> update_agent \<Rightarrow> string option \<Rightarrow> config \<Rightarrow> (config \<times> string) result" where
  "update_agent_change groupId agentId command roleId c =
     (case group_entry c groupId of
        None \<Rightarrow> Inl group_not_found
      | Some g \<Rightarrow>
          (case map_of (cg_agents g) agentId of
             None \<Rightarrow> Inl agent_not_found
           | Some a \<Rightarrow>
               let integrationId = (case uga_integrationId command of None \<Rightarrow> ca_integrationId a | Some i \<Rightarrow> i) in
               if integrationId \<notin> set (cf_integrations c) then Inl (DomainError ''integration_not_found'' 400)
               else if (case roleId of None \<Rightarrow> False | Some r \<Rightarrow> r \<notin> set (cf_roles c))
               then Inl (DomainError ''role_not_found'' 404)
               else Inr (c\<lparr>cf_groups := put_entry groupId (g\<lparr>cg_agents := put_entry agentId
                     (a\<lparr>ca_name := (case uga_name command of None \<Rightarrow> ca_name a | Some n \<Rightarrow> js_trim n),
                        ca_integrationId := integrationId, ca_roleId := roleId,
                        ca_instructions := (case uga_instructions command of None \<Rightarrow> ca_instructions a | Some x \<Rightarrow> x)\<rparr>)
                     (cg_agents g)\<rparr>) (cf_groups c)\<rparr>, agentId)))"

definition update_agent_commit ::
  "timestamp \<Rightarrow> string \<Rightarrow> string \<Rightarrow> update_agent \<Rightarrow> string option \<Rightarrow> topology \<Rightarrow> topology \<times> membership_row option result" where
  "update_agent_commit now groupId agentId command roleId =
     commit_topology now (update_agent_change groupId agentId command roleId)
       (\<lambda>i d. let d1 = recordRuntimeEvent now ''agent.updated'' ''group'' groupId (Pl_id i) d
              in (d1, find_membership groupId i d1))"

definition updateAgent ::
  "timestamp \<Rightarrow> string \<Rightarrow> string \<Rightarrow> update_agent \<Rightarrow> topology \<Rightarrow> topology \<times> membership_row option result" where
  "updateAgent now groupId agentId command t =
     (case update_agent_plan groupId agentId command t of
        Inl e \<Rightarrow> (t, Inl e)
      | Inr roleId \<Rightarrow> update_agent_commit now groupId agentId command roleId t)"

definition getAgentMembership :: "string \<Rightarrow> string \<Rightarrow> topology \<Rightarrow> membership_row result" where
  "getAgentMembership groupId agentId t =
     (if Option.bind (group_entry (tp_config t) groupId) (\<lambda>g. map_of (cg_agents g) agentId) = None
      then Inl agent_not_found
      else rbind (find_membership groupId agentId (tp_db t)) (require agent_not_found))"

definition remove_agent_change :: "string \<Rightarrow> string \<Rightarrow> config \<Rightarrow> (config \<times> string) result" where
  "remove_agent_change groupId agentId c =
     (case group_entry c groupId of
        None \<Rightarrow> Inl group_not_found
      | Some g \<Rightarrow>
          if map_of (cg_agents g) agentId = None then Inl agent_not_found
          else Inr (c\<lparr>cf_groups := put_entry groupId
              (g\<lparr>cg_agents := normalizeAgentOrder (drop_entry agentId (cg_agents g))\<rparr>) (cf_groups c)\<rparr>, agentId))"

definition removeAgent ::
  "stop_run \<Rightarrow> timestamp \<Rightarrow> string \<Rightarrow> string \<Rightarrow> string option \<Rightarrow> topology \<Rightarrow> topology \<times> nat result" where
  "removeAgent stop now groupId agentId key t =
     (case getAgentMembership groupId agentId t of
        Inl e \<Rightarrow> (t, Inl e)
      | Inr current \<Rightarrow>
          (case listDeliveries (tp_db t) None of
             Inl e \<Rightarrow> (t, Inl e)
           | Inr outcomes \<Rightarrow>
               let revoked = count_where (\<lambda>x. do_recipient x = m_memberId current \<and> active_delivery (do_status x)) outcomes in
               (case mutate_config (remove_agent_change groupId agentId) (tp_config t) of
                  Inl e \<Rightarrow> (t, Inl e)
                | Inr (c, _) \<Rightarrow>
                    (case coordinator_removeMembership stop now groupId (m_memberId current) key (tp_db t) of
                       (d, Inl e) \<Rightarrow> (\<lparr>tp_config = c, tp_db = d\<rparr>, Inl e)
                     | (d, Inr _) \<Rightarrow> (\<lparr>tp_config = c, tp_db = d\<rparr>, Inr revoked)))))"

subsection \<open>Startup\<close>

text \<open>
  \<open>TopologyService.reconcile\<close>: what the configuration no longer has is taken down through the
  coordinator, group by group and member by member of the snapshot it starts with.
\<close>

fun take_down_members ::
  "stop_run \<Rightarrow> timestamp \<Rightarrow> string \<Rightarrow> string list \<Rightarrow> membership_row list \<Rightarrow> db \<Rightarrow> db \<times> unit result" where
  "take_down_members stop now groupId desired [] d = (d, Inr ())"
| "take_down_members stop now groupId desired (m # ms) d =
     (if m_memberId m \<in> set desired then take_down_members stop now groupId desired ms d
      else case coordinator_removeMembership stop now groupId (m_memberId m) None d of
        (d1, Inl e) \<Rightarrow> (d1, Inl e)
      | (d1, Inr _) \<Rightarrow> take_down_members stop now groupId desired ms d1)"

fun take_down ::
  "stop_run \<Rightarrow> timestamp \<Rightarrow> (string \<Rightarrow> bool) \<Rightarrow> (string \<Rightarrow> bool) \<Rightarrow> config \<Rightarrow> membership_row list \<Rightarrow>
   group_row list \<Rightarrow> db \<Rightarrow> db \<times> unit result" where
  "take_down stop now bound delegated c members [] d = (d, Inr ())"
| "take_down stop now bound delegated c members (g # gs) d =
     (case (case group_entry c (g_id g) of
              None \<Rightarrow> (case coordinator_deleteGroup stop now bound delegated (g_id g) None d of
                 (d1, Inl e) \<Rightarrow> (d1, Inl e) | (d1, Inr _) \<Rightarrow> (d1, Inr ()))
            | Some x \<Rightarrow> take_down_members stop now (g_id g) (map (\<lambda>(i, a). ca_memberId a) (cg_agents x))
                 (filter (\<lambda>m. m_groupId m = g_id g) members) d) of
        (d1, Inl e) \<Rightarrow> (d1, Inl e)
      | (d1, Inr _) \<Rightarrow> take_down stop now bound delegated c members gs d1)"

text \<open>
  What \<open>getSnapshot\<close> contributes: the groups, the active members in the order of the configuration the
  store was last reconciled with, and that every delivery and every group's message state is read.
\<close>

definition configured_rank :: "config option \<Rightarrow> string \<Rightarrow> nat \<times> nat" where
  "configured_rank c agentId =
     (case c of
        None \<Rightarrow> (1, 0)
      | Some c \<Rightarrow> (case map_of (rev (map (\<lambda>(k, i). (i, k)) (enumerate 0
            (concat (map (\<lambda>(i, g). map fst (orderedAgentEntries (cg_agents g))) (cf_groups c)))))) agentId of
          None \<Rightarrow> (1, 0) | Some k \<Rightarrow> (0, k)))"

definition getSnapshot :: "config option \<Rightarrow> db \<Rightarrow> (group_row list \<times> membership_row list) result" where
  "getSnapshot current d =
     (let groups = sort_key (\<lambda>g. (g_order g, g_id g)) (db_groups d);
          members = sort_key (\<lambda>m. (configured_rank current (m_id m), m_joinedAt m, m_id m))
            (filter (\<lambda>m. m_active m \<and> list_ex (\<lambda>g. g_id g = m_groupId m) (db_groups d)) (db_memberships d))
      in rbind (listDeliveries d None) (\<lambda>_.
         rbind (parse_all (\<lambda>g. getGroupMessageState d (g_id g)) groups) (\<lambda>_. Inr (groups, members))))"

definition service_reconcile ::
  "stop_run \<Rightarrow> timestamp \<Rightarrow> (string \<Rightarrow> bool) \<Rightarrow> (string \<Rightarrow> bool) \<Rightarrow> config option \<Rightarrow> topology \<Rightarrow> topology \<times> unit result" where
  "service_reconcile stop now bound delegated current t =
     (case getSnapshot current (tp_db t) of
        Inl e \<Rightarrow> (t, Inl e)
      | Inr (groups, members) \<Rightarrow>
          (case take_down stop now bound delegated (tp_config t) members groups (tp_db t) of
             (d, Inl e) \<Rightarrow> (t\<lparr>tp_db := d\<rparr>, Inl e)
           | (d, Inr _) \<Rightarrow>
               (case reconcileTopology now (tp_config t) d of
                  Inl e \<Rightarrow> (t\<lparr>tp_db := d\<rparr>, Inl e)
                | Inr d1 \<Rightarrow> (t\<lparr>tp_db := d1\<rparr>, Inr ()))))"

end
