(* ===== verification/Topology_Properties.thy ===== *)
theory Topology_Properties
  imports Topology_Convergence Topology_Services
begin

text \<open>
  Properties of the topology services: what a reparenting does to the configuration, how a reordering
  reaches the store, and what an error leaves behind.
\<close>

subsection \<open>Entries\<close>

lemma keys_put_entry: "set (map fst (put_entry k v es)) = insert k (set (map fst es))"
  by (induction k v es rule: put_entry.induct) auto

lemma distinct_put_entry: "distinct (map fst es) \<Longrightarrow> distinct (map fst (put_entry k v es))"
proof (induction k v es rule: put_entry.induct)
  case (2 k v i w xs)
  then show ?case using keys_put_entry [of k v xs] by auto
qed simp

lemma map_of_put_entry: "map_of (put_entry k v es) = (map_of es)(k \<mapsto> v)"
  by (induction k v es rule: put_entry.induct) (auto simp: fun_upd_def)

lemma put_entry_fresh: "k \<notin> fst ` set es \<Longrightarrow> put_entry k v es = es @ [(k, v)]"
  by (induction k v es rule: put_entry.induct) auto

lemma map_of_drop_entry: "map_of (drop_entry k es) = (map_of es)(k := None)"
  by (induction es) (auto simp: drop_entry_def fun_upd_def)

lemma distinct_drop_entry: "distinct (map fst es) \<Longrightarrow> distinct (map fst (drop_entry k es))"
  by (simp add: drop_entry_def distinct_map_filter)

lemma from_entries_acc:
  "distinct (map fst (acc @ es)) \<Longrightarrow> foldl (\<lambda>acc (k, v). put_entry k v acc) acc es = acc @ es"
proof (induction es arbitrary: acc)
  case (Cons e es)
  obtain k v where e: "e = (k, v)" by (cases e)
  have "put_entry k v acc = acc @ [(k, v)]" by (rule put_entry_fresh) (use Cons.prems e in auto)
  then show ?case using Cons.IH [of "acc @ [(k, v)]"] Cons.prems by (simp add: e)
qed simp

lemma from_entries_distinct: "distinct (map fst es) \<Longrightarrow> from_entries es = es"
  using from_entries_acc [of "[]" es] by (simp add: from_entries_def)

lemma distinct_from_entries: "distinct (map fst (from_entries es))"
proof -
  have "distinct (map fst acc) \<Longrightarrow> distinct (map fst (foldl (\<lambda>acc (k, v). put_entry k v acc) acc es))" for acc
    by (induction es arbitrary: acc) (auto simp: distinct_put_entry split: prod.split)
  then show ?thesis by (simp add: from_entries_def)
qed

subsection \<open>Reparenting\<close>

text \<open>An agent of a configuration, its place in the order aside.\<close>

definition agent_in :: "config \<Rightarrow> string \<Rightarrow> string \<Rightarrow> configured_agent option" where
  "agent_in c g i = (case map_of (cf_groups c) g of None \<Rightarrow> None
     | Some x \<Rightarrow> map_option (\<lambda>a. a\<lparr>ca_order := None\<rparr>) (map_of (cg_agents x) i))"

lemma map_of_mset:
  assumes "distinct (map fst xs)" and "mset xs = mset ys" shows "map_of xs = map_of ys"
proof -
  have "distinct (map fst ys)" using assms by (metis mset_eq_imp_distinct_iff mset_map)
  moreover have "set xs = set ys" using assms(2) by (metis set_mset_mset)
  ultimately show ?thesis using assms(1) by (simp add: map_of_inject_set)
qed

lemma map_of_numbered:
  "map_of (map (\<lambda>(k, i, a). (i, f k a)) (enumerate n xs)) i = Some b \<Longrightarrow> \<exists>k a. b = f k a \<and> (i, a) \<in> set xs"
  by (induction xs arbitrary: n) (auto split: if_splits, blast)

lemma normalised_agents:
  assumes "distinct (map fst as)"
  shows "map_option (\<lambda>a. a\<lparr>ca_order := None\<rparr>) (map_of (normalizeAgentOrder as) i) =
    map_option (\<lambda>a. a\<lparr>ca_order := None\<rparr>) (map_of as i)"
proof -
  have num: "map_option (\<lambda>a. a\<lparr>ca_order := None\<rparr>) (map_of (map (\<lambda>(k, i, a). (i, a\<lparr>ca_order := Some k\<rparr>)) (enumerate n xs)) i) =
      map_option (\<lambda>a. a\<lparr>ca_order := None\<rparr>) (map_of xs i)" for n and xs :: "(string \<times> configured_agent) list"
    by (induction xs arbitrary: n) auto
  have "map_of (orderedAgentEntries as) = map_of as"
  proof (rule sym, rule map_of_mset [OF assms])
    show "mset as = mset (orderedAgentEntries as)" by (simp add: orderedAgentEntries_def)
  qed
  then show ?thesis unfolding normalizeAgentOrder_def num by simp
qed

lemma set_put_entry: "set (put_entry k v es) \<subseteq> insert (k, v) (set es)"
  by (induction k v es rule: put_entry.induct) auto

lemma distinct_normalised: "distinct (map fst as) \<Longrightarrow> distinct (map fst (normalizeAgentOrder as))"
proof -
  assume "distinct (map fst as)"
  moreover have "map fst (normalizeAgentOrder as) = map fst (map snd (enumerate 0 (orderedAgentEntries as)))"
    unfolding normalizeAgentOrder_def map_map by (rule map_cong) auto
  then have "map fst (normalizeAgentOrder as) = map fst (orderedAgentEntries as)" by (simp only: map_snd_enumerate)
  ultimately show ?thesis
    unfolding orderedAgentEntries_def by (metis mset_eq_imp_distinct_iff mset_map mset_sort)
qed

lemma agent_in_normalised:
  assumes "distinct (map fst gs)" and "\<forall>(i, g)\<in>set gs. distinct (map fst (cg_agents g))"
  shows "agent_in (c\<lparr>cf_groups := normalizeGroupOrder gs\<rparr>) g i = agent_in (c\<lparr>cf_groups := gs\<rparr>) g i"
proof -
  let ?in = "\<lambda>xs. case map_of xs g of None \<Rightarrow> None
     | Some x \<Rightarrow> map_option (\<lambda>a. a\<lparr>ca_order := None\<rparr>) (map_of (cg_agents x) i)"
  have num: "?in (map (\<lambda>(k, j, x). (j, x\<lparr>cg_order := Some k, cg_agents := normalizeAgentOrder (cg_agents x)\<rparr>)) (enumerate n xs)) =
      ?in xs" if "\<forall>(j, x)\<in>set xs. distinct (map fst (cg_agents x))" for n and xs :: "(string \<times> configured_group) list"
    using that by (induction xs arbitrary: n) (auto simp: normalised_agents)
  have "map_of (orderedGroupEntries gs) = map_of gs"
    by (rule sym, rule map_of_mset [OF assms(1)]) (simp add: ordered_mset)
  moreover have "\<forall>(j, x)\<in>set (orderedGroupEntries gs). distinct (map fst (cg_agents x))" using assms(2) by simp
  ultimately show ?thesis unfolding agent_in_def normalizeGroupOrder_def using num by simp
qed

text \<open> C28. Moving an agent to another group takes it out of its group and puts it, otherwise unchanged, into
  the target, and no other agent of any group is lost, added or changed beyond its place in the order.\<close>

theorem reparenting_moves_one_agent:
  assumes "reparent_change source a target c = Inr (c', member)" and "config_unique c" and "source \<noteq> target"
  shows "agent_in c' g i =
    (if i = a \<and> g = source then None else if i = a \<and> g = target then agent_in c source a else agent_in c g i)"
proof -
  obtain S T x where e: "map_of (cf_groups c) source = Some S" "map_of (cf_groups c) target = Some T"
    "map_of (cg_agents S) a = Some x"
    and c': "c' = c\<lparr>cf_groups := normalizeGroupOrder (put_entry target
        (T\<lparr>cg_agents := normalizeAgentOrder (put_entry a (x\<lparr>ca_order := Some (length (cg_agents T))\<rparr>) (cg_agents T))\<rparr>)
        (put_entry source (S\<lparr>cg_agents := normalizeAgentOrder (drop_entry a (cg_agents S))\<rparr>) (cf_groups c)))\<rparr>"
    using assms(1) by (auto simp: reparent_change_def Let_def split: option.splits if_splits)
  let ?T = "T\<lparr>cg_agents := normalizeAgentOrder (put_entry a (x\<lparr>ca_order := Some (length (cg_agents T))\<rparr>) (cg_agents T))\<rparr>"
  let ?S = "S\<lparr>cg_agents := normalizeAgentOrder (drop_entry a (cg_agents S))\<rparr>"
  let ?gs = "put_entry target ?T (put_entry source ?S (cf_groups c))"
  have dist: "distinct (map fst (cg_agents y))" if "(j, y) \<in> set (cf_groups c)" for j y
    using assms(2) that by (auto simp: config_unique_def distinct_concat_iff)
  have dS: "distinct (map fst (cg_agents S))" and dT: "distinct (map fst (cg_agents T))"
    using dist e(1,2) by (auto dest: map_of_SomeD)
  have "\<forall>(j, y)\<in>set ?gs. distinct (map fst (cg_agents y))"
    using set_put_entry [of target ?T "put_entry source ?S (cf_groups c)"] set_put_entry [of source ?S "cf_groups c"]
      dist distinct_normalised [OF distinct_put_entry [OF dT]] distinct_normalised [OF distinct_drop_entry [OF dS]]
    by fastforce
  moreover have "distinct (map fst ?gs)" using assms(2) by (simp add: config_unique_def distinct_put_entry)
  ultimately have "agent_in c' g i = agent_in (c\<lparr>cf_groups := ?gs\<rparr>) g i"
    unfolding c' by (intro agent_in_normalised)
  then show ?thesis
    using e assms(3) normalised_agents [OF distinct_put_entry [OF dT], of a "x\<lparr>ca_order := Some (length (cg_agents T))\<rparr>" i]
      normalised_agents [OF distinct_drop_entry [OF dS], of a i]
    by (auto simp: agent_in_def map_of_put_entry map_of_drop_entry split: option.split)
qed


definition pair_config :: config where
  "pair_config = sample_config\<lparr>cf_groups := cf_groups sample_config @
     [(''h'', \<lparr>cg_name = ''Other'', cg_order = None, cg_instructions = [],
        cg_agents = [(''z'', \<lparr>ca_memberId = ''mz'', ca_name = ''Z'', ca_integrationId = ''pi'', ca_roleId = None,
           ca_instructions = [], ca_order = Some 0\<rparr>)]\<rparr>)]\<rparr>"

lemma pair_config_unique: "config_unique pair_config" by code_simp

lemma pair_config_moves: "\<not> isl (reparent_change ''g'' ''x'' ''h'' pair_config)" by code_simp

lemma reparenting_moves_one_agent_witness:
  "\<exists>c'. reparent_change ''g'' ''x'' ''h'' pair_config = Inr (c', ''mx'') \<and> agent_in c' ''g'' ''x'' = None \<and>
     agent_in c' ''h'' ''x'' = agent_in pair_config ''g'' ''x'' \<and>
     agent_in c' ''h'' ''z'' = agent_in pair_config ''h'' ''z''"
proof -
  obtain c' m where c: "reparent_change ''g'' ''x'' ''h'' pair_config = Inr (c', m)"
    using pair_config_moves by (cases "reparent_change ''g'' ''x'' ''h'' pair_config") auto
  have "map_option snd (case reparent_change ''g'' ''x'' ''h'' pair_config of Inr r \<Rightarrow> Some r | _ \<Rightarrow> None) = Some ''mx''"
    by code_simp
  then have "m = ''mx''" using c by simp
  then show ?thesis using c reparenting_moves_one_agent [OF c pair_config_unique] by simp
qed

subsection \<open>Errors\<close>

text \<open>
  What a service leaves behind when it fails: the store as it was, and the file as it was unless the
  reconciliation with the new one is what failed.
\<close>

definition left_behind :: "timestamp \<Rightarrow> error \<Rightarrow> topology \<Rightarrow> topology \<Rightarrow> bool" where
  "left_behind now e t t' \<longleftrightarrow> t' = t \<or>
     (\<exists>c. t' = t\<lparr>tp_config := c\<rparr> \<and> reconcileTopology now c (tp_db t) = Inl e)"

lemma commit_topology_error:
  assumes "commit_topology now change finish t = (t', Inl e)" and "\<And>r d. \<exists>d' b. finish r d = (d', Inr b)"
  shows "t' = t \<or> (\<exists>c. t' = t\<lparr>tp_config := c\<rparr> \<and> reconcileTopology now c (tp_db t) = Inl e)"
proof -
  have "snd (finish r d) \<noteq> Inl e" for r d using assms(2) [of r d] by auto
  then show ?thesis using assms(1)
    by (auto simp: commit_topology_def Let_def split: sum.splits prod.splits) (metis snd_conv)
qed


lemma map_sum_eq_Inl: "map_sum id f r = Inl e \<longleftrightarrow> r = Inl e"
  by (cases r) auto

lemma service_errors:
  "reorderGroups now ids n t = (t', Inl e) \<Longrightarrow> left_behind now e t t'"
  "reorderAgents now g ids n t = (t', Inl e) \<Longrightarrow> left_behind now e t t'"
  "reparentAgent now g a h n t = (t', Inl e) \<Longrightarrow> left_behind now e t t'"
  unfolding reorderGroups_def reorderAgents_def reparentAgent_def left_behind_def Let_def
  by (auto dest!: commit_topology_error split: if_splits sum.splits option.splits)

text \<open>The commands of the order, and the error each ends with.\<close>

datatype order_command =
    Reorder_groups "string list" nat
  | Reorder_agents string "string list" nat
  | Reparent string string string nat

fun run_order :: "timestamp \<Rightarrow> order_command \<Rightarrow> topology \<Rightarrow> topology \<times> unit result" where
  "run_order now (Reorder_groups ids n) t = map_prod id (map_sum id (\<lambda>_. ())) (reorderGroups now ids n t)"
| "run_order now (Reorder_agents g ids n) t = map_prod id (map_sum id (\<lambda>_. ())) (reorderAgents now g ids n t)"
| "run_order now (Reparent g a h n) t = map_prod id (map_sum id (\<lambda>_. ())) (reparentAgent now g a h n t)"

text \<open> C29. A service of the order that fails leaves the store as it was, and the configuration file too, unless
  reconciling the store with the new configuration is what failed.\<close>

theorem failed_order_keeps_store:
  assumes "run_order now command t = (t', Inl e)"
  shows "left_behind now e t t'"
  using assms by (cases command) (auto simp: map_prod_def map_sum_eq_Inl dest!: service_errors split: prod.splits)

definition clash_db :: db where
  "clash_db = empty_db\<lparr>db_memberships := [\<lparr>m_id = ''other'', m_groupId = ''g'', m_memberId = ''mx'',
     m_agentProfileId = ''other'', m_alias = ''Old'', m_roleId = None, m_order = 0, m_active = False, m_joinedAt = 1,
     m_removedAt = Some 2\<rparr>]\<rparr>"

definition swapped_config :: config where
  "swapped_config = pair_config\<lparr>cf_groups := map (\<lambda>(k, i, g). (i, g\<lparr>cg_order := Some k\<rparr>))
     (enumerate 0 (rev (cf_groups pair_config)))\<rparr>"

lemma swapped_change: "reorder_groups_change [''h'', ''g''] pair_config = Inr (swapped_config, [''h'', ''g''])"
  by code_simp

lemma swapped_parsed: "parse_config swapped_config = Inr swapped_config"
proof -
  have "parse_record parse_identifier parse_configured_group (cf_groups swapped_config) = Inr (cf_groups swapped_config)"
    by code_simp
  moreover have "config_rules swapped_config" by code_simp
  moreover have "cf_retentionPerGroup swapped_config = 1000"
    by (simp add: swapped_config_def pair_config_def sample_config_def)
  ultimately show ?thesis by (simp add: parse_config_def)
qed

lemma swapped_mutation:
  "mutate_config (reorder_groups_change [''h'', ''g'']) pair_config = Inr (swapped_config, [''h'', ''g''])"
  by (simp add: mutate_config_def swapped_change swapped_parsed)

lemma swapped_clash: "reconcileTopology 5 swapped_config clash_db = Inl ConstraintError"
proof -
  have "(case reconcileTopology 5 swapped_config clash_db of Inl e \<Rightarrow> Some e | Inr _ \<Rightarrow> None) = Some ConstraintError"
    by code_simp
  then show ?thesis by (simp split: sum.splits)
qed

lemma failed_order_keeps_store_witness:
  "\<exists>t'. run_order 5 (Reorder_groups [''h'', ''g''] 0) \<lparr>tp_config = pair_config, tp_db = clash_db\<rparr> =
       (t', Inl ConstraintError) \<and> left_behind 5 ConstraintError \<lparr>tp_config = pair_config, tp_db = clash_db\<rparr> t' \<and>
     map fst (cf_groups (tp_config t')) = [''h'', ''g'']"
proof -
  let ?t = "\<lparr>tp_config = pair_config, tp_db = clash_db\<rparr>" and ?u = "\<lparr>tp_config = swapped_config, tp_db = clash_db\<rparr>"
  have "run_order 5 (Reorder_groups [''h'', ''g''] 0) ?t = (?u, Inl ConstraintError)"
    by (simp add: reorderGroups_def commit_topology_def swapped_mutation swapped_clash)
      (simp add: getOrderRevision_def clash_db_def empty_db_def)
  moreover have "map fst (cf_groups swapped_config) = [''h'', ''g'']" by code_simp
  ultimately show ?thesis using failed_order_keeps_store [of 5 "Reorder_groups [''h'', ''g''] 0" ?t ?u ConstraintError] by auto
qed

lemma commit_topology_Inr:
  assumes "commit_topology now change finish t = (t', Inr b)"
  shows "\<exists>c r d. mutate_config change (tp_config t) = Inr (c, r) \<and> reconcileTopology now c (tp_db t) = Inr d \<and>
    tp_config t' = c \<and> finish r d = (tp_db t', Inr b)"
  using assms by (auto simp: commit_topology_def Let_def split: sum.splits prod.splits)

lemma order_entries_sorted:
  assumes "\<And>k p. (k, p) \<in> set (enumerate 0 es) \<Longrightarrow> cg_order (snd p) = Some k"
  shows "orderedGroupEntries es = es"
proof -
  have "sorted (map group_rank (enumerate 0 es))"
  proof -
    have "map group_rank (enumerate 0 es) = map fst (enumerate 0 es)"
      by (rule map_cong) (use assms in \<open>auto simp: group_rank_def\<close>)
    then show ?thesis by simp
  qed
  then have "sort_key group_rank (enumerate 0 es) = enumerate 0 es" by (rule sort_key_id_if_sorted)
  then show ?thesis by (simp add: orderedGroupEntries_def)
qed

lemma parse_all_nth:
  assumes "parse_all p xs = Inr ys"
  shows "length ys = length xs \<and> (\<forall>j<length xs. p (xs ! j) = Inr (ys ! j))"
  using assms
proof (induction xs arbitrary: ys)
  case (Cons x xs)
  then obtain y zs where "ys = y # zs" "p x = Inr y" "parse_all p xs = Inr zs" by (auto simp: rbind_eq_Inr)
  then show ?case using Cons.IH by (auto simp: nth_Cons split: nat.split)
qed simp

lemma parse_group_order:
  "parse_configured_group g = Inr g' \<Longrightarrow> cg_order g' = cg_order g"
  by (auto simp: parse_configured_group_def rbind_eq_Inr parse_opt_def parse_order_def split: option.splits if_splits)

lemma parse_config_unique:
  assumes "parse_config c = Inr c'" shows "config_unique c'"
proof -
  obtain es where es: "c' = c\<lparr>cf_groups := es\<rparr>" "parse_record parse_identifier parse_configured_group (cf_groups c) = Inr es"
    and r: "config_rules c'"
    using assms by (auto simp: parse_config_def rbind_eq_Inr Let_def)
  have "distinct (map fst es)" using es(2) by (auto simp: parse_record_def rbind_eq_Inr distinct_from_entries)
  then show ?thesis using r es(1)
    by (auto simp: config_unique_def config_rules_def Let_def map_concat list_all_iff case_prod_unfold comp_def)
qed


lemma parse_config_groups:
  assumes "parse_config c = Inr c'"
  shows "\<exists>es. parse_all (\<lambda>(k, v). rbind (parse_identifier k) (\<lambda>k'. rbind (parse_configured_group v) (\<lambda>v'. Inr (k', v'))))
      (cf_groups c) = Inr es \<and> cf_groups c' = from_entries es"
  using assms by (auto simp: parse_config_def parse_record_def rbind_eq_Inr Let_def)

lemma reordered_groups:
  assumes change: "mutate_config (reorder_groups_change ids) c = Inr (c', ids')"
    and ids: "parse_all parse_identifier ids = Inr ids" "distinct ids"
  shows "ids' = ids" and "map fst (cf_groups c') = ids" and "orderedGroupEntries (cf_groups c') = cf_groups c'"
    and "config_unique c'"
proof -
  let ?row = "\<lambda>(k, i). (i, (the (group_entry c i))\<lparr>cg_order := Some k\<rparr>)"
  let ?es = "map ?row (enumerate 0 ids)"
  have keys: "map fst ?es = ids" by (simp add: comp_def case_prod_unfold)
  then have id: "from_entries ?es = ?es" using ids(2) by (intro from_entries_distinct) simp
  from change have "parse_config (c\<lparr>cf_groups := ?es\<rparr>) = Inr c'" and i: "ids' = ids"
    by (auto simp: mutate_config_def reorder_groups_change_def rbind_eq_Inr id split: if_splits)
  note p = this(1)
  obtain es where all: "parse_all (\<lambda>(k, v). rbind (parse_identifier k) (\<lambda>k'. rbind (parse_configured_group v) (\<lambda>v'. Inr (k', v')))) ?es = Inr es"
    and g: "cf_groups c' = from_entries es"
    using parse_config_groups [OF p] by (auto simp del: map_eq_conv)
  note nth = parse_all_nth [OF all]
  have row: "fst (es ! j) = ids ! j \<and> cg_order (snd (es ! j)) = Some j" if j: "j < length es" for j
  proof -
    have l: "j < length ids" using nth j by simp
    then have "parse_identifier (ids ! j) = Inr (ids ! j)" using parse_all_nth [OF ids(1)] by blast
    moreover have "?es ! j = (ids ! j, (the (group_entry c (ids ! j)))\<lparr>cg_order := Some j\<rparr>)"
      using l by (simp add: nth_enumerate_eq)
    moreover have "(case ?es ! j of (k, v) \<Rightarrow> rbind (parse_identifier k) (\<lambda>k'.
        rbind (parse_configured_group v) (\<lambda>v'. Inr (k', v')))) = Inr (es ! j)"
    proof -
      have "j < length ?es" using l by simp
      from nth [THEN conjunct2, rule_format, OF this] show ?thesis .
    qed
    ultimately have "\<exists>v'. parse_configured_group ((the (group_entry c (ids ! j)))\<lparr>cg_order := Some j\<rparr>) = Inr v' \<and>
        es ! j = (ids ! j, v')" by (auto simp: rbind_eq_Inr)
    then show ?thesis using parse_group_order by fastforce
  qed
  have k: "map fst es = ids" using row nth by (intro nth_equalityI) auto
  then have es: "cf_groups c' = es" using ids(2) g by (simp add: from_entries_distinct)
  show "ids' = ids" by (rule i)
  show "map fst (cf_groups c') = ids" using k es by simp
  show "config_unique c'" by (rule parse_config_unique [OF p])
  show "orderedGroupEntries (cf_groups c') = cf_groups c'"
    unfolding es by (rule order_entries_sorted) (use row in \<open>auto simp: enumerate_eq_zip set_zip\<close>)
qed

text \<open> C27. A reordering that returns has written the order it was given: the file lists the groups in that
  order, and the row of each group carries its position.\<close>

theorem reordering_orders_the_store:
  assumes "reorderGroups now ids n t = (t', Inr (ids', revision))" and "keyed (tp_db t)"
    and "parse_all parse_identifier ids = Inr ids" and "distinct ids"
  shows "ids' = ids \<and> map fst (orderedGroupEntries (cf_groups (tp_config t'))) = ids \<and>
    revision = db_orderRevision (tp_db t') \<and>
    (\<forall>(k, i)\<in>set (enumerate 0 ids). \<exists>r\<in>set (db_groups (tp_db t')). g_id r = i \<and> g_order r = k)"
proof -
  obtain c d where m: "mutate_config (reorder_groups_change ids) (tp_config t) = Inr (c, ids')"
    and r: "reconcileTopology now c (tp_db t) = Inr d" and t': "tp_config t' = c"
      "tp_db t' = recordRuntimeEvent now ''group.reordered'' ''topology'' ''groups'' (Pl_order ids' (getOrderRevision d)) d"
      "revision = getOrderRevision d"
    using assms(1) by (auto simp: reorderGroups_def dest!: commit_topology_Inr split: if_splits)
  note c = reordered_groups [OF m assms(3,4)]
  have "settled c d" by (rule reconcile_settles [OF r assms(2) c(4)])
  then have "\<forall>e\<in>set (enumerate 0 (cf_groups c)). group_settled d e" using c(3) by (simp add: settled_def)
  then have rows: "\<exists>r\<in>set (db_groups d). g_id r = i \<and> g_order r = k" if "(k, i, g) \<in> set (enumerate 0 (cf_groups c))" for k i g
    using that by (auto simp: group_settled_def dest!: bspec)
  have "\<exists>r\<in>set (db_groups d). g_id r = i \<and> g_order r = k" if ki: "(k, i) \<in> set (enumerate 0 ids)" for k i
  proof -
    have "k < length (cf_groups c)" "i = fst (cf_groups c ! k)"
      using ki unfolding c(2) [symmetric] by (auto simp: enumerate_eq_zip set_zip)
    then have "(k, i, snd (cf_groups c ! k)) \<in> set (enumerate 0 (cf_groups c))"
      by (auto simp: enumerate_eq_zip set_zip intro!: exI [of _ k])
    then show ?thesis by (rule rows)
  qed
  then show ?thesis using c t' by (auto simp: recordRuntimeEvent_def append_event_def getOrderRevision_def Let_def)
qed

lemma swapped_reconciled: "\<not> isl (reconcileTopology 5 swapped_config empty_db)" by code_simp

lemma reordering_orders_the_store_witness:
  "\<exists>t' revision. reorderGroups 5 [''h'', ''g''] 0 \<lparr>tp_config = pair_config, tp_db = empty_db\<rparr> =
       (t', Inr ([''h'', ''g''], revision)) \<and>
     map fst (orderedGroupEntries (cf_groups (tp_config t'))) = [''h'', ''g''] \<and>
     (\<exists>r\<in>set (db_groups (tp_db t')). g_id r = ''g'' \<and> g_order r = 1)"
proof -
  obtain d where d: "reconcileTopology 5 swapped_config empty_db = Inr d"
    using swapped_reconciled by (cases "reconcileTopology 5 swapped_config empty_db") auto
  obtain t' where t: "reorderGroups 5 [''h'', ''g''] 0 \<lparr>tp_config = pair_config, tp_db = empty_db\<rparr> =
       (t', Inr ([''h'', ''g''], getOrderRevision d))"
  proof -
    have "getOrderRevision empty_db = 0" by (simp add: getOrderRevision_def empty_db_def)
    then show ?thesis using d that by (simp add: reorderGroups_def commit_topology_def swapped_mutation)
  qed
  have "parse_all parse_identifier [''h'', ''g''] = Inr [''h'', ''g'']" by code_simp
  then show ?thesis
    using t reordering_orders_the_store [OF t] sample_config_unique(2) by (auto simp: enumerate_Suc_eq)
qed

end
