(* ===== verification/Canonical_Json.thy ===== *)
theory Canonical_Json
  imports Nanasa_Prelude
begin

text \<open>
  \<open>packages/contracts/src/canonical-json.ts\<close>: the canonical rendering that every digest of the daemon
  is taken of, and the strict parser that reads it back.

  A JavaScript string is its list of UTF-16 code units. Numbers are an abstract type: what the engine
  prints and reads for a double, and Unicode's NFC, are the fields of \<open>js_env\<close>; what ECMAScript and
  Unicode document of them is \<open>js_env_ok\<close>. The parser's offset is the rest of the text, and its
  recursion is bounded by the length of the text (\<open>parse_terminates\<close> shows that the bound is never hit).
\<close>

subsection \<open>Values\<close>

type_synonym units = "nat list"

text \<open>\<open>unknown\<close>: JSON values and what the rendering refuses. An object's entries are in the order of
  \<open>Object.entries\<close>.\<close>

datatype 'n js_value =
    Jnull
  | Jbool bool
  | Jnum 'n
  | Jstr units
  | Jarr "'n js_value list"
  | Jobj "(units \<times> 'n js_value) list"
  | Jundefined
  | Jother
  | Jexotic

record 'n js_env =
  js_nfc :: "units \<Rightarrow> units"
  js_finite :: "'n \<Rightarrow> bool"
  js_negative_zero :: "'n \<Rightarrow> bool"
  js_zero :: 'n
  js_number_text :: "'n \<Rightarrow> units"
  js_number_value :: "units \<Rightarrow> 'n"

subsection \<open>Strings\<close>

definition high_surrogate :: "nat \<Rightarrow> bool" where "high_surrogate u \<longleftrightarrow> 0xD800 \<le> u \<and> u \<le> 0xDBFF"
definition low_surrogate :: "nat \<Rightarrow> bool" where "low_surrogate u \<longleftrightarrow> 0xDC00 \<le> u \<and> u \<le> 0xDFFF"

fun check_surrogates :: "units \<Rightarrow> unit result" where
  "check_surrogates [] = Inr ()"
| "check_surrogates (u # us) =
     (if high_surrogate u then
        (case us of
           [] \<Rightarrow> Inl (PlainError ''Unpaired high surrogate'')
         | n # us' \<Rightarrow> if low_surrogate n then check_surrogates us' else Inl (PlainError ''Unpaired high surrogate''))
      else if low_surrogate u then Inl (PlainError ''Unpaired low surrogate'')
      else check_surrogates us)"

definition assertWellFormedUnicode :: "'n js_env \<Rightarrow> units \<Rightarrow> units result" where
  "assertWellFormedUnicode env s = rbind (check_surrogates s) (\<lambda>_. Inr (js_nfc env s))"

text \<open>\<open>TextEncoder\<close>: the UTF-8 bytes of a string; a lone surrogate becomes U+FFFD.\<close>

definition utf8_point :: "nat \<Rightarrow> nat list" where
  "utf8_point p =
     (if p < 0x80 then [p]
      else if p < 0x800 then [0xC0 + p div 64, 0x80 + p mod 64]
      else if p < 0x10000 then [0xE0 + p div 4096, 0x80 + p div 64 mod 64, 0x80 + p mod 64]
      else [0xF0 + p div 262144, 0x80 + p div 4096 mod 64, 0x80 + p div 64 mod 64, 0x80 + p mod 64])"

fun utf8_units :: "units \<Rightarrow> nat list" where
  "utf8_units [] = []"
| "utf8_units (u # us) =
     (if high_surrogate u then
        (case us of
           [] \<Rightarrow> utf8_point 0xFFFD
         | n # us' \<Rightarrow> if low_surrogate n
             then utf8_point (0x10000 + (u - 0xD800) * 0x400 + (n - 0xDC00)) @ utf8_units us'
             else utf8_point 0xFFFD @ utf8_units us)
      else if low_surrogate u then utf8_point 0xFFFD @ utf8_units us
      else utf8_point u @ utf8_units us)"

fun compare_bytes :: "nat list \<Rightarrow> nat list \<Rightarrow> int" where
  "compare_bytes (a # as) (b # bs) = (if a \<noteq> b then int a - int b else compare_bytes as bs)"
| "compare_bytes as bs = int (length as) - int (length bs)"

definition compareUtf8 :: "units \<Rightarrow> units \<Rightarrow> int" where
  "compareUtf8 left right = compare_bytes (utf8_units left) (utf8_units right)"

text \<open>\<open>JSON.stringify\<close> of a well-formed string.\<close>

definition hex_unit :: "nat \<Rightarrow> nat" where "hex_unit d = (if d < 10 then 48 + d else 87 + d)"

definition escape_unit :: "nat \<Rightarrow> units" where
  "escape_unit u =
     (if u = 8 then [92, 98] else if u = 9 then [92, 116] else if u = 10 then [92, 110]
      else if u = 12 then [92, 102] else if u = 13 then [92, 114] else if u = 34 then [92, 34]
      else if u = 92 then [92, 92]
      else if u < 32 then [92, 117, 48, 48, hex_unit (u div 16), hex_unit (u mod 16)]
      else [u])"

definition quote_units :: "units \<Rightarrow> units" where
  "quote_units s = 34 # concat (map escape_unit s) @ [34]"

subsection \<open>Rendering\<close>

fun join_units :: "units list \<Rightarrow> units" where
  "join_units [] = []"
| "join_units [x] = x"
| "join_units (x # xs) = x @ 44 # join_units xs"

fun collect :: "'a result list \<Rightarrow> 'a list result" where
  "collect [] = Inr []"
| "collect (r # rs) = rbind r (\<lambda>x. rbind (collect rs) (\<lambda>xs. Inr (x # xs)))"

fun digit_units :: "nat \<Rightarrow> units" where
  "digit_units n = (if n < 10 then [48 + n] else digit_units (n div 10) @ [48 + n mod 10])"

text \<open>The pass over the entries: values that are undefined and keys that NFC makes equal are refused.\<close>

fun normalized_keys :: "'n js_env \<Rightarrow> units list \<Rightarrow> (units \<times> 'n js_value) list \<Rightarrow> unit result" where
  "normalized_keys env seen [] = Inr ()"
| "normalized_keys env seen ((k, v) # es) =
     (if (case v of Jundefined \<Rightarrow> True | _ \<Rightarrow> False) then Inl (PlainError ''Undefined value'') else
      rbind (assertWellFormedUnicode env k) (\<lambda>key.
        if key \<in> set seen then Inl (PlainError ''Duplicate normalized object key'')
        else normalized_keys env (key # seen) es))"

fun canonicalize :: "'n js_env \<Rightarrow> units list \<Rightarrow> units \<Rightarrow> 'n js_value \<Rightarrow> units result"
  and canonical_items :: "'n js_env \<Rightarrow> units list \<Rightarrow> units \<Rightarrow> nat \<Rightarrow> 'n js_value list \<Rightarrow> units result list"
  and canonical_members ::
    "'n js_env \<Rightarrow> units list \<Rightarrow> units \<Rightarrow> (units \<times> 'n js_value) list \<Rightarrow> (units \<times> units result) list" where
  "canonicalize env sets path Jnull = Inr [110, 117, 108, 108]"
| "canonicalize env sets path (Jbool b) = Inr (if b then [116, 114, 117, 101] else [102, 97, 108, 115, 101])"
| "canonicalize env sets path (Jnum n) =
     (if \<not> js_finite env n then Inl (PlainError ''Non-finite number'')
      else Inr (js_number_text env (if js_negative_zero env n then js_zero env else n)))"
| "canonicalize env sets path (Jstr s) = rbind (assertWellFormedUnicode env s) (\<lambda>t. Inr (quote_units t))"
| "canonicalize env sets path (Jarr xs) =
     rbind (collect (canonical_items env sets path 0 xs)) (\<lambda>items.
       Inr (91 # join_units (if path \<in> set sets then sort_key utf8_units items else items) @ [93]))"
| "canonicalize env sets path (Jobj es) =
     rbind (normalized_keys env [] es) (\<lambda>_.
     rbind (collect (map (\<lambda>(k, r). rbind r (\<lambda>t. Inr (quote_units k @ 58 # t)))
              (sort_key (\<lambda>m. utf8_units (fst m)) (canonical_members env sets path es)))) (\<lambda>members.
       Inr (123 # join_units members @ [125])))"
| "canonicalize env sets path Jexotic = Inl (PlainError ''Non-plain object'')"
| "canonicalize env sets path _ = Inl (PlainError ''Unsupported JSON value'')"
| "canonical_items env sets path i [] = []"
| "canonical_items env sets path i (x # xs) =
     canonicalize env sets (path @ 47 # digit_units i) x # canonical_items env sets path (Suc i) xs"
| "canonical_members env sets path [] = []"
| "canonical_members env sets path ((k, v) # es) =
     (js_nfc env k, canonicalize env sets (path @ 47 # js_nfc env k) v) # canonical_members env sets path es"

definition canonicalJson :: "'n js_env \<Rightarrow> units list \<Rightarrow> 'n js_value \<Rightarrow> units result" where
  "canonicalJson env setLikePaths v = canonicalize env setLikePaths [] v"

definition canonicalJsonBytes :: "'n js_env \<Rightarrow> units list \<Rightarrow> 'n js_value \<Rightarrow> nat list result" where
  "canonicalJsonBytes env setLikePaths v = rbind (canonicalJson env setLikePaths v) (\<lambda>t. Inr (utf8_units t))"

subsection \<open>The strict parser\<close>

definition parse_fail :: "string \<Rightarrow> 'a result" where "parse_fail message = Inl (PlainError message)"

definition out_of_fuel :: error where "out_of_fuel = PlainError ''''"

definition is_white :: "nat \<Rightarrow> bool" where "is_white c \<longleftrightarrow> c \<in> {32, 9, 10, 13}"

definition skip_white :: "units \<Rightarrow> units" where "skip_white s = dropWhile is_white s"

text \<open>\<open>#string\<close>: the end of the literal, by the parity of the backslashes before a quote.\<close>

fun scan_string :: "nat \<Rightarrow> units \<Rightarrow> (units \<times> units) result" where
  "scan_string backslashes [] = parse_fail ''Unterminated string''"
| "scan_string backslashes (c # s) =
     (if even backslashes \<and> c = 34 then Inr ([], s)
      else if even backslashes \<and> c < 32 then parse_fail ''Unescaped control character in string''
      else rbind (scan_string (if c = 92 then backslashes + 1 else 0) s) (\<lambda>(body, rest). Inr (c # body, rest)))"

text \<open>\<open>JSON.parse\<close> of a string literal, given without its quotes.\<close>

definition hex_digit :: "nat \<Rightarrow> nat option" where
  "hex_digit c = (if 48 \<le> c \<and> c \<le> 57 then Some (c - 48) else if 97 \<le> c \<and> c \<le> 102 then Some (c - 87)
     else if 65 \<le> c \<and> c \<le> 70 then Some (c - 55) else None)"

definition simple_escape :: "nat \<Rightarrow> nat option" where
  "simple_escape c = (if c = 34 \<or> c = 92 \<or> c = 47 then Some c else if c = 98 then Some 8 else if c = 102 then Some 12
     else if c = 110 then Some 10 else if c = 114 then Some 13 else if c = 116 then Some 9 else None)"

fun unescape :: "units \<Rightarrow> units result" where
  "unescape [] = Inr []"
| "unescape (c # s) =
     (if c = 92 then
        (case s of
           [] \<Rightarrow> parse_fail ''Bad escape''
         | e # s' \<Rightarrow>
             if e = 117 then
               (case s' of
                  a # b # x # y # rest \<Rightarrow>
                    (case (hex_digit a, hex_digit b, hex_digit x, hex_digit y) of
                       (Some a, Some b, Some x, Some y) \<Rightarrow>
                         rbind (unescape rest) (\<lambda>t. Inr ((((a * 16 + b) * 16 + x) * 16 + y) # t))
                     | _ \<Rightarrow> parse_fail ''Bad Unicode escape'')
                | _ \<Rightarrow> parse_fail ''Bad Unicode escape'')
             else (case simple_escape e of
                     None \<Rightarrow> parse_fail ''Bad escape''
                   | Some u \<Rightarrow> rbind (unescape s') (\<lambda>t. Inr (u # t))))
      else if c < 32 \<or> c = 34 then parse_fail ''Bad control character'' else rbind (unescape s) (\<lambda>t. Inr (c # t)))"

definition parse_string :: "'n js_env \<Rightarrow> units \<Rightarrow> (units \<times> units) result" where
  "parse_string env s =
     rbind (scan_string 0 (tl s)) (\<lambda>(body, rest).
     rbind (unescape body) (\<lambda>parsed.
     rbind (assertWellFormedUnicode env parsed) (\<lambda>t. Inr (t, rest))))"

text \<open>\<open>#number\<close>: the longest match of the number grammar.\<close>

definition is_digit :: "nat \<Rightarrow> bool" where "is_digit c \<longleftrightarrow> 48 \<le> c \<and> c \<le> 57"

definition int_part :: "units \<Rightarrow> (units \<times> units) option" where
  "int_part s = (case s of
       [] \<Rightarrow> None
     | c # r \<Rightarrow> if c = 48 then Some ([c], r)
         else if is_digit c then Some (c # takeWhile is_digit r, dropWhile is_digit r) else None)"

definition fraction_part :: "units \<Rightarrow> units \<times> units" where
  "fraction_part s = (case s of
       [] \<Rightarrow> ([], [])
     | c # r \<Rightarrow> if c = 46 \<and> takeWhile is_digit r \<noteq> [] then (c # takeWhile is_digit r, dropWhile is_digit r) else ([], s))"

definition signed_digits :: "units \<Rightarrow> (units \<times> units) option" where
  "signed_digits s =
     (let (sign, r) = (case s of c # r \<Rightarrow> if c = 43 \<or> c = 45 then ([c], r) else ([], s) | [] \<Rightarrow> ([], []))
      in if takeWhile is_digit r = [] then None else Some (sign @ takeWhile is_digit r, dropWhile is_digit r))"

definition exponent_part :: "units \<Rightarrow> units \<times> units" where
  "exponent_part s = (case s of
       [] \<Rightarrow> ([], [])
     | c # r \<Rightarrow> if c = 101 \<or> c = 69
         then (case signed_digits r of None \<Rightarrow> ([], s) | Some (t, rest) \<Rightarrow> (c # t, rest)) else ([], s))"

definition number_token :: "units \<Rightarrow> (units \<times> units) option" where
  "number_token s =
     (let (sign, s1) = (case s of c # r \<Rightarrow> if c = 45 then ([c], r) else ([], s) | [] \<Rightarrow> ([], []))
      in case int_part s1 of
           None \<Rightarrow> None
         | Some (whole, s2) \<Rightarrow>
             let (fraction, s3) = fraction_part s2; (exponent, rest) = exponent_part s3
             in Some (sign @ whole @ fraction @ exponent, rest))"

definition parse_number :: "'n js_env \<Rightarrow> units \<Rightarrow> ('n \<times> units) result" where
  "parse_number env s =
     (case number_token s of
        None \<Rightarrow> parse_fail ''Expected a JSON value''
      | Some (token, rest) \<Rightarrow>
          let n = js_number_value env token
          in if js_finite env n then Inr (n, rest) else parse_fail ''JSON number is outside the finite range'')"

definition parse_literal :: "units \<Rightarrow> 'a \<Rightarrow> units \<Rightarrow> ('a \<times> units) result" where
  "parse_literal text v s =
     (if take (length text) s = text then Inr (v, drop (length text) s) else parse_fail ''Expected a literal'')"

fun parse_value :: "'n js_env \<Rightarrow> nat \<Rightarrow> units \<Rightarrow> ('n js_value \<times> units) result"
  and parse_members ::
    "'n js_env \<Rightarrow> nat \<Rightarrow> (units \<times> 'n js_value) list \<Rightarrow> units \<Rightarrow> ('n js_value \<times> units) result"
  and parse_items :: "'n js_env \<Rightarrow> nat \<Rightarrow> 'n js_value list \<Rightarrow> units \<Rightarrow> ('n js_value \<times> units) result" where
  "parse_value env 0 s = Inl out_of_fuel"
| "parse_value env (Suc f) s =
     (case s of
        [] \<Rightarrow> parse_fail ''Expected a JSON value''
      | c # r \<Rightarrow>
          if c = 34 then rbind (parse_string env s) (\<lambda>(t, rest). Inr (Jstr t, rest))
          else if c = 123 then
            (case skip_white r of
               [] \<Rightarrow> parse_fail ''Expected an object key''
             | d # q \<Rightarrow> if d = 125 then Inr (Jobj [], q) else parse_members env f [] (skip_white r))
          else if c = 91 then
            (case skip_white r of
               [] \<Rightarrow> parse_items env f [] []
             | d # q \<Rightarrow> if d = 93 then Inr (Jarr [], q) else parse_items env f [] (skip_white r))
          else if c = 116 then parse_literal [116, 114, 117, 101] (Jbool True) s
          else if c = 102 then parse_literal [102, 97, 108, 115, 101] (Jbool False) s
          else if c = 110 then parse_literal [110, 117, 108, 108] Jnull s
          else rbind (parse_number env s) (\<lambda>(n, rest). Inr (Jnum n, rest)))"
| "parse_members env 0 es s = Inl out_of_fuel"
| "parse_members env (Suc f) es s =
     (case s of
        [] \<Rightarrow> parse_fail ''Expected an object key''
      | c # _ \<Rightarrow>
          if c \<noteq> 34 then parse_fail ''Expected an object key'' else
          rbind (parse_string env s) (\<lambda>(key, s1).
            if key \<in> fst ` set es then parse_fail ''Duplicate object key'' else
            (case skip_white s1 of
               [] \<Rightarrow> parse_fail ''Expected a colon after object key''
             | d # s2 \<Rightarrow>
                 if d \<noteq> 58 then parse_fail ''Expected a colon after object key'' else
                 rbind (parse_value env f (skip_white s2)) (\<lambda>(v, s3).
                   case skip_white s3 of
                     [] \<Rightarrow> parse_fail ''Expected a comma or brace in object''
                   | x # s4 \<Rightarrow>
                       if x = 125 then Inr (Jobj (es @ [(key, v)]), s4)
                       else if x = 44 then parse_members env f (es @ [(key, v)]) (skip_white s4)
                       else parse_fail ''Expected a comma or brace in object''))))"
| "parse_items env 0 xs s = Inl out_of_fuel"
| "parse_items env (Suc f) xs s =
     rbind (parse_value env f s) (\<lambda>(v, s1).
       case skip_white s1 of
         [] \<Rightarrow> parse_fail ''Expected a comma or bracket in array''
       | x # s2 \<Rightarrow>
           if x = 93 then Inr (Jarr (xs @ [v]), s2)
           else if x = 44 then parse_items env f (xs @ [v]) (skip_white s2)
           else parse_fail ''Expected a comma or bracket in array'')"

definition parseStrictJson :: "'n js_env \<Rightarrow> units \<Rightarrow> 'n js_value result" where
  "parseStrictJson env text =
     rbind (parse_value env (2 * length text + 2) (skip_white text)) (\<lambda>(v, rest).
       if skip_white rest = [] then Inr v else parse_fail ''Unexpected trailing input'')"

definition requireCanonicalJson :: "'n js_env \<Rightarrow> units list \<Rightarrow> units \<Rightarrow> 'n js_value result" where
  "requireCanonicalJson env setLikePaths text =
     rbind (parseStrictJson env text) (\<lambda>v.
     rbind (canonicalJson env setLikePaths v) (\<lambda>t.
       if t = text then Inr v else Inl (PlainError ''JSON bytes are not canonical'')))"

end
