(* ===== verification/Canonical_Roundtrip.thy ===== *)
theory Canonical_Roundtrip
  imports Canonical_Json "HOL-Library.Multiset"
begin

text \<open>
  Properties of the canonical rendering: the strict reader accepts every rendering and returns the
  normal form of the value, two values share a rendering exactly when they share a normal form, and
  the reader terminates on every text. The last section gives an engine over the integers.
\<close>


subsection \<open>What the engine's number and text functions promise\<close>

definition js_env_ok :: "'n js_env \<Rightarrow> bool" where
  "js_env_ok env \<longleftrightarrow>
     (\<forall>s. check_surrogates s = Inr () \<longrightarrow> check_surrogates (js_nfc env s) = Inr ()) \<and>
     (\<forall>s. js_nfc env (js_nfc env s) = js_nfc env s) \<and>
     js_finite env (js_zero env) \<and> \<not> js_negative_zero env (js_zero env) \<and>
     (\<forall>n. js_finite env n \<longrightarrow> \<not> js_negative_zero env n \<longrightarrow>
        number_token (js_number_text env n) = Some (js_number_text env n, []) \<and>
        js_number_value env (js_number_text env n) = n)"

subsection \<open>Strings\<close>

lemma hex_round [simp]: "d < 16 \<Longrightarrow> hex_digit (hex_unit d) = Some d"
  by (auto simp: hex_digit_def hex_unit_def)

lemma unescape_escape: "unescape (escape_unit u @ s) = rbind (unescape s) (\<lambda>t. Inr (u # t))"
proof -
  have h: "hex_digit 48 = Some 0" by (simp add: hex_digit_def)
  have "u < 32 \<Longrightarrow> u div 16 < 16" "u mod 16 < 16" "u div 16 * 16 + u mod 16 = u" by simp_all
  then show ?thesis
    by (auto simp: escape_unit_def simple_escape_def h)
qed

lemma unescape_escapes [simp]: "unescape (concat (map escape_unit s)) = Inr s"
  by (induction s) (simp_all add: unescape_escape)

lemma scan_parity: "even b = even b' \<Longrightarrow> scan_string b s = scan_string b' s"
proof (induction s arbitrary: b b')
  case (Cons c s)
  have "scan_string (if c = 92 then b + 1 else 0) s = scan_string (if c = 92 then b' + 1 else 0) s"
    by (rule Cons.IH) (use Cons.prems in auto)
  then show ?case using Cons.prems by simp
qed simp

lemma scan_escape:
  "scan_string 0 (escape_unit u @ s) = rbind (scan_string 0 s) (\<lambda>(body, rest). Inr (escape_unit u @ body, rest))"
proof -
  have hx: "hex_unit d \<noteq> 34" "hex_unit d \<noteq> 92" "\<not> hex_unit d < 32" for d
    by (auto simp: hex_unit_def)
  have two: "scan_string 2 s = scan_string 0 s" by (rule scan_parity) simp
  show ?thesis
    by (simp add: escape_unit_def two hx numeral_2_eq_2 [symmetric] rbind_def split: sum.split)
qed

lemma scan_escapes: "scan_string 0 (concat (map escape_unit s) @ 34 # rest) = Inr (concat (map escape_unit s), rest)"
  by (induction s) (simp_all add: scan_escape)

lemma parse_quoted:
  assumes "check_surrogates s = Inr ()"
  shows "parse_string env (quote_units s @ rest) = Inr (js_nfc env s, rest)"
  using assms by (simp add: parse_string_def quote_units_def scan_escapes assertWellFormedUnicode_def)


subsection \<open>Numbers\<close>

text \<open>What may follow a value in a rendering.\<close>

definition ends_value :: "units \<Rightarrow> bool" where
  "ends_value rest \<longleftrightarrow> rest = [] \<or> hd rest \<in> {44, 93, 125}"

lemma digits_append:
  assumes "ends_value rest"
  shows "takeWhile is_digit (s @ rest) = takeWhile is_digit s"
    and "dropWhile is_digit (s @ rest) = dropWhile is_digit s @ rest"
proof -
  have r: "takeWhile is_digit rest = []" "dropWhile is_digit rest = rest"
    using assms by (cases rest; auto simp: ends_value_def is_digit_def)+
  show "takeWhile is_digit (s @ rest) = takeWhile is_digit s" by (induction s) (simp_all add: r)
  show "dropWhile is_digit (s @ rest) = dropWhile is_digit s @ rest" by (induction s) (simp_all add: r)
qed

lemma int_part_append:
  assumes "ends_value rest"
  shows "int_part (s @ rest) = map_option (\<lambda>(w, r). (w, r @ rest)) (int_part s)"
  using assms
  by (cases s; cases rest) (auto simp: int_part_def digits_append, auto simp: ends_value_def is_digit_def)

lemma fraction_part_append:
  assumes "ends_value rest"
  shows "fraction_part (s @ rest) = (let (w, r) = fraction_part s in (w, r @ rest))"
  using assms
  by (cases s; cases rest) (auto simp: fraction_part_def digits_append, auto simp: ends_value_def)

lemma signed_digits_append:
  assumes "ends_value rest"
  shows "signed_digits (s @ rest) = map_option (\<lambda>(w, r). (w, r @ rest)) (signed_digits s)"
proof (cases s)
  case Nil
  then show ?thesis using assms digits_append [OF assms, of "[]"]
    by (cases rest) (auto simp: signed_digits_def ends_value_def)
next
  case (Cons c q)
  then show ?thesis using digits_append [OF assms, of q] digits_append [OF assms, of s]
    by (auto simp: signed_digits_def Let_def)
qed

lemma exponent_part_append:
  assumes "ends_value rest"
  shows "exponent_part (s @ rest) = (let (w, r) = exponent_part s in (w, r @ rest))"
proof (cases s)
  case Nil
  then show ?thesis using assms by (cases rest) (auto simp: exponent_part_def ends_value_def)
next
  case (Cons c q)
  then show ?thesis using signed_digits_append [OF assms, of q]
    by (auto simp: exponent_part_def split: option.split)
qed

lemma number_token_append:
  assumes "ends_value rest"
  shows "number_token (s @ rest) = map_option (\<lambda>(w, r). (w, r @ rest)) (number_token s)"
proof -
  have sign: "(case s @ rest of c # r \<Rightarrow> if c = 45 then ([c], r) else ([], s @ rest) | [] \<Rightarrow> ([], [])) =
      (let (w, r) = (case s of c # r \<Rightarrow> if c = 45 then ([c], r) else ([], s) | [] \<Rightarrow> ([], [])) in (w, r @ rest))"
    using assms by (cases s; cases rest) (auto simp: ends_value_def)
  obtain sg s1 where s1: "(case s of c # r \<Rightarrow> if c = 45 then ([c], r) else ([], s) | [] \<Rightarrow> ([], [])) = (sg, s1)"
    by fastforce
  show ?thesis
  proof (cases "int_part s1")
    case None
    then show ?thesis unfolding number_token_def sign s1 by (simp add: int_part_append [OF assms])
  next
    case (Some p)
    then show ?thesis
      unfolding number_token_def sign s1
      by (simp add: int_part_append [OF assms] fraction_part_append [OF assms] exponent_part_append [OF assms]
          case_prod_unfold Let_def)
  qed
qed

lemma number_token_head:
  assumes "number_token s = Some (t, r)" shows "s \<noteq> []" and "hd s = 45 \<or> is_digit (hd s)"
  using assms by (cases s; auto simp: number_token_def int_part_def is_digit_def Let_def split: if_splits prod.splits)+

subsection \<open>Sorting\<close>

lemma insort_key_map: "insort_key f (g x) (map g xs) = map g (insort_key (\<lambda>y. f (g y)) x xs)"
  by (induction xs) auto

lemma sort_key_map: "sort_key f (map g xs) = map g (sort_key (\<lambda>y. f (g y)) xs)"
  by (induction xs) (simp_all add: insort_key_map)

lemma collect_Inr: "collect (map h xs) = Inr ys \<Longrightarrow> list_all2 (\<lambda>x y. h x = Inr y) xs ys"
  by (induction xs arbitrary: ys) (auto simp: rbind_eq_Inr)


subsection \<open>Reading back\<close>

text \<open>What a value is read back as: text in NFC, negative zero as zero, entries in the order of their keys.\<close>

fun normal_form :: "'n js_env \<Rightarrow> 'n js_value \<Rightarrow> 'n js_value" where
  "normal_form env (Jnum n) = Jnum (if js_negative_zero env n then js_zero env else n)"
| "normal_form env (Jstr s) = Jstr (js_nfc env s)"
| "normal_form env (Jarr xs) = Jarr (map (normal_form env) xs)"
| "normal_form env (Jobj es) =
     Jobj (sort_key (\<lambda>e. utf8_units (fst e)) (map (\<lambda>e. (js_nfc env (fst e), normal_form env (snd e))) es))"
| "normal_form env v = v"

lemma canonical_items_map:
  "canonical_items env sets path i xs = map (\<lambda>(j, x). canonicalize env sets (path @ 47 # digit_units j) x) (enumerate i xs)"
  by (induction xs arbitrary: i) simp_all

lemma canonical_members_map:
  "canonical_members env sets path es =
     map (\<lambda>e. (js_nfc env (fst e), canonicalize env sets (path @ 47 # js_nfc env (fst e)) (snd e))) es"
  by (induction es) auto

lemma undefined_case: "(case v of Jundefined \<Rightarrow> True | _ \<Rightarrow> False) \<longleftrightarrow> v = Jundefined"
  by (cases v) auto

lemma normalized_keys_Inr:
  "normalized_keys env seen es = Inr () \<longleftrightarrow>
     list_all (\<lambda>e. snd e \<noteq> Jundefined \<and> check_surrogates (fst e) = Inr ()) es \<and>
     distinct (map (\<lambda>e. js_nfc env (fst e)) es) \<and> set (map (\<lambda>e. js_nfc env (fst e)) es) \<inter> set seen = {}"
proof (induction es arbitrary: seen)
  case (Cons e es)
  obtain k v where e: "e = (k, v)" by (cases e)
  show ?case
    by (cases "check_surrogates k")
      (auto simp: e assertWellFormedUnicode_def undefined_case Cons.IH simp del: list_all_iff split: if_splits)
qed simp

definition reads_back :: "'n js_env \<Rightarrow> units \<Rightarrow> 'n js_value \<Rightarrow> bool" where
  "reads_back env t v \<longleftrightarrow> t \<noteq> [] \<and> \<not> is_white (hd t) \<and> hd t \<noteq> 93 \<and>
     (\<forall>f rest. length t \<le> f \<longrightarrow> ends_value rest \<longrightarrow> parse_value env f (t @ rest) = Inr (v, rest))"

lemma reads_backD:
  assumes "reads_back env t v" and "length t \<le> f" and "ends_value rest"
  shows "parse_value env f (t @ rest) = Inr (v, rest)" and "skip_white (t @ rest) = t @ rest"
  using assms by (cases t; simp add: reads_back_def skip_white_def)+

lemma reads_back_intro:
  assumes "\<not> is_white c" and "c \<noteq> 93"
    and "\<And>f rest. length s \<le> f \<Longrightarrow> ends_value rest \<Longrightarrow> parse_value env (Suc f) (c # s @ rest) = Inr (v, rest)"
  shows "reads_back env (c # s) v"
  unfolding reads_back_def
proof (intro conjI allI impI)
  fix f rest assume f: "length (c # s) \<le> f" "ends_value rest"
  then obtain g where "f = Suc g" by (cases f) auto
  then show "parse_value env f ((c # s) @ rest) = Inr (v, rest)" using f assms(3) by simp
qed (use assms in auto)

lemma skip_ends [simp]: "skip_white (44 # s) = 44 # s" "skip_white (93 # s) = 93 # s" "skip_white (125 # s) = 125 # s"
  "skip_white (58 # s) = 58 # s" "skip_white (34 # s) = 34 # s" "skip_white [] = []"
  by (simp_all add: skip_white_def is_white_def)

lemma ends_simps [simp]: "ends_value (44 # s)" "ends_value (93 # s)" "ends_value (125 # s)" "ends_value []"
  by (simp_all add: ends_value_def)

lemma items_read_back:
  assumes "list_all2 (reads_back env) ts vs" and "ts \<noteq> []" and "length (join_units ts) < f"
  shows "parse_items env f acc (join_units ts @ 93 # rest) = Inr (Jarr (acc @ vs), rest)"
  using assms
proof (induction ts arbitrary: vs acc f)
  case (Cons t ts)
  then obtain v ws g where vs: "vs = v # ws" "reads_back env t v" "list_all2 (reads_back env) ts ws" and f: "f = Suc g"
    by (cases f) (auto simp: list_all2_Cons1)
  show ?case
  proof (cases ts)
    case Nil
    then show ?thesis using vs f Cons.prems(3) reads_backD(1) [OF vs(2), of g "93 # rest"] by simp
  next
    case (Cons u us)
    have "length t \<le> g" "length (join_units ts) < g" using Cons.prems(3) Cons f by simp_all
    moreover have "parse_items env g (acc @ [v]) (join_units ts @ 93 # rest) = Inr (Jarr ((acc @ [v]) @ ws), rest)"
      by (rule Cons.IH [OF vs(3)]) (use Cons calculation in simp_all)
    moreover obtain w where "reads_back env u w" using vs(3) Cons by (auto simp: list_all2_Cons1)
    then have "skip_white (join_units ts @ 93 # rest) = join_units ts @ 93 # rest"
      using Cons by (cases us; cases u) (simp_all add: reads_back_def skip_white_def)
    ultimately show ?thesis
      using vs f Cons reads_backD(1) [OF vs(2), of g "44 # join_units ts @ 93 # rest"] by simp
  qed
qed simp


definition member_text :: "units \<Rightarrow> units \<Rightarrow> units" where "member_text k t = quote_units k @ 58 # t"

definition member_reads_back :: "'n js_env \<Rightarrow> units \<times> units \<Rightarrow> units \<times> 'n js_value \<Rightarrow> bool" where
  "member_reads_back env kt kv \<longleftrightarrow> fst kv = fst kt \<and> check_surrogates (fst kt) = Inr () \<and>
     js_nfc env (fst kt) = fst kt \<and> reads_back env (snd kt) (snd kv)"

lemma quoted_head: "quote_units k @ s = 34 # tl (quote_units k @ s)"
  by (simp add: quote_units_def)

lemma joined_members: "xs \<noteq> [] \<Longrightarrow> skip_white (join_units (map (\<lambda>(k, t). member_text k t) xs) @ s) =
    join_units (map (\<lambda>(k, t). member_text k t) xs) @ s"
  by (cases xs rule: list.exhaust; cases "tl xs") (auto simp: member_text_def quote_units_def)

lemma members_read_back:
  assumes "list_all2 (member_reads_back env) kts kvs" and "kts \<noteq> []"
    and "length (join_units (map (\<lambda>(k, t). member_text k t) kts)) < f"
    and "distinct (map fst kts)" and "fst ` set es \<inter> fst ` set kts = {}"
  shows "parse_members env f es (join_units (map (\<lambda>(k, t). member_text k t) kts) @ 125 # rest) = Inr (Jobj (es @ kvs), rest)"
  using assms
proof (induction kts arbitrary: kvs es f)
  case (Cons kt kts)
  let ?txt = "\<lambda>xs. join_units (map (\<lambda>(k, t). member_text k t) xs)"
  obtain k t where kt: "kt = (k, t)" by (cases kt)
  obtain v ws g where vs: "kvs = (k, v) # ws" "check_surrogates k = Inr ()" "js_nfc env k = k" "reads_back env t v"
      "list_all2 (member_reads_back env) kts ws" and f: "f = Suc g"
  proof -
    obtain kv ws where "kvs = kv # ws" "member_reads_back env kt kv" "list_all2 (member_reads_back env) kts ws"
      using Cons.prems(1) by (auto simp: list_all2_Cons1)
    moreover obtain g where "f = Suc g" using Cons.prems(3) by (cases f) auto
    ultimately show thesis using that kt by (cases kv) (auto simp: member_reads_back_def)
  qed
  have fresh: "k \<notin> fst ` set es" using Cons.prems(5) kt by auto
  have step: "parse_members env f es (member_text k t @ s) =
      (case skip_white s of
         [] \<Rightarrow> parse_fail ''Expected a comma or brace in object''
       | x # s4 \<Rightarrow> if x = 125 then Inr (Jobj (es @ [(k, v)]), s4)
           else if x = 44 then parse_members env g (es @ [(k, v)]) (skip_white s4)
           else parse_fail ''Expected a comma or brace in object'')"
    if s: "ends_value s" "length (member_text k t) < f" for s
  proof -
    have "parse_string env (quote_units k @ 58 # t @ s) = Inr (k, 58 # t @ s)" using vs by (simp add: parse_quoted)
    moreover have "length t \<le> g" using s(2) f by (simp add: member_text_def)
    ultimately show ?thesis
      using reads_backD [OF vs(4) _ s(1), of g] fresh
      by (simp add: f member_text_def) (simp add: quote_units_def)
  qed
  show ?case
  proof (cases "kts = []")
    case True
    then show ?thesis using vs Cons.prems(3) step [of "125 # rest"] by (simp add: kt)
  next
    case False
    then have tx: "?txt (kt # kts) = member_text k t @ 44 # ?txt kts" by (cases kts) (auto simp: kt)
    have "parse_members env g (es @ [(k, v)]) (?txt kts @ 125 # rest) = Inr (Jobj ((es @ [(k, v)]) @ ws), rest)"
      by (rule Cons.IH [OF vs(5) False]) (use Cons.prems(3-5) f tx kt in auto)
    moreover have "length (member_text k t) < f" using Cons.prems(3) tx by simp
    ultimately show ?thesis
      using vs step [of "44 # ?txt kts @ 125 # rest"] joined_members [OF False, of "125 # rest"] tx by simp
  qed
qed simp


lemma literal_reads_back:
  "reads_back env [110, 117, 108, 108] Jnull"
  "reads_back env [116, 114, 117, 101] (Jbool True)"
  "reads_back env [102, 97, 108, 115, 101] (Jbool False)"
  by (rule reads_back_intro; simp add: is_white_def parse_literal_def)+

lemma number_reads_back:
  assumes "js_env_ok env" and "js_finite env n" and "\<not> js_negative_zero env n"
  shows "reads_back env (js_number_text env n) (Jnum n)"
proof -
  have tok: "number_token (js_number_text env n) = Some (js_number_text env n, [])"
    and val: "js_number_value env (js_number_text env n) = n" using assms by (auto simp: js_env_ok_def)
  obtain c s where cs: "js_number_text env n = c # s" "c = 45 \<or> is_digit c"
    using number_token_head [OF tok] by (cases "js_number_text env n") auto
  have "parse_value env (Suc f) (c # s @ rest) = Inr (Jnum n, rest)" if "ends_value rest" for f rest
  proof -
    have "number_token ((c # s) @ rest) = Some (c # s, rest)"
      using number_token_append [OF that, of "c # s"] tok cs by simp
    then have "parse_number env (c # s @ rest) = Inr (n, rest)" using val assms(2) cs by (simp add: parse_number_def)
    then show ?thesis using cs(2) by (auto simp: is_digit_def)
  qed
  then show ?thesis unfolding cs(1) using cs(2) by (intro reads_back_intro) (auto simp: is_white_def is_digit_def)
qed

lemma string_reads_back:
  assumes "js_env_ok env" and "check_surrogates s = Inr ()"
  shows "reads_back env (quote_units (js_nfc env s)) (Jstr (js_nfc env s))"
proof -
  have "parse_string env (quote_units (js_nfc env s) @ rest) = Inr (js_nfc env s, rest)" for rest
    using assms parse_quoted [of "js_nfc env s" env rest] by (simp add: js_env_ok_def)
  then show ?thesis unfolding quote_units_def by (intro reads_back_intro) (simp_all add: is_white_def)
qed

lemma array_reads_back:
  assumes "list_all2 (reads_back env) ts vs"
  shows "reads_back env (91 # join_units ts @ [93]) (Jarr vs)"
proof (rule reads_back_intro)
  fix f rest assume f: "length (join_units ts @ [93]) \<le> f" and rest: "ends_value rest"
  show "parse_value env (Suc f) (91 # (join_units ts @ [93]) @ rest) = Inr (Jarr vs, rest)"
  proof (cases ts)
    case Nil
    then show ?thesis using assms by simp
  next
    case (Cons t us)
    then obtain v where "reads_back env t v" using assms by (auto simp: list_all2_Cons1)
    then obtain d q where dq: "join_units ts @ 93 # rest = d # q" "d \<noteq> 93" "\<not> is_white d"
      using Cons by (cases us; cases t) (auto simp: reads_back_def)
    have "parse_items env f [] (join_units ts @ 93 # rest) = Inr (Jarr ([] @ vs), rest)"
      by (rule items_read_back [OF assms]) (use Cons f in auto)
    then show ?thesis using dq by (simp add: skip_white_def)
  qed
qed (simp_all add: is_white_def)

lemma object_reads_back:
  assumes "list_all2 (member_reads_back env) kts kvs" and "distinct (map fst kts)"
  shows "reads_back env (123 # join_units (map (\<lambda>(k, t). member_text k t) kts) @ [125]) (Jobj kvs)"
    (is "reads_back env (123 # ?t @ [125]) _")
proof (rule reads_back_intro)
  fix f rest assume f: "length (?t @ [125]) \<le> f" and rest: "ends_value rest"
  show "parse_value env (Suc f) (123 # (?t @ [125]) @ rest) = Inr (Jobj kvs, rest)"
  proof (cases "kts = []")
    case True
    then show ?thesis using assms by simp
  next
    case False
    have "parse_members env f [] (?t @ 125 # rest) = Inr (Jobj ([] @ kvs), rest)"
      by (rule members_read_back [OF assms(1) False _ assms(2)]) (use f in auto)
    moreover obtain q where "?t @ 125 # rest = 34 # q"
      using False by (cases kts; cases "tl kts") (auto simp: member_text_def quote_units_def)
    ultimately show ?thesis by simp
  qed
qed (simp_all add: is_white_def)

lemma canonical_reads_back:
  assumes "js_env_ok env"
  shows "canonicalize env [] path v = Inr t \<Longrightarrow> reads_back env t (normal_form env v)"
proof (induction v arbitrary: path t)
  case (Jbool b)
  then show ?case by (cases b) (auto simp: literal_reads_back)
next
  case (Jnum n)
  then show ?case using assms number_reads_back [OF assms, of "js_zero env"] number_reads_back [OF assms, of n]
    by (auto simp: js_env_ok_def split: if_splits)
next
  case (Jstr s)
  then show ?case using string_reads_back [OF assms] by (auto simp: assertWellFormedUnicode_def rbind_eq_Inr)
next
  case (Jarr xs)
  then obtain ts where ts: "collect (canonical_items env [] path 0 xs) = Inr ts" "t = 91 # join_units ts @ [93]"
    by (auto simp: rbind_eq_Inr)
  have "list_all2 (\<lambda>(j, x) t. canonicalize env [] (path @ 47 # digit_units j) x = Inr t) (enumerate 0 xs) ts"
    using collect_Inr [OF ts(1) [unfolded canonical_items_map]] by (simp add: case_prod_unfold)
  then have "length ts = length xs \<and> (\<forall>j<length xs. reads_back env (ts ! j) (normal_form env (xs ! j)))"
    using Jarr.IH by (auto simp: list_all2_conv_all_nth nth_enumerate_eq)
  then have "list_all2 (reads_back env) ts (map (normal_form env) xs)" by (simp add: list_all2_conv_all_nth)
  then show ?case unfolding ts(2) by (simp add: array_reads_back)
next
  case (Jobj es)
  let ?c = "\<lambda>e. canonicalize env [] (path @ 47 # js_nfc env (fst e)) (snd e)"
  define S where "S = sort_key (\<lambda>e. utf8_units (js_nfc env (fst e))) es"
  have set: "set S = set es" by (simp add: S_def)
  from Jobj.prems obtain members where keys: "normalized_keys env [] es = Inr ()"
    and m: "collect (map (\<lambda>(k, r). rbind r (\<lambda>t. Inr (quote_units k @ 58 # t)))
              (sort_key (\<lambda>m. utf8_units (fst m)) (canonical_members env [] path es))) = Inr members"
    and t: "t = 123 # join_units members @ [125]" by (auto simp: rbind_eq_Inr)
  have sorted: "sort_key (\<lambda>m. utf8_units (fst m)) (canonical_members env [] path es) = map (\<lambda>e. (js_nfc env (fst e), ?c e)) S"
    unfolding canonical_members_map sort_key_map by (simp add: S_def)
  have "list_all2 (\<lambda>e u. rbind (?c e) (\<lambda>t. Inr (quote_units (js_nfc env (fst e)) @ 58 # t)) = Inr u) S members"
    using collect_Inr [OF m [unfolded sorted map_map]] by simp
  then have each: "list_all2 (\<lambda>e u. \<exists>t. ?c e = Inr t \<and> u = member_text (js_nfc env (fst e)) t) S members"
    by (rule list_all2_mono) (auto simp: rbind_eq_Inr member_text_def)
  define kts where "kts = map (\<lambda>e. (js_nfc env (fst e), projr (?c e))) S"
  have members: "members = map (\<lambda>(k, t). member_text k t) kts"
    using each by (auto simp: kts_def list_all2_conv_all_nth intro!: nth_equalityI)
  have "reads_back env (projr (?c e)) (normal_form env (snd e))" if e: "e \<in> set S" for e
  proof -
    obtain u where "?c e = Inr u" using each e by (auto simp: list_all2_conv_all_nth in_set_conv_nth)
    moreover have "e \<in> set es" using e set by simp
    ultimately show ?thesis using Jobj.IH [of e "snd e"] by (cases e) auto
  qed
  moreover have "check_surrogates (fst e) = Inr ()" if "e \<in> set S" for e
    using keys that set by (auto simp: normalized_keys_Inr list_all_iff)
  ultimately have "list_all2 (member_reads_back env) kts (map (\<lambda>e. (js_nfc env (fst e), normal_form env (snd e))) S)"
    using assms by (auto simp: kts_def list.rel_map member_reads_back_def js_env_ok_def intro!: list.rel_refl_strong)
  moreover have "distinct (map fst kts)"
  proof -
    have "mset S = mset es" by (simp add: S_def)
    then have "mset (map (\<lambda>e. js_nfc env (fst e)) S) = mset (map (\<lambda>e. js_nfc env (fst e)) es)" by simp
    moreover have "distinct (map (\<lambda>e. js_nfc env (fst e)) es)" using keys by (simp add: normalized_keys_Inr)
    ultimately have "distinct (map (\<lambda>e. js_nfc env (fst e)) S)" by (metis mset_eq_imp_distinct_iff)
    then show ?thesis by (simp add: kts_def comp_def)
  qed
  moreover have "normal_form env (Jobj es) = Jobj (map (\<lambda>e. (js_nfc env (fst e), normal_form env (snd e))) S)"
    by (simp add: sort_key_map S_def)
  ultimately show ?case unfolding t members by (simp only: object_reads_back)
qed (auto simp: literal_reads_back)


subsection \<open>Termination\<close>

lemma skip_white_length: "length (skip_white s) \<le> length s"
  by (simp add: skip_white_def length_dropWhile_le)

lemma scan_string_length: "scan_string b s = Inr (t, rest) \<Longrightarrow> length rest < length s"
  by (induction s arbitrary: b t) (fastforce simp: parse_fail_def rbind_eq_Inr split: if_splits)+

lemma parse_string_length: "parse_string env s = Inr (t, rest) \<Longrightarrow> length rest < length s"
  by (cases s) (auto simp: parse_string_def rbind_eq_Inr parse_fail_def dest!: scan_string_length)

lemma int_part_length: "int_part s = Some (w, r) \<Longrightarrow> length r < length s"
  using length_dropWhile_le [of is_digit] by (auto simp: int_part_def less_Suc_eq_le split: list.splits if_splits)

lemma fraction_part_length: "fraction_part s = (w, r) \<Longrightarrow> length r \<le> length s"
  using length_dropWhile_le [of is_digit] by (auto simp: fraction_part_def le_SucI split: list.splits if_splits)

lemma signed_digits_length: "signed_digits s = Some (w, r) \<Longrightarrow> length r \<le> length s"
  using length_dropWhile_le [of is_digit "tl s"] length_dropWhile_le [of is_digit s]
  by (cases s) (auto simp: signed_digits_def Let_def split: if_splits)

lemma exponent_part_length: "exponent_part s = (w, r) \<Longrightarrow> length r \<le> length s"
  by (auto simp: exponent_part_def split: list.splits if_splits option.splits dest!: signed_digits_length)

lemma number_token_length: "number_token s = Some (w, r) \<Longrightarrow> length r < length s"
proof -
  assume a: "number_token s = Some (w, r)"
  obtain sg s1 where s1: "(case s of c # r \<Rightarrow> if c = 45 then ([c], r) else ([], s) | [] \<Rightarrow> ([], [])) = (sg, s1)"
    by fastforce
  then have l: "length s1 \<le> length s" by (auto split: list.splits if_splits)
  obtain w1 s2 where 2: "int_part s1 = Some (w1, s2)" using a s1 by (auto simp: number_token_def split: option.splits)
  obtain w2 s3 where 3: "fraction_part s2 = (w2, s3)" by fastforce
  obtain w3 s4 where 4: "exponent_part s3 = (w3, s4)" by fastforce
  have "r = s4" using a s1 2 3 4 by (simp add: number_token_def)
  then show ?thesis
    using l int_part_length [OF 2] fraction_part_length [OF 3] exponent_part_length [OF 4] by simp
qed

lemma parse_number_length: "parse_number env s = Inr (n, rest) \<Longrightarrow> length rest < length s"
  by (auto simp: parse_number_def parse_fail_def Let_def split: option.splits if_splits dest: number_token_length)

lemma parse_literal_length: "parse_literal t v s = Inr (w, rest) \<Longrightarrow> t \<noteq> [] \<Longrightarrow> s \<noteq> [] \<Longrightarrow> length rest < length s"
  by (auto simp: parse_literal_def parse_fail_def split: if_splits)

lemma skip_white_Cons: "skip_white s = c # q \<Longrightarrow> length q < length s"
  using skip_white_length [of s] by simp

lemma parse_members_Inr:
  assumes "parse_members env (Suc f) es s = Inr (v, rest)"
  obtains key s1 d s2 w s3 x s4 where "parse_string env s = Inr (key, s1)" "skip_white s1 = d # s2"
    "parse_value env f (skip_white s2) = Inr (w, s3)" "skip_white s3 = x # s4"
    "rest = s4 \<or> parse_members env f (es @ [(key, w)]) (skip_white s4) = Inr (v, rest)"
proof -
  obtain key s1 where 1: "parse_string env s = Inr (key, s1)"
    using assms by (auto simp: rbind_eq_Inr parse_fail_def split: if_splits list.splits)
  obtain d s2 where 2: "skip_white s1 = d # s2"
    using assms 1 by (cases "skip_white s1") (auto simp: parse_fail_def split: if_splits list.splits)
  obtain w s3 where 3: "parse_value env f (skip_white s2) = Inr (w, s3)"
    using assms 1 2 by (cases "parse_value env f (skip_white s2)") (auto simp: parse_fail_def split: if_splits list.splits)
  obtain x s4 where 4: "skip_white s3 = x # s4"
    using assms 1 2 3 by (cases "skip_white s3") (auto simp: parse_fail_def split: if_splits list.splits)
  have "rest = s4 \<or> parse_members env f (es @ [(key, w)]) (skip_white s4) = Inr (v, rest)"
    using assms 1 2 3 4 by (cases s) (auto simp: parse_fail_def split: if_splits)
  with 1 2 3 4 show thesis by (rule that)
qed

lemma parse_items_Inr:
  assumes "parse_items env (Suc f) xs s = Inr (v, rest)"
  obtains w s1 x s2 where "parse_value env f s = Inr (w, s1)" "skip_white s1 = x # s2"
    "rest = s2 \<or> parse_items env f (xs @ [w]) (skip_white s2) = Inr (v, rest)"
proof -
  obtain w s1 where 1: "parse_value env f s = Inr (w, s1)"
    using assms by (cases "parse_value env f s") auto
  obtain x s2 where 2: "skip_white s1 = x # s2"
    using assms 1 by (cases "skip_white s1") (auto simp: parse_fail_def)
  have "rest = s2 \<or> parse_items env f (xs @ [w]) (skip_white s2) = Inr (v, rest)"
    using assms 1 2 by (auto simp: parse_fail_def split: if_splits)
  with 1 2 show thesis by (rule that)
qed

lemma parse_lengths:
  "(\<forall>s v rest. parse_value env f s = Inr (v, rest) \<longrightarrow> length rest < length s) \<and>
   (\<forall>es s v rest. parse_members env f es s = Inr (v, rest) \<longrightarrow> length rest < length s) \<and>
   (\<forall>xs s v rest. parse_items env f xs s = Inr (v, rest) \<longrightarrow> length rest < length s)"
proof (induction f)
  case (Suc f)
  have v: "length rest < length s" if "parse_value env f s = Inr (v, rest)" for s v rest using Suc that by blast
  have m: "length rest < length s" if "parse_members env f es s = Inr (v, rest)" for es s v rest using Suc that by blast
  have i: "length rest < length s" if "parse_items env f xs s = Inr (v, rest)" for xs s v rest using Suc that by blast
  have "length rest < length s" if "parse_value env (Suc f) s = Inr (v, rest)" for s v rest
  proof (cases s)
    case (Cons c r)
    then show ?thesis
      using that skip_white_length [of r]
      by (auto simp: rbind_eq_Inr parse_fail_def split: if_splits list.splits
          dest!: m i parse_string_length parse_number_length dest: parse_literal_length skip_white_Cons)
  qed (use that in \<open>simp add: parse_fail_def\<close>)
  moreover have "length rest < length s" if p: "parse_members env (Suc f) es s = Inr (v, rest)" for es s v rest
  proof -
    obtain key s1 d s2 w s3 x s4 where k: "parse_string env s = Inr (key, s1)" "skip_white s1 = d # s2"
      "parse_value env f (skip_white s2) = Inr (w, s3)" "skip_white s3 = x # s4"
      and r: "rest = s4 \<or> parse_members env f (es @ [(key, w)]) (skip_white s4) = Inr (v, rest)"
      using p by (rule parse_members_Inr)
    have "length rest \<le> length s4" using r m skip_white_length [of s4] by fastforce
    then show ?thesis
      using parse_string_length [OF k(1)] skip_white_Cons [OF k(2)] v [OF k(3)] skip_white_Cons [OF k(4)]
        skip_white_length [of s2] by linarith
  qed
  moreover have "length rest < length s" if p: "parse_items env (Suc f) xs s = Inr (v, rest)" for xs s v rest
  proof -
    obtain w s1 x s2 where k: "parse_value env f s = Inr (w, s1)" "skip_white s1 = x # s2"
      and r: "rest = s2 \<or> parse_items env f (xs @ [w]) (skip_white s2) = Inr (v, rest)"
      using p by (rule parse_items_Inr)
    have "length rest \<le> length s2" using r i skip_white_length [of s2] by fastforce
    then show ?thesis using v [OF k(1)] skip_white_Cons [OF k(2)] by linarith
  qed
  ultimately show ?case by blast
qed simp


text \<open>No error but the exhausted fuel is empty.\<close>

lemma check_surrogates_error: "check_surrogates s \<noteq> Inl out_of_fuel"
  by (induction s rule: check_surrogates.induct) (auto simp: out_of_fuel_def split: list.split)

lemma scan_string_error: "scan_string b s \<noteq> Inl out_of_fuel"
  by (induction s arbitrary: b) (auto simp: out_of_fuel_def parse_fail_def rbind_eq_Inl)

definition proper :: "'a result \<Rightarrow> bool" where "proper r \<longleftrightarrow> r \<noteq> Inl out_of_fuel"

lemma proper_simps [simp]: "proper (Inr a)" "proper (parse_fail m) \<longleftrightarrow> m \<noteq> []"
  by (simp_all add: proper_def parse_fail_def out_of_fuel_def)

lemma proper_bind: "proper r \<Longrightarrow> proper (rbind r (\<lambda>t. Inr (f t)))"
  by (cases r) (simp_all add: proper_def)

lemma unescape_proper: "proper (unescape s)"
proof (induction "length s" arbitrary: s rule: less_induct)
  case less
  show ?case
  proof (cases s)
    case (Cons c r)
    have r: "proper (rbind (unescape r) (\<lambda>t. Inr (c # t)))" using less [of r] Cons by (simp add: proper_bind)
    show ?thesis
    proof (cases "c = 92")
      case True
      show ?thesis
      proof (cases r)
        case (Cons e q)
        have q: "proper (rbind (unescape q) (\<lambda>t. Inr (u # t)))" for u
          using less [of q] Cons \<open>s = c # r\<close> by (simp add: proper_bind)
        show ?thesis
        proof (cases "e = 117")
          case True
          show ?thesis
          proof (cases "4 \<le> length q")
            case True
            then obtain a b x y t where t: "q = a # b # x # y # t"
              by (cases q; cases "tl q"; cases "tl (tl q)"; cases "tl (tl (tl q))") auto
            have "proper (unescape t)" using less [of t] t Cons \<open>s = c # r\<close> by simp
            then show ?thesis
              using \<open>e = 117\<close> \<open>c = 92\<close> Cons \<open>s = c # r\<close> t
              by (auto intro!: proper_bind split: option.split)
          next
            case False
            then show ?thesis
              using \<open>e = 117\<close> \<open>c = 92\<close> Cons \<open>s = c # r\<close> by (auto split: list.split)
          qed
        next
          case False
          then show ?thesis using q \<open>c = 92\<close> Cons \<open>s = c # r\<close> by (auto split: option.split)
        qed
      qed (use True \<open>s = c # r\<close> in simp)
    qed (use r Cons in simp)
  qed simp
qed

lemma unescape_error: "unescape s \<noteq> Inl out_of_fuel"
  using unescape_proper [of s] by (simp add: proper_def)

lemma parse_string_error: "parse_string env s \<noteq> Inl out_of_fuel"
  by (auto simp: parse_string_def rbind_eq_Inl scan_string_error unescape_error assertWellFormedUnicode_def
      check_surrogates_error)

lemma parse_number_error: "parse_number env s \<noteq> Inl out_of_fuel"
  by (auto simp: parse_number_def parse_fail_def out_of_fuel_def Let_def split: option.split)

lemma parse_literal_error: "parse_literal t v s \<noteq> Inl out_of_fuel"
  by (auto simp: parse_literal_def parse_fail_def out_of_fuel_def)

lemma fail_error: "parse_fail m = Inl out_of_fuel \<longleftrightarrow> m = []"
  by (simp add: parse_fail_def out_of_fuel_def)

lemma parse_fuel:
  "(\<forall>s. 2 * length s < f \<longrightarrow> parse_value env f s \<noteq> Inl out_of_fuel) \<and>
   (\<forall>es s. 2 * length s + 1 < f \<longrightarrow> parse_members env f es s \<noteq> Inl out_of_fuel) \<and>
   (\<forall>xs s. 2 * length s + 1 < f \<longrightarrow> parse_items env f xs s \<noteq> Inl out_of_fuel)"
proof (induction f)
  case (Suc f)
  have v: "parse_value env f s \<noteq> Inl out_of_fuel" if "2 * length s < f" for s using Suc that by blast
  have m: "parse_members env f es s \<noteq> Inl out_of_fuel" if "2 * length s + 1 < f" for es s using Suc that by blast
  have i: "parse_items env f xs s \<noteq> Inl out_of_fuel" if "2 * length s + 1 < f" for xs s using Suc that by blast
  have "parse_value env (Suc f) s \<noteq> Inl out_of_fuel" if len: "2 * length s < Suc f" for s
  proof (cases s)
    case (Cons c r)
    have "2 * length (skip_white r) + 1 < f" using len Cons skip_white_length [of r] by simp
    then show ?thesis
      using m [of "skip_white r"] i [of "skip_white r"] i [of "[]"]
      by (auto simp: Cons fail_error rbind_eq_Inl parse_string_error parse_number_error parse_literal_error
          split: list.splits)
  qed (simp add: fail_error)
  moreover have "parse_members env (Suc f) es s \<noteq> Inl out_of_fuel" if len: "2 * length s + 1 < Suc f" for es s
  proof
    assume p: "parse_members env (Suc f) es s = Inl out_of_fuel"
    obtain key s1 where 1: "parse_string env s = Inr (key, s1)"
      using p parse_string_error [of env s]
      by (cases "parse_string env s") (auto simp: fail_error split: if_splits list.splits)
    obtain d s2 where 2: "skip_white s1 = d # s2"
      using p 1 by (cases "skip_white s1") (auto simp: fail_error split: if_splits list.splits)
    have "2 * length (skip_white s2) < f"
      using len parse_string_length [OF 1] skip_white_Cons [OF 2] skip_white_length [of s2] by linarith
    then obtain w s3 where 3: "parse_value env f (skip_white s2) = Inr (w, s3)"
      using p 1 2 v [of "skip_white s2"]
      by (cases "parse_value env f (skip_white s2)") (auto simp: fail_error split: if_splits list.splits)
    obtain x s4 where 4: "skip_white s3 = x # s4"
      using p 1 2 3 by (cases "skip_white s3") (auto simp: fail_error split: if_splits list.splits)
    have "parse_members env f (es @ [(key, w)]) (skip_white s4) = Inl out_of_fuel"
      using p 1 2 3 4 by (cases s) (auto simp: fail_error split: if_splits)
    moreover have "length s3 < length (skip_white s2)" using parse_lengths [of env f] 3 by blast
    then have "2 * length (skip_white s4) + 1 < f"
      using len parse_string_length [OF 1] skip_white_Cons [OF 2] skip_white_length [of s2] skip_white_Cons [OF 4]
        skip_white_length [of s4] by linarith
    ultimately show False using m by blast
  qed
  moreover have "parse_items env (Suc f) xs s \<noteq> Inl out_of_fuel" if len: "2 * length s + 1 < Suc f" for xs s
  proof
    assume p: "parse_items env (Suc f) xs s = Inl out_of_fuel"
    obtain w s1 where 1: "parse_value env f s = Inr (w, s1)"
      using p v [of s] len by (cases "parse_value env f s") auto
    obtain x s2 where 2: "skip_white s1 = x # s2"
      using p 1 by (cases "skip_white s1") (auto simp: fail_error)
    have "parse_items env f (xs @ [w]) (skip_white s2) = Inl out_of_fuel"
      using p 1 2 by (auto simp: fail_error split: if_splits)
    moreover have "length s1 < length s" using parse_lengths [of env f] 1 by blast
    then have "2 * length (skip_white s2) + 1 < f"
      using len skip_white_Cons [OF 2] skip_white_length [of s2] by linarith
    ultimately show False using i by blast
  qed
  ultimately show ?case by blast
qed simp

text \<open> C24. The strict parser terminates on every text: the bound of its recursion is never reached.\<close>

theorem parse_terminates: "parseStrictJson env input \<noteq> Inl out_of_fuel"
proof -
  have "2 * length (skip_white input) < 2 * length input + 2" using skip_white_length [of input] by simp
  then have "parse_value env (2 * length input + 2) (skip_white input) \<noteq> Inl out_of_fuel" using parse_fuel by blast
  then show ?thesis by (auto simp: parseStrictJson_def rbind_eq_Inl fail_error)
qed


subsection \<open>Rendering the normal form\<close>

lemma canonicalize_path: "canonicalize env [] p v = canonicalize env [] q v"
proof (induction v arbitrary: p q)
  case (Jarr xs)
  have "canonical_items env [] p 0 xs = canonical_items env [] q 0 xs"
    unfolding canonical_items_map
  proof (rule map_cong [OF refl], clarify)
    fix j x assume "(j, x) \<in> set (enumerate 0 xs)"
    then have "x \<in> set xs" by (auto simp: in_set_enumerate_eq)
    then show "canonicalize env [] (p @ 47 # digit_units j) x = canonicalize env [] (q @ 47 # digit_units j) x"
      by (rule Jarr.IH)
  qed
  then show ?case by simp
next
  case (Jobj es)
  have "canonical_members env [] p es = canonical_members env [] q es"
    unfolding canonical_members_map
  proof (rule map_cong [OF refl])
    fix e assume e: "e \<in> set es"
    have "canonicalize env [] (p @ 47 # js_nfc env (fst e)) (snd e) = canonicalize env [] (q @ 47 # js_nfc env (fst e)) (snd e)"
      by (rule Jobj.IH [OF e]) (cases e, simp)
    then show "(js_nfc env (fst e), canonicalize env [] (p @ 47 # js_nfc env (fst e)) (snd e)) =
        (js_nfc env (fst e), canonicalize env [] (q @ 47 # js_nfc env (fst e)) (snd e))" by simp
  qed
  then show ?case by simp
qed simp_all

lemma canonical_array:
  "canonicalize env [] path (Jarr xs) =
     rbind (collect (map (canonicalize env [] []) xs)) (\<lambda>items. Inr (91 # join_units items @ [93]))"
proof -
  have "canonical_items env [] path i xs = map (canonicalize env [] []) xs" for i
    by (induction xs arbitrary: i) (simp_all add: canonicalize_path [of env "_ @ _" _ "[]"])
  then show ?thesis by simp
qed

lemma canonical_object:
  "canonicalize env [] path (Jobj es) =
     rbind (normalized_keys env [] es) (\<lambda>_.
     rbind (collect (map (\<lambda>e. rbind (canonicalize env [] [] (snd e)) (\<lambda>t. Inr (member_text (js_nfc env (fst e)) t)))
              (sort_key (\<lambda>e. utf8_units (js_nfc env (fst e))) es))) (\<lambda>members.
       Inr (123 # join_units members @ [125])))"
proof -
  have "canonical_members env [] path es = map (\<lambda>e. (js_nfc env (fst e), canonicalize env [] [] (snd e))) es"
    by (induction es) (auto simp: canonicalize_path [of env "_ @ _" _ "[]"])
  then show ?thesis by (simp add: sort_key_map comp_def member_text_def)
qed

lemma normal_form_undefined: "normal_form env v = Jundefined \<longleftrightarrow> v = Jundefined"
  by (cases v) auto

lemma sort_sorted: "sort_key f (sort_key f xs) = sort_key f xs"
  by (rule sort_key_id_if_sorted) simp

lemma normal_form_renders:
  assumes "js_env_ok env"
  shows "canonicalize env [] p v = Inr t \<Longrightarrow> canonicalize env [] q (normal_form env v) = Inr t"
proof (induction v arbitrary: p q t)
  case (Jnum n)
  then show ?case using assms by (auto simp: js_env_ok_def split: if_splits)
next
  case (Jstr s)
  then show ?case using assms by (auto simp: js_env_ok_def assertWellFormedUnicode_def rbind_eq_Inr)
next
  case (Jarr xs)
  then obtain ts where ts: "collect (map (canonicalize env [] []) xs) = Inr ts" "t = 91 # join_units ts @ [93]"
    unfolding canonical_array by (auto simp: rbind_eq_Inr)
  have "canonicalize env [] [] (normal_form env x) = canonicalize env [] [] x" if x: "x \<in> set xs" for x
  proof -
    obtain u where "canonicalize env [] [] x = Inr u"
      using collect_Inr [OF ts(1)] x by (auto simp: list_all2_conv_all_nth in_set_conv_nth)
    then show ?thesis using Jarr.IH [OF x] by simp
  qed
  then have "map (canonicalize env [] []) (map (normal_form env) xs) = map (canonicalize env [] []) xs" by simp
  then show ?case using ts by (simp add: canonical_array del: canonicalize.simps map_map)
next
  case (Jobj es)
  define S where "S = sort_key (\<lambda>e. utf8_units (js_nfc env (fst e))) es"
  let ?N = "\<lambda>e. (js_nfc env (fst e), normal_form env (snd e))"
  let ?h = "\<lambda>e. rbind (canonicalize env [] [] (snd e)) (\<lambda>t. Inr (member_text (js_nfc env (fst e)) t))"
  have nf: "normal_form env (Jobj es) = Jobj (map ?N S)" by (simp add: sort_key_map S_def)
  have idem: "js_nfc env (js_nfc env k) = js_nfc env k" for k using assms by (simp add: js_env_ok_def)
  obtain ts where keys: "normalized_keys env [] es = Inr ()" and ts: "collect (map ?h S) = Inr ts"
    and t: "t = 123 # join_units ts @ [125]"
    using Jobj.prems unfolding canonical_object S_def by (auto simp: rbind_eq_Inr)
  have "?h (?N e) = ?h e" if e: "e \<in> set S" for e
  proof -
    obtain u where "canonicalize env [] [] (snd e) = Inr u"
      using collect_Inr [OF ts] e by (auto simp: list_all2_conv_all_nth in_set_conv_nth rbind_eq_Inr)
    moreover have "e \<in> set es" using e by (simp add: S_def)
    ultimately have "canonicalize env [] [] (normal_form env (snd e)) = Inr u"
      using Jobj.IH [of e "snd e"] by (cases e) auto
    then show ?thesis using \<open>canonicalize env [] [] (snd e) = Inr u\<close> idem by simp
  qed
  then have members: "map ?h (map ?N S) = map ?h S" by simp
  have keys': "normalized_keys env [] (map ?N S) = Inr ()"
  proof -
    have "set S = set es" "mset S = mset es" by (simp_all add: S_def)
    then have "mset (map (\<lambda>e. js_nfc env (fst e)) S) = mset (map (\<lambda>e. js_nfc env (fst e)) es)" by simp
    then have "distinct (map (\<lambda>e. js_nfc env (fst e)) S)"
      using keys unfolding normalized_keys_Inr by (metis mset_eq_imp_distinct_iff)
    then show ?thesis
      using keys assms \<open>set S = set es\<close>
      by (auto simp: normalized_keys_Inr list_all_iff idem comp_def normal_form_undefined js_env_ok_def)
  qed
  have "sort_key (\<lambda>e. utf8_units (js_nfc env (fst e))) (map ?N S) = map ?N S"
    unfolding sort_key_map by (simp add: idem S_def sort_sorted)
  then show ?case unfolding nf canonical_object using keys' members ts t by (simp del: map_map)
qed auto

subsection \<open>Properties\<close>

lemma rendering_accepted:
  assumes "js_env_ok env" and "canonicalJson env [] v = Inr t"
  shows "parseStrictJson env t = Inr (normal_form env v)" and "canonicalJson env [] (normal_form env v) = Inr t"
proof -
  have c: "canonicalize env [] [] v = Inr t" using assms(2) by (simp add: canonicalJson_def)
  note r = canonical_reads_back [OF assms(1) c]
  have "skip_white t = t" using reads_backD(2) [OF r, of "length t" "[]"] by simp
  moreover have "parse_value env (2 * length t + 2) (t @ []) = Inr (normal_form env v, [])"
    by (rule reads_backD(1) [OF r]) simp_all
  ultimately show "parseStrictJson env t = Inr (normal_form env v)" by (simp add: parseStrictJson_def)
  show "canonicalJson env [] (normal_form env v) = Inr t"
    using normal_form_renders [OF assms(1) c, of "[]"] by (simp add: canonicalJson_def)
qed

text \<open> C10. The canonical text of a value is accepted by the strict reader, which returns the value in its
  normal form.\<close>

theorem canonical_text_accepted:
  assumes "js_env_ok env" and "canonicalJson env [] v = Inr t"
  shows "requireCanonicalJson env [] t = Inr (normal_form env v)"
  using rendering_accepted [OF assms] by (simp add: requireCanonicalJson_def)

text \<open> C23. Two values have the same canonical text, and so the same digest input, exactly when they have the
  same normal form.\<close>

theorem same_text_same_value:
  assumes "js_env_ok env" and "canonicalJson env [] v = Inr t" and "canonicalJson env [] w = Inr u"
  shows "t = u \<longleftrightarrow> normal_form env v = normal_form env w"
  using rendering_accepted [OF assms(1,2)] rendering_accepted [OF assms(1,3)] by (metis sum.inject(2))

subsection \<open>The comparator\<close>

lemma compare_bytes_order: "compare_bytes as bs \<le> 0 \<longleftrightarrow> as \<le> bs"
  by (induction as bs rule: compare_bytes.induct) auto

text \<open>\<open>compareUtf8\<close> orders strings as their UTF-8 bytes are ordered, so \<open>sort_key utf8_units\<close> is the sort it gives.\<close>

lemma compareUtf8_order: "compareUtf8 s t \<le> 0 \<longleftrightarrow> utf8_units s \<le> utf8_units t"
  by (simp add: compareUtf8_def compare_bytes_order)

subsection \<open>Witnesses\<close>

text \<open>An engine whose numbers are the integers.\<close>

definition read_digits :: "units \<Rightarrow> nat" where "read_digits s = foldl (\<lambda>n c. 10 * n + (c - 48)) 0 s"

definition int_env :: "int js_env" where
  "int_env = \<lparr>js_nfc = (\<lambda>s. s), js_finite = (\<lambda>_. True), js_negative_zero = (\<lambda>_. False), js_zero = 0,
     js_number_text = (\<lambda>n. if n < 0 then 45 # digit_units (nat (- n)) else digit_units (nat n)),
     js_number_value = (\<lambda>t. case t of c # r \<Rightarrow> if c = 45 then - int (read_digits r) else int (read_digits t) | [] \<Rightarrow> 0)\<rparr>"

declare digit_units.simps [simp del]

lemma digit_units_digits: "list_all is_digit (digit_units n) \<and> digit_units n \<noteq> []"
proof (induction n rule: digit_units.induct)
  case (1 n)
  show ?case
  proof (cases "n < 10")
    case True
    then have "digit_units n = [48 + n]" by (subst digit_units.simps) simp
    then show ?thesis using True by (simp add: is_digit_def)
  next
    case False
    have "n mod 10 < 10" by simp
    moreover have "digit_units n = digit_units (n div 10) @ [48 + n mod 10]"
      using False by (subst digit_units.simps) simp
    ultimately show ?thesis using 1 False by (simp add: is_digit_def)
  qed
qed

lemma digit_units_head: "0 < n \<Longrightarrow> hd (digit_units n) \<noteq> 48"
proof (induction n rule: digit_units.induct)
  case (1 n)
  then show ?case using digit_units_digits [of "n div 10"]
    by (subst digit_units.simps) (cases "n < 10", auto)
qed

lemma read_digit_units: "read_digits (digit_units n) = n"
proof (induction n rule: digit_units.induct)
  case (1 n)
  show ?case
  proof (cases "n < 10")
    case True
    then show ?thesis by (subst digit_units.simps) (simp add: read_digits_def)
  next
    case False
    then have "read_digits (digit_units (n div 10)) = n div 10" using 1 by simp
    then show ?thesis using False by (subst digit_units.simps) (simp add: read_digits_def)
  qed
qed

lemma digit_units_token: "int_part (digit_units n) = Some (digit_units n, [])"
proof (cases "n = 0")
  case True
  then show ?thesis by (simp add: digit_units.simps int_part_def)
next
  case False
  obtain c r where "digit_units n = c # r" using digit_units_digits [of n] by (cases "digit_units n") auto
  then show ?thesis
    using digit_units_digits [of n] digit_units_head [of n] False
    by (auto simp: int_part_def list_all_iff takeWhile_eq_all_conv)
qed

lemma int_env_ok: "js_env_ok int_env"
proof -
  have "digit_units n \<noteq> [] \<and> hd (digit_units n) \<noteq> 45" for n
    using digit_units_digits [of n] by (cases "digit_units n") (auto simp: is_digit_def)
  then have h: "\<exists>c r. digit_units n = c # r \<and> c \<noteq> 45" for n
    using list.exhaust_sel [of "digit_units n"] by metis
  have t: "number_token (digit_units n) = Some (digit_units n, [])"
    "number_token (45 # digit_units n) = Some (45 # digit_units n, [])" for n
    using h [of n] digit_units_token [of n]
    by (auto simp: number_token_def fraction_part_def exponent_part_def)
  have v: "(case digit_units n of c # r \<Rightarrow> if c = 45 then - int (read_digits r) else int (read_digits (digit_units n)) | [] \<Rightarrow> 0)
      = int n" for n
    using h [of n] read_digit_units [of n] by auto
  show ?thesis
    unfolding js_env_ok_def int_env_def js_env.simps
  proof (intro conjI allI impI; (simp; fail)?)
    fix n :: int
    show "number_token (if n < 0 then 45 # digit_units (nat (- n)) else digit_units (nat n)) =
        Some (if n < 0 then 45 # digit_units (nat (- n)) else digit_units (nat n), [])" by (simp add: t)
    show "(case if n < 0 then 45 # digit_units (nat (- n)) else digit_units (nat n) of
        c # r \<Rightarrow> if c = 45 then - int (read_digits r)
          else int (read_digits (if n < 0 then 45 # digit_units (nat (- n)) else digit_units (nat n))) | [] \<Rightarrow> 0) = n"
      by (cases "n < 0") (simp_all add: v read_digit_units)
  qed
qed

definition sample_value :: "int js_value" where
  "sample_value = Jobj [([98], Jarr [Jnum 12, Jnull, Jbool True]), ([97, 10], Jstr [34, 233])]"

lemma sample_text: "canonicalJson int_env [] sample_value =
    Inr [123, 34, 97, 92, 110, 34, 58, 34, 92, 34, 233, 34, 44, 34, 98, 34, 58, 91, 49, 50, 44, 110, 117, 108, 108, 44,
      116, 114, 117, 101, 93, 125]"
  by (simp add: canonicalJson_def sample_value_def int_env_def digit_units.simps assertWellFormedUnicode_def
      high_surrogate_def low_surrogate_def utf8_point_def quote_units_def escape_unit_def)

lemma canonical_text_accepted_witness:
  "\<exists>t. canonicalJson int_env [] sample_value = Inr t \<and>
     requireCanonicalJson int_env [] t = Inr (Jobj [([97, 10], Jstr [34, 233]), ([98], Jarr [Jnum 12, Jnull, Jbool True])])"
proof -
  have "normal_form int_env sample_value = Jobj [([97, 10], Jstr [34, 233]), ([98], Jarr [Jnum 12, Jnull, Jbool True])]"
    by (simp add: sample_value_def int_env_def utf8_point_def high_surrogate_def low_surrogate_def)
  then show ?thesis using sample_text canonical_text_accepted [OF int_env_ok sample_text] by auto
qed

lemma same_text_same_value_witness:
  "\<exists>t u. canonicalJson int_env [] sample_value = Inr t \<and> canonicalJson int_env [] (Jarr [sample_value]) = Inr u \<and>
     (t = u \<longleftrightarrow> normal_form int_env sample_value = normal_form int_env (Jarr [sample_value])) \<and> t \<noteq> u"
proof -
  obtain u where u: "canonicalJson int_env [] (Jarr [sample_value]) = Inr u"
    using sample_text
    by (simp add: canonicalJson_def canonical_array canonicalize_path [of int_env "[47, 48]" _ "[]"] del: canonicalize.simps)
  have "normal_form int_env sample_value \<noteq> normal_form int_env (Jarr [sample_value])"
    by (simp add: sample_value_def)
  then show ?thesis using sample_text u same_text_same_value [OF int_env_ok sample_text u] by auto
qed

end
