(* ===== verification/Terminal_Control.thy ===== *)
theory Terminal_Control
  imports Store_Types Canonical_Json "HOL-Library.AList"
begin

text \<open>
  \<open>terminal-control-service.ts\<close> and \<open>terminal-input-arbiter.ts\<close>: who may type into the terminal of a
  run. The control service keeps the viewers of every run and the lease of its controller; the arbiter
  refuses interactive input while automated input of the run is queued or running, and runs the
  automated operations of a run one after the other.

  What the services ask of others (closing a viewer's socket, writing to the attached terminal, an audit
  event) is recorded in order as effects. A viewer's \<open>close\<close> is the gateway's callback, which disconnects
  the viewer at once. Random ids are parameters.
\<close>

subsection \<open>State\<close>

definition maxViewers :: nat where "maxViewers = 4"
definition maxObservers :: nat where "maxObservers = 3"
definition maxInputBytes :: nat where "maxInputBytes = 64 * 1024"
definition maxPasteBytes :: nat where "maxPasteBytes = 192 * 1024"
definition leaseMs :: int where "leaseMs = 15000"

datatype terminal_role = Controller | Observer

record terminal_lease =
  tl_id :: string
  tl_runId :: string
  tl_viewerId :: string
  tl_runGeneration :: nat
  tl_streamGeneration :: nat
  tl_acquiredAt :: timestamp
  tl_expiresAt :: timestamp

record viewer =
  vw_viewerId :: string
  vw_streamId :: string
  vw_streamGeneration :: nat
  vw_role :: terminal_role
  vw_lease :: "terminal_lease option"
  vw_heartbeatAt :: timestamp

record run_control =
  rc_run :: run
  rc_streamGeneration :: nat
  rc_viewers :: "viewer list"
  rc_controller :: "string option"

datatype terminal_effect =
    Viewer_closed string nat string
  | Audit string string
  | Takeover_notice string
  | Pty_write string units
  | Pty_resize string nat nat

record terminals =
  tm_runs :: "(string \<times> run_control) list"
  tm_effects :: "terminal_effect list"

definition emit_effect :: "terminal_effect \<Rightarrow> terminals \<Rightarrow> terminals" where
  "emit_effect e s = s\<lparr>tm_effects := tm_effects s @ [e]\<rparr>"

definition run_control_of :: "terminals \<Rightarrow> string \<Rightarrow> run_control option" where
  "run_control_of s runId = map_of (tm_runs s) runId"

definition put_control :: "string \<Rightarrow> run_control \<Rightarrow> terminals \<Rightarrow> terminals" where
  "put_control runId c s = s\<lparr>tm_runs := AList.update runId c (tm_runs s)\<rparr>"

definition viewer_of :: "run_control \<Rightarrow> string \<Rightarrow> viewer option" where
  "viewer_of c streamId = find_where (\<lambda>v. vw_streamId v = streamId) (rc_viewers c)"

definition set_viewer :: "string \<Rightarrow> (viewer \<Rightarrow> viewer) \<Rightarrow> run_control \<Rightarrow> run_control" where
  "set_viewer streamId f c = c\<lparr>rc_viewers := update_where (\<lambda>v. vw_streamId v = streamId) f (rc_viewers c)\<rparr>"

definition controlling_viewer :: "run_control \<Rightarrow> viewer option" where
  "controlling_viewer c = (case rc_controller c of None \<Rightarrow> None | Some i \<Rightarrow> viewer_of c i)"

definition live_viewer :: "string \<Rightarrow> string \<Rightarrow> terminals \<Rightarrow> (run_control \<times> viewer) result" where
  "live_viewer runId streamId s =
     (case run_control_of s runId of
        None \<Rightarrow> Inl (DomainError ''terminal_stream_inactive'' 409)
      | Some c \<Rightarrow>
          (case viewer_of c streamId of
             None \<Rightarrow> Inl (DomainError ''terminal_stream_inactive'' 409) | Some v \<Rightarrow> Inr (c, v)))"

subsection \<open>The control service\<close>

definition control_disconnect :: "string \<Rightarrow> string \<Rightarrow> terminals \<Rightarrow> terminals" where
  "control_disconnect runId streamId s =
     (case live_viewer runId streamId s of
        Inl _ \<Rightarrow> s
      | Inr (c, v) \<Rightarrow>
          emit_effect (Audit ''terminal.viewer.disconnected'' runId)
            (put_control runId
              (c\<lparr>rc_viewers := filter (\<lambda>w. vw_streamId w \<noteq> streamId) (rc_viewers c),
                 rc_controller := (if rc_controller c = Some streamId then None else rc_controller c)\<rparr>) s))"

text \<open>The gateway's \<open>close\<close>: disconnect, then close the socket.\<close>

definition close_viewer :: "string \<Rightarrow> string \<Rightarrow> nat \<Rightarrow> string \<Rightarrow> terminals \<Rightarrow> terminals" where
  "close_viewer runId streamId code reason s =
     emit_effect (Viewer_closed streamId code reason) (control_disconnect runId streamId s)"

definition control_unregister :: "string \<Rightarrow> string \<Rightarrow> terminals \<Rightarrow> terminals" where
  "control_unregister runId reason s =
     (case run_control_of s runId of
        None \<Rightarrow> s
      | Some c \<Rightarrow>
          emit_effect (Audit ''terminal.endpoint.removed'' runId)
            (foldl (\<lambda>t v. close_viewer runId (vw_streamId v) 1012 reason t)
              (s\<lparr>tm_runs := AList.delete runId (tm_runs s)\<rparr>) (rc_viewers c)))"

definition control_register :: "run \<Rightarrow> terminals \<Rightarrow> terminals result" where
  "control_register run s =
     (if r_terminal run = None then Inl (PlainError ''Terminal binding is required'') else
      case run_control_of s (r_id run) of
        None \<Rightarrow> Inr (put_control (r_id run)
          \<lparr>rc_run = run, rc_streamGeneration = 1, rc_viewers = [], rc_controller = None\<rparr> s)
      | Some c \<Rightarrow>
          if r_generation (rc_run c) = r_generation run then Inr (put_control (r_id run) (c\<lparr>rc_run := run\<rparr>) s)
          else Inr (put_control (r_id run)
            \<lparr>rc_run = run, rc_streamGeneration = rc_streamGeneration c + 1, rc_viewers = [], rc_controller = None\<rparr>
            (control_unregister (r_id run) ''binding_changed'' s)))"

text \<open>The previous controller loses role and lease and is closed; the viewer gets a new lease.\<close>

definition step_down :: "viewer \<Rightarrow> viewer" where
  "step_down v = v\<lparr>vw_role := Observer, vw_lease := None\<rparr>"

definition new_lease :: "string \<Rightarrow> timestamp \<Rightarrow> run_control \<Rightarrow> viewer \<Rightarrow> terminal_lease" where
  "new_lease leaseId now c v =
     \<lparr>tl_id = leaseId, tl_runId = r_id (rc_run c), tl_viewerId = vw_viewerId v,
       tl_runGeneration = r_generation (rc_run c), tl_streamGeneration = rc_streamGeneration c,
       tl_acquiredAt = now, tl_expiresAt = now + leaseMs\<rparr>"

definition take_control :: "string \<Rightarrow> string \<Rightarrow> string \<Rightarrow> bool \<Rightarrow> timestamp \<Rightarrow> terminals \<Rightarrow> terminals" where
  "take_control runId streamId leaseId takeover now s =
     (case run_control_of s runId of
        None \<Rightarrow> s
      | Some c \<Rightarrow>
          emit_effect (Audit (if takeover then ''terminal.lease.taken-over'' else ''terminal.lease.acquired'') runId)
            (put_control runId
              ((set_viewer streamId (\<lambda>v. v\<lparr>vw_role := Controller, vw_lease := Some (new_lease leaseId now c v)\<rparr>) c)
                \<lparr>rc_controller := Some streamId\<rparr>) s))"

definition grant_lease :: "string \<Rightarrow> string \<Rightarrow> string \<Rightarrow> bool \<Rightarrow> timestamp \<Rightarrow> terminals \<Rightarrow> terminals" where
  "grant_lease runId streamId leaseId takeover now s =
     (let s1 = (if takeover then emit_effect (Takeover_notice runId) s else s);
          s2 = (case Option.bind (run_control_of s1 runId) controlling_viewer of
             None \<Rightarrow> s1
           | Some previous \<Rightarrow>
               if vw_streamId previous = streamId then s1
               else close_viewer runId (vw_streamId previous) 4001 ''terminal_controller_taken_over''
                 (put_control runId (set_viewer (vw_streamId previous) step_down (the (run_control_of s1 runId))) s1))
      in take_control runId streamId leaseId takeover now s2)"

definition observers :: "run_control \<Rightarrow> nat" where
  "observers c = count_where (\<lambda>v. vw_role v = Observer) (rc_viewers c)"

record connect_input =
  ci_runId :: string
  ci_runGeneration :: nat
  ci_viewerId :: string
  ci_requestedRole :: terminal_role
  ci_takeover :: bool

text \<open>Failing after the insertion takes the viewer out again; what happened before it stays.\<close>

definition control_connect ::
  "timestamp \<Rightarrow> string \<Rightarrow> string \<Rightarrow> connect_input \<Rightarrow> terminals \<Rightarrow> terminals \<times> viewer result" where
  "control_connect now streamId leaseId input s =
     (case run_control_of s (ci_runId input) of
        None \<Rightarrow> (s, Inl (DomainError ''terminal_unavailable'' 503))
      | Some c \<Rightarrow>
          if r_generation (rc_run c) \<noteq> ci_runGeneration input
          then (s, Inl (DomainError ''terminal_generation_stale'' 409))
          else if maxViewers \<le> length (rc_viewers c)
          then (s, Inl (DomainError ''terminal_viewer_limit'' 429))
          else if list_ex (\<lambda>v. vw_viewerId v = ci_viewerId input) (rc_viewers c)
          then (s, Inl (DomainError ''terminal_viewer_duplicate'' 409))
          else let v = \<lparr>vw_viewerId = ci_viewerId input, vw_streamId = streamId,
                     vw_streamGeneration = rc_streamGeneration c, vw_role = Observer, vw_lease = None,
                     vw_heartbeatAt = now\<rparr>;
                   s1 = put_control (ci_runId input) (c\<lparr>rc_viewers := rc_viewers c @ [v]\<rparr>) s;
                   s2 = (if ci_requestedRole input = Controller \<and> (rc_controller c = None \<or> ci_takeover input)
                         then grant_lease (ci_runId input) streamId leaseId (ci_takeover input) now s1 else s1)
               in (case live_viewer (ci_runId input) streamId s2 of
                     Inl e \<Rightarrow> (s2, Inl e)
                   | Inr (c2, v2) \<Rightarrow>
                       if vw_role v2 = Observer \<and> maxObservers < observers c2
                       then (put_control (ci_runId input)
                              (c2\<lparr>rc_viewers := filter (\<lambda>w. vw_streamId w \<noteq> streamId) (rc_viewers c2)\<rparr>) s2,
                            Inl (DomainError ''terminal_observer_limit'' 429))
                       else (emit_effect (Audit ''terminal.viewer.connected'' (ci_runId input)) s2, Inr v2)))"

definition control_takeover ::
  "timestamp \<Rightarrow> string \<Rightarrow> string \<Rightarrow> string \<Rightarrow> string option \<Rightarrow> terminals \<Rightarrow> terminals result" where
  "control_takeover now leaseId runId streamId expected s =
     rbind (live_viewer runId streamId s) (\<lambda>(c, v).
       if expected \<noteq> None \<and> Option.bind (Option.bind (controlling_viewer c) vw_lease) (\<lambda>l. Some (tl_id l)) \<noteq> expected
       then Inl (DomainError ''terminal_lease_conflict'' 409)
       else Inr (grant_lease runId streamId leaseId True now s))"

definition control_heartbeat ::
  "timestamp \<Rightarrow> string \<Rightarrow> string \<Rightarrow> string option \<Rightarrow> terminals \<Rightarrow> terminals \<times> terminal_lease option result" where
  "control_heartbeat now runId streamId leaseId s =
     (case live_viewer runId streamId s of
        Inl e \<Rightarrow> (s, Inl e)
      | Inr (c, v) \<Rightarrow>
          let beat = (\<lambda>f. put_control runId (set_viewer streamId (\<lambda>w. f (w\<lparr>vw_heartbeatAt := now\<rparr>)) c) s)
          in (case vw_lease v of
                None \<Rightarrow> (beat id, Inr None)
              | Some l \<Rightarrow>
                  if leaseId \<noteq> Some (tl_id l) then (beat id, Inl (DomainError ''terminal_lease_stale'' 409))
                  else let l' = l\<lparr>tl_expiresAt := now + leaseMs\<rparr>
                       in (beat (\<lambda>w. w\<lparr>vw_lease := Some l'\<rparr>), Inr (Some l'))))"

definition assertController ::
  "timestamp \<Rightarrow> string \<Rightarrow> string \<Rightarrow> string \<Rightarrow> terminals \<Rightarrow> viewer result" where
  "assertController now runId streamId leaseId s =
     rbind (live_viewer runId streamId s) (\<lambda>(c, v).
       if rc_controller c \<noteq> Some streamId \<or> vw_role v \<noteq> Controller \<or>
          (case vw_lease v of None \<Rightarrow> True | Some l \<Rightarrow> tl_id l \<noteq> leaseId \<or> tl_expiresAt l \<le> now)
       then Inl (DomainError ''terminal_controller_required'' 403) else Inr v)"

definition control_release :: "timestamp \<Rightarrow> string \<Rightarrow> string \<Rightarrow> string \<Rightarrow> terminals \<Rightarrow> terminals result" where
  "control_release now runId streamId leaseId s =
     rbind (live_viewer runId streamId s) (\<lambda>(c, v).
     rbind (assertController now runId streamId leaseId s) (\<lambda>_.
       Inr (emit_effect (Audit ''terminal.lease.released'' runId)
         (put_control runId ((set_viewer streamId step_down c)\<lparr>rc_controller := None\<rparr>) s))))"

definition hasController :: "timestamp \<Rightarrow> string \<Rightarrow> terminals \<Rightarrow> bool" where
  "hasController now runId s =
     (case Option.bind (Option.bind (run_control_of s runId) controlling_viewer) vw_lease of
        None \<Rightarrow> False | Some l \<Rightarrow> now < tl_expiresAt l)"

definition expire_viewer :: "timestamp \<Rightarrow> string \<Rightarrow> viewer \<Rightarrow> terminals \<Rightarrow> terminals" where
  "expire_viewer now runId v s =
     (if now - vw_heartbeatAt v \<le> leaseMs then s
      else emit_effect (Audit ''terminal.lease.expired'' runId)
             (control_disconnect runId (vw_streamId v)
               (close_viewer runId (vw_streamId v) 1008 ''terminal_lease_expired'' s)))"

definition control_expire :: "timestamp \<Rightarrow> terminals \<Rightarrow> terminals" where
  "control_expire now s =
     foldl (\<lambda>t (runId, c). foldl (\<lambda>u v. expire_viewer now runId v u) t (rc_viewers c)) s (tm_runs s)"

definition control_close :: "terminals \<Rightarrow> terminals" where
  "control_close s = foldl (\<lambda>t runId. control_unregister runId ''server_restart'' t) s (map fst (tm_runs s))"

subsection \<open>The input arbiter\<close>

text \<open>
  An automated operation is an asynchronous function. It waits for the barrier of the operation queued
  before it, runs, its promise settles, and then \<open>settle\<close> lets the next one start. A ticket is the
  place of an operation in the order of all submissions.
\<close>

datatype op_phase = Op_waiting | Op_running | Op_settled | Op_done

record automated_op =
  ao_run :: string
  ao_after :: "nat option"
  ao_phase :: op_phase

record arbiter =
  ab_pending :: "string \<Rightarrow> nat option"
  ab_queue :: "string \<Rightarrow> nat option"
  ab_ops :: "automated_op list"
  ab_emitted :: "(string \<times> bool) list"

definition pending_count :: "arbiter \<Rightarrow> string \<Rightarrow> nat" where
  "pending_count a runId = (case ab_pending a runId of None \<Rightarrow> 0 | Some n \<Rightarrow> n)"

text \<open>\<open>inputState\<close>: whether input of the run is automated.\<close>

definition automated :: "arbiter \<Rightarrow> string \<Rightarrow> bool" where
  "automated a runId \<longleftrightarrow> 0 < pending_count a runId"

definition incrementPending :: "string \<Rightarrow> arbiter \<Rightarrow> arbiter" where
  "incrementPending runId a =
     (let pending = pending_count a runId
      in a\<lparr>ab_pending := (ab_pending a)(runId \<mapsto> pending + 1),
           ab_emitted := ab_emitted a @ (if pending = 0 then [(runId, True)] else [])\<rparr>)"

definition decrementPending :: "string \<Rightarrow> arbiter \<Rightarrow> arbiter" where
  "decrementPending runId a =
     (let pending = pending_count a runId
      in if pending \<le> 1
         then a\<lparr>ab_pending := (ab_pending a)(runId := None), ab_emitted := ab_emitted a @ [(runId, False)]\<rparr>
         else a\<lparr>ab_pending := (ab_pending a)(runId \<mapsto> pending - 1)\<rparr>)"

definition set_phase :: "nat \<Rightarrow> op_phase \<Rightarrow> arbiter \<Rightarrow> arbiter" where
  "set_phase t p a = a\<lparr>ab_ops := (ab_ops a)[t := (ab_ops a ! t)\<lparr>ao_phase := p\<rparr>]\<rparr>"

definition dispatchAutomated :: "string \<Rightarrow> arbiter \<Rightarrow> arbiter" where
  "dispatchAutomated runId a =
     (let a1 = incrementPending runId a
      in a1\<lparr>ab_ops := ab_ops a1 @ [\<lparr>ao_run = runId, ao_after = ab_queue a1 runId, ao_phase = Op_waiting\<rparr>],
            ab_queue := (ab_queue a1)(runId \<mapsto> length (ab_ops a1))\<rparr>)"

definition op_ready :: "arbiter \<Rightarrow> nat \<Rightarrow> bool" where
  "op_ready a t \<longleftrightarrow> t < length (ab_ops a) \<and> ao_phase (ab_ops a ! t) = Op_waiting \<and>
     (case ao_after (ab_ops a ! t) of None \<Rightarrow> True | Some j \<Rightarrow> ao_phase (ab_ops a ! j) = Op_done)"

definition settle_op :: "nat \<Rightarrow> arbiter \<Rightarrow> arbiter" where
  "settle_op t a =
     (let runId = ao_run (ab_ops a ! t); a1 = decrementPending runId (set_phase t Op_done a)
      in if ab_queue a1 runId = Some t then a1\<lparr>ab_queue := (ab_queue a1)(runId := None)\<rparr> else a1)"

datatype input_frame =
    Frame_input string units
  | Frame_paste string units
  | Frame_focus string bool
  | Frame_resize string nat nat

definition frame_lease :: "input_frame \<Rightarrow> string" where
  "frame_lease f = (case f of Frame_input l _ \<Rightarrow> l | Frame_paste l _ \<Rightarrow> l | Frame_focus l _ \<Rightarrow> l | Frame_resize l _ _ \<Rightarrow> l)"

definition write_bounded :: "nat \<Rightarrow> string \<Rightarrow> units \<Rightarrow> terminals \<Rightarrow> terminals result" where
  "write_bounded limit runId data s =
     (if limit < length (utf8_units data) then Inl (DomainError ''terminal_input_too_large'' 413)
      else Inr (emit_effect (Pty_write runId data) s))"

definition dispatch_input ::
  "timestamp \<Rightarrow> arbiter \<Rightarrow> string \<Rightarrow> string \<Rightarrow> input_frame \<Rightarrow> terminals \<Rightarrow> terminals result" where
  "dispatch_input now a runId streamId frame s =
     (if automated a runId then Inl (DomainError ''terminal_input_automation_active'' 409) else
      rbind (assertController now runId streamId (frame_lease frame) s) (\<lambda>_.
        case frame of
          Frame_resize _ cols rows \<Rightarrow> Inr (emit_effect (Pty_resize runId cols rows) s)
        | Frame_focus _ focused \<Rightarrow> Inr (emit_effect (Pty_write runId [27, 91, if focused then 73 else 79]) s)
        | Frame_paste _ data \<Rightarrow> write_bounded maxPasteBytes runId data s
        | Frame_input _ data \<Rightarrow> write_bounded maxInputBytes runId data s))"

end
