(* ===== verification/Terminal_Properties.thy ===== *)
theory Terminal_Properties
  imports Terminal_Control
begin

text \<open>
  What terminal control promises: the arbiter and the control service as step relations over every
  operation the program has on them, their invariants, and the properties of both together.
\<close>


subsection \<open>The arbiter as a machine\<close>

definition arbiter0 :: arbiter where
  "arbiter0 = \<lparr>ab_pending = (\<lambda>_. None), ab_queue = (\<lambda>_. None), ab_ops = [], ab_emitted = []\<rparr>"

inductive arbiter_step :: "arbiter \<Rightarrow> arbiter \<Rightarrow> bool" where
  submit_op: "arbiter_step a (dispatchAutomated runId a)"
| start_op: "op_ready a t \<Longrightarrow> arbiter_step a (set_phase t Op_running a)"
| finish_op: "t < length (ab_ops a) \<Longrightarrow> ao_phase (ab_ops a ! t) = Op_running \<Longrightarrow> arbiter_step a (set_phase t Op_settled a)"
| release_op: "t < length (ab_ops a) \<Longrightarrow> ao_phase (ab_ops a ! t) = Op_settled \<Longrightarrow> arbiter_step a (settle_op t a)"

abbreviation op_run :: "arbiter \<Rightarrow> nat \<Rightarrow> string" where "op_run a t \<equiv> ao_run (ab_ops a ! t)"
abbreviation op_phase :: "arbiter \<Rightarrow> nat \<Rightarrow> op_phase" where "op_phase a t \<equiv> ao_phase (ab_ops a ! t)"

definition undone :: "arbiter \<Rightarrow> string \<Rightarrow> nat set" where
  "undone a runId = {t. t < length (ab_ops a) \<and> op_run a t = runId \<and> op_phase a t \<noteq> Op_done}"

text \<open>
  Operations of a run are settled in the order of their tickets; each waits for the one before it or
  found all before it done; the queue names the last operation that is not done.
\<close>

definition arbiter_ok :: "arbiter \<Rightarrow> bool" where
  "arbiter_ok a \<longleftrightarrow>
     (\<forall>t<length (ab_ops a). op_phase a t \<noteq> Op_waiting \<longrightarrow> (\<forall>k\<in>undone a (op_run a t). t \<le> k)) \<and>
     (\<forall>t<length (ab_ops a). case ao_after (ab_ops a ! t) of
        None \<Rightarrow> \<forall>k\<in>undone a (op_run a t). t \<le> k
      | Some j \<Rightarrow> j < t \<and> op_run a j = op_run a t \<and> (\<forall>k\<in>undone a (op_run a t). k \<le> j \<or> t \<le> k)) \<and>
     (\<forall>r. case ab_queue a r of None \<Rightarrow> undone a r = {}
        | Some t \<Rightarrow> t \<in> undone a r \<and> (\<forall>k<length (ab_ops a). op_run a k = r \<longrightarrow> k \<le> t)) \<and>
     (\<forall>r. pending_count a r = card (undone a r))"

lemma undone_finite: "finite (undone a r)"
  by (simp add: undone_def)

lemma arbiter0_ok: "arbiter_ok arbiter0"
  by (simp add: arbiter_ok_def arbiter0_def undone_def pending_count_def)

lemma set_phase_fields [simp]:
  "length (ab_ops (set_phase t p a)) = length (ab_ops a)" "ab_queue (set_phase t p a) = ab_queue a"
  "pending_count (set_phase t p a) r = pending_count a r"
  "t < length (ab_ops a) \<Longrightarrow> k < length (ab_ops a) \<Longrightarrow> op_run (set_phase t p a) k = op_run a k"
  "t < length (ab_ops a) \<Longrightarrow> k < length (ab_ops a) \<Longrightarrow> ao_after (ab_ops (set_phase t p a) ! k) = ao_after (ab_ops a ! k)"
  "t < length (ab_ops a) \<Longrightarrow> k < length (ab_ops a) \<Longrightarrow>
     op_phase (set_phase t p a) k = (if k = t then p else op_phase a k)"
  by (auto simp: set_phase_def pending_count_def nth_list_update)

lemma undone_set_phase:
  "t < length (ab_ops a) \<Longrightarrow> undone (set_phase t p a) r =
     (if p = Op_done then undone a r - {t} else if op_run a t = r then insert t (undone a r) else undone a r)"
  by (auto simp: undone_def split: if_splits)

lemma arbiter_okD:
  assumes "arbiter_ok a"
  shows "t < length (ab_ops a) \<Longrightarrow> op_phase a t \<noteq> Op_waiting \<Longrightarrow> k \<in> undone a (op_run a t) \<Longrightarrow> t \<le> k"
    and "t < length (ab_ops a) \<Longrightarrow> ao_after (ab_ops a ! t) = None \<Longrightarrow> k \<in> undone a (op_run a t) \<Longrightarrow> t \<le> k"
    and "t < length (ab_ops a) \<Longrightarrow> ao_after (ab_ops a ! t) = Some j \<Longrightarrow>
      j < t \<and> op_run a j = op_run a t \<and> (\<forall>k\<in>undone a (op_run a t). k \<le> j \<or> t \<le> k)"
    and "ab_queue a r = None \<Longrightarrow> undone a r = {}"
    and "ab_queue a r = Some t \<Longrightarrow> t \<in> undone a r \<and> (\<forall>k<length (ab_ops a). op_run a k = r \<longrightarrow> k \<le> t)"
    and "pending_count a r = card (undone a r)"
proof -
  note ok = assms [unfolded arbiter_ok_def]
  show "t < length (ab_ops a) \<Longrightarrow> op_phase a t \<noteq> Op_waiting \<Longrightarrow> k \<in> undone a (op_run a t) \<Longrightarrow> t \<le> k"
    using ok by blast
  have c: "t < length (ab_ops a) \<Longrightarrow> case ao_after (ab_ops a ! t) of None \<Rightarrow> \<forall>k\<in>undone a (op_run a t). t \<le> k
      | Some j \<Rightarrow> j < t \<and> op_run a j = op_run a t \<and> (\<forall>k\<in>undone a (op_run a t). k \<le> j \<or> t \<le> k)"
    using ok by blast
  then show "t < length (ab_ops a) \<Longrightarrow> ao_after (ab_ops a ! t) = None \<Longrightarrow> k \<in> undone a (op_run a t) \<Longrightarrow> t \<le> k"
    by simp
  from c show "t < length (ab_ops a) \<Longrightarrow> ao_after (ab_ops a ! t) = Some j \<Longrightarrow>
      j < t \<and> op_run a j = op_run a t \<and> (\<forall>k\<in>undone a (op_run a t). k \<le> j \<or> t \<le> k)" by simp
  have q: "case ab_queue a r of None \<Rightarrow> undone a r = {}
        | Some t \<Rightarrow> t \<in> undone a r \<and> (\<forall>k<length (ab_ops a). op_run a k = r \<longrightarrow> k \<le> t)"
    using ok by blast
  then show "ab_queue a r = None \<Longrightarrow> undone a r = {}" by simp
  from q show "ab_queue a r = Some t \<Longrightarrow> t \<in> undone a r \<and> (\<forall>k<length (ab_ops a). op_run a k = r \<longrightarrow> k \<le> t)"
    by simp
  show "pending_count a r = card (undone a r)" using ok by blast
qed

lemma submitted_op_ok:
  assumes "arbiter_ok a" shows "arbiter_ok (dispatchAutomated r a)"
proof -
  let ?b = "dispatchAutomated r a" and ?n = "length (ab_ops a)"
  have ops: "ab_ops ?b = ab_ops a @ [\<lparr>ao_run = r, ao_after = ab_queue a r, ao_phase = Op_waiting\<rparr>]"
    and q: "ab_queue ?b = (ab_queue a)(r \<mapsto> ?n)"
    and p: "pending_count ?b r' = pending_count a r' + (if r' = r then 1 else 0)" for r'
    by (auto simp: dispatchAutomated_def incrementPending_def pending_count_def Let_def)
  have u: "undone ?b r' = (if r' = r then insert ?n (undone a r') else undone a r')" for r'
    by (auto simp: undone_def ops nth_append)
  have fresh: "?n \<notin> undone a r'" for r' by (simp add: undone_def)
  show ?thesis
    unfolding arbiter_ok_def
  proof (intro conjI allI impI)
    fix t assume t: "t < length (ab_ops ?b)"
    show "\<forall>k\<in>undone ?b (op_run ?b t). t \<le> k" if "op_phase ?b t \<noteq> Op_waiting"
      using assms t that by (auto simp: arbiter_ok_def u ops nth_append split: if_splits)
    show "case ao_after (ab_ops ?b ! t) of None \<Rightarrow> \<forall>k\<in>undone ?b (op_run ?b t). t \<le> k
      | Some j \<Rightarrow> j < t \<and> op_run ?b j = op_run ?b t \<and> (\<forall>k\<in>undone ?b (op_run ?b t). k \<le> j \<or> t \<le> k)"
    proof (cases "t < ?n")
      case True
      show ?thesis
      proof (cases "ao_after (ab_ops a ! t)")
        case None
        then show ?thesis using arbiter_okD(2) [OF assms True] True by (auto simp: u ops nth_append)
      next
        case (Some j)
        then show ?thesis using arbiter_okD(3) [OF assms True Some] True by (auto simp: u ops nth_append)
      qed
    next
      case False
      then have tn: "t = ?n" using t ops by simp
      show ?thesis
      proof (cases "ab_queue a r")
        case None
        then show ?thesis using arbiter_okD(4) [OF assms None] tn by (auto simp: u ops nth_append)
      next
        case (Some j)
        then show ?thesis using arbiter_okD(5) [OF assms Some] tn by (auto simp: u ops nth_append undone_def)
      qed
    qed
  next
    fix r'
    show "case ab_queue ?b r' of None \<Rightarrow> undone ?b r' = {}
        | Some t \<Rightarrow> t \<in> undone ?b r' \<and> (\<forall>k<length (ab_ops ?b). op_run ?b k = r' \<longrightarrow> k \<le> t)"
    proof (cases "ab_queue a r'")
      case None
      then show ?thesis using arbiter_okD(4) [OF assms None] by (auto simp: u ops q nth_append)
    next
      case (Some t)
      then show ?thesis using arbiter_okD(5) [OF assms Some] by (auto simp: u ops q nth_append)
    qed
    show "pending_count ?b r' = card (undone ?b r')"
      using assms fresh by (simp add: arbiter_ok_def u p undone_finite)
  qed
qed

lemma ready_first:
  assumes ok: "arbiter_ok a" and r: "op_ready a t" and k: "k \<in> undone a (op_run a t)" shows "t \<le> k"
proof -
  have t: "t < length (ab_ops a)" using r by (simp add: op_ready_def)
  show ?thesis
  proof (cases "ao_after (ab_ops a ! t)")
    case None
    then show ?thesis using arbiter_okD(2) [OF ok t] k by blast
  next
    case (Some j)
    note j = arbiter_okD(3) [OF ok t Some]
    have d: "op_phase a j = Op_done" using r Some by (simp add: op_ready_def)
    have "j \<le> k" using arbiter_okD(1) [OF ok, of j k] j d k t by simp
    moreover have "k \<noteq> j" using d k by (auto simp: undone_def)
    ultimately show ?thesis using j k by force
  qed
qed

lemma phase_ok:
  assumes ok: "arbiter_ok a" and t: "t < length (ab_ops a)" and first: "\<forall>k\<in>undone a (op_run a t). t \<le> k"
    and live: "op_phase a t \<noteq> Op_done" and p: "p \<noteq> Op_done"
  shows "arbiter_ok (set_phase t p a)"
proof -
  have u: "undone (set_phase t p a) r' = undone a r'" for r'
    using t live p by (auto simp: undone_def split: if_splits)
  show ?thesis
    unfolding arbiter_ok_def u
  proof (intro conjI allI impI)
    fix s assume s: "s < length (ab_ops (set_phase t p a))"
    then have s': "s < length (ab_ops a)" by simp
    show "\<forall>k\<in>undone a (op_run (set_phase t p a) s). s \<le> k" if "op_phase (set_phase t p a) s \<noteq> Op_waiting"
      using that first arbiter_okD(1) [OF ok s'] t s' by (cases "s = t") auto
    show "case ao_after (ab_ops (set_phase t p a) ! s) of None \<Rightarrow> \<forall>k\<in>undone a (op_run (set_phase t p a) s). s \<le> k
      | Some j \<Rightarrow> j < s \<and> op_run (set_phase t p a) j = op_run (set_phase t p a) s \<and>
          (\<forall>k\<in>undone a (op_run (set_phase t p a) s). k \<le> j \<or> s \<le> k)"
      using arbiter_okD(2,3) [OF ok s'] t s' by (cases "ao_after (ab_ops a ! s)") auto
  next
    fix r
    show "case ab_queue (set_phase t p a) r of None \<Rightarrow> undone a r = {}
        | Some s \<Rightarrow> s \<in> undone a r \<and> (\<forall>k<length (ab_ops (set_phase t p a)). op_run (set_phase t p a) k = r \<longrightarrow> k \<le> s)"
      using arbiter_okD(4,5) [OF ok, of r] t by (cases "ab_queue a r") auto
    show "pending_count (set_phase t p a) r = card (undone a r)" using arbiter_okD(6) [OF ok] by simp
  qed
qed

lemma settle_ok:
  assumes ok: "arbiter_ok a" and t: "t < length (ab_ops a)" "op_phase a t = Op_settled"
  shows "arbiter_ok (settle_op t a)"
proof -
  let ?r = "op_run a t" and ?b = "settle_op t a" and ?c = "set_phase t Op_done a"
  have in_t: "t \<in> undone a ?r" using t by (simp add: undone_def)
  have first: "k \<in> undone a ?r \<Longrightarrow> t \<le> k" for k using arbiter_okD(1) [OF ok t(1)] t(2) by simp
  have ops: "ab_ops ?b = ab_ops ?c"
    and q: "ab_queue ?b r' = (if r' = ?r \<and> ab_queue a ?r = Some t then None else ab_queue a r')"
    and p: "pending_count ?b r' = (if r' = ?r then pending_count a r' - 1 else pending_count a r')" for r'
    by (auto simp: settle_op_def decrementPending_def Let_def pending_count_def set_phase_def split: option.splits)
  have u: "undone ?b r' = undone a r' - {t}" for r'
  proof -
    have "undone ?b r' = undone ?c r'" by (simp add: undone_def ops)
    then show ?thesis using t by (auto simp: undone_set_phase)
  qed
  show ?thesis
    unfolding arbiter_ok_def u
  proof (intro conjI allI impI)
    fix s assume s: "s < length (ab_ops ?b)"
    then have s': "s < length (ab_ops a)" by (simp add: ops)
    show "\<forall>k\<in>undone a (op_run ?b s) - {t}. s \<le> k" if "op_phase ?b s \<noteq> Op_waiting"
      using that arbiter_okD(1) [OF ok s'] t s' first by (cases "s = t") (auto simp: ops)
    show "case ao_after (ab_ops ?b ! s) of None \<Rightarrow> \<forall>k\<in>undone a (op_run ?b s) - {t}. s \<le> k
      | Some j \<Rightarrow> j < s \<and> op_run ?b j = op_run ?b s \<and> (\<forall>k\<in>undone a (op_run ?b s) - {t}. k \<le> j \<or> s \<le> k)"
      using arbiter_okD(2,3) [OF ok s'] t s' by (cases "ao_after (ab_ops a ! s)") (auto simp: ops)
  next
    fix r
    show "case ab_queue ?b r of None \<Rightarrow> undone a r - {t} = {}
        | Some s \<Rightarrow> s \<in> undone a r - {t} \<and> (\<forall>k<length (ab_ops ?b). op_run ?b k = r \<longrightarrow> k \<le> s)"
    proof (cases "r = ?r \<and> ab_queue a ?r = Some t")
      case True
      then have "\<forall>k<length (ab_ops a). op_run a k = ?r \<longrightarrow> k \<le> t" using arbiter_okD(5) [OF ok] by blast
      then have "undone a ?r \<subseteq> {t}" using first by (force simp: undone_def intro: le_antisym)
      then show ?thesis using True by (auto simp: q)
    next
      case False
      then have "ab_queue ?b r = ab_queue a r" by (auto simp: q)
      moreover have "s \<noteq> t" if "ab_queue a r = Some s" for s
        using that False arbiter_okD(5) [OF ok that] by (auto simp: undone_def)
      ultimately show ?thesis using arbiter_okD(4,5) [OF ok, of r] t by (cases "ab_queue a r") (auto simp: ops)
    qed
    show "pending_count ?b r = card (undone a r - {t})"
    proof (cases "r = ?r")
      case True
      then show ?thesis using arbiter_okD(6) [OF ok] in_t by (simp add: p undone_finite)
    next
      case False
      then have "t \<notin> undone a r" by (auto simp: undone_def)
      then show ?thesis using False arbiter_okD(6) [OF ok] by (simp add: p)
    qed
  qed
qed

lemma arbiter_step_ok: "arbiter_step a b \<Longrightarrow> arbiter_ok a \<Longrightarrow> arbiter_ok b"
proof (induction rule: arbiter_step.induct)
  case (start_op a t)
  then show ?case using ready_first by (intro phase_ok) (auto simp: op_ready_def)
next
  case (finish_op t a)
  then show ?case using arbiter_okD(1) by (intro phase_ok) auto
qed (auto simp: submitted_op_ok settle_ok)

text \<open> C11. While an automated operation of a run is queued or under way, some operation of the run can take a
  step; and only the first operation that is not done is ever under way.\<close>

theorem automated_input_in_order:
  assumes "arbiter_step\<^sup>*\<^sup>* arbiter0 a"
  shows "(automated a r \<longleftrightarrow> undone a r \<noteq> {}) \<and>
    (automated a r \<longrightarrow> (let t = Min (undone a r) in op_ready a t \<or> op_phase a t = Op_running \<or> op_phase a t = Op_settled)) \<and>
    (\<forall>t\<in>undone a r. op_phase a t \<noteq> Op_waiting \<longrightarrow> t = Min (undone a r))"
proof -
  have ok: "arbiter_ok a" using assms by (induction rule: rtranclp_induct) (auto simp: arbiter0_ok arbiter_step_ok)
  have auto: "automated a r \<longleftrightarrow> undone a r \<noteq> {}"
    using arbiter_okD(6) [OF ok, of r] by (simp add: automated_def card_gt_0_iff undone_finite)
  have run: "t = Min (undone a r)" if "t \<in> undone a r" "op_phase a t \<noteq> Op_waiting" for t
  proof -
    have "t \<le> k" if "k \<in> undone a r" for k
      using arbiter_okD(1) [OF ok, of t k] \<open>t \<in> undone a r\<close> \<open>op_phase a t \<noteq> Op_waiting\<close> that by (simp add: undone_def)
    then show ?thesis using \<open>t \<in> undone a r\<close> by (intro Min_eqI [symmetric]) (auto simp: undone_finite)
  qed
  have "op_ready a t \<or> op_phase a t = Op_running \<or> op_phase a t = Op_settled" if ne: "undone a r \<noteq> {}" and t: "t = Min (undone a r)" for t
  proof (cases "op_phase a t = Op_waiting")
    case True
    have m: "t \<in> undone a r" "\<forall>k\<in>undone a r. t \<le> k" using ne t by (simp_all add: undone_finite)
    then have l: "t < length (ab_ops a)" "op_run a t = r" by (simp_all add: undone_def)
    have "op_phase a j = Op_done" if j: "ao_after (ab_ops a ! t) = Some j" for j
    proof (rule ccontr)
      assume "op_phase a j \<noteq> Op_done"
      then have "j \<in> undone a r" using arbiter_okD(3) [OF ok l(1) j] l by (simp add: undone_def)
      then show False using m arbiter_okD(3) [OF ok l(1) j] by force
    qed
    then show ?thesis using True l by (simp add: op_ready_def split: option.split)
  next
    case False
    moreover have "t \<in> undone a r" using ne t by (simp add: undone_finite)
    ultimately show ?thesis by (cases "op_phase a t") (auto simp: undone_def)
  qed
  then show ?thesis using auto run by (auto simp: Let_def)
qed


subsection \<open>The control service as a machine\<close>

definition run_ok :: "string \<Rightarrow> run_control \<Rightarrow> bool" where
  "run_ok runId c \<longleftrightarrow>
     distinct (map vw_streamId (rc_viewers c)) \<and> distinct (map vw_viewerId (rc_viewers c)) \<and>
     length (rc_viewers c) \<le> maxViewers \<and>
     (\<forall>i. rc_controller c = Some i \<longrightarrow> i \<in> vw_streamId ` set (rc_viewers c)) \<and>
     (\<forall>v\<in>set (rc_viewers c). (vw_role v = Controller \<longleftrightarrow> rc_controller c = Some (vw_streamId v)) \<and>
        (vw_lease v \<noteq> None \<longleftrightarrow> vw_role v = Controller))"

definition terminals_ok :: "terminals \<Rightarrow> bool" where
  "terminals_ok s \<longleftrightarrow> (\<forall>runId c. run_control_of s runId = Some c \<longrightarrow> run_ok runId c)"

definition known_streams :: "terminals \<Rightarrow> string set" where
  "known_streams s = {vw_streamId v | runId c v. run_control_of s runId = Some c \<and> v \<in> set (rc_viewers c)}"

lemma run_control_emit [simp]: "run_control_of (emit_effect e s) r = run_control_of s r"
  by (simp add: run_control_of_def emit_effect_def)

lemma run_control_put [simp]: "run_control_of (put_control r' c s) r = (if r = r' then Some c else run_control_of s r)"
  by (auto simp: run_control_of_def put_control_def update_conv' fun_upd_def)

lemma terminals_ok_emit [simp]: "terminals_ok (emit_effect e s) = terminals_ok s"
  by (simp add: terminals_ok_def)

lemma terminals_ok_put: "terminals_ok s \<Longrightarrow> run_ok r c \<Longrightarrow> terminals_ok (put_control r c s)"
  by (simp add: terminals_ok_def)

lemma terminals_okD: "terminals_ok s \<Longrightarrow> run_control_of s r = Some c \<Longrightarrow> run_ok r c"
  by (simp add: terminals_ok_def)

lemma set_viewer_fields [simp]:
  "rc_controller (set_viewer i f c) = rc_controller c" "rc_run (set_viewer i f c) = rc_run c"
  "length (rc_viewers (set_viewer i f c)) = length (rc_viewers c)"
  by (simp_all add: set_viewer_def)

lemma live_viewer_Inr:
  "live_viewer r i s = Inr (c, v) \<longleftrightarrow> run_control_of s r = Some c \<and> viewer_of c i = Some v"
  by (auto simp: live_viewer_def split: option.splits)

lemma viewer_ofD: "viewer_of c i = Some v \<Longrightarrow> v \<in> set (rc_viewers c) \<and> vw_streamId v = i"
  unfolding viewer_of_def by (drule find_where_SomeD) simp

lemma viewer_of_exists: "v \<in> set (rc_viewers c) \<Longrightarrow> run_ok r c \<Longrightarrow> viewer_of c (vw_streamId v) = Some v"
proof -
  assume v: "v \<in> set (rc_viewers c)" and ok: "run_ok r c"
  obtain w where w: "viewer_of c (vw_streamId v) = Some w"
    using find_where_exists [OF v, of "\<lambda>w. vw_streamId w = vw_streamId v"] by (auto simp: viewer_of_def)
  then have "w = v" using viewer_ofD [OF w] v ok by (auto simp: run_ok_def distinct_map inj_on_def)
  then show ?thesis using w by simp
qed

subsubsection \<open>Disconnecting\<close>

definition without_viewer :: "string \<Rightarrow> run_control \<Rightarrow> run_control" where
  "without_viewer i c = c\<lparr>rc_viewers := filter (\<lambda>w. vw_streamId w \<noteq> i) (rc_viewers c),
     rc_controller := (if rc_controller c = Some i then None else rc_controller c)\<rparr>"

lemma without_viewer_ok: "run_ok r c \<Longrightarrow> run_ok r (without_viewer i c)"
  unfolding run_ok_def without_viewer_def
  by (auto simp: distinct_map_filter image_iff intro: order.trans [OF length_filter_le])

lemma run_control_disconnect:
  "run_control_of (control_disconnect r i s) r' =
     (if r' = r \<and> (\<exists>c v. run_control_of s r = Some c \<and> viewer_of c i = Some v)
      then map_option (without_viewer i) (run_control_of s r') else run_control_of s r')"
  by (auto simp: control_disconnect_def live_viewer_def without_viewer_def split: option.splits)

lemma disconnect_ok: "terminals_ok s \<Longrightarrow> terminals_ok (control_disconnect r i s)"
  by (auto simp: terminals_ok_def run_control_disconnect without_viewer_ok)

lemma close_viewer_ok: "terminals_ok s \<Longrightarrow> terminals_ok (close_viewer r i code reason s)"
  by (simp add: close_viewer_def disconnect_ok)

lemma unregister_ok: "terminals_ok s \<Longrightarrow> terminals_ok (control_unregister r reason s)"
proof -
  assume ok: "terminals_ok s"
  have "terminals_ok (foldl (\<lambda>t v. close_viewer r (vw_streamId v) 1012 reason t) t vs)" if "terminals_ok t" for t vs
    using that by (induction vs arbitrary: t) (auto simp: close_viewer_ok)
  moreover have "terminals_ok (s\<lparr>tm_runs := AList.delete r (tm_runs s)\<rparr>)"
    using ok by (auto simp: terminals_ok_def run_control_of_def delete_conv' fun_upd_def split: if_splits)
  ultimately show ?thesis using ok by (auto simp: control_unregister_def split: option.split)
qed

lemma registered_run_ok: "control_register run s = Inr t \<Longrightarrow> terminals_ok s \<Longrightarrow> terminals_ok t"
proof -
  assume r: "control_register run s = Inr t" and ok: "terminals_ok s"
  have new: "run_ok r \<lparr>rc_run = q, rc_streamGeneration = n, rc_viewers = [], rc_controller = None\<rparr>" for r q n
    by (simp add: run_ok_def)
  have old: "run_ok r c \<Longrightarrow> run_ok r (c\<lparr>rc_run := q\<rparr>)" for r c q by (simp add: run_ok_def)
  show ?thesis
    using r ok unfolding control_register_def
    by (auto split: if_splits option.splits intro!: terminals_ok_put new old unregister_ok dest: terminals_okD)
qed

subsubsection \<open>Granting the lease\<close>

lemma step_down_fields [simp]: "vw_streamId (step_down v) = vw_streamId v" "vw_viewerId (step_down v) = vw_viewerId v"
  by (simp_all add: step_down_def)

lemma take_control_ok:
  assumes "terminals_ok s" and "run_control_of s r = Some c" and "i \<in> vw_streamId ` set (rc_viewers c)"
    and "rc_controller c = None \<or> rc_controller c = Some i"
  shows "terminals_ok (take_control r i leaseId takeover now s)"
proof -
  have ok: "run_ok r c" using assms(1,2) by (rule terminals_okD)
  let ?f = "\<lambda>v. v\<lparr>vw_role := Controller, vw_lease := Some (new_lease leaseId now c v)\<rparr>"
  let ?c = "(set_viewer i ?f c)\<lparr>rc_controller := Some i\<rparr>"
  have ids: "map vw_streamId (rc_viewers ?c) = map vw_streamId (rc_viewers c)"
    "map vw_viewerId (rc_viewers ?c) = map vw_viewerId (rc_viewers c)"
    by (simp_all add: set_viewer_def map_update_where)
  have one: "(vw_role v = Controller \<longleftrightarrow> Some i = Some (vw_streamId v)) \<and> (vw_lease v \<noteq> None \<longleftrightarrow> vw_role v = Controller)"
    if "v \<in> set (rc_viewers ?c)" for v
  proof -
    have "(\<exists>w\<in>set (rc_viewers c). vw_streamId w = i \<and> v = ?f w) \<or> (v \<in> set (rc_viewers c) \<and> vw_streamId v \<noteq> i)"
      using that by (auto simp: set_viewer_def set_update_where)
    then show ?thesis
    proof (elim disjE bexE conjE)
      assume v: "v \<in> set (rc_viewers c)" "vw_streamId v \<noteq> i"
      then have "(vw_role v = Controller \<longleftrightarrow> rc_controller c = Some (vw_streamId v)) \<and>
          (vw_lease v \<noteq> None \<longleftrightarrow> vw_role v = Controller)" using ok unfolding run_ok_def by blast
      then show ?thesis using assms(4) v(2) by auto
    qed simp
  qed
  have "vw_streamId ` set (rc_viewers ?c) = vw_streamId ` set (rc_viewers c)" using ids(1) by (metis set_map)
  then have "run_ok r ?c" using ok ids one assms(3) by (simp add: run_ok_def)
  then show ?thesis using assms by (simp add: take_control_def terminals_ok_put)
qed

lemma closed_controller:
  fixes code :: nat and reason :: string
  assumes ok: "terminals_ok s" and c: "run_control_of s r = Some c" and p: "controlling_viewer c = Some p"
  defines "s' \<equiv> close_viewer r (vw_streamId p) code reason (put_control r (set_viewer (vw_streamId p) step_down c) s)"
  shows "terminals_ok s'"
    and "run_control_of s' r = Some (without_viewer (vw_streamId p) (set_viewer (vw_streamId p) step_down c))"
    and "r' \<noteq> r \<Longrightarrow> run_control_of s' r' = run_control_of s r'"
proof -
  let ?i = "vw_streamId p" and ?c = "set_viewer (vw_streamId p) step_down c"
  have r: "run_ok r c" using ok c by (rule terminals_okD)
  have ctl: "rc_controller c = Some ?i" and mem: "p \<in> set (rc_viewers c)"
    using p by (auto simp: controlling_viewer_def dest: viewer_ofD split: option.splits)
  have "viewer_of ?c ?i = Some (step_down p)"
    using viewer_of_exists [OF mem r] find_where_key_update [of vw_streamId step_down ?i "rc_viewers c"]
    by (simp add: viewer_of_def set_viewer_def)
  then show rc: "run_control_of s' r = Some (without_viewer ?i ?c)"
    by (simp add: s'_def close_viewer_def run_control_disconnect)
  show other: "run_control_of s' r' = run_control_of s r'" if "r' \<noteq> r" for r'
    using that by (simp add: s'_def close_viewer_def run_control_disconnect)
  have "without_viewer ?i ?c = without_viewer ?i c"
  proof -
    have "filter (\<lambda>w. vw_streamId w \<noteq> ?i) (update_where (\<lambda>v. vw_streamId v = ?i) step_down xs) =
        filter (\<lambda>w. vw_streamId w \<noteq> ?i) xs" for xs by (induction xs) auto
    then show ?thesis by (simp add: without_viewer_def set_viewer_def)
  qed
  then have "run_ok r (without_viewer ?i ?c)" using without_viewer_ok [OF r] by simp
  then show "terminals_ok s'" using ok rc other by (metis option.inject terminals_ok_def)
qed

lemma grant_ok:
  assumes ok: "terminals_ok s" and c: "run_control_of s r = Some c" and i: "i \<in> vw_streamId ` set (rc_viewers c)"
  shows "terminals_ok (grant_lease r i leaseId takeover now s)"
proof -
  define s1 where "s1 = (if takeover then emit_effect (Takeover_notice r) s else s)"
  have ok1: "terminals_ok s1" and c1: "run_control_of s1 r = Some c" using ok c by (simp_all add: s1_def)
  have rok: "run_ok r c" using ok c by (rule terminals_okD)
  show ?thesis
  proof (cases "controlling_viewer c")
    case None
    have "rc_controller c = None"
    proof (rule ccontr)
      assume "rc_controller c \<noteq> None"
      then obtain j v where j: "rc_controller c = Some j" "v \<in> set (rc_viewers c)" "vw_streamId v = j"
        using rok by (auto simp: run_ok_def)
      then show False using None viewer_of_exists [OF j(2) rok] by (simp add: controlling_viewer_def)
    qed
    then show ?thesis using None c1 take_control_ok [OF ok1 c1 i]
      by (simp add: grant_lease_def Let_def flip: s1_def)
  next
    case (Some p)
    have ctl: "rc_controller c = Some (vw_streamId p)"
      using Some by (auto simp: controlling_viewer_def dest: viewer_ofD split: option.splits)
    show ?thesis
    proof (cases "vw_streamId p = i")
      case True
      then show ?thesis using Some c1 ctl take_control_ok [OF ok1 c1 i]
        by (simp add: grant_lease_def Let_def flip: s1_def)
    next
      case False
      note cl = closed_controller [OF ok1 c1 Some, where code = 4001 and reason = "''terminal_controller_taken_over''"]
      have "i \<in> vw_streamId ` set (rc_viewers (without_viewer (vw_streamId p) (set_viewer (vw_streamId p) step_down c)))"
        using i False by (auto simp: without_viewer_def set_viewer_def set_update_where image_iff)
      moreover have "rc_controller (without_viewer (vw_streamId p) (set_viewer (vw_streamId p) step_down c)) = None"
        using ctl by (simp add: without_viewer_def)
      ultimately show ?thesis using Some c1 False take_control_ok [OF cl(1,2)]
        by (simp add: grant_lease_def Let_def flip: s1_def)
    qed
  qed
qed


lemma set_viewer_ok:
  assumes ok: "run_ok r c" and f: "\<And>w. vw_streamId (f w) = vw_streamId w \<and> vw_viewerId (f w) = vw_viewerId w"
    and same: "\<And>w. w \<in> set (rc_viewers c) \<Longrightarrow> vw_streamId w = i \<Longrightarrow>
      vw_role (f w) = vw_role w \<and> (vw_lease (f w) = None \<longleftrightarrow> vw_lease w = None)"
  shows "run_ok r (set_viewer i f c)"
proof -
  have ids: "map vw_streamId (rc_viewers (set_viewer i f c)) = map vw_streamId (rc_viewers c)"
    "map vw_viewerId (rc_viewers (set_viewer i f c)) = map vw_viewerId (rc_viewers c)"
    using f by (simp_all add: set_viewer_def map_update_where)
  then have "vw_streamId ` set (rc_viewers (set_viewer i f c)) = vw_streamId ` set (rc_viewers c)" by (metis set_map)
  moreover have "(vw_role v = Controller \<longleftrightarrow> rc_controller c = Some (vw_streamId v)) \<and> (vw_lease v \<noteq> None \<longleftrightarrow> vw_role v = Controller)"
    if v: "v \<in> set (rc_viewers (set_viewer i f c))" for v
  proof -
    obtain w where w: "w \<in> set (rc_viewers c)" "v = (if vw_streamId w = i then f w else w)"
      using v by (auto simp: set_viewer_def update_where_def)
    moreover have "(vw_role w = Controller \<longleftrightarrow> rc_controller c = Some (vw_streamId w)) \<and> (vw_lease w \<noteq> None \<longleftrightarrow> vw_role w = Controller)"
      using ok w(1) unfolding run_ok_def by blast
    ultimately show ?thesis using f [of w] same [of w] by (cases "vw_streamId w = i") auto
  qed
  ultimately show ?thesis using ok ids by (simp add: run_ok_def)
qed

lemma release_run_ok:
  assumes ok: "run_ok r c" and ctl: "rc_controller c = Some i"
  shows "run_ok r ((set_viewer i step_down c)\<lparr>rc_controller := None\<rparr>)"
proof -
  have ids: "map vw_streamId (rc_viewers (set_viewer i step_down c)) = map vw_streamId (rc_viewers c)"
    "map vw_viewerId (rc_viewers (set_viewer i step_down c)) = map vw_viewerId (rc_viewers c)"
    by (simp_all add: set_viewer_def map_update_where)
  have "vw_role v \<noteq> Controller \<and> vw_lease v = None" if v: "v \<in> set (rc_viewers (set_viewer i step_down c))" for v
  proof -
    obtain w where w: "w \<in> set (rc_viewers c)" "v = (if vw_streamId w = i then step_down w else w)"
      using v by (auto simp: set_viewer_def update_where_def)
    moreover have "(vw_role w = Controller \<longleftrightarrow> rc_controller c = Some (vw_streamId w)) \<and> (vw_lease w \<noteq> None \<longleftrightarrow> vw_role w = Controller)"
      using ok w(1) unfolding run_ok_def by blast
    ultimately show ?thesis using ctl by (cases "vw_streamId w = i") (auto simp: step_down_def)
  qed
  then show ?thesis using ok ids by (simp add: run_ok_def)
qed

lemma connect_ok:
  assumes conn: "control_connect now i leaseId input s = (t, out)" and ok: "terminals_ok s"
    and fresh: "\<And>c v. run_control_of s (ci_runId input) = Some c \<Longrightarrow> v \<in> set (rc_viewers c) \<Longrightarrow> vw_streamId v \<noteq> i"
  shows "terminals_ok t"
proof -
  let ?r = "ci_runId input"
  show ?thesis
  proof (cases "run_control_of s ?r")
    case (Some c)
    have rok: "run_ok ?r c" using ok Some by (rule terminals_okD)
    let ?v = "\<lparr>vw_viewerId = ci_viewerId input, vw_streamId = i, vw_streamGeneration = rc_streamGeneration c,
      vw_role = Observer, vw_lease = None, vw_heartbeatAt = now\<rparr>"
    define c1 where "c1 = c\<lparr>rc_viewers := rc_viewers c @ [?v]\<rparr>"
    define s1 where "s1 = put_control ?r c1 s"
    define s2 where "s2 = (if ci_requestedRole input = Controller \<and> (rc_controller c = None \<or> ci_takeover input)
      then grant_lease ?r i leaseId (ci_takeover input) now s1 else s1)"
    consider "t = s" | "length (rc_viewers c) < maxViewers" "\<not> list_ex (\<lambda>v. vw_viewerId v = ci_viewerId input) (rc_viewers c)"
      "(case live_viewer ?r i s2 of Inl e \<Rightarrow> (s2, Inl e)
        | Inr (c2, v2) \<Rightarrow> if vw_role v2 = Observer \<and> maxObservers < observers c2
            then (put_control ?r (c2\<lparr>rc_viewers := filter (\<lambda>w. vw_streamId w \<noteq> i) (rc_viewers c2)\<rparr>) s2,
              Inl (DomainError ''terminal_observer_limit'' 429))
            else (emit_effect (Audit ''terminal.viewer.connected'' ?r) s2, Inr v2)) = (t, out)"
      using conn Some unfolding control_connect_def s2_def s1_def c1_def Let_def by (auto split: if_splits)
    then show ?thesis
    proof cases
      case 2
      have "run_ok ?r c1"
        using rok fresh [OF Some] 2(1,2) unfolding run_ok_def c1_def
        by (auto simp: list_ex_iff image_iff)
      then have ok1: "terminals_ok s1" using ok by (simp add: s1_def terminals_ok_put)
      have "run_control_of s1 ?r = Some c1" "i \<in> vw_streamId ` set (rc_viewers c1)" by (simp_all add: s1_def c1_def)
      then have ok2: "terminals_ok s2" using ok1 grant_ok by (simp add: s2_def)
      have "run_ok ?r (c2\<lparr>rc_viewers := filter (\<lambda>w. vw_streamId w \<noteq> i) (rc_viewers c2)\<rparr>)"
        if l: "run_control_of s2 ?r = Some c2" "viewer_of c2 i = Some v2" and o: "vw_role v2 = Observer" for c2 v2
      proof -
        have "run_ok ?r c2" using ok2 l(1) by (rule terminals_okD)
        moreover have "rc_controller c2 \<noteq> Some i"
          using viewer_ofD [OF l(2)] o calculation by (auto simp: run_ok_def)
        then have "without_viewer i c2 = c2\<lparr>rc_viewers := filter (\<lambda>w. vw_streamId w \<noteq> i) (rc_viewers c2)\<rparr>"
          by (simp add: without_viewer_def)
        ultimately show ?thesis using without_viewer_ok by metis
      qed
      then show ?thesis using 2(3) ok2
        by (auto simp: live_viewer_Inr terminals_ok_put split: sum.splits prod.splits if_splits)
    qed (use ok in simp)
  qed (use conn ok in \<open>simp add: control_connect_def\<close>)
qed

lemma takeover_ok: "control_takeover now l r i e s = Inr t \<Longrightarrow> terminals_ok s \<Longrightarrow> terminals_ok t"
  by (auto simp: control_takeover_def rbind_eq_Inr live_viewer_Inr split: if_splits
      dest!: viewer_ofD intro!: grant_ok)

lemma heartbeat_ok: "control_heartbeat now r i l s = (t, out) \<Longrightarrow> terminals_ok s \<Longrightarrow> terminals_ok t"
proof -
  assume h: "control_heartbeat now r i l s = (t, out)" and ok: "terminals_ok s"
  show ?thesis
  proof (cases "live_viewer r i s")
    case (Inr p)
    obtain c v where p: "p = (c, v)" by (cases p)
    then have c: "run_control_of s r = Some c" "viewer_of c i = Some v" using Inr by (simp_all add: live_viewer_Inr)
    have rok: "run_ok r c" using ok c(1) by (rule terminals_okD)
    have only: "w = v" if "w \<in> set (rc_viewers c)" "vw_streamId w = i" for w
      using viewer_of_exists [OF that(1) rok] that(2) c(2) by simp
    have beat: "run_ok r (set_viewer i (\<lambda>w. w\<lparr>vw_heartbeatAt := now\<rparr>) c)"
      by (rule set_viewer_ok [OF rok]) simp_all
    have renew: "run_ok r (set_viewer i (\<lambda>w. w\<lparr>vw_heartbeatAt := now, vw_lease := Some l'\<rparr>) c)" if "vw_lease v \<noteq> None" for l'
      by (rule set_viewer_ok [OF rok]) (use only that in auto)
    show ?thesis using h ok beat renew
      by (auto simp: control_heartbeat_def Inr p Let_def terminals_ok_put split: option.splits if_splits)
  qed (use h ok in \<open>simp add: control_heartbeat_def\<close>)
qed

lemma release_ok: "control_release now r i l s = Inr t \<Longrightarrow> terminals_ok s \<Longrightarrow> terminals_ok t"
  by (auto simp: control_release_def rbind_eq_Inr live_viewer_Inr assertController_def split: if_splits
      intro!: terminals_ok_put release_run_ok dest: terminals_okD)

lemma expire_ok: "terminals_ok s \<Longrightarrow> terminals_ok (control_expire now s)"
proof -
  have one: "terminals_ok t \<Longrightarrow> terminals_ok (foldl (\<lambda>u v. expire_viewer now r v u) t vs)" for r t vs
    by (induction vs arbitrary: t) (auto simp: expire_viewer_def disconnect_ok close_viewer_ok)
  have "terminals_ok t \<Longrightarrow> terminals_ok (foldl (\<lambda>t (runId, c). foldl (\<lambda>u v. expire_viewer now runId v u) t (rc_viewers c)) t rs)" for t rs
    by (induction rs arbitrary: t) (auto simp: one)
  then show "terminals_ok s \<Longrightarrow> ?thesis" by (simp add: control_expire_def)
qed

lemma close_ok: "terminals_ok s \<Longrightarrow> terminals_ok (control_close s)"
proof -
  have "terminals_ok t \<Longrightarrow> terminals_ok (foldl (\<lambda>t runId. control_unregister runId ''server_restart'' t) t rs)" for t rs
    by (induction rs arbitrary: t) (auto simp: unregister_ok)
  then show "terminals_ok s \<Longrightarrow> ?thesis" by (simp add: control_close_def)
qed


subsection \<open>Both services together\<close>

record front =
  fr_terminals :: terminals
  fr_arbiter :: arbiter

definition front0 :: front where
  "front0 = \<lparr>fr_terminals = \<lparr>tm_runs = [], tm_effects = []\<rparr>, fr_arbiter = arbiter0\<rparr>"

text \<open>The operations of the gateway, the runtime and the automated senders, in any order and at any time.\<close>

inductive front_step :: "front \<Rightarrow> front \<Rightarrow> bool" where
  register_run: "control_register run (fr_terminals f) = Inr t \<Longrightarrow> front_step f (f\<lparr>fr_terminals := t\<rparr>)"
| unregister_run: "front_step f (f\<lparr>fr_terminals := control_unregister r reason (fr_terminals f)\<rparr>)"
| connect_viewer: "control_connect now i l input (fr_terminals f) = (t, out) \<Longrightarrow> i \<notin> known_streams (fr_terminals f) \<Longrightarrow>
    front_step f (f\<lparr>fr_terminals := t\<rparr>)"
| takeover_viewer: "control_takeover now l r i e (fr_terminals f) = Inr t \<Longrightarrow> front_step f (f\<lparr>fr_terminals := t\<rparr>)"
| heartbeat_viewer: "control_heartbeat now r i l' (fr_terminals f) = (t, out') \<Longrightarrow> front_step f (f\<lparr>fr_terminals := t\<rparr>)"
| release_viewer: "control_release now r i l (fr_terminals f) = Inr t \<Longrightarrow> front_step f (f\<lparr>fr_terminals := t\<rparr>)"
| disconnect_viewer: "front_step f (f\<lparr>fr_terminals := control_disconnect r i (fr_terminals f)\<rparr>)"
| expire_viewers: "front_step f (f\<lparr>fr_terminals := control_expire now (fr_terminals f)\<rparr>)"
| close_all: "front_step f (f\<lparr>fr_terminals := control_close (fr_terminals f)\<rparr>)"
| viewer_input: "dispatch_input now (fr_arbiter f) r i frame (fr_terminals f) = Inr t \<Longrightarrow> front_step f (f\<lparr>fr_terminals := t\<rparr>)"
| automated_input: "arbiter_step (fr_arbiter f) a \<Longrightarrow> front_step f (f\<lparr>fr_arbiter := a\<rparr>)"

definition front_ok :: "front \<Rightarrow> bool" where
  "front_ok f \<longleftrightarrow> terminals_ok (fr_terminals f) \<and> arbiter_ok (fr_arbiter f)"

lemma input_ok: "dispatch_input now a r i frame s = Inr t \<Longrightarrow> terminals_ok s \<Longrightarrow> terminals_ok t"
  by (auto simp: dispatch_input_def rbind_eq_Inr write_bounded_def split: if_splits input_frame.splits)

lemma front_step_ok: "front_step f g \<Longrightarrow> front_ok f \<Longrightarrow> front_ok g"
proof (induction rule: front_step.induct)
  case (connect_viewer now i l input f t out)
  have "vw_streamId v \<noteq> i" if "run_control_of (fr_terminals f) (ci_runId input) = Some c" "v \<in> set (rc_viewers c)" for c v
    using that connect_viewer.hyps(2) unfolding known_streams_def by blast
  then have "terminals_ok t"
    using connect_ok [OF connect_viewer.hyps(1)] connect_viewer.prems by (simp add: front_ok_def)
  then show ?case using connect_viewer.prems by (simp add: front_ok_def)
qed (auto simp: front_ok_def registered_run_ok unregister_ok takeover_ok heartbeat_ok release_ok disconnect_ok expire_ok
    close_ok input_ok arbiter_step_ok)

lemma front0_ok: "front_ok front0"
  by (simp add: front_ok_def front0_def arbiter0_ok terminals_ok_def run_control_of_def)

interpretation front: moving_machine front_step front_ok "\<lambda>f g. front_ok g"
  by unfold_locales (auto intro: front_step_ok)

lemma assert_controller_stream:
  "terminals_ok s \<Longrightarrow> assertController now r i l s = Inr v \<Longrightarrow>
     \<exists>c. run_control_of s r = Some c \<and> viewer_of c i = Some v \<and> rc_controller c = Some i \<and>
       (\<exists>k. vw_lease v = Some k \<and> tl_id k = l \<and> now < tl_expiresAt k)"
  by (auto simp: assertController_def rbind_eq_Inr live_viewer_Inr split: if_splits option.splits)

text \<open> C9. Input of a viewer reaches the terminal of a run only while no automated operation of the run is
  queued or under way, and at no time does another stream, or another lease, pass the same check.\<close>

theorem one_terminal_writer:
  assumes "front_step\<^sup>*\<^sup>* front0 f" and "dispatch_input now (fr_arbiter f) r i frame (fr_terminals f) = Inr t"
  shows "undone (fr_arbiter f) r = {} \<and>
    {(j, l) | now' j l v. assertController now' r j l (fr_terminals f) = Inr v} \<subseteq> {(i, frame_lease frame)}"
proof -
  have ok: "front_ok f" by (rule front.steps_inv [OF assms(1) front0_ok])
  let ?s = "fr_terminals f"
  have s: "terminals_ok ?s" using ok by (simp add: front_ok_def)
  obtain v where quiet: "\<not> automated (fr_arbiter f) r" and v: "assertController now r i (frame_lease frame) ?s = Inr v"
    using assms(2) by (auto simp: dispatch_input_def rbind_eq_Inr split: if_splits)
  have "undone (fr_arbiter f) r = {}"
    using quiet ok arbiter_okD(6) [of "fr_arbiter f" r] by (simp add: front_ok_def automated_def undone_finite)
  moreover have "j = i \<and> l = frame_lease frame" if "assertController now' r j l ?s = Inr w" for now' j l w
    using assert_controller_stream [OF s v] assert_controller_stream [OF s that] by auto
  ultimately show ?thesis by blast
qed

text \<open> C22. A run has at most four viewers, no viewer twice, and at most one of them holds a lease.\<close>

theorem terminal_viewers_bounded:
  assumes "front_step\<^sup>*\<^sup>* front0 f" and "run_control_of (fr_terminals f) r = Some c"
  shows "length (rc_viewers c) \<le> maxViewers \<and> distinct (map vw_viewerId (rc_viewers c)) \<and>
    count_where (\<lambda>v. vw_lease v \<noteq> None) (rc_viewers c) \<le> 1"
proof -
  have "front_ok f" by (rule front.steps_inv [OF assms(1) front0_ok])
  then have ok: "run_ok r c" using assms(2) by (simp add: front_ok_def terminals_ok_def)
  have "count_where (\<lambda>v. vw_lease v \<noteq> None) (rc_viewers c) \<le> 1"
  proof (cases "rc_controller c")
    case None
    then have "count_where (\<lambda>v. vw_lease v \<noteq> None) (rc_viewers c) = 0" using ok by (simp add: run_ok_def count_where_0)
    then show ?thesis by simp
  next
    case (Some i)
    then have "filter (\<lambda>v. vw_lease v \<noteq> None) (rc_viewers c) = filter (\<lambda>v. vw_streamId v = i) (rc_viewers c)"
    proof (intro filter_cong refl)
      fix v assume "v \<in> set (rc_viewers c)"
      then have "(vw_role v = Controller \<longleftrightarrow> rc_controller c = Some (vw_streamId v)) \<and> (vw_lease v \<noteq> None \<longleftrightarrow> vw_role v = Controller)"
        using ok unfolding run_ok_def by blast
      then show "vw_lease v \<noteq> None \<longleftrightarrow> vw_streamId v = i" using Some by auto
    qed
    moreover have "count_where (\<lambda>v. vw_streamId v = i) (rc_viewers c) \<le> 1"
      by (rule count_where_le_1 [of vw_streamId]) (use ok in \<open>simp_all add: run_ok_def\<close>)
    ultimately show ?thesis by (simp add: count_where_def)
  qed
  then show ?thesis using ok by (simp add: run_ok_def)
qed


subsection \<open>Taking over\<close>

lemma find_where_filter: "find_where (\<lambda>v. g v = i) (filter (\<lambda>w. g w \<noteq> p) xs) = (if i = p then None else find_where (\<lambda>v. g v = i) xs)"
  by (induction xs) auto

lemma viewer_of_without: "viewer_of (without_viewer p c) i = (if i = p then None else viewer_of c i)"
  by (simp add: viewer_of_def without_viewer_def find_where_filter)

lemma viewer_of_set: "(\<And>v. vw_streamId (g v) = vw_streamId v) \<Longrightarrow>
    viewer_of (set_viewer p g c) i = (if i = p then map_option g (viewer_of c i) else viewer_of c i)"
  using find_where_key_update [of vw_streamId g p "rc_viewers c"]
    find_where_key_update_other [of vw_streamId g i p "rc_viewers c"]
  by (auto simp: viewer_of_def set_viewer_def)

lemma granted:
  assumes ok: "terminals_ok s" and c: "run_control_of s r = Some c" and v: "viewer_of c i = Some v"
  shows "\<exists>d. run_control_of (grant_lease r i l takeover now s) r = Some d \<and> rc_controller d = Some i \<and>
    (\<exists>k. viewer_of d i = Some (v\<lparr>vw_role := Controller, vw_lease := Some k\<rparr>) \<and> tl_id k = l \<and> tl_expiresAt k = now + leaseMs) \<and>
    (\<forall>p. controlling_viewer c = Some p \<longrightarrow> vw_streamId p \<noteq> i \<longrightarrow> viewer_of d (vw_streamId p) = None)"
proof -
  define s1 where "s1 = (if takeover then emit_effect (Takeover_notice r) s else s)"
  have ok1: "terminals_ok s1" and c1: "run_control_of s1 r = Some c" using ok c by (simp_all add: s1_def)
  have taken: "run_control_of (take_control r i l takeover now u) r = Some ((set_viewer i
        (\<lambda>v. v\<lparr>vw_role := Controller, vw_lease := Some (new_lease l now e v)\<rparr>) e)\<lparr>rc_controller := Some i\<rparr>)"
    if "run_control_of u r = Some e" for u e using that by (simp add: take_control_def)
  have vc: "viewer_of (x\<lparr>rc_controller := y\<rparr>) j = viewer_of x j" for x y j by (simp add: viewer_of_def)
  show ?thesis
  proof (cases "case controlling_viewer c of None \<Rightarrow> True | Some p \<Rightarrow> vw_streamId p = i")
    case True
    then have "grant_lease r i l takeover now s = take_control r i l takeover now s1"
      using c1 by (auto simp: grant_lease_def Let_def simp flip: s1_def split: option.splits)
    then show ?thesis using taken [OF c1] v True
      by (auto simp: vc viewer_of_set new_lease_def split: option.splits)
  next
    case False
    then obtain p where p: "controlling_viewer c = Some p" "vw_streamId p \<noteq> i" by (auto split: option.splits)
    define s2 where "s2 = close_viewer r (vw_streamId p) 4001 ''terminal_controller_taken_over''
        (put_control r (set_viewer (vw_streamId p) step_down c) s1)"
    have c2: "run_control_of s2 r = Some (without_viewer (vw_streamId p) (set_viewer (vw_streamId p) step_down c))"
      unfolding s2_def by (rule closed_controller(2) [OF ok1 c1 p(1)])
    have "grant_lease r i l takeover now s = take_control r i l takeover now s2"
      using c1 p by (simp add: grant_lease_def Let_def s2_def flip: s1_def)
    then show ?thesis using taken [OF c2] v p
      by (auto simp: vc viewer_of_set viewer_of_without new_lease_def)
  qed
qed

text \<open> C21. A takeover that succeeds gives its viewer the only lease at once, whoever held it before; the previous
  controller is no longer a viewer of the run.\<close>

theorem takeover_moves_control:
  assumes "front_step\<^sup>*\<^sup>* front0 f" and "control_takeover now l r i e (fr_terminals f) = Inr t"
  shows "(\<exists>v. assertController now r i l t = Inr v) \<and> hasController now r t \<and>
    (\<forall>c p. run_control_of (fr_terminals f) r = Some c \<longrightarrow> controlling_viewer c = Some p \<longrightarrow> vw_streamId p \<noteq> i \<longrightarrow>
       live_viewer r (vw_streamId p) t = Inl (DomainError ''terminal_stream_inactive'' 409))"
proof -
  let ?s = "fr_terminals f"
  have "front_ok f" by (rule front.steps_inv [OF assms(1) front0_ok])
  then have ok: "terminals_ok ?s" by (simp add: front_ok_def)
  obtain c v where c: "run_control_of ?s r = Some c" "viewer_of c i = Some v" and t: "t = grant_lease r i l True now ?s"
    using assms(2) by (auto simp: control_takeover_def rbind_eq_Inr live_viewer_Inr split: if_splits)
  obtain d k where d: "run_control_of t r = Some d" "rc_controller d = Some i"
    "viewer_of d i = Some (v\<lparr>vw_role := Controller, vw_lease := Some k\<rparr>)" "tl_id k = l" "tl_expiresAt k = now + leaseMs"
    and gone: "\<And>p. controlling_viewer c = Some p \<Longrightarrow> vw_streamId p \<noteq> i \<Longrightarrow> viewer_of d (vw_streamId p) = None"
    using granted [OF ok c, of l True now] unfolding t by blast
  have live: "live_viewer r j t = (case viewer_of d j of None \<Rightarrow> Inl (DomainError ''terminal_stream_inactive'' 409)
      | Some v \<Rightarrow> Inr (d, v))" for j by (simp add: live_viewer_def d(1))
  have "assertController now r i l t = Inr (v\<lparr>vw_role := Controller, vw_lease := Some k\<rparr>)"
    using d by (simp add: assertController_def live leaseMs_def)
  moreover have "hasController now r t"
    using d by (simp add: hasController_def controlling_viewer_def leaseMs_def)
  ultimately show ?thesis using gone c(1) by (simp add: live)
qed

subsection \<open>Witnesses\<close>

definition console_run :: run where
  "console_run = \<lparr>r_id = ''run'', r_owner = MemberRun ''g'' ''m'', r_agentProfileId = ''p'',
     r_checkoutId = None, r_resolvedWorkingDirectory = None, r_generation = 1, r_status = Rs_running,
     r_desiredState = Ds_running, r_recoveryPhase = Rp_idle, r_recoveryAttempts = 0,
     r_recoveryNotBefore = None, r_recoveryReason = None, r_launchKind = Lk_fresh,
     r_requestedModel = None, r_requestedModelSource = Ms_provider_default, r_effectiveModel = None,
     r_nativeSessionId = None, r_recoveryOutcome = None,
     r_terminal = Some \<lparr>tb_serverName = ''s'', tb_sessionId = ''i'', tb_windowId = ''w'', tb_paneId = ''p''\<rparr>,
     r_startedAt = 0, r_stoppedAt = None\<rparr>"

definition console_input :: "string \<Rightarrow> terminal_role \<Rightarrow> connect_input" where
  "console_input v role = \<lparr>ci_runId = ''run'', ci_runGeneration = 1, ci_viewerId = v, ci_requestedRole = role, ci_takeover = False\<rparr>"

text \<open>A controller and an observer of one run.\<close>

definition console :: terminals where
  "console = fst (control_connect 6 ''s2'' ''l2'' (console_input ''v2'' Observer)
     (fst (control_connect 5 ''s1'' ''l1'' (console_input ''v1'' Controller)
       (projr (control_register console_run \<lparr>tm_runs = [], tm_effects = []\<rparr>)))))"

definition console_front :: front where
  "console_front = \<lparr>fr_terminals = console, fr_arbiter = arbiter0\<rparr>"

lemma console_reachable: "front_step\<^sup>*\<^sup>* front0 console_front"
proof -
  define t0 where "t0 = projr (control_register console_run \<lparr>tm_runs = [], tm_effects = []\<rparr>)"
  define t1 where "t1 = fst (control_connect 5 ''s1'' ''l1'' (console_input ''v1'' Controller) t0)"
  have t0: "t0 = \<lparr>tm_runs = [(''run'', \<lparr>rc_run = console_run, rc_streamGeneration = 1, rc_viewers = [], rc_controller = None\<rparr>)],
      tm_effects = []\<rparr>"
    by (simp add: t0_def control_register_def console_run_def run_control_of_def put_control_def)
  have reg: "control_register console_run (fr_terminals front0) = Inr t0"
    by (simp add: t0 control_register_def console_run_def run_control_of_def put_control_def front0_def)
  have k0: "known_streams t0 = {}" by (auto simp: known_streams_def t0 run_control_of_def split: if_splits)
  have "map_option (map vw_streamId \<circ> rc_viewers) (run_control_of t1 ''run'') = Some [''s1'']" and "map fst (tm_runs t1) = [''run'']"
    unfolding t1_def t0_def by code_simp+
  then have k1: "known_streams t1 \<subseteq> {''s1''}"
    by (cases "tm_runs t1") (auto simp: known_streams_def run_control_of_def split: if_splits)
  let ?f = "\<lambda>t. front0\<lparr>fr_terminals := t\<rparr>"
  have "front_step front0 (?f t0)" using reg by (rule register_run)
  moreover have "front_step (?f t0) (?f t0\<lparr>fr_terminals := t1\<rparr>)"
    by (rule connect_viewer [of 5 "''s1''" "''l1''" "console_input ''v1'' Controller" _ _
        "snd (control_connect 5 ''s1'' ''l1'' (console_input ''v1'' Controller) t0)"]) (simp_all add: t1_def k0)
  then have "front_step (?f t0) (?f t1)" by simp
  moreover have "front_step (?f t1) (?f t1\<lparr>fr_terminals := console\<rparr>)"
    by (rule connect_viewer [of 6 "''s2''" "''l2''" "console_input ''v2'' Observer" _ _
        "snd (control_connect 6 ''s2'' ''l2'' (console_input ''v2'' Observer) t1)"])
      (use k1 in \<open>auto simp: console_def t1_def t0_def\<close>)
  then have "front_step (?f t1) (?f console)" by simp
  ultimately have "front_step\<^sup>*\<^sup>* front0 (?f console)"
    by (rule rtranclp.rtrancl_into_rtrancl [OF rtranclp.rtrancl_into_rtrancl [OF r_into_rtranclp]])
  then show ?thesis by (simp add: front0_def console_front_def)
qed



lemma one_terminal_writer_witness: "undone (fr_arbiter console_front) ''run'' = {}"
proof -
  let ?out = "dispatch_input 7 (fr_arbiter console_front) ''run'' ''s1'' (Frame_focus ''l1'' True) (fr_terminals console_front)"
  have "?out = Inr (projr ?out)" by code_simp
  from one_terminal_writer [OF console_reachable this] show ?thesis by blast
qed

lemma terminal_viewers_bounded_witness: "length (rc_viewers (the (run_control_of console ''run''))) \<le> maxViewers"
proof -
  have "run_control_of console ''run'' \<noteq> None" by code_simp
  then have "run_control_of (fr_terminals console_front) ''run'' = Some (the (run_control_of console ''run''))"
    by (simp add: console_front_def)
  from terminal_viewers_bounded [OF console_reachable this] show ?thesis by blast
qed

lemma takeover_moves_control_witness:
  "hasController 8 ''run'' (projr (control_takeover 8 ''l3'' ''run'' ''s2'' (Some ''l1'') console))"
proof -
  have "control_takeover 8 ''l3'' ''run'' ''s2'' (Some ''l1'') (fr_terminals console_front) =
      Inr (projr (control_takeover 8 ''l3'' ''run'' ''s2'' (Some ''l1'') console))"
    unfolding console_front_def by code_simp
  from takeover_moves_control [OF console_reachable this] show ?thesis by blast
qed

definition busy_arbiter :: arbiter where
  "busy_arbiter = set_phase 0 Op_running (dispatchAutomated ''run'' (dispatchAutomated ''run'' arbiter0))"

lemma automated_input_in_order_witness: "undone busy_arbiter ''run'' \<noteq> {} \<and> automated busy_arbiter ''run''"
proof -
  let ?a = "dispatchAutomated ''run'' (dispatchAutomated ''run'' arbiter0)"
  note arb = dispatchAutomated_def incrementPending_def pending_count_def arbiter0_def
  have "op_ready ?a 0" by (simp add: op_ready_def arb)
  then have "arbiter_step ?a busy_arbiter" unfolding busy_arbiter_def by (rule start_op)
  moreover have "arbiter_step arbiter0 (dispatchAutomated ''run'' arbiter0)" by (rule submit_op)
  moreover have "arbiter_step (dispatchAutomated ''run'' arbiter0) ?a" by (rule submit_op)
  ultimately have "arbiter_step\<^sup>*\<^sup>* arbiter0 busy_arbiter"
    by (meson rtranclp.rtrancl_into_rtrancl r_into_rtranclp)
  from automated_input_in_order [OF this, of "''run''"] have "automated busy_arbiter ''run'' \<longleftrightarrow> undone busy_arbiter ''run'' \<noteq> {}"
    by blast
  moreover have "automated busy_arbiter ''run''" by (simp add: automated_def busy_arbiter_def set_phase_def arb)
  ultimately show ?thesis by blast
qed

end
