(* ===== verification/Foreman_Types.thy ===== *)
theory Foreman_Types
  imports Topology_Services Action_Retirement
begin

text \<open>
  The records of the goal service (\<open>apps/daemon/src/foreman-goal-service.ts\<close>) with their schemas
  (\<open>packages/contracts/src/delegation.ts\<close> and the autonomy policy of \<open>config.ts\<close>): goals, team
  delegations, reports and human decisions, the commands that make them, and the state the service keeps.

  What the service reads of the rest of the daemon at the moment of a call is a \<open>site\<close>: the store, the
  configuration, the checkouts git reported, who controls a terminal, the clock, and the answers of the
  file system and of services outside this model. Texts shown to people or to a model (summaries of
  notifications, prompts of the inbox) are left out.
\<close>

subsection \<open>Policy\<close>

datatype autonomy_mode = Supervised | Bounded
datatype approval_mode = Human_approval | Autonomous_approval

record grant =
  gr_mode :: autonomy_mode
  gr_approvalMode :: approval_mode
  gr_maxActiveGoals :: nat
  gr_maxTeamsPerGoal :: nat
  gr_maxConcurrentActions :: nat
  gr_maxGoalHours :: nat
  gr_maxForemanTurns :: nat
  gr_maxLines :: nat
  gr_maxBytes :: nat
  gr_idlePrompt :: bool
  gr_maxPerIncident :: nat
  gr_restartDelegatedAgents :: bool
  gr_maxAttemptsPerIncident :: nat
  gr_maxAttemptsPerGoal :: nat
  gr_cooldownSeconds :: nat

definition between :: "nat \<Rightarrow> nat \<Rightarrow> nat \<Rightarrow> bool" where
  "between lo hi n \<longleftrightarrow> lo \<le> n \<and> n \<le> hi"

definition grant_schema_ok :: "grant \<Rightarrow> bool" where
  "grant_schema_ok g \<longleftrightarrow>
     between 1 16 (gr_maxActiveGoals g) \<and> between 1 16 (gr_maxTeamsPerGoal g) \<and>
     between 1 32 (gr_maxConcurrentActions g) \<and> between 1 168 (gr_maxGoalHours g) \<and>
     between 1 10000 (gr_maxForemanTurns g) \<and> between 1 5000 (gr_maxLines g) \<and>
     between 1 65536 (gr_maxBytes g) \<and> gr_maxPerIncident g \<le> 5 \<and>
     gr_maxAttemptsPerIncident g \<le> 5 \<and> gr_maxAttemptsPerGoal g \<le> 30 \<and>
     between 30 86400 (gr_cooldownSeconds g)"

record foreman_config =
  fc_id :: string
  fc_enabled :: bool
  fc_reviewIntervalSeconds :: nat
  fc_autonomy :: grant

subsection \<open>Goals\<close>

datatype goal_state =
  Gs_proposed | Gs_running | Gs_paused | Gs_blocked | Gs_awaiting_acceptance | Gs_completed | Gs_cancelled

datatype origin_source = Og_foreman_run | Og_foreman_integration | Og_repository_root

record request_origin =
  og_repositoryId :: string
  og_checkoutId :: string
  og_workingDirectory :: string
  og_source :: origin_source

record propose_command =
  pc_requestId :: string
  pc_title :: string
  pc_objective :: string
  pc_constraints :: "string list"
  pc_sourceMessageId :: "string option"
  pc_sourceConversationIds :: "string list option"

record goal =
  gl_id :: string
  gl_command :: propose_command
  gl_requestOrigin :: "request_origin option"
  gl_sourceText :: "string option"
  gl_foremanId :: string
  gl_state :: goal_state
  gl_revision :: nat
  gl_grant :: grant
  gl_turnsUsed :: nat
  gl_expiresAt :: timestamp
  gl_createdAt :: timestamp
  gl_updatedAt :: timestamp

text \<open>\<open>TextSchema\<close> of the contracts, and a list of parsed fields.\<close>

definition parse_long_text :: "string \<Rightarrow> string result" where
  "parse_long_text = parse_text 16384"

fun parse_list :: "('a \<Rightarrow> 'b result) \<Rightarrow> 'a list \<Rightarrow> 'b list result" where
  "parse_list p [] = Inr []"
| "parse_list p (x # xs) = rbind (p x) (\<lambda>y. rbind (parse_list p xs) (\<lambda>ys. Inr (y # ys)))"

definition bounded_list :: "nat \<Rightarrow> ('a \<Rightarrow> 'b result) \<Rightarrow> 'a list \<Rightarrow> 'b list result" where
  "bounded_list n p xs = guarded (length xs \<le> n) (parse_list p xs)"

definition parse_propose :: "propose_command \<Rightarrow> propose_command result" where
  "parse_propose c =
     rbind (parse_identifier (pc_requestId c)) (\<lambda>requestId.
     rbind (parse_text 160 (pc_title c)) (\<lambda>title.
     rbind (parse_long_text (pc_objective c)) (\<lambda>objective.
     rbind (bounded_list 32 (parse_text 2000) (pc_constraints c)) (\<lambda>constraints.
     rbind (parse_opt parse_identifier (pc_sourceMessageId c)) (\<lambda>sourceMessageId.
     rbind (parse_opt (bounded_list 16 parse_identifier) (pc_sourceConversationIds c)) (\<lambda>conversations.
       Inr \<lparr>pc_requestId = requestId, pc_title = title, pc_objective = objective,
         pc_constraints = constraints, pc_sourceMessageId = sourceMessageId,
         pc_sourceConversationIds = conversations\<rparr>))))))"

datatype goal_action = Ga_approve | Ga_pause | Ga_resume | Ga_cancel | Ga_accept

record control_command =
  ct_id :: string
  ct_expectedRevision :: nat
  ct_action :: goal_action

definition parse_control :: "control_command \<Rightarrow> control_command result" where
  "parse_control c = rbind (parse_identifier (ct_id c)) (\<lambda>i. Inr (c\<lparr>ct_id := i\<rparr>))"

subsection \<open>Delegations\<close>

datatype delegation_state =
  Dg_proposed | Dg_queued | Dg_offered | Dg_accepted | Dg_working | Dg_blocked | Dg_ready
| Dg_completed | Dg_cancelled

record delegate_command =
  dlc_requestId :: string
  dlc_goalId :: string
  dlc_expectedRevision :: nat
  dlc_groupId :: string
  dlc_memberId :: string
  dlc_expectedMembershipRevision :: nat
  dlc_expectedCheckoutRevision :: nat
  dlc_rationale :: string
  dlc_brief :: string

record delegation =
  dl_id :: string
  dl_command :: delegate_command
  dl_state :: delegation_state
  dl_revision :: nat
  dl_checkoutId :: string
  dl_actionId :: "string option"
  dl_runId :: "string option"
  dl_generation :: "nat option"
  dl_nextCheckAt :: timestamp
  dl_lastReportAt :: "timestamp option"
  dl_createdAt :: timestamp
  dl_updatedAt :: timestamp

abbreviation "dl_goalId d \<equiv> dlc_goalId (dl_command d)"
abbreviation "dl_groupId d \<equiv> dlc_groupId (dl_command d)"
abbreviation "dl_memberId d \<equiv> dlc_memberId (dl_command d)"

definition parse_delegate :: "delegate_command \<Rightarrow> delegate_command result" where
  "parse_delegate c =
     rbind (parse_identifier (dlc_requestId c)) (\<lambda>requestId.
     rbind (parse_identifier (dlc_goalId c)) (\<lambda>goalId.
     rbind (parse_identifier (dlc_groupId c)) (\<lambda>groupId.
     rbind (parse_identifier (dlc_memberId c)) (\<lambda>memberId.
     rbind (parse_text 2000 (dlc_rationale c)) (\<lambda>rationale.
     rbind (parse_long_text (dlc_brief c)) (\<lambda>brief.
       Inr (c\<lparr>dlc_requestId := requestId, dlc_goalId := goalId, dlc_groupId := groupId,
         dlc_memberId := memberId, dlc_rationale := rationale, dlc_brief := brief\<rparr>)))))))"

subsection \<open>Reports\<close>

datatype report_kind = Rk_accepted | Rk_progress | Rk_blocked | Rk_plan | Rk_review | Rk_ready
datatype review_outcome = Rv_approved | Rv_changes_required

record report_command =
  rpc_requestId :: string
  rpc_delegationId :: string
  rpc_kind :: report_kind
  rpc_reviewOutcome :: "review_outcome option"
  rpc_summary :: string
  rpc_evidence :: "string list"
  rpc_candidateHead :: "string option"
  rpc_candidatePath :: "string option"
  rpc_nextCheckSeconds :: nat

record report =
  rt_id :: string
  rt_command :: report_command
  rt_candidateDigest :: "string option"
  rt_memberId :: string
  rt_runId :: string
  rt_generation :: nat
  rt_createdAt :: timestamp

abbreviation "rt_delegationId r \<equiv> rpc_delegationId (rt_command r)"
abbreviation "rt_kind r \<equiv> rpc_kind (rt_command r)"
abbreviation "rt_candidateHead r \<equiv> rpc_candidateHead (rt_command r)"
abbreviation "rt_candidatePath r \<equiv> rpc_candidatePath (rt_command r)"

definition commit_hash :: "string \<Rightarrow> bool" where
  "commit_hash s \<longleftrightarrow> (length s = 40 \<or> length s = 64) \<and> list_all hex_char s"

definition parse_report :: "report_command \<Rightarrow> report_command result" where
  "parse_report c =
     rbind (parse_identifier (rpc_requestId c)) (\<lambda>requestId.
     rbind (parse_identifier (rpc_delegationId c)) (\<lambda>delegationId.
     rbind (parse_long_text (rpc_summary c)) (\<lambda>summary.
     rbind (bounded_list 32 (parse_text 2000) (rpc_evidence c)) (\<lambda>evidence.
     rbind (parse_opt (parse_text 1024) (rpc_candidatePath c)) (\<lambda>candidatePath.
       guarded (pred_option commit_hash (rpc_candidateHead c) \<and>
           between 30 86400 (rpc_nextCheckSeconds c) \<and>
           (rpc_kind c = Rk_review \<longrightarrow> rpc_reviewOutcome c \<noteq> None))
         (Inr (c\<lparr>rpc_requestId := requestId, rpc_delegationId := delegationId, rpc_summary := summary,
            rpc_evidence := evidence, rpc_candidatePath := candidatePath\<rparr>)))))))"

subsection \<open>Human decisions\<close>

datatype decision_kind = Dk_question | Dk_delegation | Dk_preparation
datatype decision_state = Dn_pending | Dn_resolved | Dn_stale

record question_command =
  qc_requestId :: string
  qc_goalId :: string
  qc_delegationId :: "string option"
  qc_question :: string
  qc_options :: "string list"
  qc_recommendation :: "string option"
  qc_blocking :: bool

record decision =
  dn_id :: string
  dn_command :: question_command
  dn_kind :: decision_kind
  dn_state :: decision_state
  dn_revision :: nat
  dn_goalRevision :: nat
  dn_answer :: "string option"
  dn_decidedBy :: "string option"
  dn_createdAt :: timestamp
  dn_resolvedAt :: "timestamp option"

abbreviation "dn_goalId d \<equiv> qc_goalId (dn_command d)"
abbreviation "dn_delegationId d \<equiv> qc_delegationId (dn_command d)"

definition parse_question :: "question_command \<Rightarrow> question_command result" where
  "parse_question c =
     rbind (parse_identifier (qc_requestId c)) (\<lambda>requestId.
     rbind (parse_identifier (qc_goalId c)) (\<lambda>goalId.
     rbind (parse_opt parse_identifier (qc_delegationId c)) (\<lambda>delegationId.
     rbind (parse_long_text (qc_question c)) (\<lambda>question.
     rbind (bounded_list 12 (parse_text 1000) (qc_options c)) (\<lambda>options.
     rbind (parse_opt (parse_text 2000) (qc_recommendation c)) (\<lambda>recommendation.
       Inr (c\<lparr>qc_requestId := requestId, qc_goalId := goalId, qc_delegationId := delegationId,
         qc_question := question, qc_options := options, qc_recommendation := recommendation\<rparr>)))))))"

record resolve_command =
  rv_id :: string
  rv_expectedRevision :: nat
  rv_requestId :: string
  rv_answer :: string

definition parse_resolve :: "resolve_command \<Rightarrow> resolve_command result" where
  "parse_resolve c =
     rbind (parse_identifier (rv_id c)) (\<lambda>i.
     rbind (parse_identifier (rv_requestId c)) (\<lambda>requestId.
     rbind (parse_long_text (rv_answer c)) (\<lambda>answer.
       Inr (c\<lparr>rv_id := i, rv_requestId := requestId, rv_answer := answer\<rparr>))))"

record check_in_command =
  cki_delegationId :: string
  cki_requestId :: string
  cki_expectedRunId :: string
  cki_expectedGeneration :: nat
  cki_expectedStatusRevision :: nat
  cki_text :: string

definition parse_check_in :: "check_in_command \<Rightarrow> check_in_command result" where
  "parse_check_in c =
     rbind (parse_identifier (cki_delegationId c)) (\<lambda>delegationId.
     rbind (parse_identifier (cki_requestId c)) (\<lambda>requestId.
     rbind (parse_identifier (cki_expectedRunId c)) (\<lambda>expectedRunId.
     rbind (parse_text 2000 (cki_text c)) (\<lambda>t.
       guarded (0 < cki_expectedGeneration c)
         (Inr (c\<lparr>cki_delegationId := delegationId, cki_requestId := requestId,
            cki_expectedRunId := expectedRunId, cki_text := t\<rparr>))))))"

subsection \<open>The schema of a stored goal\<close>

text \<open>\<open>ForemanGoalSchema.safeParse\<close> succeeds on the value a parse of its command returned.\<close>

definition relative_directory :: "string \<Rightarrow> bool" where
  "relative_directory p \<longleftrightarrow>
     p = ''.'' \<or>
     (\<not> (case p of a # b # _ \<Rightarrow> ascii_letter a \<and> b = CHR '':'' | _ \<Rightarrow> False) \<and>
      CHR 0x5C \<notin> set p \<and> CHR 0x00 \<notin> set p \<and>
      list_all (\<lambda>part. part \<noteq> [] \<and> part \<noteq> ''.'' \<and> part \<noteq> ''..'') (split_on (CHR ''/'') p))"

definition origin_schema_ok :: "request_origin \<Rightarrow> bool" where
  "origin_schema_ok o' \<longleftrightarrow>
     parse_identifier (og_repositoryId o') = Inr (og_repositoryId o') \<and>
     parse_identifier (og_checkoutId o') = Inr (og_checkoutId o') \<and>
     between 1 4096 (length (og_workingDirectory o')) \<and> relative_directory (og_workingDirectory o')"

definition goal_schema_ok :: "goal \<Rightarrow> bool" where
  "goal_schema_ok g \<longleftrightarrow>
     parse_propose (gl_command g) = Inr (gl_command g) \<and>
     parse_identifier (gl_id g) = Inr (gl_id g) \<and>
     parse_identifier (gl_foremanId g) = Inr (gl_foremanId g) \<and>
     pred_option origin_schema_ok (gl_requestOrigin g) \<and> grant_schema_ok (gl_grant g)"

end
