(* ===== verification/Foreman_Teams.thy ===== *)
theory Foreman_Teams
  imports Foreman_Types
begin

text \<open>
  The state of the goal service and what it reads of the rest of the daemon: its coordination records, who
  speaks with authority, and which team may take or keep an assignment. The records live in one table with
  a kind, here one list of rows per kind in row order; a row keeps the key and the digest of the request
  that made it.
\<close>

subsection \<open>State\<close>

record 'v coord_row =
  cr_value :: 'v
  cr_key :: "string option"
  cr_digest :: "string option"

datatype inbox_state = Ib_queued | Ib_writing | Ib_submitted | Ib_answered | Ib_ambiguous | Ib_cancelled

record inbox_row =
  ib_id :: string
  ib_messageId :: "string option"
  ib_dedupeKey :: string
  ib_state :: inbox_state
  ib_createdAt :: timestamp
  ib_updatedAt :: timestamp

datatype note_kind = Nk_goal | Nk_decision | Nk_report | Nk_health | Nk_control

record notice =
  nt_sequence :: nat
  nt_key :: string
  nt_kind :: note_kind
  nt_goalId :: "string option"
  nt_delegationId :: "string option"
  nt_decisionId :: "string option"
  nt_createdAt :: timestamp

record recovery_row =
  rw_delegationId :: string
  rw_memberId :: string
  rw_attempts :: nat
  rw_lastRunId :: string
  rw_nextAllowedAt :: timestamp

record goals_db =
  gs_goals :: "goal coord_row list"
  gs_delegations :: "delegation coord_row list"
  gs_reports :: "report coord_row list"
  gs_decisions :: "decision coord_row list"
  gs_inbox :: "inbox_row list"
  gs_notes :: "notice list"
  gs_noteSeq :: nat
  gs_cursors :: "(string \<times> nat) list"
  gs_links :: "(string \<times> string) list"
  gs_recovery :: "recovery_row list"
  gs_audits :: "(string \<times> string \<times> string) list"
  gs_removed :: "string list"

definition goals0 :: goals_db where
  "goals0 = \<lparr>gs_goals = [], gs_delegations = [], gs_reports = [], gs_decisions = [], gs_inbox = [],
     gs_notes = [], gs_noteSeq = 0, gs_cursors = [], gs_links = [], gs_recovery = [], gs_audits = [], gs_removed = []\<rparr>"

subsection \<open>What the service reads\<close>

record checkout =
  co_id :: string
  co_repositoryId :: string
  co_bare :: bool
  co_head :: "string option"
  co_dirty :: bool

datatype preparation_phase =
  Pp_waiting | Pp_needs_approval | Pp_preparing | Pp_stopping | Pp_assigning | Pp_starting | Pp_ready
| Pp_delegating | Pp_delegated | Pp_held | Pp_cancelled | Pp_expired

record preparation =
  pr_id :: string
  pr_phase :: preparation_phase
  pr_decisionId :: "string option"
  pr_goalId :: string
  pr_groupId :: string
  pr_memberId :: string
  pr_brief :: string
  pr_checkoutId :: "string option"

datatype request_input =
    In_goal propose_command
  | In_delegate delegate_command
  | In_report report_command
  | In_question question_command

text \<open>
  \<open>si_groupCheckout\<close> and \<open>si_checkoutRevision\<close> are two columns of the groups; \<open>si_primaryCheckout\<close> is the
  primary checkout of the oldest repository; \<open>si_snapshot\<close> says whether the portal snapshot can be read.
  \<open>si_candidate\<close> is the digest of the files at a path of a checkout, \<open>si_origin\<close> and \<open>si_escapes\<close> resolve
  paths, \<open>si_sha\<close> hashes. \<open>si_operatorText\<close> and \<open>si_conversationOwner\<close> read the Foreman channel, and the
  \<open>si_prep\<close> fields ask the preparation service.
\<close>

record site =
  si_db :: db
  si_foreman :: "foreman_config option"
  si_checkouts :: "checkout list"
  si_primaryCheckout :: "string option"
  si_groupCheckout :: "string \<Rightarrow> string option"
  si_checkoutRevision :: "string \<Rightarrow> nat"
  si_snapshot :: "unit result"
  si_controlled :: "string \<Rightarrow> bool"
  si_candidate :: "string \<Rightarrow> string \<Rightarrow> request_origin option \<Rightarrow> string result"
  si_origin :: "bool \<Rightarrow> request_origin option result"
  si_escapes :: "request_origin \<Rightarrow> string \<Rightarrow> unit result"
  si_sha :: "request_input \<Rightarrow> string"
  si_operatorText :: "string \<Rightarrow> string option"
  si_conversationOwner :: "string \<Rightarrow> string option"
  si_prepPlan :: "string \<Rightarrow> preparation option"
  si_prepList :: "string \<Rightarrow> preparation list"
  si_prepRecovery :: "string \<Rightarrow> string \<Rightarrow> bool option"
  si_now :: timestamp

subsection \<open>Coordination records\<close>

definition goal_conflict :: error where
  "goal_conflict = DomainError ''foreman_goal_conflict'' 409"

text \<open>\<open>check p e\<close> is an \<open>if\<close> that fails with \<open>e\<close> unless \<open>p\<close>.\<close>

definition check :: "bool \<Rightarrow> error \<Rightarrow> unit result" where
  "check p e = (if p then Inr () else Inl e)"

lemma check_Inr [simp]: "check p e = Inr u \<longleftrightarrow> p"
  by (simp add: check_def)

definition coord_get :: "('v \<Rightarrow> string) \<Rightarrow> string \<Rightarrow> 'v coord_row list \<Rightarrow> 'v result" where
  "coord_get idf i rs =
     require (DomainError ''foreman_goal_not_found'' 404)
       (map_option cr_value (find_where (\<lambda>r. idf (cr_value r) = i) rs))"

definition coord_save ::
  "('v \<Rightarrow> string) \<Rightarrow> 'v \<Rightarrow> string option \<Rightarrow> string option \<Rightarrow> 'v coord_row list \<Rightarrow> 'v coord_row list" where
  "coord_save idf v key digest rs =
     (if list_ex (\<lambda>r. idf (cr_value r) = idf v) rs
      then update_where (\<lambda>r. idf (cr_value r) = idf v) (\<lambda>r. r\<lparr>cr_value := v\<rparr>) rs
      else rs @ [\<lparr>cr_value = v, cr_key = key, cr_digest = digest\<rparr>])"

text \<open>The prefix of a request key names the kind of its record, so a key is looked up in its own list.\<close>

definition coord_existing :: "string \<Rightarrow> string \<Rightarrow> 'v coord_row list \<Rightarrow> 'v option result" where
  "coord_existing key digest rs =
     (case find_where (\<lambda>r. cr_key r = Some key) rs of
        None \<Rightarrow> Inr None
      | Some r \<Rightarrow> if cr_digest r \<noteq> Some digest then Inl goal_conflict else Inr (Some (cr_value r)))"

abbreviation goals_of :: "goals_db \<Rightarrow> goal list" where "goals_of s \<equiv> map cr_value (gs_goals s)"
abbreviation delegations :: "goals_db \<Rightarrow> delegation list" where "delegations s \<equiv> map cr_value (gs_delegations s)"
abbreviation reports_of :: "goals_db \<Rightarrow> report list" where "reports_of s \<equiv> map cr_value (gs_reports s)"
abbreviation decisions_of :: "goals_db \<Rightarrow> decision list" where "decisions_of s \<equiv> map cr_value (gs_decisions s)"

definition save_goal :: "goal \<Rightarrow> goals_db \<Rightarrow> goals_db" where
  "save_goal g s = s\<lparr>gs_goals := coord_save gl_id g None None (gs_goals s)\<rparr>"

definition save_delegation :: "delegation \<Rightarrow> goals_db \<Rightarrow> goals_db" where
  "save_delegation d s = s\<lparr>gs_delegations := coord_save dl_id d None None (gs_delegations s)\<rparr>"

definition save_decision :: "decision \<Rightarrow> goals_db \<Rightarrow> goals_db" where
  "save_decision d s = s\<lparr>gs_decisions := coord_save dn_id d None None (gs_decisions s)\<rparr>"

definition notify ::
  "site \<Rightarrow> string \<Rightarrow> note_kind \<Rightarrow> string option \<Rightarrow> string option \<Rightarrow> string option \<Rightarrow> goals_db \<Rightarrow> goals_db" where
  "notify si key kind goalId delegationId decisionId s =
     (if list_ex (\<lambda>n. nt_key n = key) (gs_notes s) then s
      else s\<lparr>gs_noteSeq := gs_noteSeq s + 1,
             gs_notes := gs_notes s @ [\<lparr>nt_sequence = gs_noteSeq s + 1, nt_key = key, nt_kind = kind,
               nt_goalId = goalId, nt_delegationId = delegationId, nt_decisionId = decisionId,
               nt_createdAt = si_now si\<rparr>]\<rparr>)"

text \<open>\<open>notifications\<close>: the page after a sequence number, the next cursor, and whether there is more.\<close>

definition notifications :: "nat \<Rightarrow> nat \<Rightarrow> goals_db \<Rightarrow> (notice list \<times> nat \<times> bool) result" where
  "notifications after limit s =
     guarded (between 1 100 limit)
       (let rows = take (limit + 1) (filter (\<lambda>n. after < nt_sequence n) (gs_notes s));
            page = take limit rows
        in Inr (page, if page = [] then after else nt_sequence (last page), limit < length rows))"

definition cursor :: "string \<Rightarrow> goals_db \<Rightarrow> nat" where
  "cursor consumerId s = (case map_of (gs_cursors s) consumerId of None \<Rightarrow> 0 | Some n \<Rightarrow> n)"

definition acknowledge_notes :: "string \<Rightarrow> nat \<Rightarrow> goals_db \<Rightarrow> (nat \<times> goals_db) result" where
  "acknowledge_notes consumerId after s =
     (let latest = foldr max (map nt_sequence (gs_notes s)) 0;
          s1 = s\<lparr>gs_cursors := (consumerId, max (cursor consumerId s) after)
                 # filter (\<lambda>c. fst c \<noteq> consumerId) (gs_cursors s)\<rparr>
      in rbind (check (after \<le> latest) goal_conflict) (\<lambda>_. Inr (cursor consumerId s1, s1)))"

subsection \<open>Goals and their workspace\<close>

definition inactive_goal :: "goal_state \<Rightarrow> bool" where
  "inactive_goal st \<longleftrightarrow> st = Gs_completed \<or> st = Gs_cancelled"

definition inactive :: "delegation_state \<Rightarrow> bool" where
  "inactive st \<longleftrightarrow> st = Dg_completed \<or> st = Dg_cancelled"

definition validateGoal :: "goal \<Rightarrow> goal result" where
  "validateGoal g = rbind (check (goal_schema_ok g) (DomainError ''foreman_state_layout_outdated'' 409)) (\<lambda>_. Inr g)"

definition list_goals :: "bool \<Rightarrow> goals_db \<Rightarrow> goal list result" where
  "list_goals includeRemoved s =
     rbind (parse_list validateGoal (goals_of s)) (\<lambda>gs.
       Inr (filter (\<lambda>g. includeRemoved \<or> gl_id g \<notin> set (gs_removed s)) gs))"

definition get_goal :: "string \<Rightarrow> goals_db \<Rightarrow> goal result" where
  "get_goal i s = rbind (coord_get gl_id i (gs_goals s)) validateGoal"

definition get_delegation :: "string \<Rightarrow> goals_db \<Rightarrow> delegation result" where
  "get_delegation i s = coord_get dl_id i (gs_delegations s)"

fun filter_r :: "('a \<Rightarrow> bool result) \<Rightarrow> 'a list \<Rightarrow> 'a list result" where
  "filter_r p [] = Inr []"
| "filter_r p (x # xs) = rbind (p x) (\<lambda>b. rbind (filter_r p xs) (\<lambda>ys. Inr (if b then x # ys else ys)))"

text \<open>\<open>some\<close> over a predicate that may throw.\<close>

fun exists_r :: "('a \<Rightarrow> bool result) \<Rightarrow> 'a list \<Rightarrow> bool result" where
  "exists_r p [] = Inr False"
| "exists_r p (x # xs) = rbind (p x) (\<lambda>b. if b then Inr True else exists_r p xs)"

definition getCheckout :: "site \<Rightarrow> string \<Rightarrow> checkout result" where
  "getCheckout si i = require (DomainError ''checkout_not_found'' 404)
     (find_where (\<lambda>c. co_id c = i) (si_checkouts si))"

text \<open>\<open>requestContext\<close>, as the check that the text can be made.\<close>

definition requestContext :: "site \<Rightarrow> goal \<Rightarrow> string option \<Rightarrow> unit result" where
  "requestContext si g checkoutId =
     (case gl_requestOrigin g of
        None \<Rightarrow> Inr ()
      | Some og \<Rightarrow>
          rbind (getCheckout si (case checkoutId of None \<Rightarrow> og_checkoutId og | Some c \<Rightarrow> c)) (\<lambda>c.
          rbind (check (co_repositoryId c = og_repositoryId og \<and> \<not> co_bare c) goal_conflict) (\<lambda>_.
            if checkoutId = None then Inr () else si_escapes si og (co_id c))))"

record workspace =
  ws_goal :: goal
  ws_delegations :: "delegation list"
  ws_reports :: "report list"
  ws_decisions :: "decision list"

definition get_workspace :: "site \<Rightarrow> string \<Rightarrow> goals_db \<Rightarrow> workspace result" where
  "get_workspace si i s =
     rbind (get_goal i s) (\<lambda>g.
     rbind (requestContext si g None) (\<lambda>_.
     rbind (filter_r (\<lambda>r. rbind (get_delegation (rt_delegationId r) s) (\<lambda>d. Inr (dl_goalId d = i)))
              (reports_of s)) (\<lambda>reports.
       Inr \<lparr>ws_goal = g, ws_delegations = filter (\<lambda>d. dl_goalId d = i) (delegations s),
         ws_reports = reports, ws_decisions = filter (\<lambda>d. dn_goalId d = i) (decisions_of s)\<rparr>)))"

subsection \<open>Authority\<close>

record foreman_principal =
  fp_foremanId :: string
  fp_runId :: string
  fp_generation :: nat
  fp_authorityRevision :: nat

record member_principal =
  mp_groupId :: string
  mp_memberId :: string
  mp_runId :: string
  mp_generation :: nat

definition is_run :: "run option \<Rightarrow> string \<Rightarrow> nat \<Rightarrow> bool" where
  "is_run run i generation \<longleftrightarrow>
     (case run of None \<Rightarrow> False | Some r \<Rightarrow> r_id r = i \<and> r_generation r = generation)"

definition is_running_run :: "run option \<Rightarrow> string \<Rightarrow> nat \<Rightarrow> bool" where
  "is_running_run run i generation \<longleftrightarrow>
     is_run run i generation \<and> pred_option (\<lambda>r. r_desiredState r = Ds_running) run"

definition foreman_enabled :: "site \<Rightarrow> bool" where
  "foreman_enabled si \<longleftrightarrow> (case si_foreman si of None \<Rightarrow> False | Some f \<Rightarrow> fc_enabled f)"

definition assertForeman :: "site \<Rightarrow> foreman_principal \<Rightarrow> unit result" where
  "assertForeman si who =
     rbind (getForeman (si_db si) (fp_foremanId who)) (\<lambda>actor.
       check (f_enabled actor \<and> f_authorityRevision actor = fp_authorityRevision who \<and>
              is_running_run (getActiveForemanRun (si_db si) (f_id actor)) (fp_runId who) (fp_generation who) \<and>
              foreman_enabled si)
         (DomainError ''foreman_authority_revoked'' 403))"

datatype operation = Coordination | Intervention | Recovery

definition assertGoalGrantWithin :: "grant \<Rightarrow> grant \<Rightarrow> operation \<Rightarrow> unit result" where
  "assertGoalGrantWithin g ceiling operation =
     (if gr_maxActiveGoals ceiling < gr_maxActiveGoals g \<or> gr_maxTeamsPerGoal ceiling < gr_maxTeamsPerGoal g \<or>
         gr_maxConcurrentActions ceiling < gr_maxConcurrentActions g \<or>
         gr_maxGoalHours ceiling < gr_maxGoalHours g \<or> gr_maxForemanTurns ceiling < gr_maxForemanTurns g \<or>
         (gr_approvalMode g = Autonomous_approval \<and> gr_approvalMode ceiling \<noteq> Autonomous_approval) \<or>
         (operation \<noteq> Coordination \<and> gr_mode g = Bounded \<and> gr_mode ceiling \<noteq> Bounded) \<or>
         (operation = Intervention \<and>
            ((gr_idlePrompt g \<and> \<not> gr_idlePrompt ceiling) \<or> gr_maxPerIncident ceiling < gr_maxPerIncident g)) \<or>
         (operation = Recovery \<and>
            ((gr_restartDelegatedAgents g \<and> \<not> gr_restartDelegatedAgents ceiling) \<or>
             gr_maxAttemptsPerIncident ceiling < gr_maxAttemptsPerIncident g \<or>
             gr_maxAttemptsPerGoal ceiling < gr_maxAttemptsPerGoal g)) \<or>
         (operation \<noteq> Coordination \<and> gr_cooldownSeconds g < gr_cooldownSeconds ceiling)
      then Inl (DomainError ''goal_grant_exceeds_policy'' 403) else Inr ())"

text \<open>\<open>#running\<close>: the goal is running, of the configured Foreman, in time and within the policy.\<close>

definition goal_running :: "site \<Rightarrow> operation \<Rightarrow> goal \<Rightarrow> unit result" where
  "goal_running si operation g =
     (case si_foreman si of
        None \<Rightarrow> Inl goal_conflict
      | Some f \<Rightarrow>
          rbind (check (gl_state g = Gs_running \<and> fc_enabled f \<and> fc_id f = gl_foremanId g \<and>
              si_now si < gl_expiresAt g) goal_conflict) (\<lambda>_.
            assertGoalGrantWithin (gl_grant g) (fc_autonomy f) operation))"

definition automatic :: "site \<Rightarrow> goal \<Rightarrow> bool" where
  "automatic si g \<longleftrightarrow>
     gr_approvalMode (gl_grant g) = Autonomous_approval \<and>
     (case si_foreman si of None \<Rightarrow> False | Some f \<Rightarrow> gr_approvalMode (fc_autonomy f) = Autonomous_approval)"

definition policy_id :: "string \<Rightarrow> string" where
  "policy_id foremanId = ''foreman-policy:'' @ foremanId"

definition recordAutomaticApproval :: "goal \<Rightarrow> string \<Rightarrow> string \<Rightarrow> goals_db \<Rightarrow> goals_db" where
  "recordAutomaticApproval g action resourceId s =
     s\<lparr>gs_audits := gs_audits s @ [(policy_id (gl_foremanId g), ''foreman.auto-'' @ action, resourceId)]\<rparr>"

subsection \<open>Teams\<close>

definition snapshot_groups :: "site \<Rightarrow> group_row list result" where
  "snapshot_groups si =
     rbind (si_snapshot si) (\<lambda>_. Inr (sort_key (\<lambda>g. (g_order g, g_id g)) (db_groups (si_db si))))"

definition getEffectiveGroupCheckout :: "site \<Rightarrow> string \<Rightarrow> checkout option result" where
  "getEffectiveGroupCheckout si groupId =
     rbind (requireGroup (si_db si) groupId) (\<lambda>_.
       case si_groupCheckout si groupId of
         Some i \<Rightarrow> rbind (getCheckout si i) (\<lambda>c. Inr (Some c))
       | None \<Rightarrow> Inr (Option.bind (si_primaryCheckout si) (\<lambda>i. find_where (\<lambda>c. co_id c = i) (si_checkouts si))))"

definition effective_is :: "site \<Rightarrow> string \<Rightarrow> string \<Rightarrow> bool result" where
  "effective_is si checkoutId groupId =
     rbind (getEffectiveGroupCheckout si groupId) (\<lambda>c. Inr (map_option co_id c = Some checkoutId))"

definition active_runs :: "site \<Rightarrow> string \<Rightarrow> run list result" where
  "active_runs si groupId =
     rbind (listActiveMemberships (si_db si) groupId) (\<lambda>ms.
       Inr (List.map_filter (\<lambda>m. getActiveRun (si_db si) groupId (m_memberId m)) ms))"

text \<open>Whether another team with an active run works in the checkout.\<close>

definition shared_checkout :: "site \<Rightarrow> string \<Rightarrow> string \<Rightarrow> group_row list \<Rightarrow> bool result" where
  "shared_checkout si groupId checkoutId groups =
     exists_r (\<lambda>g. if g_id g = groupId then Inr False else
         rbind (effective_is si checkoutId (g_id g)) (\<lambda>same.
           if \<not> same then Inr False else rbind (active_runs si (g_id g)) (\<lambda>rs. Inr (rs \<noteq> [])))) groups"

datatype blocker =
  Bl_team_reserved | Bl_missing_checkout | Bl_checkout_reserved | Bl_shared_active_checkout
| Bl_runtime_checkout_changed | Bl_human_controlled | Bl_no_members | Bl_unsettled_work | Bl_runtime_not_ready

definition assignmentBlockers :: "site \<Rightarrow> string \<Rightarrow> string \<Rightarrow> blocker list result" where
  "assignmentBlockers si groupId checkoutId =
     rbind (snapshot_groups si) (\<lambda>groups.
     rbind (shared_checkout si groupId checkoutId groups) (\<lambda>shared.
     rbind (active_runs si groupId) (\<lambda>rs.
       Inr ((if shared then [Bl_shared_active_checkout] else []) @
            (if list_ex (\<lambda>r. r_checkoutId r \<noteq> Some checkoutId) rs then [Bl_runtime_checkout_changed] else []) @
            (if list_ex (\<lambda>r. si_controlled si (r_id r)) rs then [Bl_human_controlled] else [])))))"

definition assertAssignment :: "site \<Rightarrow> delegation \<Rightarrow> unit result" where
  "assertAssignment si d =
     rbind (snapshot_groups si) (\<lambda>groups.
     rbind (listActiveMemberships (si_db si) (dl_groupId d)) (\<lambda>members.
       case find_where (\<lambda>g. g_id g = dl_groupId d) groups of
         None \<Rightarrow> Inl goal_conflict
       | Some g \<Rightarrow>
           rbind (check (g_membershipRevision g = dlc_expectedMembershipRevision (dl_command d) \<and>
               si_checkoutRevision si (g_id g) = dlc_expectedCheckoutRevision (dl_command d)) goal_conflict) (\<lambda>_.
           rbind (effective_is si (dl_checkoutId d) (g_id g)) (\<lambda>same.
           rbind (check (same \<and> list_ex (\<lambda>m. m_memberId m = dl_memberId d) members) goal_conflict) (\<lambda>_.
           rbind (assignmentBlockers si (dl_groupId d) (dl_checkoutId d)) (\<lambda>blockers.
             check (blockers = []) goal_conflict))))))"

text \<open>
  \<open>blockingTeamActions\<close>: the unsettled actions of a team, but for a handoff that stayed open although its
  goal was completed and its run has been replaced. Of two completed delegations with one action the
  later one counts.
\<close>

definition completed_handoff :: "goal list \<Rightarrow> goals_db \<Rightarrow> string \<Rightarrow> string \<Rightarrow> delegation option" where
  "completed_handoff gs s groupId actionId =
     find_where (\<lambda>d. dl_groupId d = groupId \<and> dl_state d = Dg_completed \<and> dl_actionId d = Some actionId \<and>
         list_ex (\<lambda>g. gl_state g = Gs_completed \<and> gl_id g = dl_goalId d) gs) (rev (delegations s))"

definition is_conversation :: "principal \<Rightarrow> bool" where
  "is_conversation who \<longleftrightarrow> (case who of ForemanConversation _ _ _ _ _ \<Rightarrow> True | _ \<Rightarrow> False)"

definition handoff_of :: "goal list \<Rightarrow> delegation \<Rightarrow> agent_action \<Rightarrow> bool" where
  "handoff_of gs d a \<longleftrightarrow>
     (case a_principal a of
        Foreman f _ _ _ goalId delegationId _ \<Rightarrow>
          delegationId = dl_id d \<and> goalId = dl_goalId d \<and>
          list_ex (\<lambda>g. gl_state g = Gs_completed \<and> gl_id g = dl_goalId d \<and> gl_foremanId g = f) gs \<and>
          tg_groupId (a_target a) = dl_groupId d \<and> tg_memberId (a_target a) = dl_memberId d
      | _ \<Rightarrow> False)"

definition blocks_team :: "site \<Rightarrow> goal list \<Rightarrow> goals_db \<Rightarrow> string \<Rightarrow> agent_action \<Rightarrow> bool" where
  "blocks_team si gs s groupId a \<longleftrightarrow>
     \<not> is_conversation (a_principal a) \<and> \<not> settled_action (a_state a) \<and>
     (case completed_handoff gs s groupId (a_id a) of
        None \<Rightarrow> True
      | Some d \<Rightarrow> \<not> handoff_of gs d a \<or>
          is_run (getActiveRun (si_db si) groupId (tg_memberId (a_target a)))
            (tg_runId (a_target a)) (tg_generation (a_target a)))"

definition team_actions :: "site \<Rightarrow> string \<Rightarrow> agent_action list" where
  "team_actions si groupId = filter (\<lambda>a. tg_groupId (a_target a) = groupId) (listAgentActions (si_db si))"

definition blockingTeamActions :: "site \<Rightarrow> string \<Rightarrow> goals_db \<Rightarrow> agent_action list result" where
  "blockingTeamActions si groupId s =
     rbind (list_goals True s) (\<lambda>gs. Inr (filter (blocks_team si gs s groupId) (team_actions si groupId)))"

definition unsettled :: "site \<Rightarrow> delegation \<Rightarrow> goals_db \<Rightarrow> agent_action list result" where
  "unsettled si d s =
     rbind (blockingTeamActions si (dl_groupId d) s) (\<lambda>as. Inr (filter (\<lambda>a. dl_actionId d \<noteq> Some (a_id a)) as))"

text \<open>\<open>assessTeam\<close>: the reasons against delegating to a team.\<close>

definition status_available :: "status_detail \<Rightarrow> bool" where
  "status_available st \<longleftrightarrow>
     sd_state st = St_idle \<and> \<not> st_staleAuthority (sd_body st) \<and> st_interactiveReady (sd_body st)"

definition member_unready :: "site \<Rightarrow> string \<Rightarrow> membership_row \<Rightarrow> bool result" where
  "member_unready si groupId m =
     (if getActiveRun (si_db si) groupId (m_memberId m) = None then Inr False
      else rbind (getAgentStatus (si_db si) groupId (m_memberId m) None) (\<lambda>st. Inr (\<not> status_available st)))"

definition assessTeam :: "site \<Rightarrow> string \<Rightarrow> goals_db \<Rightarrow> blocker list result" where
  "assessTeam si groupId s =
     rbind (listActiveMemberships (si_db si) groupId) (\<lambda>members.
     rbind (getEffectiveGroupCheckout si groupId) (\<lambda>checkout.
       let reservations = filter (\<lambda>d. \<not> inactive (dl_state d)) (delegations s)
       in rbind (case checkout of
              None \<Rightarrow> Inr [Bl_missing_checkout]
            | Some c \<Rightarrow> rbind (assignmentBlockers si groupId (co_id c)) (\<lambda>bs.
                Inr ((if list_ex (\<lambda>d. dl_checkoutId d = co_id c) reservations then [Bl_checkout_reserved] else []) @ bs)))
            (\<lambda>places.
          rbind (blockingTeamActions si groupId s) (\<lambda>actions.
          rbind (exists_r (member_unready si groupId) members) (\<lambda>unready.
            Inr ((if list_ex (\<lambda>d. dl_groupId d = groupId) reservations then [Bl_team_reserved] else []) @ places @
                 (if members = [] then [Bl_no_members] else []) @
                 (if actions \<noteq> [] then [Bl_unsettled_work] else []) @
                 (if unready then [Bl_runtime_not_ready] else [])))))))"

record team_member =
  mb_memberId :: string
  mb_run :: "(string \<times> nat) option"
  mb_status :: status_detail
  mb_humanControlled :: bool

record team =
  te_groupId :: string
  te_blockers :: "blocker list"
  te_startupRequired :: "string list"
  te_checkout :: "(string \<times> string list) option"
  te_reservation :: "delegation option"
  te_members :: "team_member list"

definition team_member_of :: "site \<Rightarrow> string \<Rightarrow> membership_row \<Rightarrow> team_member result" where
  "team_member_of si groupId m =
     (let run = getActiveRun (si_db si) groupId (m_memberId m)
      in rbind (requireAgentProfile (si_db si) (m_agentProfileId m)) (\<lambda>_.
         rbind (getAgentStatus (si_db si) groupId (m_memberId m) None) (\<lambda>st.
           Inr \<lparr>mb_memberId = m_memberId m, mb_run = map_option (\<lambda>r. (r_id r, r_generation r)) run,
             mb_status = st, mb_humanControlled = pred_option (\<lambda>r. si_controlled si (r_id r)) run \<and> run \<noteq> None\<rparr>)))"

definition sharing_teams :: "site \<Rightarrow> group_row list \<Rightarrow> string \<Rightarrow> string \<Rightarrow> string list result" where
  "sharing_teams si groups groupId checkoutId =
     rbind (filter_r (\<lambda>g. if g_id g = groupId then Inr False else
         rbind (effective_is si checkoutId (g_id g)) (\<lambda>same.
           if \<not> same then Inr False else rbind (active_runs si (g_id g)) (\<lambda>rs. Inr (rs \<noteq> [])))) groups)
       (\<lambda>gs. Inr (map g_id gs))"

definition discover_team :: "site \<Rightarrow> goals_db \<Rightarrow> group_row list \<Rightarrow> group_row \<Rightarrow> team result" where
  "discover_team si s groups g =
     rbind (assessTeam si (g_id g) s) (\<lambda>blockers.
     rbind (listActiveMemberships (si_db si) (g_id g)) (\<lambda>members.
     rbind (getEffectiveGroupCheckout si (g_id g)) (\<lambda>checkout.
     rbind (case checkout of None \<Rightarrow> Inr None
              | Some c \<Rightarrow> rbind (sharing_teams si groups (g_id g) (co_id c)) (\<lambda>ts. Inr (Some (co_id c, ts)))) (\<lambda>place.
     rbind (parse_list (team_member_of si (g_id g)) members) (\<lambda>mbs.
       Inr \<lparr>te_groupId = g_id g, te_blockers = blockers,
         te_startupRequired = map m_memberId (filter (\<lambda>m. getActiveRun (si_db si) (g_id g) (m_memberId m) = None) members),
         te_checkout = place,
         te_reservation = find_where (\<lambda>d. dl_groupId d = g_id g \<and> \<not> inactive (dl_state d)) (delegations s),
         te_members = mbs\<rparr>)))))"

definition discover :: "site \<Rightarrow> goals_db \<Rightarrow> team list result" where
  "discover si s = rbind (snapshot_groups si) (\<lambda>groups. parse_list (discover_team si s groups) groups)"

definition members_of_team :: "team list \<Rightarrow> string \<Rightarrow> team_member list" where
  "members_of_team teams groupId =
     (case find_where (\<lambda>t. te_groupId t = groupId) teams of None \<Rightarrow> [] | Some t \<Rightarrow> te_members t)"

end
