(* ===== verification/Foreman_Goals.thy ===== *)
theory Foreman_Goals
  imports Foreman_Teams
begin

text \<open>
  The operations of the goal service. Every operation runs in one transaction (\<open>store.atomic\<close>), so one
  that ends in an error leaves the state as it was. Random ids are parameters.
\<close>

subsection \<open>Review of a candidate\<close>

definition same_candidate :: "string option \<Rightarrow> string option \<Rightarrow> string option \<Rightarrow> report \<Rightarrow> bool" where
  "same_candidate head path digest r \<longleftrightarrow>
     (case digest of
        None \<Rightarrow> head \<noteq> None \<and> rt_candidateHead r = head \<and> rt_candidatePath r = None
      | Some _ \<Rightarrow> rt_candidatePath r = path \<and> rt_candidateDigest r = digest)"

definition independent_reviews ::
  "delegation \<Rightarrow> string option \<Rightarrow> string option \<Rightarrow> string option \<Rightarrow> report list \<Rightarrow> report list" where
  "independent_reviews d head path digest rs =
     filter (\<lambda>r. rt_delegationId r = dl_id d \<and> rt_kind r = Rk_review \<and> rt_memberId r \<noteq> dl_memberId d \<and>
       same_candidate head path digest r) rs"

definition assertApprovedReview ::
  "site \<Rightarrow> delegation \<Rightarrow> string option \<Rightarrow> string option \<Rightarrow> string option \<Rightarrow> goals_db \<Rightarrow> unit result" where
  "assertApprovedReview si d head path digest s =
     rbind (get_workspace si (dl_goalId d) s) (\<lambda>ws.
       let reviews = independent_reviews d head path digest (ws_reports ws)
       in check (reviews \<noteq> [] \<and> rpc_reviewOutcome (rt_command (last reviews)) = Some Rv_approved \<and>
            rpc_evidence (rt_command (last reviews)) \<noteq> []) goal_conflict)"

subsection \<open>The Foreman's inbox\<close>

text \<open>SQLite's \<open>LIKE\<close>: \<open>%\<close> matches any text, \<open>_\<close> one character, letters match in either case.\<close>

fun sql_like :: "string \<Rightarrow> string \<Rightarrow> bool" where
  "sql_like [] t \<longleftrightarrow> t = []"
| "sql_like (c # p) [] \<longleftrightarrow> c = CHR ''%'' \<and> sql_like p []"
| "sql_like (c # p) (x # t) \<longleftrightarrow>
     (if c = CHR ''%'' then sql_like p (x # t) \<or> sql_like (c # p) t
      else (c = CHR ''_'' \<or> ascii_lower c = ascii_lower x) \<and> sql_like p t)"

definition review_prefix :: "string \<Rightarrow> string" where
  "review_prefix goalId = ''goal-review:'' @ goalId @ '':''"

definition is_review_of :: "string \<Rightarrow> inbox_row \<Rightarrow> bool" where
  "is_review_of goalId b \<longleftrightarrow> sql_like (review_prefix goalId @ ''%'') (ib_dedupeKey b)"

definition open_review :: "string \<Rightarrow> goals_db \<Rightarrow> bool" where
  "open_review goalId s \<longleftrightarrow>
     list_ex (\<lambda>b. is_review_of goalId b \<and> ib_state b \<in> {Ib_queued, Ib_writing, Ib_submitted, Ib_ambiguous}) (gs_inbox s)"

text \<open>\<open>#wake\<close> queues a review of the goal, at most one at a time and within the goal's budget of turns.\<close>

definition wake :: "site \<Rightarrow> string \<Rightarrow> string \<Rightarrow> goal \<Rightarrow> goals_db \<Rightarrow> goal \<times> goals_db" where
  "wake si inboxId nonce g s =
     (if open_review (gl_id g) s then (g, s)
      else if gr_maxForemanTurns (gl_grant g) \<le> gl_turnsUsed g
      then let g' = g\<lparr>gl_state := Gs_blocked, gl_revision := gl_revision g + 1\<rparr>
           in (g', notify si (''turn-limit:'' @ gl_id g) Nk_health (Some (gl_id g)) None None (save_goal g' s))
      else let g' = g\<lparr>gl_turnsUsed := gl_turnsUsed g + 1\<rparr>
           in (g', save_goal g' (s\<lparr>gs_inbox := gs_inbox s @ [\<lparr>ib_id = inboxId, ib_messageId = None,
                ib_dedupeKey = review_prefix (gl_id g) @ nonce, ib_state = Ib_queued,
                ib_createdAt = si_now si, ib_updatedAt = si_now si\<rparr>]\<rparr>)))"

definition finishReview :: "site \<Rightarrow> foreman_principal \<Rightarrow> string \<Rightarrow> goals_db \<Rightarrow> (workspace \<times> goals_db) result" where
  "finishReview si who goalId s =
     rbind (assertForeman si who) (\<lambda>_.
     rbind (get_goal goalId s) (\<lambda>g.
     rbind (check (gl_foremanId g = fp_foremanId who) goal_conflict) (\<lambda>_.
       let s1 = s\<lparr>gs_inbox := update_where (\<lambda>b. is_review_of goalId b \<and> ib_state b \<in> {Ib_queued, Ib_submitted})
                  (\<lambda>b. b\<lparr>ib_state := Ib_answered, ib_updatedAt := si_now si\<rparr>) (gs_inbox s)\<rparr>
       in rbind (get_workspace si goalId s1) (\<lambda>ws. Inr (ws, s1)))))"

subsection \<open>Controlling a goal\<close>

definition control_allowed :: "goal_action \<Rightarrow> goal_state \<Rightarrow> bool" where
  "control_allowed a st \<longleftrightarrow>
     st \<in> set (case a of
        Ga_approve \<Rightarrow> [Gs_proposed]
      | Ga_pause \<Rightarrow> [Gs_running, Gs_blocked, Gs_awaiting_acceptance]
      | Ga_resume \<Rightarrow> [Gs_paused, Gs_blocked]
      | Ga_cancel \<Rightarrow> [Gs_proposed, Gs_running, Gs_paused, Gs_blocked, Gs_awaiting_acceptance]
      | Ga_accept \<Rightarrow> [Gs_awaiting_acceptance])"

definition last_ready :: "delegation \<Rightarrow> report list \<Rightarrow> report option" where
  "last_ready d rs =
     (let readies = filter (\<lambda>r. rt_delegationId r = dl_id d \<and> rt_kind r = Rk_ready) rs
      in if readies = [] then None else Some (last readies))"

definition candidate_current :: "site \<Rightarrow> checkout \<Rightarrow> report \<Rightarrow> bool result" where
  "candidate_current si c r =
     (case rt_candidatePath r of
        Some path \<Rightarrow> rbind (si_candidate si (co_id c) path None) (\<lambda>digest. Inr (Some digest = rt_candidateDigest r))
      | None \<Rightarrow> Inr (\<not> co_dirty c \<and> co_head c \<noteq> None \<and> co_head c = rt_candidateHead r))"

definition accept_delegation :: "site \<Rightarrow> string \<Rightarrow> delegation \<Rightarrow> goals_db \<Rightarrow> goals_db result" where
  "accept_delegation si goalId d s =
     rbind (assertAssignment si d) (\<lambda>_.
     rbind (unsettled si d s) (\<lambda>open.
     rbind (check (open = []) goal_conflict) (\<lambda>_.
     rbind (getCheckout si (dl_checkoutId d)) (\<lambda>c.
     rbind (get_workspace si goalId s) (\<lambda>ws.
       case last_ready d (ws_reports ws) of
         None \<Rightarrow> Inl goal_conflict
       | Some r \<Rightarrow>
           rbind (candidate_current si c r) (\<lambda>current.
           rbind (check current goal_conflict) (\<lambda>_.
           rbind (assertApprovedReview si d (rt_candidateHead r) (rt_candidatePath r) (rt_candidateDigest r) s) (\<lambda>_.
           rbind (discover si s) (\<lambda>teams.
           rbind (check (list_all (\<lambda>m. sd_state (mb_status m) \<in> {St_idle, St_stopped})
               (members_of_team teams (dl_groupId d))) goal_conflict) (\<lambda>_.
             Inr (save_delegation (d\<lparr>dl_state := Dg_completed, dl_revision := dl_revision d + 1\<rparr>) s)))))))))))"

definition accept_goal :: "site \<Rightarrow> goal \<Rightarrow> goals_db \<Rightarrow> goals_db result" where
  "accept_goal si g s =
     rbind (get_workspace si (gl_id g) s) (\<lambda>ws.
       let delegates = filter (\<lambda>d. dl_state d \<noteq> Dg_cancelled) (ws_delegations ws)
       in rbind (check (delegates \<noteq> [] \<and> list_all (\<lambda>d. dl_state d = Dg_ready) delegates) goal_conflict) (\<lambda>_.
          fold_r (accept_delegation si (gl_id g)) delegates s))"

text \<open>Pausing and cancelling make the pending decisions stale and end the delegations nobody approved.\<close>

definition stale_decision :: "decision \<Rightarrow> decision" where
  "stale_decision d = d\<lparr>dn_state := Dn_stale, dn_revision := dn_revision d + 1\<rparr>"

definition cancelled_delegation :: "site \<Rightarrow> delegation \<Rightarrow> delegation" where
  "cancelled_delegation si d = d\<lparr>dl_state := Dg_cancelled, dl_revision := dl_revision d + 1, dl_updatedAt := si_now si\<rparr>"

definition withdraw :: "site \<Rightarrow> string \<Rightarrow> bool \<Rightarrow> goals_db \<Rightarrow> goals_db result" where
  "withdraw si goalId cancel s =
     rbind (get_workspace si goalId s) (\<lambda>ws.
       let s1 = foldl (\<lambda>t d. save_decision (stale_decision d) t) s
                  (filter (\<lambda>d. dn_state d = Dn_pending) (ws_decisions ws))
       in rbind (get_workspace si goalId s1) (\<lambda>ws1.
            Inr (foldl (\<lambda>t d. save_delegation (cancelled_delegation si d) t) s1
              (filter (\<lambda>d. dl_state d = Dg_proposed \<or> cancel) (ws_delegations ws1)))))"

definition control_outcome :: "site \<Rightarrow> goal_action \<Rightarrow> goal \<Rightarrow> goals_db \<Rightarrow> (goal_state \<times> goals_db) result" where
  "control_outcome si a g s =
     (case a of
        Ga_approve \<Rightarrow> rbind (goal_running si Coordination (g\<lparr>gl_state := Gs_running\<rparr>)) (\<lambda>_. Inr (Gs_running, s))
      | Ga_resume \<Rightarrow> rbind (goal_running si Coordination (g\<lparr>gl_state := Gs_running\<rparr>)) (\<lambda>_. Inr (Gs_running, s))
      | Ga_accept \<Rightarrow> rbind (accept_goal si g s) (\<lambda>s1. Inr (Gs_completed, s1))
      | Ga_pause \<Rightarrow> Inr (Gs_paused, s)
      | Ga_cancel \<Rightarrow> Inr (Gs_cancelled, s))"

definition controlled :: "site \<Rightarrow> goal_state \<Rightarrow> goal \<Rightarrow> goal" where
  "controlled si st g = g\<lparr>gl_state := st, gl_revision := gl_revision g + 1, gl_updatedAt := si_now si\<rparr>"

definition control_goal :: "site \<Rightarrow> control_command \<Rightarrow> goals_db \<Rightarrow> (goal \<times> goals_db) result" where
  "control_goal si command s =
     rbind (parse_control command) (\<lambda>input.
     rbind (get_goal (ct_id input) s) (\<lambda>g.
     rbind (check (gl_revision g = ct_expectedRevision input) goal_conflict) (\<lambda>_.
     rbind (check (control_allowed (ct_action input) (gl_state g)) goal_conflict) (\<lambda>_.
     rbind (control_outcome si (ct_action input) g s) (\<lambda>(st, s1).
       let g' = controlled si st g;
           s2 = save_goal g' s1
       in rbind (if ct_action input \<in> {Ga_pause, Ga_cancel} then withdraw si (gl_id g) (ct_action input = Ga_cancel) s2
                 else Inr s2) (\<lambda>s3.
            Inr (g', notify si (''control:'' @ gl_id g @ '':'' @ show_nat (gl_revision g')) Nk_control
                   (Some (gl_id g)) None None s3)))))))"

subsection \<open>Proposing and accepting a goal\<close>

text \<open>The results of \<open>randomUUID()\<close> during an operation, by position.\<close>

type_synonym uuids = "nat \<Rightarrow> string"

definition source_text :: "site \<Rightarrow> propose_command \<Rightarrow> string option result" where
  "source_text si c =
     (case pc_sourceMessageId c of
        None \<Rightarrow> Inr None
      | Some i \<Rightarrow>
          (case si_operatorText si i of
             None \<Rightarrow> Inl (DomainError ''foreman_goal_source_message_invalid'' 400)
           | Some t \<Rightarrow> Inr (Some t)))"

definition new_goal ::
  "site \<Rightarrow> foreman_config \<Rightarrow> string \<Rightarrow> propose_command \<Rightarrow> request_origin option \<Rightarrow> string option \<Rightarrow> goal" where
  "new_goal si f goalId c origin sourceText =
     \<lparr>gl_id = goalId, gl_command = c, gl_requestOrigin = origin, gl_sourceText = sourceText,
       gl_foremanId = fc_id f, gl_state = Gs_proposed, gl_revision = 0, gl_grant = fc_autonomy f, gl_turnsUsed = 0,
       gl_expiresAt = si_now si + int (gr_maxGoalHours (fc_autonomy f)) * 3600000,
       gl_createdAt = si_now si, gl_updatedAt = si_now si\<rparr>"

text \<open>The new goal is stored; under an autonomous grant and policy it is approved at once.\<close>

definition store_new_goal :: "site \<Rightarrow> goal \<Rightarrow> string \<Rightarrow> string \<Rightarrow> goals_db \<Rightarrow> goals_db" where
  "store_new_goal si g key digest s =
     notify si (''goal:'' @ gl_id g) Nk_goal (Some (gl_id g)) None None
       (s\<lparr>gs_goals := coord_save gl_id g (Some key) (Some digest) (gs_goals s)\<rparr>)"

definition approve_new_goal :: "site \<Rightarrow> goal \<Rightarrow> goals_db \<Rightarrow> (goal \<times> goals_db) result" where
  "approve_new_goal si g s =
     (if automatic si g
      then rbind (control_goal si \<lparr>ct_id = gl_id g, ct_expectedRevision = gl_revision g, ct_action = Ga_approve\<rparr> s)
             (\<lambda>(approved, s1). Inr (approved, recordAutomaticApproval approved ''approve-goal'' (gl_id g) s1))
      else Inr (g, s))"

definition propose ::
  "site \<Rightarrow> uuids \<Rightarrow> foreman_principal option \<Rightarrow> propose_command \<Rightarrow> goals_db \<Rightarrow> (goal \<times> goals_db) result" where
  "propose si ids who command s =
     rbind (parse_propose command) (\<lambda>input.
     rbind (case who of None \<Rightarrow> Inr () | Some p \<Rightarrow> assertForeman si p) (\<lambda>_.
     let key = ''goal:'' @ pc_requestId input; digest = si_sha si (In_goal input)
     in rbind (coord_existing key digest (gs_goals s)) (\<lambda>existing.
     case existing of Some g \<Rightarrow> Inr (g, s) | None \<Rightarrow>
     (case si_foreman si of None \<Rightarrow> Inl goal_conflict | Some f \<Rightarrow>
     rbind (check (fc_enabled f) goal_conflict) (\<lambda>_.
     rbind (list_goals False s) (\<lambda>gs.
     rbind (check (length (filter (\<lambda>g. \<not> inactive_goal (gl_state g)) gs) < gr_maxActiveGoals (fc_autonomy f))
       goal_conflict) (\<lambda>_.
     rbind (source_text si input) (\<lambda>sourceText.
     rbind (si_origin si (who \<noteq> None)) (\<lambda>origin.
     let g = new_goal si f (ids 0) input origin sourceText
     in rbind (check (list_all (\<lambda>i. si_conversationOwner si i = Some (gl_foremanId g))
            (case pc_sourceConversationIds input of None \<Rightarrow> [] | Some is \<Rightarrow> is))
          (DomainError ''foreman_goal_source_conversation_invalid'' 400)) (\<lambda>_.
     approve_new_goal si g (store_new_goal si g key digest s)))))))))))"

definition acceptAutonomously ::
  "site \<Rightarrow> foreman_principal \<Rightarrow> string \<Rightarrow> nat \<Rightarrow> goals_db \<Rightarrow> (goal \<times> goals_db) result" where
  "acceptAutonomously si who goalId expectedRevision s =
     rbind (assertForeman si who) (\<lambda>_.
     rbind (get_goal goalId s) (\<lambda>g.
     rbind (check (gl_foremanId g = fp_foremanId who \<and> automatic si g) goal_conflict) (\<lambda>_.
     rbind (goal_running si Coordination (g\<lparr>gl_state := Gs_running\<rparr>)) (\<lambda>_.
     rbind (control_goal si \<lparr>ct_id = gl_id g, ct_expectedRevision = expectedRevision, ct_action = Ga_accept\<rparr> s)
       (\<lambda>(g', s1). Inr (g', recordAutomaticApproval g' ''accept-goal'' (gl_id g) s1))))))"

subsection \<open>Human decisions\<close>

definition or_goal :: "string option \<Rightarrow> string" where
  "or_goal i = (case i of None \<Rightarrow> ''goal'' | Some d \<Rightarrow> d)"

definition ask :: "site \<Rightarrow> string \<Rightarrow> question_command \<Rightarrow> decision_kind \<Rightarrow> goals_db \<Rightarrow> (decision \<times> goals_db) result" where
  "ask si decisionId input kind s =
     (let key = ''question:'' @ qc_goalId input @ '':'' @ or_goal (qc_delegationId input) @ '':'' @ qc_requestId input;
          digest = si_sha si (In_question input)
      in rbind (coord_existing key digest (gs_decisions s)) (\<lambda>existing.
      case existing of Some d \<Rightarrow> Inr (d, s) | None \<Rightarrow>
      rbind (get_goal (qc_goalId input) s) (\<lambda>g.
      rbind (goal_running si Coordination g) (\<lambda>_.
      rbind (case qc_delegationId input of None \<Rightarrow> Inr ()
               | Some i \<Rightarrow> rbind (get_delegation i s) (\<lambda>d. check (dl_goalId d = gl_id g) goal_conflict)) (\<lambda>_.
      let d = \<lparr>dn_id = decisionId, dn_command = input, dn_kind = kind, dn_state = Dn_pending, dn_revision = 0,
                dn_goalRevision = gl_revision g, dn_answer = None, dn_decidedBy = None,
                dn_createdAt = si_now si, dn_resolvedAt = None\<rparr>
      in Inr (d, notify si (''decision:'' @ decisionId) Nk_decision (Some (gl_id g)) (qc_delegationId input)
           (Some decisionId)
           (s\<lparr>gs_decisions := coord_save dn_id d (Some key) (Some digest) (gs_decisions s)\<rparr>)))))))"

definition assert_member :: "site \<Rightarrow> member_principal \<Rightarrow> delegation \<Rightarrow> unit result" where
  "assert_member si who d =
     rbind (check (mp_groupId who = dl_groupId d \<and>
         is_running_run (getActiveRun (si_db si) (mp_groupId who) (mp_memberId who)) (mp_runId who) (mp_generation who))
       (DomainError ''delegation_forbidden'' 403)) (\<lambda>_. assertAssignment si d)"

datatype asker = By_foreman foreman_principal | By_member member_principal

definition question ::
  "site \<Rightarrow> uuids \<Rightarrow> asker \<Rightarrow> question_command \<Rightarrow> goals_db \<Rightarrow> (decision \<times> goals_db) result" where
  "question si ids who command s =
     rbind (parse_question command) (\<lambda>input.
     rbind (case who of
          By_foreman p \<Rightarrow> assertForeman si p
        | By_member m \<Rightarrow>
            (case qc_delegationId input of None \<Rightarrow> Inl goal_conflict
             | Some i \<Rightarrow> rbind (get_delegation i s) (assert_member si m))) (\<lambda>_.
       ask si (ids 0) input Dk_question s))"

definition authorizePreparation :: "site \<Rightarrow> foreman_principal \<Rightarrow> string \<Rightarrow> goals_db \<Rightarrow> (goal \<times> bool) result" where
  "authorizePreparation si who goalId s =
     rbind (assertForeman si who) (\<lambda>_.
     rbind (get_goal goalId s) (\<lambda>g.
     rbind (goal_running si Coordination g) (\<lambda>_.
     rbind (check (gl_foremanId g = fp_foremanId who) goal_conflict) (\<lambda>_. Inr (g, automatic si g)))))"

definition requestPreparationApproval ::
  "site \<Rightarrow> uuids \<Rightarrow> foreman_principal \<Rightarrow> question_command \<Rightarrow> goals_db \<Rightarrow> (decision \<times> goals_db) result" where
  "requestPreparationApproval si ids who command s =
     rbind (authorizePreparation si who (qc_goalId command) s) (\<lambda>_. ask si (ids 0) command Dk_preparation s)"

text \<open>Approving a delegation needs its team to be still available.\<close>

definition team_available :: "site \<Rightarrow> delegation \<Rightarrow> goals_db \<Rightarrow> unit result" where
  "team_available si d s =
     rbind (assertAssignment si d) (\<lambda>_.
     rbind (discover si s) (\<lambda>teams.
     rbind (blockingTeamActions si (dl_groupId d) s) (\<lambda>actions.
       check (actions = [] \<and> list_all (\<lambda>m. mb_run m = None \<or> status_available (mb_status m))
         (members_of_team teams (dl_groupId d))) goal_conflict)))"

definition resolve_delegation :: "site \<Rightarrow> decision \<Rightarrow> string \<Rightarrow> goals_db \<Rightarrow> goals_db result" where
  "resolve_delegation si dn answer s =
     (case dn_delegationId dn of
        None \<Rightarrow> Inl (DomainError ''foreman_goal_not_found'' 404)
      | Some i \<Rightarrow>
          rbind (get_delegation i s) (\<lambda>d.
          rbind (if answer = ''approve'' then team_available si d s else Inr ()) (\<lambda>_.
          rbind (check (dl_state d = Dg_proposed) goal_conflict) (\<lambda>_.
            Inr (save_delegation (d\<lparr>dl_state := if answer = ''approve'' then Dg_queued else Dg_cancelled,
                   dl_revision := dl_revision d + 1\<rparr>) s)))))"

definition resolved_decision :: "site \<Rightarrow> string \<Rightarrow> string \<Rightarrow> decision \<Rightarrow> decision" where
  "resolved_decision si who answer dn =
     dn\<lparr>dn_state := Dn_resolved, dn_revision := dn_revision dn + 1, dn_answer := Some answer,
        dn_decidedBy := Some who, dn_resolvedAt := Some (si_now si)\<rparr>"

definition resolve_decision ::
  "site \<Rightarrow> string \<Rightarrow> string \<Rightarrow> string \<Rightarrow> resolve_command \<Rightarrow> goals_db \<Rightarrow> (decision \<times> goals_db) result" where
  "resolve_decision si inboxId nonce operatorId command s =
     rbind (parse_resolve command) (\<lambda>input.
     rbind (coord_get dn_id (rv_id input) (gs_decisions s)) (\<lambda>dn.
     if dn_state dn = Dn_resolved \<and> dn_decidedBy dn = Some operatorId \<and> dn_answer dn = Some (rv_answer input) \<and>
        dn_revision dn = rv_expectedRevision input + 1
     then Inr (dn, s) else
     rbind (get_goal (dn_goalId dn) s) (\<lambda>g.
     rbind (goal_running si Coordination g) (\<lambda>_.
     rbind (check (dn_state dn = Dn_pending \<and> dn_revision dn = rv_expectedRevision input \<and>
         dn_goalRevision dn = gl_revision g) goal_conflict) (\<lambda>_.
     rbind (check (qc_options (dn_command dn) = [] \<or> rv_answer input \<in> set (qc_options (dn_command dn)))
         goal_conflict) (\<lambda>_.
     rbind (if dn_kind dn = Dk_delegation then resolve_delegation si dn (rv_answer input) s else Inr s) (\<lambda>s1.
       let dn' = resolved_decision si operatorId (rv_answer input) dn;
           s2 = notify si (''resolved:'' @ dn_id dn) Nk_decision (Some (gl_id g)) None (Some (dn_id dn))
                  (save_decision dn' s1)
       in Inr (dn', snd (wake si inboxId nonce g s2)))))))))"

subsection \<open>Delegating\<close>

definition approved_plan :: "site \<Rightarrow> string \<Rightarrow> delegate_command \<Rightarrow> goal \<Rightarrow> goals_db \<Rightarrow> unit result" where
  "approved_plan si decisionId input g s =
     rbind (coord_get dn_id decisionId (gs_decisions s)) (\<lambda>dn.
     rbind (check (dn_kind dn = Dk_preparation \<and> dn_goalId dn = gl_id g \<and> dn_state dn = Dn_resolved \<and>
         dn_answer dn = Some ''approve'' \<and> dn_goalRevision dn = gl_revision g \<and>
         (case dn_decidedBy dn of None \<Rightarrow> False
          | Some by \<Rightarrow> by \<noteq> [] \<and> take (length (policy_id [])) by \<noteq> policy_id [])) goal_conflict) (\<lambda>_.
     case si_prepPlan si (dlc_requestId input) of
       None \<Rightarrow> Inl goal_conflict
     | Some plan \<Rightarrow>
         rbind (check (pr_decisionId plan = Some (dn_id dn) \<and> pr_phase plan = Pp_delegating \<and>
             pr_goalId plan = dlc_goalId input \<and> pr_groupId plan = dlc_groupId input \<and>
             pr_memberId plan = dlc_memberId input \<and> pr_brief plan = dlc_brief input) goal_conflict) (\<lambda>_.
         rbind (getEffectiveGroupCheckout si (dlc_groupId input)) (\<lambda>c.
           check (pr_checkoutId plan = map_option co_id c) goal_conflict))))"

definition new_delegation :: "site \<Rightarrow> string \<Rightarrow> delegate_command \<Rightarrow> delegation_state \<Rightarrow> string \<Rightarrow> delegation" where
  "new_delegation si i input st checkoutId =
     \<lparr>dl_id = i, dl_command = input, dl_state = st, dl_revision = 0, dl_checkoutId = checkoutId,
       dl_actionId = None, dl_runId = None, dl_generation = None, dl_nextCheckAt = si_now si,
       dl_lastReportAt = None, dl_createdAt = si_now si, dl_updatedAt = si_now si\<rparr>"

definition delegation_question :: "delegation \<Rightarrow> string \<Rightarrow> question_command" where
  "delegation_question d groupName =
     \<lparr>qc_requestId = dl_id d, qc_goalId = dl_goalId d, qc_delegationId = Some (dl_id d),
       qc_question = ''Authorize '' @ groupName @ '' / '' @ dl_memberId d @
         '' to own this outcome, its team peer work, and checkout '' @ dl_checkoutId d @ ''? '' @
         dlc_rationale (dl_command d),
       qc_options = [''approve'', ''deny''], qc_recommendation = None, qc_blocking = True\<rparr>"

text \<open>A new delegation is decided by a person or, under an autonomous grant and policy, by the policy at once.\<close>

definition decide_delegation ::
  "site \<Rightarrow> uuids \<Rightarrow> goal \<Rightarrow> string \<Rightarrow> delegation \<Rightarrow> goals_db \<Rightarrow> (delegation \<times> goals_db) result" where
  "decide_delegation si ids g groupName d s =
     rbind (ask si (ids 1) (delegation_question d groupName) Dk_delegation s) (\<lambda>(dn, s1).
       let s2 = notify si (''delegation:'' @ dl_id d) Nk_decision (Some (gl_id g)) (Some (dl_id d)) (Some (dn_id dn)) s1
       in if automatic si g
          then rbind (resolve_decision si (ids 2) (ids 3) (policy_id (gl_foremanId g))
                 \<lparr>rv_id = dn_id dn, rv_expectedRevision = dn_revision dn, rv_requestId = ''auto:'' @ dn_id dn,
                   rv_answer = ''approve''\<rparr> s2) (\<lambda>(_, s3).
                 let s4 = recordAutomaticApproval g ''approve-delegation'' (dl_id d) s3
                 in rbind (get_delegation (dl_id d) s4) (\<lambda>d'. Inr (d', s4)))
          else Inr (d, s2))"

text \<open>The goal under which a team may be delegated to, and the team with its checkout.\<close>

definition delegating_goal ::
  "site \<Rightarrow> foreman_principal \<Rightarrow> delegate_command \<Rightarrow> string option \<Rightarrow> goals_db \<Rightarrow> goal result" where
  "delegating_goal si who input decisionId s =
     rbind (get_goal (dlc_goalId input) s) (\<lambda>g.
     rbind (goal_running si Coordination g) (\<lambda>_.
     rbind (case decisionId of None \<Rightarrow> Inr () | Some i \<Rightarrow> approved_plan si i input g s) (\<lambda>_.
     rbind (check (gl_foremanId g = fp_foremanId who \<and> gl_revision g = dlc_expectedRevision input) goal_conflict) (\<lambda>_.
     rbind (get_workspace si (gl_id g) s) (\<lambda>ws.
     rbind (check (length (filter (\<lambda>d. \<not> inactive (dl_state d)) (ws_delegations ws)) < gr_maxTeamsPerGoal (gl_grant g))
       goal_conflict) (\<lambda>_. Inr g))))))"

definition delegating_team :: "site \<Rightarrow> delegate_command \<Rightarrow> goals_db \<Rightarrow> (group_row \<times> checkout) result" where
  "delegating_team si input s =
     rbind (snapshot_groups si) (\<lambda>groups.
     case find_where (\<lambda>x. g_id x = dlc_groupId input) groups of None \<Rightarrow> Inl goal_conflict | Some gr \<Rightarrow>
     rbind (assessTeam si (g_id gr) s) (\<lambda>blockers.
     rbind (check (blockers = []) goal_conflict) (\<lambda>_.
     rbind (getEffectiveGroupCheckout si (g_id gr)) (\<lambda>checkout.
     case checkout of None \<Rightarrow> Inl goal_conflict | Some c \<Rightarrow> Inr (gr, c)))))"

definition delegatePrepared ::
  "site \<Rightarrow> uuids \<Rightarrow> foreman_principal \<Rightarrow> delegate_command \<Rightarrow> string option \<Rightarrow> goals_db \<Rightarrow>
   (delegation \<times> goals_db) result" where
  "delegatePrepared si ids who command decisionId s =
     rbind (assertForeman si who) (\<lambda>_.
     rbind (parse_delegate command) (\<lambda>input.
     let key = ''delegate:'' @ dlc_goalId input @ '':'' @ dlc_requestId input; digest = si_sha si (In_delegate input)
     in rbind (coord_existing key digest (gs_delegations s)) (\<lambda>existing.
     case existing of Some d \<Rightarrow> Inr (d, s) | None \<Rightarrow>
     rbind (delegating_goal si who input decisionId s) (\<lambda>g.
     rbind (delegating_team si input s) (\<lambda>(gr, c).
     let d = new_delegation si (ids 0) input (if decisionId = None then Dg_proposed else Dg_queued) (co_id c);
         s1 = s\<lparr>gs_delegations := coord_save dl_id d (Some key) (Some digest) (gs_delegations s)\<rparr>
     in rbind (assertAssignment si d) (\<lambda>_.
        if decisionId \<noteq> None then Inr (d, s1) else decide_delegation si ids g (g_name gr) d s1))))))"

subsection \<open>Reporting on a delegation\<close>

definition pending_blocking :: "string \<Rightarrow> decision list \<Rightarrow> bool" where
  "pending_blocking delegationId ds \<longleftrightarrow>
     list_ex (\<lambda>d. dn_state d = Dn_pending \<and> qc_blocking (dn_command d) \<and>
       (dn_delegationId d = None \<or> dn_delegationId d = Some delegationId)) ds"

definition report_candidate :: "site \<Rightarrow> delegation \<Rightarrow> goal \<Rightarrow> report_command \<Rightarrow> string option result" where
  "report_candidate si d g input =
     rbind (check (rpc_candidatePath input = None \<or> rpc_candidateHead input = None) goal_conflict) (\<lambda>_.
       case rpc_candidatePath input of
         Some path \<Rightarrow>
           if rpc_kind input \<in> {Rk_ready, Rk_review}
           then rbind (si_candidate si (dl_checkoutId d) path (gl_requestOrigin g)) (\<lambda>digest. Inr (Some digest))
           else Inr None
       | None \<Rightarrow> Inr None)"

definition check_ready :: "site \<Rightarrow> delegation \<Rightarrow> goal \<Rightarrow> report_command \<Rightarrow> string option \<Rightarrow> goals_db \<Rightarrow> unit result" where
  "check_ready si d g input digest s =
     rbind (check (rpc_evidence input \<noteq> []) goal_conflict) (\<lambda>_.
     rbind (unsettled si d s) (\<lambda>open.
     rbind (check (open = []) goal_conflict) (\<lambda>_.
     rbind (get_workspace si (gl_id g) s) (\<lambda>ws.
     rbind (check (\<not> pending_blocking (dl_id d) (ws_decisions ws)) goal_conflict) (\<lambda>_.
       assertApprovedReview si d (rpc_candidateHead input) (rpc_candidatePath input) digest s)))))"

definition check_candidate :: "site \<Rightarrow> delegation \<Rightarrow> report_command \<Rightarrow> string option \<Rightarrow> unit result" where
  "check_candidate si d input digest =
     rbind (getCheckout si (dl_checkoutId d)) (\<lambda>c.
       check ((digest \<noteq> None \<or>
          (rpc_candidateHead input \<noteq> None \<and> co_head c = rpc_candidateHead input \<and> \<not> co_dirty c)) \<and>
          rpc_evidence input \<noteq> []) goal_conflict)"

definition report_checks ::
  "site \<Rightarrow> delegation \<Rightarrow> goal \<Rightarrow> bool \<Rightarrow> report_command \<Rightarrow> goals_db \<Rightarrow> string option result" where
  "report_checks si d g lead input s =
     rbind (report_candidate si d g input) (\<lambda>digest.
     rbind (check (lead \<or> rpc_kind input \<notin> {Rk_accepted, Rk_plan, Rk_ready}) goal_conflict) (\<lambda>_.
     rbind (if rpc_kind input = Rk_ready then check_ready si d g input digest s else Inr ()) (\<lambda>_.
     rbind (if rpc_kind input \<in> {Rk_ready, Rk_review} then check_candidate si d input digest else Inr ()) (\<lambda>_.
     rbind (check (\<not> (rpc_kind input = Rk_review \<and> lead)) goal_conflict) (\<lambda>_. Inr digest)))))"

definition reported_state :: "report_kind \<Rightarrow> delegation_state" where
  "reported_state k =
     (case k of Rk_ready \<Rightarrow> Dg_ready | Rk_blocked \<Rightarrow> Dg_blocked | Rk_accepted \<Rightarrow> Dg_accepted | _ \<Rightarrow> Dg_working)"

definition reported_delegation :: "site \<Rightarrow> bool \<Rightarrow> report_command \<Rightarrow> delegation \<Rightarrow> delegation" where
  "reported_delegation si lead input d =
     d\<lparr>dl_lastReportAt := Some (si_now si), dl_nextCheckAt := si_now si + int (rpc_nextCheckSeconds input) * 1000,
       dl_updatedAt := si_now si, dl_revision := dl_revision d + 1,
       dl_state := (if lead then reported_state (rpc_kind input) else dl_state d)\<rparr>"

definition new_report :: "site \<Rightarrow> string \<Rightarrow> member_principal \<Rightarrow> report_command \<Rightarrow> string option \<Rightarrow> report" where
  "new_report si i who input digest =
     \<lparr>rt_id = i, rt_command = input, rt_candidateDigest = digest, rt_memberId = mp_memberId who,
       rt_runId = mp_runId who, rt_generation = mp_generation who, rt_createdAt = si_now si\<rparr>"

text \<open>Once every open delegation of the goal is ready, the goal awaits its acceptance.\<close>

definition await_acceptance :: "site \<Rightarrow> uuids \<Rightarrow> goal \<Rightarrow> goals_db \<Rightarrow> (goal \<times> goals_db) result" where
  "await_acceptance si ids g s =
     rbind (get_workspace si (gl_id g) s) (\<lambda>ws.
       Inr (if list_all (\<lambda>d. inactive (dl_state d) \<or> dl_state d = Dg_ready) (ws_delegations ws)
            then let g' = g\<lparr>gl_state := Gs_awaiting_acceptance, gl_revision := gl_revision g + 1\<rparr>
                 in wake si (ids 1) (ids 2) g' (save_goal g' s)
            else (g, s)))"

definition file_report ::
  "site \<Rightarrow> uuids \<Rightarrow> member_principal \<Rightarrow> string \<Rightarrow> string \<Rightarrow> goal \<Rightarrow> delegation \<Rightarrow> report_command \<Rightarrow> string option \<Rightarrow>
   goals_db \<Rightarrow> (report \<times> goals_db) result" where
  "file_report si ids who key sha g d input digest s =
     (let r = new_report si (ids 0) who input digest;
          s1 = s\<lparr>gs_reports := coord_save rt_id r (Some key) (Some sha) (gs_reports s)\<rparr>;
          s2 = save_delegation (reported_delegation si (mp_memberId who = dl_memberId d) input d) s1
      in rbind (await_acceptance si ids g s2) (\<lambda>(g1, s3).
         let s4 = notify si (''report:'' @ rt_id r) Nk_report (Some (gl_id g)) (Some (dl_id d)) None s3
         in Inr (r, if rpc_kind input \<in> {Rk_blocked, Rk_review} \<and> gl_state g1 = Gs_running
                    then snd (wake si (ids 3) (ids 4) g1 s4) else s4)))"

definition report_delegation ::
  "site \<Rightarrow> uuids \<Rightarrow> member_principal \<Rightarrow> report_command \<Rightarrow> goals_db \<Rightarrow> (report \<times> goals_db) result" where
  "report_delegation si ids who command s =
     (case parse_report command of Inl _ \<Rightarrow> Inl (DomainError ''foreman_report_invalid'' 400) | Inr input \<Rightarrow>
     rbind (get_delegation (rpc_delegationId input) s) (\<lambda>d.
     rbind (assert_member si who d) (\<lambda>_.
     let key = ''report:'' @ dl_id d @ '':'' @ mp_memberId who @ '':'' @ rpc_requestId input;
         sha = si_sha si (In_report input)
     in rbind (coord_existing key sha (gs_reports s)) (\<lambda>existing.
     case existing of Some r \<Rightarrow> Inr (r, s) | None \<Rightarrow>
     rbind (get_goal (dl_goalId d) s) (\<lambda>g.
     rbind (goal_running si Coordination g) (\<lambda>_.
     rbind (check (dl_state d \<notin> {Dg_proposed, Dg_queued, Dg_cancelled, Dg_completed}) goal_conflict) (\<lambda>_.
     rbind (report_checks si d g (mp_memberId who = dl_memberId d) input s) (\<lambda>digest.
       file_report si ids who key sha g d input digest s))))))))"

text \<open>What a member sees of its own delegations.\<close>

definition own_delegation :: "site \<Rightarrow> member_principal \<Rightarrow> goals_db \<Rightarrow> delegation \<Rightarrow> workspace result" where
  "own_delegation si who s d =
     rbind (assert_member si who d) (\<lambda>_.
     rbind (get_workspace si (dl_goalId d) s) (\<lambda>ws.
     rbind (requestContext si (ws_goal ws) (Some (dl_checkoutId d))) (\<lambda>_.
       let ds = filter (\<lambda>x. dl_groupId x = mp_groupId who) (ws_delegations ws); ids = map dl_id ds
       in Inr (ws\<lparr>ws_delegations := ds, ws_reports := filter (\<lambda>r. rt_delegationId r \<in> set ids) (ws_reports ws),
            ws_decisions := filter (\<lambda>x. case dn_delegationId x of None \<Rightarrow> True | Some i \<Rightarrow> i \<in> set ids) (ws_decisions ws)\<rparr>))))"

definition own :: "site \<Rightarrow> member_principal \<Rightarrow> goals_db \<Rightarrow> workspace list result" where
  "own si who s = parse_list (own_delegation si who s)
     (filter (\<lambda>d. dl_groupId d = mp_groupId who \<and> \<not> inactive (dl_state d)) (delegations s))"

definition browserCandidate ::
  "site \<Rightarrow> member_principal \<Rightarrow> string \<Rightarrow> string \<Rightarrow> goals_db \<Rightarrow> (string \<times> string) result" where
  "browserCandidate si who delegationId path s =
     rbind (get_delegation delegationId s) (\<lambda>d.
     rbind (assert_member si who d) (\<lambda>_.
     rbind (get_goal (dl_goalId d) s) (\<lambda>g.
     rbind (goal_running si Coordination g) (\<lambda>_.
     rbind (check (dl_state d \<in> {Dg_accepted, Dg_working, Dg_blocked}) goal_conflict) (\<lambda>_.
     rbind (getCheckout si (dl_checkoutId d)) (\<lambda>c.
     rbind (check (\<not> co_bare c \<and> (case gl_requestOrigin g of None \<Rightarrow> True
         | Some og \<Rightarrow> og_repositoryId og = co_repositoryId c)) goal_conflict) (\<lambda>_.
     rbind (si_candidate si (co_id c) path (gl_requestOrigin g)) (\<lambda>digest. Inr (co_id c, digest)))))))))"

subsection \<open>Authorizing the work of a delegated team\<close>

definition working_delegation :: "string \<Rightarrow> goals_db \<Rightarrow> delegation option" where
  "working_delegation groupId s =
     find_where (\<lambda>d. dl_groupId d = groupId \<and> dl_state d \<noteq> Dg_proposed \<and> \<not> inactive (dl_state d)) (delegations s)"

definition last_cancelled :: "string \<Rightarrow> goals_db \<Rightarrow> delegation option" where
  "last_cancelled groupId s =
     find_where (\<lambda>d. dl_groupId d = groupId \<and> dl_state d = Dg_cancelled) (rev (delegations s))"

definition outdated_run :: "run option \<Rightarrow> delegation option \<Rightarrow> bool" where
  "outdated_run run previous \<longleftrightarrow>
     (case (run, previous) of (Some r, Some d) \<Rightarrow> r_startedAt r \<le> dl_updatedAt d | _ \<Rightarrow> False)"

definition authorizeTeamInput :: "site \<Rightarrow> goals_db \<Rightarrow> principal \<Rightarrow> (goal \<times> delegation) option result" where
  "authorizeTeamInput si s who =
     (case who of
        Agent groupId memberId runId generation \<Rightarrow>
          (case working_delegation groupId s of
             None \<Rightarrow>
               rbind (check (\<not> outdated_run (getActiveRun (si_db si) groupId memberId) (last_cancelled groupId s))
                 goal_conflict) (\<lambda>_. Inr None)
           | Some d \<Rightarrow>
               rbind (assert_member si \<lparr>mp_groupId = groupId, mp_memberId = memberId, mp_runId = runId,
                   mp_generation = generation\<rparr> d) (\<lambda>_.
               rbind (get_goal (dl_goalId d) s) (\<lambda>g.
               rbind (goal_running si Coordination g) (\<lambda>_.
               rbind (check (dl_state d \<in> {Dg_accepted, Dg_working, Dg_blocked}) goal_conflict) (\<lambda>_.
               rbind (get_workspace si (gl_id g) s) (\<lambda>ws.
               rbind (check (\<not> pending_blocking (dl_id d) (ws_decisions ws)) goal_conflict) (\<lambda>_.
                 Inr (Some (g, d)))))))))
      | _ \<Rightarrow> Inr None)"

fun count_unsettled :: "site \<Rightarrow> goals_db \<Rightarrow> delegation list \<Rightarrow> nat result" where
  "count_unsettled si s [] = Inr 0"
| "count_unsettled si s (d # ds) =
     rbind (unsettled si d s) (\<lambda>as. rbind (count_unsettled si s ds) (\<lambda>n. Inr (length as + n)))"

definition authorizePeer :: "site \<Rightarrow> goals_db \<Rightarrow> create_authorizer" where
  "authorizePeer si s who command =
     rbind (authorizeTeamInput si s who) (\<lambda>authorized.
     case authorized of None \<Rightarrow> Inr () | Some (g, d) \<Rightarrow>
     rbind (get_workspace si (gl_id g) s) (\<lambda>ws.
     rbind (count_unsettled si s (ws_delegations ws)) (\<lambda>n.
     rbind (check (n < gr_maxConcurrentActions (gl_grant g)) goal_conflict) (\<lambda>_.
       check (cc_groupId command = dl_groupId d) goal_conflict))))"

definition authorizeMessage :: "site \<Rightarrow> goals_db \<Rightarrow> string \<Rightarrow> (string \<times> string option) option \<Rightarrow> unit result" where
  "authorizeMessage si s groupId sender =
     (case sender of None \<Rightarrow> Inr () | Some (memberId, runId) \<Rightarrow>
        if \<not> list_ex (\<lambda>d. dl_groupId d = groupId) (delegations s) then Inr () else
        case getActiveRun (si_db si) groupId memberId of
          None \<Rightarrow> Inl goal_conflict
        | Some run \<Rightarrow>
            rbind (check (runId = None \<or> runId = Some (r_id run)) goal_conflict) (\<lambda>_.
            rbind (authorizeTeamInput si s (Agent groupId memberId (r_id run) (r_generation run))) (\<lambda>_. Inr ())))"

definition add_link :: "string \<Rightarrow> string \<Rightarrow> goals_db \<Rightarrow> goals_db" where
  "add_link actionId delegationId s =
     (if actionId \<in> fst ` set (gs_links s) then s else s\<lparr>gs_links := gs_links s @ [(actionId, delegationId)]\<rparr>)"

definition linkAction :: "agent_action \<Rightarrow> goals_db \<Rightarrow> goals_db" where
  "linkAction a s =
     (case a_principal a of
        Agent _ _ _ _ \<Rightarrow>
          (case working_delegation (tg_groupId (a_target a)) s of None \<Rightarrow> s | Some d \<Rightarrow> add_link (a_id a) (dl_id d) s)
      | _ \<Rightarrow> s)"

definition authorizeHandoff :: "site \<Rightarrow> goals_db \<Rightarrow> create_authorizer" where
  "authorizeHandoff si s who command =
     (case who of
        Foreman f runId generation authorityRevision goalId delegationId goalRevision \<Rightarrow>
          rbind (assertForeman si \<lparr>fp_foremanId = f, fp_runId = runId, fp_generation = generation,
              fp_authorityRevision = authorityRevision\<rparr>) (\<lambda>_.
          rbind (get_goal goalId s) (\<lambda>g.
          rbind (goal_running si Coordination g) (\<lambda>_.
          rbind (get_delegation delegationId s) (\<lambda>d.
          rbind (check (dl_goalId d = gl_id g \<and> gl_foremanId g = f \<and> goalRevision = gl_revision g + 1 \<and>
              dl_groupId d = cc_groupId command \<and> dl_memberId d = cc_memberId command \<and>
              dl_state d \<in> {Dg_queued, Dg_offered, Dg_accepted, Dg_working, Dg_blocked}) goal_conflict) (\<lambda>_.
            assertAssignment si d)))))
      | _ \<Rightarrow> Inr ())"

text \<open>The prompt commands of the service, with the defaults of their schema.\<close>

definition prompt_command :: "string \<Rightarrow> string \<Rightarrow> string option \<Rightarrow> (string \<times> nat \<times> nat) option \<Rightarrow> create_command" where
  "prompt_command groupId memberId prompt expected =
     \<lparr>cc_kind = Akd_prompt, cc_groupId = groupId, cc_memberId = memberId, cc_prompt = prompt, cc_messageId = None,
       cc_conversationId = None, cc_replyToActionId = None, cc_causationId = None, cc_allowWorking = False,
       cc_expectedRunId = map_option fst expected, cc_expectedGeneration = map_option (fst \<circ> snd) expected,
       cc_expectedStatusRevision = map_option (snd \<circ> snd) expected, cc_queueTimeoutMs = 300000,
       cc_acceptanceTimeoutMs = 30000, cc_completionTimeoutMs = 3600000\<rparr>"

definition authorizeAction :: "site \<Rightarrow> goals_db \<Rightarrow> agent_action \<Rightarrow> unit result" where
  "authorizeAction si s a =
     rbind (case a_principal a of
          Foreman _ _ _ _ _ _ _ \<Rightarrow>
            rbind (parse_create_command (prompt_command (tg_groupId (a_target a)) (tg_memberId (a_target a)) (a_prompt a) None))
              (authorizeHandoff si s (a_principal a))
        | _ \<Rightarrow> Inr ()) (\<lambda>_.
     case map_of (gs_links s) (a_id a) of None \<Rightarrow> Inr () | Some delegationId \<Rightarrow>
     rbind (get_delegation delegationId s) (\<lambda>d.
     rbind (get_goal (dl_goalId d) s) (\<lambda>g.
     rbind (goal_running si Coordination g) (\<lambda>_.
     rbind (assertAssignment si d) (\<lambda>_.
     rbind (check (\<not> inactive (dl_state d) \<and> dl_state d \<noteq> Dg_ready) goal_conflict) (\<lambda>_.
     rbind (get_workspace si (dl_goalId d) s) (\<lambda>ws.
       check (\<not> pending_blocking (dl_id d) (ws_decisions ws)) goal_conflict)))))))"

subsection \<open>Takeover, inbox and recovery\<close>

definition works_in :: "site \<Rightarrow> string \<Rightarrow> string \<Rightarrow> bool result" where
  "works_in si runId groupId = rbind (active_runs si groupId) (\<lambda>rs. Inr (list_ex (\<lambda>r. r_id r = runId) rs))"

definition takeover_groups :: "site \<Rightarrow> goal \<Rightarrow> workspace \<Rightarrow> string list" where
  "takeover_groups si g ws =
     map dl_groupId (ws_delegations ws) @
     map pr_groupId (filter (\<lambda>p. pr_phase p \<notin> {Pp_ready, Pp_delegated, Pp_cancelled, Pp_expired, Pp_held})
       (si_prepList si (gl_id g)))"

definition pause_taken_over :: "site \<Rightarrow> string \<Rightarrow> goal \<Rightarrow> goals_db \<Rightarrow> goals_db result" where
  "pause_taken_over si runId g s =
     rbind (get_workspace si (gl_id g) s) (\<lambda>ws.
     rbind (exists_r (works_in si runId) (takeover_groups si g ws)) (\<lambda>involved.
       if map_option r_id (getActiveForemanRun (si_db si) (gl_foremanId g)) = Some runId \<or> involved
       then rbind (control_goal si \<lparr>ct_id = gl_id g, ct_expectedRevision = gl_revision g, ct_action = Ga_pause\<rparr> s)
              (\<lambda>(_, s1). Inr s1)
       else Inr s))"

text \<open>Each pause is a transaction of its own: those made before a failure stay.\<close>

fun pause_goals :: "site \<Rightarrow> string \<Rightarrow> goal list \<Rightarrow> goals_db \<Rightarrow> goals_db \<times> unit result" where
  "pause_goals si runId [] s = (s, Inr ())"
| "pause_goals si runId (g # gs) s =
     (case pause_taken_over si runId g s of Inl e \<Rightarrow> (s, Inl e) | Inr s1 \<Rightarrow> pause_goals si runId gs s1)"

definition pauseForTakeover :: "site \<Rightarrow> string \<Rightarrow> goals_db \<Rightarrow> goals_db \<times> unit result" where
  "pauseForTakeover si runId s =
     (case list_goals False s of
        Inl e \<Rightarrow> (s, Inl e)
      | Inr gs \<Rightarrow> pause_goals si runId (filter (\<lambda>g. gl_state g = Gs_running) gs) s)"

definition authorizeInbox :: "site \<Rightarrow> string \<Rightarrow> goals_db \<Rightarrow> unit result" where
  "authorizeInbox si inboxId s =
     (let key = (case find_where (\<lambda>b. ib_id b = inboxId) (gs_inbox s) of None \<Rightarrow> [] | Some b \<Rightarrow> ib_dedupeKey b)
      in if take 12 key \<noteq> ''goal-review:'' then Inr () else
         rbind (get_goal (takeWhile (\<lambda>c. c \<noteq> CHR '':'') (drop 12 key)) s) (\<lambda>g.
           goal_running si Coordination
             (if gl_state g = Gs_awaiting_acceptance then g\<lparr>gl_state := Gs_running\<rparr> else g)))"

definition recovery_attempts :: "string \<Rightarrow> goals_db \<Rightarrow> nat" where
  "recovery_attempts delegationId s =
     sum_list (map rw_attempts (filter (\<lambda>r. rw_delegationId r = delegationId) (gs_recovery s)))"

definition recovery_row :: "string \<Rightarrow> string \<Rightarrow> goals_db \<Rightarrow> recovery_row option" where
  "recovery_row delegationId memberId s =
     find_where (\<lambda>r. rw_delegationId r = delegationId \<and> rw_memberId r = memberId) (gs_recovery s)"

definition count_recovery :: "site \<Rightarrow> goal \<Rightarrow> string \<Rightarrow> string \<Rightarrow> run \<Rightarrow> goals_db \<Rightarrow> goals_db" where
  "count_recovery si g delegationId memberId run s =
     (let next = si_now si + int (gr_cooldownSeconds (gl_grant g)) * 1000
      in s\<lparr>gs_recovery :=
           (case recovery_row delegationId memberId s of
              None \<Rightarrow> gs_recovery s @ [\<lparr>rw_delegationId = delegationId, rw_memberId = memberId, rw_attempts = 1,
                        rw_lastRunId = r_id run, rw_nextAllowedAt = next\<rparr>]
            | Some _ \<Rightarrow> update_where (\<lambda>r. rw_delegationId r = delegationId \<and> rw_memberId r = memberId)
                (\<lambda>r. r\<lparr>rw_attempts := rw_attempts r + 1, rw_lastRunId := r_id run, rw_nextAllowedAt := next\<rparr>)
                (gs_recovery s))\<rparr>)"

definition recovery_allowed :: "site \<Rightarrow> goal \<Rightarrow> delegation \<Rightarrow> string \<Rightarrow> run option \<Rightarrow> nat \<Rightarrow> goals_db \<Rightarrow> bool" where
  "recovery_allowed si g d memberId run attempts s \<longleftrightarrow>
     (case recovery_row (dl_id d) memberId s of
        None \<Rightarrow> 0 < gr_maxAttemptsPerIncident (gl_grant g)
      | Some r \<Rightarrow> rw_attempts r < gr_maxAttemptsPerIncident (gl_grant g) \<and> rw_nextAllowedAt r \<le> si_now si) \<and>
     attempts < gr_maxAttemptsPerGoal (gl_grant g)"

definition recoverable :: "site \<Rightarrow> goal \<Rightarrow> delegation \<Rightarrow> run option \<Rightarrow> bool" where
  "recoverable si g d run \<longleftrightarrow>
     gr_mode (gl_grant g) = Bounded \<and> gr_restartDelegatedAgents (gl_grant g) \<and>
     (case run of None \<Rightarrow> False
      | Some r \<Rightarrow> r_desiredState r = Ds_running \<and> r_checkoutId r = Some (dl_checkoutId d) \<and>
          \<not> si_controlled si (r_id r)) \<and>
     dl_state d \<in> {Dg_offered, Dg_accepted, Dg_working, Dg_blocked}"

definition authorizeRecovery ::
  "site \<Rightarrow> string \<Rightarrow> string \<Rightarrow> goals_db \<Rightarrow> (bool option \<times> goals_db) result" where
  "authorizeRecovery si groupId memberId s =
     (let run = getLatestRunForMembership (si_db si) groupId memberId in
      case working_delegation groupId s of
        None \<Rightarrow>
          (case si_prepRecovery si groupId memberId of
             Some b \<Rightarrow> Inr (Some b, s)
           | None \<Rightarrow> Inr (if outdated_run run (last_cancelled groupId s) then Some False else None, s))
      | Some d \<Rightarrow>
          rbind (get_goal (dl_goalId d) s) (\<lambda>g.
          if \<not> isl (goal_running si Recovery g) \<and> \<not> isl (assertAssignment si d) \<and> recoverable si g d run
          then rbind (get_workspace si (gl_id g) s) (\<lambda>ws.
                 let attempts = sum_list (map (\<lambda>x. recovery_attempts (dl_id x) s) (ws_delegations ws))
                 in if \<not> recovery_allowed si g d memberId run attempts s then Inr (Some False, s)
                    else let s1 = count_recovery si g (dl_id d) memberId (the run) s;
                             n = (case recovery_row (dl_id d) memberId s of None \<Rightarrow> 0 | Some r \<Rightarrow> rw_attempts r) + 1
                         in Inr (Some True, notify si (''recovery:'' @ dl_id d @ '':'' @ memberId @ '':'' @ show_nat n)
                              Nk_health (Some (gl_id g)) (Some (dl_id d)) None s1))
          else Inr (Some False, s)))"

subsection \<open>Prompts to the accountable member\<close>

text \<open>
  \<open>AgentActionService.create\<close> as the server builds it: the policy asks this service, a new action of a
  member is linked to the delegation of its team. \<open>conversations\<close> authorizes prompts of the channel.
\<close>

record action_maker =
  am_actionId :: string
  am_daemonEpoch :: nat
  am_digest :: "principal \<Rightarrow> create_command \<Rightarrow> string"
  am_conversations :: "create_authorizer option"

definition service_policy :: "site \<Rightarrow> action_maker \<Rightarrow> goals_db \<Rightarrow> peer_policy" where
  "service_policy si mk s =
     \<lparr>pp_goal = Some (authorizeHandoff si s), pp_delegation = Some (authorizePeer si s),
       pp_delegationWait = None, pp_conversation = am_conversations mk\<rparr>"

definition service_create ::
  "site \<Rightarrow> action_maker \<Rightarrow> principal \<Rightarrow> create_command \<Rightarrow> string \<Rightarrow> goals_db \<Rightarrow>
   (db \<times> agent_action \<times> goals_db) result" where
  "service_create si mk who command key s =
     rbind (create_action (si_now si) (am_actionId mk) (am_daemonEpoch mk) (service_policy si mk s)
         (am_digest mk) (\<lambda>_. Inr ()) who command key (si_db si)) (\<lambda>(d, a). Inr (d, a, linkAction a s))"

definition handoff_principal :: "site \<Rightarrow> run \<Rightarrow> goal \<Rightarrow> string \<Rightarrow> principal result" where
  "handoff_principal si run g delegationId =
     rbind (getForeman (si_db si) (gl_foremanId g)) (\<lambda>actor.
       Inr (Foreman (gl_foremanId g) (r_id run) (r_generation run) (f_authorityRevision actor) (gl_id g)
              delegationId (gl_revision g + 1)))"

definition previous_check_ins :: "site \<Rightarrow> delegation \<Rightarrow> agent_action list" where
  "previous_check_ins si d =
     filter (\<lambda>a. (case a_principal a of Foreman _ _ _ _ _ delegationId _ \<Rightarrow> delegationId = dl_id d | _ \<Rightarrow> False) \<and>
       Some (a_id a) \<noteq> dl_actionId d) (team_actions si (dl_groupId d))"

definition checkIn ::
  "site \<Rightarrow> action_maker \<Rightarrow> foreman_principal \<Rightarrow> check_in_command \<Rightarrow> goals_db \<Rightarrow>
   (db \<times> agent_action \<times> goals_db) result" where
  "checkIn si mk who command s =
     rbind (assertForeman si who) (\<lambda>_.
     rbind (parse_check_in command) (\<lambda>input.
     rbind (get_delegation (cki_delegationId input) s) (\<lambda>d.
     rbind (get_goal (dl_goalId d) s) (\<lambda>g.
     rbind (goal_running si Intervention g) (\<lambda>_.
     rbind (check (gr_idlePrompt (gl_grant g) \<and> gr_mode (gl_grant g) = Bounded) goal_conflict) (\<lambda>_.
     let previous = previous_check_ins si d; key = ''check-in:'' @ dl_id d @ '':'' @ cki_requestId input
     in case find_where (\<lambda>a. a_idempotencyKey a = key) previous of
          Some a \<Rightarrow>
            rbind (check (a_prompt a = Some (cki_text input) \<and> tg_runId (a_target a) = cki_expectedRunId input \<and>
                tg_generation (a_target a) = cki_expectedGeneration input) goal_conflict) (\<lambda>_. Inr (si_db si, a, s))
        | None \<Rightarrow>
            rbind (check (length previous < gr_maxPerIncident (gl_grant g) \<and>
                list_all (\<lambda>a. settled_action (a_state a)) previous \<and>
                list_all (\<lambda>a. a_createdAt a + int (gr_cooldownSeconds (gl_grant g)) * 1000 \<le> si_now si) previous)
              goal_conflict) (\<lambda>_.
            rbind (service_create si mk (Foreman (fp_foremanId who) (fp_runId who) (fp_generation who)
                  (fp_authorityRevision who) (gl_id g) (dl_id d) (gl_revision g + 1))
                (prompt_command (dl_groupId d) (dl_memberId d) (Some (cki_text input))
                  (Some (cki_expectedRunId input, cki_expectedGeneration input, cki_expectedStatusRevision input)))
                key s) (\<lambda>(db1, a, s1). Inr (db1, a, add_link (a_id a) (dl_id d) s1)))))))))"

subsection \<open>The supervision pass\<close>

text \<open>
  One pass of \<open>#reconcile\<close> works on the running goals it listed at its start and, per goal, on the
  delegations it listed then, with awaits in between (starting a member's run). Each stretch between two
  awaits is a function here; the goal or the delegation it gets may be outdated by then.
\<close>

definition tick_goals :: "goals_db \<Rightarrow> goal list result" where
  "tick_goals s = rbind (list_goals False s) (\<lambda>gs. Inr (filter (\<lambda>g. gl_state g = Gs_running) gs))"

definition tick_block :: "site \<Rightarrow> goal \<Rightarrow> goals_db \<Rightarrow> goals_db" where
  "tick_block si current s =
     (if isl (goal_running si Coordination current)
      then notify si (''policy:'' @ gl_id current @ '':'' @ show_nat (gl_revision current)) Nk_health
             (Some (gl_id current)) None None
             (save_goal (current\<lparr>gl_state := Gs_blocked, gl_revision := gl_revision current + 1\<rparr>) s)
      else s)"

definition tick_offline :: "site \<Rightarrow> goal \<Rightarrow> goals_db \<Rightarrow> goals_db" where
  "tick_offline si current s =
     (let run = getActiveForemanRun (si_db si) (gl_foremanId current)
      in if pred_option (\<lambda>r. r_status r = Rs_failed) run
         then notify si (''foreman-offline:'' @ gl_id current @ '':'' @ (case run of None \<Rightarrow> ''none'' | Some r \<Rightarrow> r_id r))
                Nk_health (Some (gl_id current)) None None s
         else s)"

definition tick_delegates :: "site \<Rightarrow> goal \<Rightarrow> goals_db \<Rightarrow> delegation list result" where
  "tick_delegates si current s =
     rbind (get_workspace si (gl_id current) s) (\<lambda>ws.
       Inr (filter (\<lambda>d. \<not> inactive (dl_state d)) (ws_delegations ws)))"

definition tick_first_review :: "site \<Rightarrow> uuids \<Rightarrow> goal \<Rightarrow> delegation list \<Rightarrow> goals_db \<Rightarrow> goals_db result" where
  "tick_first_review si ids current delegates s =
     (if delegates = [] \<and> \<not> list_ex (is_review_of (gl_id current)) (gs_inbox s)
      then rbind (get_goal (gl_id current) s) (\<lambda>g. Inr (snd (wake si (ids 0) (ids 1) g s))) else Inr s)"

text \<open>The handoff of a queued delegation, after the runs of its team were started.\<close>

definition handoff_ready :: "status_detail \<Rightarrow> bool" where
  "handoff_ready st \<longleftrightarrow>
     status_available st \<and> st_authorityKind (sd_body st) = Ak_reporter \<and> st_processState (sd_body st) = Ps_present"

definition offer_delegation ::
  "site \<Rightarrow> action_maker \<Rightarrow> run \<Rightarrow> string \<Rightarrow> goal \<Rightarrow> delegation \<Rightarrow> goals_db \<Rightarrow> (db \<times> goals_db) result" where
  "offer_delegation si mk run prompt current d s =
     (case getActiveRun (si_db si) (dl_groupId d) (dl_memberId d) of
        None \<Rightarrow> rbind (getAgentStatus (si_db si) (dl_groupId d) (dl_memberId d) None) (\<lambda>_. Inr (si_db si, s))
      | Some target \<Rightarrow>
          rbind (getAgentStatus (si_db si) (dl_groupId d) (dl_memberId d) None) (\<lambda>st.
          if \<not> handoff_ready st then Inr (si_db si, s) else
          rbind (get_goal (gl_id current) s) (\<lambda>g.
          rbind (handoff_principal si run g (dl_id d)) (\<lambda>who.
          rbind (requestContext si g (Some (dl_checkoutId d))) (\<lambda>_.
          rbind (service_create si mk who (prompt_command (dl_groupId d) (dl_memberId d) (Some prompt)
              (Some (r_id target, r_generation target, st_statusRevision (sd_body st))))
              (''delegation:'' @ dl_id d) s) (\<lambda>(db1, a, s1).
            Inr (db1, add_link (a_id a) (dl_id d) (save_delegation
              (d\<lparr>dl_state := Dg_offered, dl_revision := dl_revision d + 1, dl_actionId := Some (a_id a),
                 dl_runId := Some (r_id target), dl_generation := Some (r_generation target),
                 dl_nextCheckAt := si_now si + 900000\<rparr>) s1))))))))"

definition notice_key :: "delegation \<Rightarrow> decision \<Rightarrow> string" where
  "notice_key d dn = ''decision-notice:'' @ dl_id d @ '':'' @ dn_id dn"

definition notice_decision ::
  "site \<Rightarrow> action_maker \<Rightarrow> run \<Rightarrow> string \<Rightarrow> goal \<Rightarrow> delegation \<Rightarrow> decision \<Rightarrow> goals_db \<Rightarrow> (db \<times> goals_db) result" where
  "notice_decision si mk run prompt current d dn s =
     (if list_ex (\<lambda>a. a_idempotencyKey a = notice_key d dn) (team_actions si (dl_groupId d)) then Inr (si_db si, s) else
      case getActiveRun (si_db si) (dl_groupId d) (dl_memberId d) of
        None \<Rightarrow> rbind (getAgentStatus (si_db si) (dl_groupId d) (dl_memberId d) None) (\<lambda>_. Inr (si_db si, s))
      | Some target \<Rightarrow>
          rbind (getAgentStatus (si_db si) (dl_groupId d) (dl_memberId d) None) (\<lambda>st.
          if \<not> status_available st then Inr (si_db si, s) else
          rbind (get_goal (gl_id current) s) (\<lambda>g.
          rbind (handoff_principal si run g (dl_id d)) (\<lambda>who.
          rbind (service_create si mk who (prompt_command (dl_groupId d) (dl_memberId d) (Some prompt)
              (Some (r_id target, r_generation target, st_statusRevision (sd_body st)))) (notice_key d dn) s)
            (\<lambda>(db1, a, s1). Inr (db1, add_link (a_id a) (dl_id d) s1))))))"

definition notice_due :: "delegation \<Rightarrow> workspace \<Rightarrow> decision list" where
  "notice_due d ws =
     filter (\<lambda>dn. dn_state dn = Dn_resolved \<and> dn_kind dn = Dk_question \<and>
       (dn_delegationId dn = None \<or> dn_delegationId dn = Some (dl_id d))) (ws_decisions ws)"

definition team_issue :: "team_member \<Rightarrow> bool" where
  "team_issue m \<longleftrightarrow>
     sd_state (mb_status m) \<in> {St_failed, St_blocked, St_unknown, St_stopped} \<or> st_staleAuthority (sd_body (mb_status m))"

definition review_due :: "site \<Rightarrow> uuids \<Rightarrow> string \<Rightarrow> goal \<Rightarrow> delegation \<Rightarrow> goals_db \<Rightarrow> goals_db result" where
  "review_due si ids healthKey current d s =
     (if \<not> (dl_nextCheckAt d \<le> si_now si \<and> dl_state d \<noteq> Dg_queued) then Inr s else
      rbind (discover si s) (\<lambda>teams.
      let issues = filter team_issue (members_of_team teams (dl_groupId d))
      in rbind (get_goal (gl_id current) s) (\<lambda>g.
         let s1 = snd (wake si (ids 0) (ids 1) g s)
         in rbind (get_delegation (dl_id d) s1) (\<lambda>d1.
            let interval = (case si_foreman si of None \<Rightarrow> 300 | Some f \<Rightarrow> fc_reviewIntervalSeconds f);
                s2 = save_delegation (d1\<lparr>dl_nextCheckAt := si_now si + int (max 30 interval) * 1000\<rparr>) s1
            in Inr (if issues = [] then s2
                    else notify si healthKey Nk_health (Some (gl_id current)) (Some (dl_id d)) None s2)))))"

definition tick_problem :: "site \<Rightarrow> goal \<Rightarrow> delegation \<Rightarrow> goals_db \<Rightarrow> goals_db" where
  "tick_problem si current d s =
     notify si (''delegation-problem:'' @ dl_id d @ '':'' @ show_nat (dl_revision d)) Nk_health
       (Some (gl_id current)) (Some (dl_id d)) None s"

subsection \<open>Resetting and removing\<close>

datatype reset_scope = Rsc_channel | Rsc_finished_goals | Rsc_all

definition run_active :: "site \<Rightarrow> (run \<Rightarrow> bool) \<Rightarrow> bool" where
  "run_active si p \<longleftrightarrow> list_ex (\<lambda>r. p r \<and> active_status (r_status r)) (db_runs (si_db si))"

definition foreman_run :: "run \<Rightarrow> bool" where
  "foreman_run r \<longleftrightarrow> (case r_owner r of ForemanRun _ \<Rightarrow> True | _ \<Rightarrow> False)"

definition removed_goals :: "reset_scope \<Rightarrow> goal list \<Rightarrow> goal list" where
  "removed_goals scope gs =
     (case scope of Rsc_channel \<Rightarrow> [] | Rsc_all \<Rightarrow> gs | Rsc_finished_goals \<Rightarrow> filter (\<lambda>g. inactive_goal (gl_state g)) gs)"

definition retired :: "reset_scope \<Rightarrow> string list \<Rightarrow> goals_db \<Rightarrow> agent_action \<Rightarrow> bool" where
  "retired scope goalIds s a \<longleftrightarrow> \<not> settled_action (a_state a) \<and>
     (list_ex (\<lambda>l. fst l = a_id a \<and>
          list_ex (\<lambda>d. dl_id d = snd l \<and> dl_goalId d \<in> set goalIds) (delegations s)) (gs_links s) \<or>
      (case a_principal a of
         Foreman _ _ _ _ goalId _ _ \<Rightarrow> scope = Rsc_all \<or> goalId \<in> set goalIds
       | ForemanConversation _ _ _ _ _ \<Rightarrow> scope \<noteq> Rsc_finished_goals
       | _ \<Rightarrow> False))"

definition purge_goal :: "goal \<Rightarrow> goals_db \<Rightarrow> goals_db" where
  "purge_goal g s =
     (let ids = map dl_id (filter (\<lambda>d. dl_goalId d = gl_id g) (delegations s))
      in s\<lparr>gs_removed := filter (\<lambda>i. i \<noteq> gl_id g) (gs_removed s),
           gs_links := filter (\<lambda>l. snd l \<notin> set ids) (gs_links s),
           gs_recovery := filter (\<lambda>r. rw_delegationId r \<notin> set ids) (gs_recovery s),
           gs_reports := filter (\<lambda>r. rt_delegationId (cr_value r) \<notin> set ids) (gs_reports s),
           gs_inbox := filter (\<lambda>b. \<not> is_review_of (gl_id g) b) (gs_inbox s),
           gs_notes := filter (\<lambda>n. nt_goalId n \<noteq> Some (gl_id g)) (gs_notes s),
           gs_goals := filter (\<lambda>r. gl_id (cr_value r) \<noteq> gl_id g) (gs_goals s),
           gs_delegations := filter (\<lambda>r. dl_goalId (cr_value r) \<noteq> gl_id g) (gs_delegations s),
           gs_decisions := filter (\<lambda>r. dn_goalId (cr_value r) \<noteq> gl_id g) (gs_decisions s)\<rparr>)"

definition purge_all :: "reset_scope \<Rightarrow> goals_db \<Rightarrow> goals_db" where
  "purge_all scope s =
     (let s1 = (if scope = Rsc_finished_goals then s else s\<lparr>gs_inbox := []\<rparr>)
      in if scope = Rsc_all
         then s1\<lparr>gs_goals := [], gs_delegations := [], gs_reports := [], gs_decisions := [],
                 gs_notes := [], gs_cursors := []\<rparr>
         else s1)"

definition resetState ::
  "site \<Rightarrow> string \<Rightarrow> string \<Rightarrow> reset_scope \<Rightarrow> goals_db \<Rightarrow> (db \<times> nat \<times> goals_db) result" where
  "resetState si operatorId confirmation scope s =
     guarded (confirmation = ''RESET'')
      (rbind (check (\<not> run_active si foreman_run) goal_conflict) (\<lambda>_.
       rbind (list_goals True s) (\<lambda>gs.
       rbind (check (\<not> (scope = Rsc_channel \<and> gs \<noteq> [])) goal_conflict) (\<lambda>_.
       rbind (check (\<not> (scope = Rsc_all \<and>
           list_ex (\<lambda>d. run_active si (\<lambda>r. run_group r = Some (dl_groupId d))) (delegations s))) goal_conflict) (\<lambda>_.
       let removed = removed_goals scope gs
       in rbind (exists_r (\<lambda>g. exists_r (\<lambda>p. rbind (listGroupRunsRequiringStop (si_db si) (pr_groupId p))
               (\<lambda>rs. Inr (rs \<noteq> []))) (si_prepList si (gl_id g))) removed) (\<lambda>prepared.
       rbind (check (\<not> prepared) goal_conflict) (\<lambda>_.
       rbind (reset_actions (si_now si) (retired scope (map gl_id removed) s) (si_db si)) (\<lambda>db1.
       let s1 = purge_all scope (foldl (\<lambda>t g. purge_goal g t) s removed)
       in Inr (db1, length removed,
            s1\<lparr>gs_audits := gs_audits s1 @ [(operatorId, ''foreman.reset-state'',
                 case si_foreman si of None \<Rightarrow> ''repository'' | Some f \<Rightarrow> fc_id f)]\<rparr>)))))))))"

text \<open>Removing one goal from view (\<open>foreman-cleanup-service.ts\<close>), and what becomes of the actions its work left behind.\<close>

definition remove_goal :: "site \<Rightarrow> string \<Rightarrow> nat \<Rightarrow> bool \<Rightarrow> goals_db \<Rightarrow> goals_db result" where
  "remove_goal si goalId expectedRevision cancel s =
     (if goalId \<in> set (gs_removed s) then Inr s else
      rbind (get_goal goalId s) (\<lambda>g.
      rbind (check (gl_revision g = expectedRevision) (DomainError ''foreman_cleanup_stale'' 409)) (\<lambda>_.
      rbind (if inactive_goal (gl_state g) then Inr s
             else if \<not> cancel then Inl (DomainError ''foreman_cleanup_active'' 409)
             else rbind (control_goal si \<lparr>ct_id = goalId, ct_expectedRevision = expectedRevision, ct_action = Ga_cancel\<rparr> s)
                    (\<lambda>(_, s1). Inr s1)) (\<lambda>s1.
        Inr (s1\<lparr>gs_removed := gs_removed s1 @ [gl_id g]\<rparr>)))))"

definition removed_effects :: "string list option \<Rightarrow> goals_db \<Rightarrow> (string \<times> string list) list" where
  "removed_effects goalIds s =
     map (\<lambda>i. (i, map fst (filter (\<lambda>l. list_ex (\<lambda>d. dl_id d = snd l \<and> dl_goalId d = i) (delegations s))
            (gs_links s))))
       (filter (\<lambda>i. (case goalIds of None \<Rightarrow> True | Some is \<Rightarrow> i \<in> set is) \<and>
            list_ex (\<lambda>g. gl_id g = i \<and> gl_state g = Gs_cancelled) (goals_of s)) (gs_removed s))"

definition reconcile_removed :: "site \<Rightarrow> string list option \<Rightarrow> goals_db \<Rightarrow> db result" where
  "reconcile_removed si goalIds s =
     reconcileRemovedEffects (si_now si) (removed_effects goalIds s) (si_db si)"

end
