(* ===== verification/Foreman_Records.thy ===== *)
theory Foreman_Records
  imports Foreman_Goals
begin

text \<open>
  The records of the goal service as four sets, the invariant of the service over them, and the lemmas for
  each way a record is written or removed. The invariant is a conjunction of small predicates: ids are
  unique, references are to stored records, active delegations have teams and checkouts of their own,
  budgets are kept, delegations were approved, decisions were taken by who may take them, candidates were
  reported by the accountable member, and completed goals had their candidates reviewed.
\<close>

subsection \<open>The records as sets\<close>

text \<open>
  Each kind of record is a set of values with distinct ids. A save replaces the value of its id, whatever
  it was; everything else the operations write is outside these four sets.
\<close>


definition goal_set :: "goals_db \<Rightarrow> goal set" where "goal_set s = set (goals_of s)"
definition delegation_set :: "goals_db \<Rightarrow> delegation set" where "delegation_set s = set (delegations s)"
definition report_set :: "goals_db \<Rightarrow> report set" where "report_set s = set (reports_of s)"
definition decision_set :: "goals_db \<Rightarrow> decision set" where "decision_set s = set (decisions_of s)"

lemmas coord_sets = goal_set_def delegation_set_def report_set_def decision_set_def

lemma finite_sets [simp]: "finite (goal_set s)" "finite (delegation_set s)" "finite (report_set s)" "finite (decision_set s)"
  by (simp_all add: coord_sets)

lemma set_coord_save:
  "set (map cr_value (coord_save idf v k dg rs)) = insert v {x \<in> set (map cr_value rs). idf x \<noteq> idf v}"
proof (cases "list_ex (\<lambda>r. idf (cr_value r) = idf v) rs")
  case True
  then show ?thesis by (auto simp: coord_save_def update_where_def list_ex_iff image_iff split: if_splits)
next
  case False
  then show ?thesis by (auto simp: coord_save_def list_ex_iff image_iff)
qed

lemma ids_coord_save:
  "map idf (map cr_value (coord_save idf v k dg rs)) =
     (if idf v \<in> set (map idf (map cr_value rs)) then map idf (map cr_value rs)
      else map idf (map cr_value rs) @ [idf v])"
proof (cases "list_ex (\<lambda>r. idf (cr_value r) = idf v) rs")
  case True
  then have "map (idf \<circ> cr_value) (update_where (\<lambda>r. idf (cr_value r) = idf v) (\<lambda>r. r\<lparr>cr_value := v\<rparr>) rs) =
      map (idf \<circ> cr_value) rs"
    by (auto simp: update_where_def)
  moreover have "idf v \<in> set (map idf (map cr_value rs))" using True by (force simp: list_ex_iff image_iff)
  ultimately show ?thesis using True by (simp add: coord_save_def comp_def)
next
  case False
  then show ?thesis by (auto simp: coord_save_def list_ex_iff)
qed

lemma distinct_coord_save:
  "distinct (map idf (map cr_value rs)) \<Longrightarrow> distinct (map idf (map cr_value (coord_save idf v k dg rs)))"
  by (simp only: ids_coord_save split: if_splits) simp

lemma coord_get_Inr: "coord_get idf i rs = Inr v \<Longrightarrow> v \<in> set (map cr_value rs) \<and> idf v = i"
  by (auto simp: coord_get_def dest: find_where_SomeD)

lemma coord_existing_None: "coord_existing k dg rs = Inr None \<Longrightarrow> \<forall>r\<in>set rs. cr_key r \<noteq> Some k"
  by (auto simp: coord_existing_def find_where_None_iff split: option.splits if_splits)

lemma coord_existing_Some: "coord_existing k dg rs = Inr (Some v) \<Longrightarrow> v \<in> set (map cr_value rs)"
  by (auto simp: coord_existing_def dest: find_where_SomeD split: option.splits if_splits)

lemma get_goal_Inr: "get_goal i s = Inr g \<Longrightarrow> g \<in> goal_set s \<and> gl_id g = i"
  by (auto simp: get_goal_def validateGoal_def rbind_eq_Inr goal_set_def dest!: coord_get_Inr)

lemma get_delegation_Inr: "get_delegation i s = Inr d \<Longrightarrow> d \<in> delegation_set s \<and> dl_id d = i"
  unfolding get_delegation_def delegation_set_def by (rule coord_get_Inr)

lemma same_id: "distinct (map f xs) \<Longrightarrow> x \<in> set xs \<Longrightarrow> y \<in> set xs \<Longrightarrow> f x = f y \<Longrightarrow> x = y"
  by (simp add: distinct_map inj_on_def)

text \<open>What the writes outside the four sets leave alone.\<close>

lemma notify_frame [simp]:
  "gs_goals (notify si k nk a b c s) = gs_goals s" "gs_delegations (notify si k nk a b c s) = gs_delegations s"
  "gs_reports (notify si k nk a b c s) = gs_reports s" "gs_decisions (notify si k nk a b c s) = gs_decisions s"
  "gs_inbox (notify si k nk a b c s) = gs_inbox s"
  by (simp_all add: notify_def)

lemma save_frame [simp]:
  "gs_delegations (save_goal g s) = gs_delegations s" "gs_reports (save_goal g s) = gs_reports s"
  "gs_decisions (save_goal g s) = gs_decisions s"
  "gs_goals (save_delegation d s) = gs_goals s" "gs_reports (save_delegation d s) = gs_reports s"
  "gs_decisions (save_delegation d s) = gs_decisions s"
  "gs_goals (save_decision n s) = gs_goals s" "gs_delegations (save_decision n s) = gs_delegations s"
  "gs_reports (save_decision n s) = gs_reports s"
  "gs_goals (add_link a i s) = gs_goals s" "gs_delegations (add_link a i s) = gs_delegations s"
  "gs_reports (add_link a i s) = gs_reports s" "gs_decisions (add_link a i s) = gs_decisions s"
  "gs_goals (recordAutomaticApproval g y1 y2 s) = gs_goals s"
  "gs_delegations (recordAutomaticApproval g y1 y2 s) = gs_delegations s"
  "gs_reports (recordAutomaticApproval g y1 y2 s) = gs_reports s"
  "gs_decisions (recordAutomaticApproval g y1 y2 s) = gs_decisions s"
  by (simp_all add: save_goal_def save_delegation_def save_decision_def add_link_def recordAutomaticApproval_def)

lemma linkAction_frame [simp]:
  "gs_goals (linkAction a s) = gs_goals s" "gs_delegations (linkAction a s) = gs_delegations s"
  "gs_reports (linkAction a s) = gs_reports s" "gs_decisions (linkAction a s) = gs_decisions s"
  by (simp_all add: linkAction_def split: principal.splits option.splits)

lemma set_frame [simp]:
  "goal_set (s\<lparr>gs_delegations := x2\<rparr>) = goal_set s"
  "goal_set (s\<lparr>gs_reports := x3\<rparr>) = goal_set s"
  "goal_set (s\<lparr>gs_decisions := x4\<rparr>) = goal_set s"
  "goal_set (s\<lparr>gs_inbox := x5\<rparr>) = goal_set s"
  "goal_set (s\<lparr>gs_removed := x6\<rparr>) = goal_set s"
  "goal_set (s\<lparr>gs_audits := x7\<rparr>) = goal_set s"
  "goal_set (s\<lparr>gs_cursors := x8\<rparr>) = goal_set s"
  "goal_set (s\<lparr>gs_recovery := x9\<rparr>) = goal_set s"
  "delegation_set (s\<lparr>gs_goals := x1\<rparr>) = delegation_set s"
  "delegation_set (s\<lparr>gs_reports := x3\<rparr>) = delegation_set s"
  "delegation_set (s\<lparr>gs_decisions := x4\<rparr>) = delegation_set s"
  "delegation_set (s\<lparr>gs_inbox := x5\<rparr>) = delegation_set s"
  "delegation_set (s\<lparr>gs_removed := x6\<rparr>) = delegation_set s"
  "delegation_set (s\<lparr>gs_audits := x7\<rparr>) = delegation_set s"
  "delegation_set (s\<lparr>gs_cursors := x8\<rparr>) = delegation_set s"
  "delegation_set (s\<lparr>gs_recovery := x9\<rparr>) = delegation_set s"
  "report_set (s\<lparr>gs_goals := x1\<rparr>) = report_set s"
  "report_set (s\<lparr>gs_delegations := x2\<rparr>) = report_set s"
  "report_set (s\<lparr>gs_decisions := x4\<rparr>) = report_set s"
  "report_set (s\<lparr>gs_inbox := x5\<rparr>) = report_set s"
  "report_set (s\<lparr>gs_removed := x6\<rparr>) = report_set s"
  "report_set (s\<lparr>gs_audits := x7\<rparr>) = report_set s"
  "report_set (s\<lparr>gs_cursors := x8\<rparr>) = report_set s"
  "report_set (s\<lparr>gs_recovery := x9\<rparr>) = report_set s"
  "decision_set (s\<lparr>gs_goals := x1\<rparr>) = decision_set s"
  "decision_set (s\<lparr>gs_delegations := x2\<rparr>) = decision_set s"
  "decision_set (s\<lparr>gs_reports := x3\<rparr>) = decision_set s"
  "decision_set (s\<lparr>gs_inbox := x5\<rparr>) = decision_set s"
  "decision_set (s\<lparr>gs_removed := x6\<rparr>) = decision_set s"
  "decision_set (s\<lparr>gs_audits := x7\<rparr>) = decision_set s"
  "decision_set (s\<lparr>gs_cursors := x8\<rparr>) = decision_set s"
  "decision_set (s\<lparr>gs_recovery := x9\<rparr>) = decision_set s"
  "goal_set (notify si k nk a b c s) = goal_set s"
  "goal_set (add_link a' i s) = goal_set s"
  "goal_set (recordAutomaticApproval g y1 y2 s) = goal_set s"
  "goal_set (linkAction act s) = goal_set s"
  "delegation_set (notify si k nk a b c s) = delegation_set s"
  "delegation_set (add_link a' i s) = delegation_set s"
  "delegation_set (recordAutomaticApproval g y1 y2 s) = delegation_set s"
  "delegation_set (linkAction act s) = delegation_set s"
  "report_set (notify si k nk a b c s) = report_set s"
  "report_set (add_link a' i s) = report_set s"
  "report_set (recordAutomaticApproval g y1 y2 s) = report_set s"
  "report_set (linkAction act s) = report_set s"
  "decision_set (notify si k nk a b c s) = decision_set s"
  "decision_set (add_link a' i s) = decision_set s"
  "decision_set (recordAutomaticApproval g y1 y2 s) = decision_set s"
  "decision_set (linkAction act s) = decision_set s"
  "delegation_set (save_goal g s) = delegation_set s"
  "report_set (save_goal g s) = report_set s"
  "decision_set (save_goal g s) = decision_set s"
  "goal_set (save_delegation d s) = goal_set s"
  "report_set (save_delegation d s) = report_set s"
  "decision_set (save_delegation d s) = decision_set s"
  "goal_set (save_decision n s) = goal_set s"
  "delegation_set (save_decision n s) = delegation_set s"
  "report_set (save_decision n s) = report_set s"
  by (simp_all add: coord_sets)

lemma set_saves [simp]:
  "goal_set (save_goal g s) = insert g {x \<in> goal_set s. gl_id x \<noteq> gl_id g}"
  "delegation_set (save_delegation d s) = insert d {x \<in> delegation_set s. dl_id x \<noteq> dl_id d}"
  "decision_set (save_decision n s) = insert n {x \<in> decision_set s. dn_id x \<noteq> dn_id n}"
  by (simp_all add: coord_sets save_goal_def save_delegation_def save_decision_def set_coord_save del: set_map)

lemma set_puts [simp]:
  "goal_set (s\<lparr>gs_goals := coord_save gl_id g k dg (gs_goals s)\<rparr>) = insert g {x \<in> goal_set s. gl_id x \<noteq> gl_id g}"
  "delegation_set (s\<lparr>gs_delegations := coord_save dl_id d k dg (gs_delegations s)\<rparr>) =
     insert d {x \<in> delegation_set s. dl_id x \<noteq> dl_id d}"
  "report_set (s\<lparr>gs_reports := coord_save rt_id r k dg (gs_reports s)\<rparr>) = insert r {x \<in> report_set s. rt_id x \<noteq> rt_id r}"
  "decision_set (s\<lparr>gs_decisions := coord_save dn_id n k dg (gs_decisions s)\<rparr>) =
     insert n {x \<in> decision_set s. dn_id x \<noteq> dn_id n}"
  by (simp_all add: coord_sets set_coord_save del: set_map)

subsection \<open>The invariant\<close>

text \<open>What makes a decision the approval of a delegation.\<close>

definition by_policy :: "string \<Rightarrow> bool" where
  "by_policy who \<longleftrightarrow> take (length (policy_id [])) who = policy_id []"

definition approves :: "decision \<Rightarrow> delegation \<Rightarrow> bool" where
  "approves n d \<longleftrightarrow>
     dn_state n = Dn_resolved \<and> dn_answer n = Some ''approve'' \<and> dn_goalId n = dl_goalId d \<and>
     ((dn_kind n = Dk_delegation \<and> dn_delegationId n = Some (dl_id d)) \<or>
      (dn_kind n = Dk_preparation \<and> pred_option (\<lambda>by. \<not> by_policy by) (dn_decidedBy n)))"

text \<open>An independent review that approved the very candidate the accountable member reported ready.\<close>

definition reviewed :: "goals_db \<Rightarrow> delegation \<Rightarrow> bool" where
  "reviewed s d \<longleftrightarrow>
     (\<exists>ready\<in>report_set s. \<exists>review\<in>report_set s.
        rt_delegationId ready = dl_id d \<and> rt_kind ready = Rk_ready \<and> rt_memberId ready = dl_memberId d \<and>
        rt_delegationId review = dl_id d \<and> rt_kind review = Rk_review \<and> rt_memberId review \<noteq> dl_memberId d \<and>
        same_candidate (rt_candidateHead ready) (rt_candidatePath ready) (rt_candidateDigest ready) review \<and>
        rpc_reviewOutcome (rt_command review) = Some Rv_approved \<and> rpc_evidence (rt_command review) \<noteq> [])"

definition active :: "delegation \<Rightarrow> bool" where "active d \<longleftrightarrow> \<not> inactive (dl_state d)"

definition ids_ok :: "goals_db \<Rightarrow> bool" where
  "ids_ok s \<longleftrightarrow> distinct (map gl_id (goals_of s)) \<and> distinct (map dl_id (delegations s)) \<and>
     distinct (map rt_id (reports_of s)) \<and> distinct (map dn_id (decisions_of s))"

definition refs_ok :: "goals_db \<Rightarrow> bool" where
  "refs_ok s \<longleftrightarrow> dl_goalId ` delegation_set s \<subseteq> gl_id ` goal_set s \<and> dn_goalId ` decision_set s \<subseteq> gl_id ` goal_set s \<and>
     rt_delegationId ` report_set s \<subseteq> dl_id ` delegation_set s"

definition reserved_ok :: "goals_db \<Rightarrow> bool" where
  "reserved_ok s \<longleftrightarrow> (\<forall>d\<in>delegation_set s. \<forall>d'\<in>delegation_set s. active d \<longrightarrow> active d' \<longrightarrow> dl_id d \<noteq> dl_id d' \<longrightarrow>
     dl_groupId d \<noteq> dl_groupId d' \<and> dl_checkoutId d \<noteq> dl_checkoutId d')"

definition budgets_ok :: "goals_db \<Rightarrow> bool" where
  "budgets_ok s \<longleftrightarrow> (\<forall>g\<in>goal_set s.
     card {d \<in> delegation_set s. active d \<and> dl_goalId d = gl_id g} \<le> gr_maxTeamsPerGoal (gl_grant g) \<and>
     gl_turnsUsed g \<le> gr_maxForemanTurns (gl_grant g))"

definition approved_ok :: "goals_db \<Rightarrow> bool" where
  "approved_ok s \<longleftrightarrow> (\<forall>d\<in>delegation_set s. dl_state d \<noteq> Dg_proposed \<longrightarrow> dl_state d \<noteq> Dg_cancelled \<longrightarrow>
     (\<exists>n\<in>decision_set s. approves n d))"

definition decided_ok :: "goals_db \<Rightarrow> bool" where
  "decided_ok s \<longleftrightarrow> (\<forall>n\<in>decision_set s. dn_state n = Dn_resolved \<longrightarrow> (\<exists>by. dn_decidedBy n = Some by \<and>
     (by_policy by \<longrightarrow> (\<forall>g\<in>goal_set s. gl_id g = dn_goalId n \<longrightarrow> gr_approvalMode (gl_grant g) = Autonomous_approval))))"

definition leads_ok :: "goals_db \<Rightarrow> bool" where
  "leads_ok s \<longleftrightarrow> (\<forall>r\<in>report_set s. \<forall>d\<in>delegation_set s. rt_delegationId r = dl_id d \<longrightarrow> rt_kind r = Rk_ready \<longrightarrow>
     rt_memberId r = dl_memberId d)"

definition completed_ok :: "goals_db \<Rightarrow> bool" where
  "completed_ok s \<longleftrightarrow>
     (\<forall>d\<in>delegation_set s. dl_state d = Dg_completed \<longrightarrow> reviewed s d) \<and>
     (\<forall>g\<in>goal_set s. gl_state g = Gs_completed \<longrightarrow>
        (\<forall>d\<in>delegation_set s. dl_goalId d = gl_id g \<longrightarrow> inactive (dl_state d)) \<and>
        (\<exists>d\<in>delegation_set s. dl_goalId d = gl_id g \<and> dl_state d = Dg_completed))"

definition asked_ok :: "goals_db \<Rightarrow> bool" where
  "asked_ok s \<longleftrightarrow> (\<forall>n\<in>decision_set s. \<forall>i. dn_delegationId n = Some i \<longrightarrow>
     (\<exists>d\<in>delegation_set s. dl_id d = i \<and> dl_goalId d = dn_goalId n))"

lemmas coord_defs = ids_ok_def refs_ok_def reserved_ok_def budgets_ok_def approved_ok_def decided_ok_def leads_ok_def
  completed_ok_def asked_ok_def

definition coord_ok :: "goals_db \<Rightarrow> bool" where
  "coord_ok s \<longleftrightarrow> ids_ok s \<and> refs_ok s \<and> reserved_ok s \<and> budgets_ok s \<and> approved_ok s \<and> decided_ok s \<and>
     leads_ok s \<and> completed_ok s \<and> asked_ok s"

text \<open>The invariant is about the four sets only.\<close>

lemma coord_ok_frame:
  "gs_goals t = gs_goals s \<Longrightarrow> gs_delegations t = gs_delegations s \<Longrightarrow> gs_reports t = gs_reports s \<Longrightarrow>
     gs_decisions t = gs_decisions s \<Longrightarrow> coord_ok t = coord_ok s"
  by (simp add: coord_ok_def coord_defs reviewed_def coord_sets)

subsection \<open>Saves that keep the invariant\<close>

lemma coord_okD:
  assumes "coord_ok s"
  shows "ids_ok s" "refs_ok s" "reserved_ok s" "budgets_ok s" "approved_ok s" "decided_ok s" "leads_ok s" "completed_ok s" "asked_ok s"
  using assms by (simp_all add: coord_ok_def)

lemma ids_inj:
  assumes "ids_ok s"
  shows "x \<in> goal_set s \<Longrightarrow> y \<in> goal_set s \<Longrightarrow> gl_id x = gl_id y \<Longrightarrow> x = y"
    and "d \<in> delegation_set s \<Longrightarrow> d' \<in> delegation_set s \<Longrightarrow> dl_id d = dl_id d' \<Longrightarrow> d = d'"
    and "r \<in> report_set s \<Longrightarrow> r' \<in> report_set s \<Longrightarrow> rt_id r = rt_id r' \<Longrightarrow> r = r'"
    and "n \<in> decision_set s \<Longrightarrow> n' \<in> decision_set s \<Longrightarrow> dn_id n = dn_id n' \<Longrightarrow> n = n'"
  using assms unfolding ids_ok_def coord_sets by (blast dest: same_id)+

lemmas coord_inj = ids_inj [OF coord_okD(1)]

lemma put_goal_ok:
  assumes ok: "coord_ok s" and agree: "\<And>x. x \<in> goal_set s \<Longrightarrow> gl_id x = gl_id g \<Longrightarrow> gl_grant x = gl_grant g"
    and turns: "gl_turnsUsed g \<le> gr_maxForemanTurns (gl_grant g)"
    and final: "gl_state g = Gs_completed \<Longrightarrow>
      (\<forall>d\<in>delegation_set s. dl_goalId d = gl_id g \<longrightarrow> inactive (dl_state d)) \<and>
      (\<exists>d\<in>delegation_set s. dl_goalId d = gl_id g \<and> dl_state d = Dg_completed)"
  shows "coord_ok (s\<lparr>gs_goals := coord_save gl_id g k dg (gs_goals s)\<rparr>)" (is "coord_ok ?t")
proof -
  note D = coord_okD [OF ok]
  have G: "goal_set ?t = insert g {x \<in> goal_set s. gl_id x \<noteq> gl_id g}" by simp
  have ids: "gl_id ` goal_set s \<subseteq> gl_id ` goal_set ?t" unfolding G by auto
  have "ids_ok ?t" using D(1) distinct_coord_save [of gl_id "gs_goals s" g k dg] by (simp add: ids_ok_def)
  moreover have "refs_ok ?t"
    using subset_trans [OF _ ids] D(2) by (simp add: refs_ok_def)
  moreover have "reserved_ok ?t" using D(3) by (simp add: reserved_ok_def)
  moreover have "card {d \<in> delegation_set s. active d \<and> dl_goalId d = gl_id g} \<le> gr_maxTeamsPerGoal (gl_grant g)"
  proof (cases "\<exists>x\<in>goal_set s. gl_id x = gl_id g")
    case True
    then obtain x where x: "x \<in> goal_set s" "gl_id x = gl_id g" by blast
    then show ?thesis using D(4) agree [OF x] unfolding budgets_ok_def by force
  next
    case False
    then have "{d \<in> delegation_set s. active d \<and> dl_goalId d = gl_id g} = {}"
      using D(2) unfolding refs_ok_def by (auto simp: image_subset_iff image_iff)
    then show ?thesis by (simp only: card.empty le0)
  qed
  then have "budgets_ok ?t" using D(4) turns unfolding budgets_ok_def G by simp
  moreover have "approved_ok ?t" using D(5) by (simp add: approved_ok_def)
  moreover have "decided_ok ?t"
    unfolding decided_ok_def G
  proof (intro ballI impI)
    fix n assume "n \<in> decision_set ?t" and r: "dn_state n = Dn_resolved"
    then have n: "n \<in> decision_set s" by simp
    then obtain by' where by': "dn_decidedBy n = Some by'"
      "by_policy by' \<Longrightarrow> x \<in> goal_set s \<Longrightarrow> gl_id x = dn_goalId n \<Longrightarrow> gr_approvalMode (gl_grant x) = Autonomous_approval" for x
      using D(6) r unfolding decided_ok_def by blast
    obtain x where "x \<in> goal_set s" "gl_id x = dn_goalId n" using D(2) n unfolding refs_ok_def by force
    then have "by_policy by' \<Longrightarrow> gl_id g = dn_goalId n \<Longrightarrow> gr_approvalMode (gl_grant g) = Autonomous_approval"
      using by'(2) [of x] agree [of x] by simp
    then show "\<exists>by'. dn_decidedBy n = Some by' \<and> (by_policy by' \<longrightarrow>
        (\<forall>x\<in>insert g {x \<in> goal_set s. gl_id x \<noteq> gl_id g}. gl_id x = dn_goalId n \<longrightarrow>
           gr_approvalMode (gl_grant x) = Autonomous_approval))"
      using by' by blast
  qed
  moreover have "leads_ok ?t" using D(7) by (simp add: leads_ok_def)
  moreover have "completed_ok ?t"
    using D(8) final unfolding completed_ok_def G by (auto simp: reviewed_def)
  moreover have "asked_ok ?t" using D(9) by (simp add: asked_ok_def)
  ultimately show ?thesis by (simp add: coord_ok_def)
qed

lemma save_goal_ok:
  "coord_ok s \<Longrightarrow> g \<in> goal_set s \<Longrightarrow> gl_id g' = gl_id g \<Longrightarrow> gl_grant g' = gl_grant g \<Longrightarrow>
     gl_turnsUsed g' \<le> gr_maxForemanTurns (gl_grant g) \<Longrightarrow>
     (gl_state g' = Gs_completed \<Longrightarrow>
        (\<forall>d\<in>delegation_set s. dl_goalId d = gl_id g \<longrightarrow> inactive (dl_state d)) \<and>
        (\<exists>d\<in>delegation_set s. dl_goalId d = gl_id g \<and> dl_state d = Dg_completed)) \<Longrightarrow>
     coord_ok (save_goal g' s)"
  unfolding save_goal_def
proof (rule put_goal_ok)
  fix x assume "coord_ok s" "g \<in> goal_set s" "gl_id g' = gl_id g" "gl_grant g' = gl_grant g" "x \<in> goal_set s" "gl_id x = gl_id g'"
  then show "gl_grant x = gl_grant g'"
    using coord_inj(1) [of s x g] by simp
qed simp_all

lemma reviewed_same: "dl_id d = dl_id d' \<Longrightarrow> dl_memberId d = dl_memberId d' \<Longrightarrow> report_set s = report_set t \<Longrightarrow>
    reviewed s d = reviewed t d'"
  by (simp add: reviewed_def)

lemma update_delegation_ok:
  assumes ok: "coord_ok s" and d0: "d0 \<in> delegation_set s"
    and same: "dl_id d = dl_id d0" "dl_command d = dl_command d0" "dl_checkoutId d = dl_checkoutId d0"
    and act: "active d \<Longrightarrow> active d0"
    and appr: "dl_state d \<noteq> Dg_proposed \<Longrightarrow> dl_state d \<noteq> Dg_cancelled \<Longrightarrow> \<exists>n\<in>decision_set s. approves n d"
    and rev: "dl_state d = Dg_completed \<Longrightarrow> reviewed s d"
    and final: "\<And>g. dl_state d \<noteq> dl_state d0 \<Longrightarrow> g \<in> goal_set s \<Longrightarrow> gl_id g = dl_goalId d0 \<Longrightarrow> gl_state g \<noteq> Gs_completed"
  shows "coord_ok (save_delegation d s)" (is "coord_ok ?t")
proof -
  note D = coord_okD [OF ok]
  have S: "delegation_set ?t = insert d {x \<in> delegation_set s. dl_id x \<noteq> dl_id d0}"
    by (simp add: same)
  have inj: "x = d0" if "x \<in> delegation_set s" "dl_id x = dl_id d0" for x
    using coord_inj(2) [OF ok that(1) d0 that(2)] .
  have rest: "x \<in> delegation_set ?t \<Longrightarrow> x = d \<or> x \<in> delegation_set s \<and> dl_id x \<noteq> dl_id d0" for x unfolding S by auto
  have ids: "ids_ok ?t" using D(1) distinct_coord_save [of dl_id "gs_delegations s" d None None]
    by (simp add: ids_ok_def save_delegation_def)
  have same_ids: "dl_id ` delegation_set ?t = dl_id ` delegation_set s"
  proof -
    have "delegation_set s = insert d0 {x \<in> delegation_set s. dl_id x \<noteq> dl_id d0}" using inj d0 by blast
    then have "dl_id ` delegation_set s = insert (dl_id d) (dl_id ` {x \<in> delegation_set s. dl_id x \<noteq> dl_id d0})"
      unfolding same(1) by (rule arg_cong [of _ _ "image dl_id", THEN trans]) (rule image_insert)
    then show ?thesis unfolding S image_insert by (rule sym)
  qed
  have goals: "dl_goalId ` delegation_set ?t \<subseteq> dl_goalId ` delegation_set s"
  proof (rule image_subsetI)
    fix x assume "x \<in> delegation_set ?t"
    then show "dl_goalId x \<in> dl_goalId ` delegation_set s" using rest [of x] d0 same(2) by (cases "x = d") auto
  qed
  have others: "goal_set ?t = goal_set s" "decision_set ?t = decision_set s" "report_set ?t = report_set s" by simp_all
  have "refs_ok ?t" unfolding refs_ok_def others same_ids
    by (intro conjI subset_trans [OF goals]) (use D(2) in \<open>simp_all add: refs_ok_def\<close>)
  moreover have "reserved_ok ?t" unfolding reserved_ok_def
  proof (intro ballI impI)
    fix x y assume xy: "x \<in> delegation_set ?t" "y \<in> delegation_set ?t" "active x" "active y" "dl_id x \<noteq> dl_id y"
    define old where "old z = (if z = d then d0 else z)" for z
    have old: "old z \<in> delegation_set s \<and> dl_id (old z) = dl_id z \<and> dl_command (old z) = dl_command z \<and>
        dl_checkoutId (old z) = dl_checkoutId z \<and> active (old z)" if "z \<in> delegation_set ?t" "active z" for z
      using rest [OF that(1)] that(2) d0 same act by (auto simp: old_def)
    show "dl_groupId x \<noteq> dl_groupId y \<and> dl_checkoutId x \<noteq> dl_checkoutId y"
      using D(3) old [OF xy(1,3)] old [OF xy(2,4)] xy(5) unfolding reserved_ok_def by metis
  qed
  moreover have "budgets_ok ?t" unfolding budgets_ok_def
  proof (intro ballI conjI)
    fix g assume g: "g \<in> goal_set ?t"
    let ?A = "\<lambda>u. {x \<in> delegation_set u. active x \<and> dl_goalId x = gl_id g}"
    have a: "card (?A ?t) = card (dl_id ` ?A ?t)"
      using ids by (intro card_image [symmetric] inj_onI) (use ids_inj(2) [OF ids] in blast)
    have "dl_id ` ?A ?t \<subseteq> dl_id ` ?A s"
    proof (intro image_subsetI)
      fix x assume x: "x \<in> ?A ?t"
      then have "x \<in> delegation_set ?t" by blast
      then consider "x = d" | "x \<in> delegation_set s" using rest by blast
      then have "\<exists>y\<in>?A s. dl_id y = dl_id x"
      proof cases
        case 1
        have "active d" "dl_goalId d = gl_id g" using x unfolding 1 by blast+
        then have "d0 \<in> ?A s" using d0 act unfolding same(2) by blast
        then show ?thesis by (rule bexI [rotated]) (simp add: 1 same)
      next
        case 2
        then show ?thesis using x by blast
      qed
      then obtain y where y: "y \<in> ?A s" "dl_id y = dl_id x" by (rule bexE)
      from y(1) have "dl_id y \<in> dl_id ` ?A s" by (rule imageI)
      then show "dl_id x \<in> dl_id ` ?A s" unfolding y(2) .
    qed
    then have "card (dl_id ` ?A ?t) \<le> card (dl_id ` ?A s)" by (intro card_mono) simp_all
    moreover have "card (dl_id ` ?A s) \<le> card (?A s)" by (rule card_image_le) simp
    moreover have "card (?A s) \<le> gr_maxTeamsPerGoal (gl_grant g)" using D(4) g unfolding budgets_ok_def by simp
    ultimately show "card (?A ?t) \<le> gr_maxTeamsPerGoal (gl_grant g)" using a by linarith
    show "gl_turnsUsed g \<le> gr_maxForemanTurns (gl_grant g)" using D(4) g unfolding budgets_ok_def by simp
  qed
  moreover have "approved_ok ?t" using D(5) appr rest unfolding approved_ok_def by fastforce
  moreover have "decided_ok ?t" using D(6) by (simp add: decided_ok_def)
  moreover have "leads_ok ?t" unfolding leads_ok_def others
  proof (intro ballI impI)
    fix r x assume r: "r \<in> report_set s" "rt_kind r = Rk_ready" and x: "x \<in> delegation_set ?t" "rt_delegationId r = dl_id x"
    show "rt_memberId r = dl_memberId x"
      using rest [OF x(1)] D(7) r x(2) d0 same unfolding leads_ok_def by auto
  qed
  moreover have "completed_ok ?t" unfolding completed_ok_def
  proof (intro conjI ballI impI)
    fix x assume "x \<in> delegation_set ?t" "dl_state x = Dg_completed"
    then show "reviewed ?t x" using rest [of x] rev D(8) reviewed_same [of x x s ?t] by (auto simp: completed_ok_def)
  next
    fix g x assume g: "g \<in> goal_set ?t" "gl_state g = Gs_completed" and x: "x \<in> delegation_set ?t" "dl_goalId x = gl_id g"
    have over: "dl_goalId y = gl_id g \<Longrightarrow> y \<in> delegation_set s \<Longrightarrow> inactive (dl_state y)" for y
      using D(8) g unfolding completed_ok_def by simp
    show "inactive (dl_state x)"
      using rest [OF x(1)] x(2) over [of x] over [of d0] final [of g] g d0 same
      by (cases "dl_state d = dl_state d0") auto
  next
    fix g assume g: "g \<in> goal_set ?t" "gl_state g = Gs_completed"
    then obtain y where y: "y \<in> delegation_set s" "dl_goalId y = gl_id g" "dl_state y = Dg_completed"
      using D(8) unfolding completed_ok_def by auto
    show "\<exists>x\<in>delegation_set ?t. dl_goalId x = gl_id g \<and> dl_state x = Dg_completed"
    proof (cases "dl_id y = dl_id d0")
      case True
      then have "y = d0" using inj y(1) by blast
      then have "dl_state d = Dg_completed" using final [of g] g y by auto
      then show ?thesis unfolding S using y same \<open>y = d0\<close> by auto
    next
      case False
      then show ?thesis unfolding S using y by auto
    qed
  qed
  moreover have "asked_ok ?t" unfolding asked_ok_def others
  proof (intro ballI allI impI)
    fix n i assume "n \<in> decision_set s" "dn_delegationId n = Some i"
    then obtain x where x: "x \<in> delegation_set s" "dl_id x = i" "dl_goalId x = dn_goalId n"
      using D(9) unfolding asked_ok_def by blast
    show "\<exists>x\<in>delegation_set ?t. dl_id x = i \<and> dl_goalId x = dn_goalId n"
    proof (cases "dl_id x = dl_id d0")
      case True
      then have "x = d0" using inj x(1) by blast
      then show ?thesis unfolding S using x same by simp
    next
      case False
      then show ?thesis unfolding S using x by blast
    qed
  qed
  ultimately show ?thesis using ids by (simp add: coord_ok_def)
qed


lemma add_delegation_ok:
  assumes ok: "coord_ok s" and fresh: "\<And>x. x \<in> delegation_set s \<Longrightarrow> dl_id x \<noteq> dl_id d"
    and goal: "g \<in> goal_set s" "gl_id g = dl_goalId d" "gl_state g \<noteq> Gs_completed"
    and place: "\<And>x. x \<in> delegation_set s \<Longrightarrow> active x \<Longrightarrow> dl_groupId x \<noteq> dl_groupId d \<and> dl_checkoutId x \<noteq> dl_checkoutId d"
    and room: "card {x \<in> delegation_set s. active x \<and> dl_goalId x = gl_id g} < gr_maxTeamsPerGoal (gl_grant g)"
    and appr: "dl_state d \<noteq> Dg_proposed \<Longrightarrow> \<exists>n\<in>decision_set s. approves n d" and st: "dl_state d \<noteq> Dg_completed"
  shows "coord_ok (s\<lparr>gs_delegations := coord_save dl_id d k dg (gs_delegations s)\<rparr>)" (is "coord_ok ?t")
proof -
  note D = coord_okD [OF ok]
  have S: "delegation_set ?t = insert d (delegation_set s)" using fresh by auto
  have others: "goal_set ?t = goal_set s" "decision_set ?t = decision_set s" "report_set ?t = report_set s" by simp_all
  have uniq: "x = g" if "x \<in> goal_set s" "gl_id x = dl_goalId d" for x
    using coord_inj(1) [OF ok that(1) goal(1)] that(2) goal(2) by simp
  have "ids_ok ?t" using D(1) distinct_coord_save [of dl_id "gs_delegations s" d k dg] by (simp add: ids_ok_def)
  moreover have "dl_goalId d \<in> gl_id ` goal_set s" using imageI [OF goal(1), of gl_id] goal(2) by simp
  then have "refs_ok ?t" using D(2) unfolding refs_ok_def others S image_insert by auto
  moreover have "reserved_ok ?t" unfolding reserved_ok_def S
  proof (intro ballI impI)
    fix x y assume x: "x \<in> insert d (delegation_set s)" "active x" and y: "y \<in> insert d (delegation_set s)" "active y"
      and ne: "dl_id x \<noteq> dl_id y"
    have "x = d \<or> y = d \<or> (x \<in> delegation_set s \<and> y \<in> delegation_set s)" using x y by blast
    then show "dl_groupId x \<noteq> dl_groupId y \<and> dl_checkoutId x \<noteq> dl_checkoutId y"
    proof (elim disjE conjE)
      assume "x = d"
      then show ?thesis using y ne place [of y] by auto
    next
      assume "y = d"
      then show ?thesis using x ne place [of x] by auto
    next
      assume "x \<in> delegation_set s" "y \<in> delegation_set s"
      then show ?thesis using D(3) x(2) y(2) ne unfolding reserved_ok_def by blast
    qed
  qed
  moreover have "budgets_ok ?t" unfolding budgets_ok_def others
  proof (intro ballI conjI)
    fix x assume x: "x \<in> goal_set s"
    let ?A = "{y \<in> delegation_set s. active y \<and> dl_goalId y = gl_id x}"
    have old: "card ?A \<le> gr_maxTeamsPerGoal (gl_grant x)" using D(4) x unfolding budgets_ok_def by simp
    have "{y \<in> delegation_set ?t. active y \<and> dl_goalId y = gl_id x} \<subseteq> (if gl_id x = dl_goalId d then insert d ?A else ?A)"
      unfolding S by auto
    then have "card {y \<in> delegation_set ?t. active y \<and> dl_goalId y = gl_id x} \<le>
        card (if gl_id x = dl_goalId d then insert d ?A else ?A)"
      by (intro card_mono) simp_all
    also have "\<dots> \<le> gr_maxTeamsPerGoal (gl_grant x)"
    proof (cases "gl_id x = dl_goalId d")
      case True
      then have "x = g" using uniq x by blast
      then show ?thesis using True room card_insert_le_m1 [of "gr_maxTeamsPerGoal (gl_grant g)" ?A d] by simp
    qed (simp add: old)
    finally show "card {y \<in> delegation_set ?t. active y \<and> dl_goalId y = gl_id x} \<le> gr_maxTeamsPerGoal (gl_grant x)" .
    show "gl_turnsUsed x \<le> gr_maxForemanTurns (gl_grant x)" using D(4) x unfolding budgets_ok_def by simp
  qed
  moreover have "approved_ok ?t" using D(5) appr unfolding approved_ok_def others S by blast
  moreover have "decided_ok ?t" using D(6) by (simp add: decided_ok_def)
  moreover have "rt_delegationId r \<noteq> dl_id d" if "r \<in> report_set s" for r
  proof -
    have "rt_delegationId r \<in> dl_id ` delegation_set s" using D(2) that unfolding refs_ok_def by blast
    then obtain x where "rt_delegationId r = dl_id x" "x \<in> delegation_set s" by (rule imageE)
    then show ?thesis using fresh [of x] by simp
  qed
  then have "leads_ok ?t" using D(7) unfolding leads_ok_def others S by (auto simp del: set_puts)
  moreover have rev: "reviewed ?t x = reviewed s x" for x by (rule reviewed_same) simp_all
  then have "completed_ok ?t" unfolding completed_ok_def others
  proof (intro conjI ballI impI)
    fix x assume "x \<in> delegation_set ?t" "dl_state x = Dg_completed"
    then show "reviewed ?t x" using st rev D(8) unfolding completed_ok_def S by auto
  next
    fix y x assume y: "y \<in> goal_set s" "gl_state y = Gs_completed" and x: "x \<in> delegation_set ?t" "dl_goalId x = gl_id y"
    have "x \<noteq> d" using uniq [OF y(1)] x(2) y(2) goal(3) by auto
    then show "inactive (dl_state x)" using D(8) x y unfolding completed_ok_def S by auto
  next
    fix y assume y: "y \<in> goal_set s" "gl_state y = Gs_completed"
    then show "\<exists>x\<in>delegation_set ?t. dl_goalId x = gl_id y \<and> dl_state x = Dg_completed"
      using D(8) unfolding completed_ok_def S by auto
  qed
  moreover have "asked_ok ?t" using D(9) unfolding asked_ok_def others S by blast
  ultimately show ?thesis by (simp add: coord_ok_def)
qed

lemma add_report_ok:
  assumes ok: "coord_ok s" and fresh: "\<And>x. x \<in> report_set s \<Longrightarrow> rt_id x \<noteq> rt_id r"
    and d: "d \<in> delegation_set s" "rt_delegationId r = dl_id d"
    and lead: "rt_kind r = Rk_ready \<Longrightarrow> rt_memberId r = dl_memberId d"
  shows "coord_ok (s\<lparr>gs_reports := coord_save rt_id r k dg (gs_reports s)\<rparr>)" (is "coord_ok ?t")
proof -
  note D = coord_okD [OF ok]
  have S: "report_set ?t = insert r (report_set s)" using fresh by auto
  have others: "goal_set ?t = goal_set s" "decision_set ?t = decision_set s" "delegation_set ?t = delegation_set s" by simp_all
  have "ids_ok ?t" using D(1) distinct_coord_save [of rt_id "gs_reports s" r k dg] by (simp add: ids_ok_def)
  moreover have "refs_ok ?t" using D(2) d unfolding refs_ok_def others S image_insert by auto
  moreover have "reserved_ok ?t" "budgets_ok ?t" "approved_ok ?t" "decided_ok ?t" "asked_ok ?t"
    using D(3-6,9) by (simp_all add: reserved_ok_def budgets_ok_def approved_ok_def decided_ok_def asked_ok_def)
  moreover have "x = d" if "x \<in> delegation_set s" "dl_id x = dl_id d" for x using coord_inj(2) [OF ok that(1) d(1) that(2)] .
  then have "leads_ok ?t" using D(7) d(2) lead unfolding leads_ok_def others S by auto
  moreover have "reviewed s x \<Longrightarrow> reviewed ?t x" for x unfolding reviewed_def S by blast
  then have "completed_ok ?t" using D(8) unfolding completed_ok_def others by blast
  ultimately show ?thesis by (simp add: coord_ok_def)
qed

lemma put_decision_ok:
  assumes ok: "coord_ok s" and goal: "dn_goalId n \<in> gl_id ` goal_set s"
    and old: "\<And>x. x \<in> decision_set s \<Longrightarrow> dn_id x = dn_id n \<Longrightarrow> dn_state x \<noteq> Dn_resolved"
    and by': "dn_state n = Dn_resolved \<Longrightarrow> \<exists>by'. dn_decidedBy n = Some by' \<and> (by_policy by' \<longrightarrow>
        (\<forall>g\<in>goal_set s. gl_id g = dn_goalId n \<longrightarrow> gr_approvalMode (gl_grant g) = Autonomous_approval))"
    and asked: "\<And>i. dn_delegationId n = Some i \<Longrightarrow> \<exists>d\<in>delegation_set s. dl_id d = i \<and> dl_goalId d = dn_goalId n"
  shows "coord_ok (s\<lparr>gs_decisions := coord_save dn_id n k dg (gs_decisions s)\<rparr>)" (is "coord_ok ?t")
proof -
  note D = coord_okD [OF ok]
  have S: "decision_set ?t = insert n {x \<in> decision_set s. dn_id x \<noteq> dn_id n}" by simp
  have others: "goal_set ?t = goal_set s" "report_set ?t = report_set s" "delegation_set ?t = delegation_set s" by simp_all
  have "ids_ok ?t" using D(1) distinct_coord_save [of dn_id "gs_decisions s" n k dg] by (simp add: ids_ok_def)
  moreover have "refs_ok ?t" using D(2) goal unfolding refs_ok_def others S image_insert by auto
  moreover have "reserved_ok ?t" "budgets_ok ?t" "leads_ok ?t"
    using D(3,4,7) by (simp_all add: reserved_ok_def budgets_ok_def leads_ok_def)
  moreover have "x \<in> decision_set ?t" if "x \<in> decision_set s" "approves x d" for x d
    using old [OF that(1)] that unfolding S approves_def by auto
  then have "approved_ok ?t" using D(5) unfolding approved_ok_def others by blast
  moreover have "decided_ok ?t" using D(6) by' unfolding decided_ok_def others S by blast
  moreover have "reviewed ?t x = reviewed s x" for x by (rule reviewed_same) simp_all
  then have "completed_ok ?t" using D(8) unfolding completed_ok_def others by simp
  moreover have "asked_ok ?t" using D(9) asked unfolding asked_ok_def others S by blast
  ultimately show ?thesis by (simp add: coord_ok_def)
qed

lemma save_decision_ok:
  "coord_ok s \<Longrightarrow> n \<in> decision_set s \<Longrightarrow> dn_state n \<noteq> Dn_resolved \<Longrightarrow> dn_id n' = dn_id n \<Longrightarrow>
     dn_command n' = dn_command n \<Longrightarrow>
     (dn_state n' = Dn_resolved \<Longrightarrow> \<exists>by'. dn_decidedBy n' = Some by' \<and> (by_policy by' \<longrightarrow>
        (\<forall>g\<in>goal_set s. gl_id g = dn_goalId n \<longrightarrow> gr_approvalMode (gl_grant g) = Autonomous_approval))) \<Longrightarrow>
     coord_ok (save_decision n' s)"
  unfolding save_decision_def
proof (rule put_decision_ok)
  fix x assume "coord_ok s" "n \<in> decision_set s" "dn_state n \<noteq> Dn_resolved" "dn_id n' = dn_id n" "x \<in> decision_set s" "dn_id x = dn_id n'"
  then show "dn_state x \<noteq> Dn_resolved" using coord_inj(4) [of s x n] by simp
next
  assume "coord_ok s" "n \<in> decision_set s" "dn_command n' = dn_command n"
  then show "dn_goalId n' \<in> gl_id ` goal_set s" using coord_okD(2) [of s] unfolding refs_ok_def by auto
next
  fix i assume "coord_ok s" "n \<in> decision_set s" "dn_command n' = dn_command n" "dn_delegationId n' = Some i"
  then show "\<exists>d\<in>delegation_set s. dl_id d = i \<and> dl_goalId d = dn_goalId n'"
    using coord_okD(9) [of s] unfolding asked_ok_def by simp
qed simp_all

lemma coord_ok_frames [simp]:
  "coord_ok (s\<lparr>gs_inbox := x1\<rparr>) = coord_ok s" "coord_ok (s\<lparr>gs_removed := x2\<rparr>) = coord_ok s"
  "coord_ok (s\<lparr>gs_audits := x3\<rparr>) = coord_ok s" "coord_ok (s\<lparr>gs_cursors := x4\<rparr>) = coord_ok s"
  "coord_ok (s\<lparr>gs_recovery := x5\<rparr>) = coord_ok s" "coord_ok (notify si k nk a b c s) = coord_ok s"
  "coord_ok (add_link i j s) = coord_ok s" "coord_ok (recordAutomaticApproval g y1 y2 s) = coord_ok s"
  "coord_ok (linkAction act s) = coord_ok s"
  by (rule coord_ok_frame; simp)+

subsection \<open>Removing goals\<close>

lemma set_filter_values: "set (map cr_value (filter (\<lambda>r. P (cr_value r)) rs)) = {x \<in> set (map cr_value rs). P x}"
  by auto

lemma distinct_filter_values:
  "distinct (map f (map cr_value rs)) \<Longrightarrow> distinct (map f (map cr_value (filter P rs)))"
  unfolding map_map by (rule distinct_map_filter)

lemma purged_sets:
  "goal_set (purge_goal g s) = {x \<in> goal_set s. gl_id x \<noteq> gl_id g}"
  "delegation_set (purge_goal g s) = {d \<in> delegation_set s. dl_goalId d \<noteq> gl_id g}"
  "decision_set (purge_goal g s) = {n \<in> decision_set s. dn_goalId n \<noteq> gl_id g}"
  "report_set (purge_goal g s) = {r \<in> report_set s. rt_delegationId r \<notin> dl_id ` {d \<in> delegation_set s. dl_goalId d = gl_id g}}"
  unfolding purge_goal_def Let_def coord_sets by (simp_all add: set_filter_values del: set_map) auto

lemma purge_goal_ok:
  assumes ok: "coord_ok s"
  shows "coord_ok (purge_goal g s)"
proof -
  note D = coord_okD [OF ok]
  let ?t = "purge_goal g s"
  have goal: "\<exists>x\<in>goal_set s. gl_id x = dl_goalId d" if "d \<in> delegation_set s" for d
    using D(2) that unfolding refs_ok_def by force
  have keep: "r \<in> report_set ?t" if r: "r \<in> report_set s" "rt_delegationId r = dl_id d" and d: "d \<in> delegation_set ?t" for r d
  proof -
    have "dl_id d \<notin> dl_id ` {x \<in> delegation_set s. dl_goalId x = gl_id g}"
    proof
      assume "dl_id d \<in> dl_id ` {x \<in> delegation_set s. dl_goalId x = gl_id g}"
      then obtain x where "dl_id d = dl_id x" "x \<in> {x \<in> delegation_set s. dl_goalId x = gl_id g}" by (rule imageE)
      then show False using coord_inj(2) [OF ok, of d x] d unfolding purged_sets by simp
    qed
    then show ?thesis using r unfolding purged_sets by simp
  qed
  have "ids_ok ?t" using D(1) unfolding ids_ok_def purge_goal_def Let_def
    by (simp add: distinct_filter_values [unfolded map_map])
  moreover have "refs_ok ?t" unfolding refs_ok_def
  proof (intro conjI image_subsetI)
    fix d assume "d \<in> delegation_set ?t"
    then show "dl_goalId d \<in> gl_id ` goal_set ?t" using goal [of d] unfolding purged_sets by (auto simp: image_iff)
  next
    fix n assume n: "n \<in> decision_set ?t"
    then have "dn_goalId n \<in> gl_id ` goal_set s" using D(2) unfolding refs_ok_def purged_sets by blast
    then show "dn_goalId n \<in> gl_id ` goal_set ?t" using n unfolding purged_sets by (auto simp: image_iff)
  next
    fix r assume r: "r \<in> report_set ?t"
    then have "rt_delegationId r \<in> dl_id ` delegation_set s" using D(2) unfolding refs_ok_def purged_sets by blast
    then show "rt_delegationId r \<in> dl_id ` delegation_set ?t" using r unfolding purged_sets by (auto simp: image_iff)
  qed
  moreover have "reserved_ok ?t" using D(3) unfolding reserved_ok_def purged_sets by blast
  moreover have "budgets_ok ?t" unfolding budgets_ok_def
  proof (intro ballI)
    fix x assume x: "x \<in> goal_set ?t"
    have "{d \<in> delegation_set ?t. active d \<and> dl_goalId d = gl_id x} = {d \<in> delegation_set s. active d \<and> dl_goalId d = gl_id x}"
      using x unfolding purged_sets by auto
    then show "card {d \<in> delegation_set ?t. active d \<and> dl_goalId d = gl_id x} \<le> gr_maxTeamsPerGoal (gl_grant x) \<and>
        gl_turnsUsed x \<le> gr_maxForemanTurns (gl_grant x)"
      using x D(4) unfolding budgets_ok_def purged_sets by simp
  qed
  moreover have "approved_ok ?t" unfolding approved_ok_def
  proof (intro ballI impI)
    fix d assume d: "d \<in> delegation_set ?t" "dl_state d \<noteq> Dg_proposed" "dl_state d \<noteq> Dg_cancelled"
    then obtain n where n: "n \<in> decision_set s" "approves n d" using D(5) unfolding approved_ok_def purged_sets by blast
    then have "dn_goalId n = dl_goalId d" by (simp add: approves_def)
    then show "\<exists>n\<in>decision_set ?t. approves n d" using n d(1) unfolding purged_sets by auto
  qed
  moreover have "decided_ok ?t" unfolding decided_ok_def
  proof (intro ballI impI)
    fix n assume "n \<in> decision_set ?t" "dn_state n = Dn_resolved"
    then obtain who where "dn_decidedBy n = Some who" "by_policy who \<longrightarrow>
        (\<forall>x\<in>goal_set s. gl_id x = dn_goalId n \<longrightarrow> gr_approvalMode (gl_grant x) = Autonomous_approval)"
      using D(6) unfolding decided_ok_def purged_sets by blast
    then show "\<exists>who. dn_decidedBy n = Some who \<and> (by_policy who \<longrightarrow>
        (\<forall>x\<in>goal_set ?t. gl_id x = dn_goalId n \<longrightarrow> gr_approvalMode (gl_grant x) = Autonomous_approval))"
      unfolding purged_sets by simp
  qed
  moreover have "leads_ok ?t" using D(7) unfolding leads_ok_def purged_sets by simp
  moreover have "completed_ok ?t" unfolding completed_ok_def
  proof (intro conjI ballI impI)
    fix d assume d: "d \<in> delegation_set ?t" "dl_state d = Dg_completed"
    then have "reviewed s d" using D(8) unfolding completed_ok_def purged_sets by simp
    then show "reviewed ?t d" unfolding reviewed_def using keep [OF _ _ d(1)] by blast
  next
    fix x d assume "x \<in> goal_set ?t" "gl_state x = Gs_completed" "d \<in> delegation_set ?t" "dl_goalId d = gl_id x"
    moreover have "\<And>x d. x \<in> goal_set s \<Longrightarrow> gl_state x = Gs_completed \<Longrightarrow> d \<in> delegation_set s \<Longrightarrow>
        dl_goalId d = gl_id x \<Longrightarrow> inactive (dl_state d)"
      using D(8) unfolding completed_ok_def by blast
    ultimately show "inactive (dl_state d)" unfolding purged_sets by blast
  next
    fix x assume x: "x \<in> goal_set ?t" "gl_state x = Gs_completed"
    then obtain d where "d \<in> delegation_set s" "dl_goalId d = gl_id x" "dl_state d = Dg_completed"
      using D(8) unfolding completed_ok_def purged_sets by blast
    then show "\<exists>d\<in>delegation_set ?t. dl_goalId d = gl_id x \<and> dl_state d = Dg_completed"
      using x unfolding purged_sets by auto
  qed
  moreover have "asked_ok ?t" unfolding asked_ok_def
  proof (intro ballI allI impI)
    fix n i assume n: "n \<in> decision_set ?t" "dn_delegationId n = Some i"
    then obtain d where "d \<in> delegation_set s" "dl_id d = i" "dl_goalId d = dn_goalId n"
      using D(9) unfolding asked_ok_def purged_sets by blast
    then show "\<exists>d\<in>delegation_set ?t. dl_id d = i \<and> dl_goalId d = dn_goalId n" using n unfolding purged_sets by auto
  qed
  ultimately show ?thesis by (simp add: coord_ok_def)
qed

lemma empty_ok: "goal_set s = {} \<Longrightarrow> delegation_set s = {} \<Longrightarrow> report_set s = {} \<Longrightarrow> decision_set s = {} \<Longrightarrow> coord_ok s"
  by (simp add: coord_ok_def coord_defs) (simp add: coord_sets)

lemma purge_all_ok: "coord_ok s \<Longrightarrow> coord_ok (purge_all scope s)"
proof (cases "scope = Rsc_all")
  case True
  show ?thesis by (rule empty_ok) (simp_all add: purge_all_def True coord_sets)
qed (simp add: purge_all_def)

end
