(* ===== verification/Foreman_Moves.thy ===== *)
theory Foreman_Moves
  imports Foreman_Records "HOL-Library.Sublist"
begin

text \<open>
  Every operation of the goal service keeps its invariant and changes neither the grant of a goal nor the
  command and checkout of a delegation: one lemma \<open>..._advances\<close> per operation.
\<close>

subsection \<open>What an operation may change\<close>

text \<open>
  Goals keep their grant, delegations their command and checkout; only ids of \<open>I\<close> are new.
\<close>

definition evolves :: "string set \<Rightarrow> goals_db \<Rightarrow> goals_db \<Rightarrow> bool" where
  "evolves I s t \<longleftrightarrow>
     (\<forall>y\<in>goal_set t. gl_id y \<in> I \<or> (\<exists>x\<in>goal_set s. gl_id x = gl_id y \<and> gl_grant x = gl_grant y)) \<and>
     (\<forall>y\<in>delegation_set t. dl_id y \<in> I \<or>
        (\<exists>x\<in>delegation_set s. dl_id x = dl_id y \<and> dl_command x = dl_command y \<and> dl_checkoutId x = dl_checkoutId y))"

definition advances :: "string set \<Rightarrow> goals_db \<Rightarrow> goals_db \<Rightarrow> bool" where
  "advances I s t \<longleftrightarrow> coord_ok t \<and> evolves I s t"

lemma evolves_same: "goal_set t = goal_set s \<Longrightarrow> delegation_set t = delegation_set s \<Longrightarrow> evolves I s t"
  unfolding evolves_def by blast

lemma evolves_trans [trans]:
  assumes "evolves I s t" "evolves I t u"
  shows "evolves I s u"
  unfolding evolves_def
proof (intro conjI ballI)
  fix y assume "y \<in> goal_set u"
  then consider "gl_id y \<in> I" | z where "z \<in> goal_set t" "gl_id z = gl_id y" "gl_grant z = gl_grant y"
    using assms(2) unfolding evolves_def by blast
  then show "gl_id y \<in> I \<or> (\<exists>x\<in>goal_set s. gl_id x = gl_id y \<and> gl_grant x = gl_grant y)"
  proof cases
    case 2
    then show ?thesis using assms(1) unfolding evolves_def by metis
  qed simp
next
  fix y assume "y \<in> delegation_set u"
  then consider "dl_id y \<in> I" | z where "z \<in> delegation_set t" "dl_id z = dl_id y" "dl_command z = dl_command y"
      "dl_checkoutId z = dl_checkoutId y"
    using assms(2) unfolding evolves_def by blast
  then show "dl_id y \<in> I \<or> (\<exists>x\<in>delegation_set s. dl_id x = dl_id y \<and> dl_command x = dl_command y \<and>
      dl_checkoutId x = dl_checkoutId y)"
  proof cases
    case 2
    then show ?thesis using assms(1) unfolding evolves_def by metis
  qed simp
qed

lemma evolves_goal:
  "x \<in> goal_set s \<Longrightarrow> gl_id g = gl_id x \<Longrightarrow> gl_grant g = gl_grant x \<Longrightarrow> evolves I s (save_goal g s)"
  unfolding evolves_def set_frame set_saves by auto

lemma evolves_delegation:
  "x \<in> delegation_set s \<Longrightarrow> dl_id d = dl_id x \<Longrightarrow> dl_command d = dl_command x \<Longrightarrow> dl_checkoutId d = dl_checkoutId x \<Longrightarrow>
     evolves I s (save_delegation d s)"
  unfolding evolves_def set_frame set_saves by auto

lemma advances_refl [intro, simp]: "coord_ok s \<Longrightarrow> advances I s s"
  by (simp add: advances_def evolves_same)

lemma advances_trans: "advances I s t \<Longrightarrow> advances I t u \<Longrightarrow> advances I s u"
  unfolding advances_def using evolves_trans by blast

lemma advances_ok: "advances I s t \<Longrightarrow> coord_ok t"
  by (simp add: advances_def)

lemma advances_same: "coord_ok t \<Longrightarrow> goal_set t = goal_set s \<Longrightarrow> delegation_set t = delegation_set s \<Longrightarrow> advances I s t"
  by (simp add: advances_def evolves_same)

subsection \<open>Reads\<close>

lemma filter_r_subset: "filter_r p xs = Inr ys \<Longrightarrow> set ys \<subseteq> set xs"
  by (induction xs arbitrary: ys) (auto simp: rbind_eq_Inr split: if_splits)

lemma get_workspace_Inr:
  "get_workspace si i s = Inr ws \<Longrightarrow>
     get_goal i s = Inr (ws_goal ws) \<and> ws_delegations ws = filter (\<lambda>d. dl_goalId d = i) (delegations s) \<and>
     set (ws_reports ws) \<subseteq> report_set s \<and> ws_decisions ws = filter (\<lambda>d. dn_goalId d = i) (decisions_of s)"
  by (auto simp: get_workspace_def rbind_eq_Inr report_set_def dest!: filter_r_subset simp del: set_map)

lemma goal_running_Inr: "goal_running si m g = Inr u \<Longrightarrow> gl_state g = Gs_running"
  by (auto simp: goal_running_def rbind_eq_Inr split: option.splits)

subsection \<open>Waking the Foreman\<close>

lemma wake_frame [simp]:
  "delegation_set (snd (wake si i k g s)) = delegation_set s"
  "report_set (snd (wake si i k g s)) = report_set s" "decision_set (snd (wake si i k g s)) = decision_set s"
  "gl_id (fst (wake si i k g s)) = gl_id g" "gl_grant (fst (wake si i k g s)) = gl_grant g"
  by (simp_all add: wake_def Let_def)

lemma wake_advances:
  assumes ok: "coord_ok s" and g: "g \<in> goal_set s"
  shows "advances I s (snd (wake si i k g s))" "fst (wake si i k g s) \<in> goal_set (snd (wake si i k g s))"
proof -
  have final: "gl_state g = Gs_completed \<Longrightarrow>
      (\<forall>d\<in>delegation_set s. dl_goalId d = gl_id g \<longrightarrow> inactive (dl_state d)) \<and>
      (\<exists>d\<in>delegation_set s. dl_goalId d = gl_id g \<and> dl_state d = Dg_completed)"
    using coord_okD(8) [OF ok] g unfolding completed_ok_def by blast
  have ev: "evolves I s (snd (wake si i k g s))"
    unfolding evolves_def wake_frame
    by (intro conjI ballI) (use g in \<open>auto simp: wake_def Let_def split: if_splits\<close>)
  have budget: "gl_turnsUsed g \<le> gr_maxForemanTurns (gl_grant g)"
    using coord_okD(4) [OF ok] g unfolding budgets_ok_def by blast
  have okd: "coord_ok (snd (wake si i k g s))"
  proof (cases "open_review (gl_id g) s \<or> gr_maxForemanTurns (gl_grant g) \<le> gl_turnsUsed g")
    case True
    then show ?thesis using ok g budget by (auto simp: wake_def Let_def intro: save_goal_ok)
  next
    case False
    then show ?thesis using ok g final by (auto simp: wake_def Let_def intro!: save_goal_ok)
  qed
  from ev okd show "advances I s (snd (wake si i k g s))" by (simp add: advances_def)
  show "fst (wake si i k g s) \<in> goal_set (snd (wake si i k g s))" using g by (simp add: wake_def Let_def)
qed

subsection \<open>Pausing, cancelling and accepting\<close>

lemma distinct_head: "distinct (map f (d # ds)) \<Longrightarrow> x \<in> set ds \<Longrightarrow> f x \<noteq> f d"
  by (auto simp: image_iff)

lemma stale_decisions:
  "coord_ok s \<Longrightarrow> set ds \<subseteq> decision_set s \<Longrightarrow> distinct (map dn_id ds) \<Longrightarrow> \<forall>d\<in>set ds. dn_state d = Dn_pending \<Longrightarrow>
     coord_ok (foldl (\<lambda>t d. save_decision (stale_decision d) t) s ds) \<and>
     goal_set (foldl (\<lambda>t d. save_decision (stale_decision d) t) s ds) = goal_set s \<and>
     delegation_set (foldl (\<lambda>t d. save_decision (stale_decision d) t) s ds) = delegation_set s"
proof (induction ds arbitrary: s)
  case (Cons d ds)
  let ?t = "save_decision (stale_decision d) s"
  have d: "d \<in> decision_set s" "dn_state d = Dn_pending" using Cons.prems(2,4) by simp_all
  have okt: "coord_ok ?t" by (rule save_decision_ok [OF Cons.prems(1) d(1)]) (simp_all add: stale_decision_def d(2))
  have sub: "set ds \<subseteq> decision_set ?t"
  proof
    fix x assume x: "x \<in> set ds"
    then show "x \<in> decision_set ?t" using Cons.prems(2) distinct_head [OF Cons.prems(3) x] by (auto simp: stale_decision_def)
  qed
  have pend: "\<forall>d\<in>set ds. dn_state d = Dn_pending" and dist: "distinct (map dn_id ds)" using Cons.prems(3,4) by simp_all
  show ?case using Cons.IH [OF okt sub dist pend] by simp
qed simp

lemma cancelled_delegations:
  "coord_ok s \<Longrightarrow> set ds \<subseteq> delegation_set s \<Longrightarrow> distinct (map dl_id ds) \<Longrightarrow>
     \<forall>d\<in>set ds. \<forall>g\<in>goal_set s. gl_id g = dl_goalId d \<longrightarrow> gl_state g \<noteq> Gs_completed \<Longrightarrow>
     advances I s (foldl (\<lambda>t d. save_delegation (cancelled_delegation si d) t) s ds) \<and>
     goal_set (foldl (\<lambda>t d. save_delegation (cancelled_delegation si d) t) s ds) = goal_set s"
proof (induction ds arbitrary: s)
  case (Cons d ds)
  let ?t = "save_delegation (cancelled_delegation si d) s"
  have d: "d \<in> delegation_set s" and open': "\<And>g. g \<in> goal_set s \<Longrightarrow> gl_id g = dl_goalId d \<Longrightarrow> gl_state g \<noteq> Gs_completed"
    using Cons.prems(2,4) by simp_all
  have "coord_ok ?t"
    by (rule update_delegation_ok [OF Cons.prems(1) d])
      (simp_all add: cancelled_delegation_def active_def inactive_def open')
  moreover have "evolves I s ?t" by (rule evolves_delegation [OF d]) (simp_all add: cancelled_delegation_def)
  ultimately have t: "advances I s ?t" by (simp add: advances_def)
  have sub: "set ds \<subseteq> delegation_set ?t"
  proof
    fix x assume x: "x \<in> set ds"
    then show "x \<in> delegation_set ?t" using Cons.prems(2) distinct_head [OF Cons.prems(3) x] by (auto simp: cancelled_delegation_def)
  qed
  have dist: "distinct (map dl_id ds)" using Cons.prems(3) by simp
  have rest: "\<forall>d\<in>set ds. \<forall>g\<in>goal_set ?t. gl_id g = dl_goalId d \<longrightarrow> gl_state g \<noteq> Gs_completed"
    using Cons.prems(4) unfolding set_frame by simp
  show ?case using Cons.IH [OF advances_ok [OF t] sub dist rest] advances_trans [OF t] by simp
qed simp

lemma withdraw_advances:
  assumes ok: "coord_ok s" and open': "\<forall>g\<in>goal_set s. gl_id g = i \<longrightarrow> gl_state g \<noteq> Gs_completed"
    and run: "withdraw si i cancel s = Inr s'"
  shows "advances I s s' \<and> goal_set s' = goal_set s"
proof -
  from run obtain ws where ws: "get_workspace si i s = Inr ws" by (auto simp: withdraw_def rbind_eq_Inr Let_def)
  let ?t = "foldl (\<lambda>t d. save_decision (stale_decision d) t) s (filter (\<lambda>d. dn_state d = Dn_pending) (ws_decisions ws))"
  from run obtain ws1 where ws1: "get_workspace si i ?t = Inr ws1"
    and s': "s' = foldl (\<lambda>t d. save_delegation (cancelled_delegation si d) t) ?t
        (filter (\<lambda>d. dl_state d = Dg_proposed \<or> cancel) (ws_delegations ws1))"
    by (auto simp: withdraw_def ws rbind_eq_Inr Let_def)
  have dist: "distinct (map dn_id (decisions_of s))" using coord_okD(1) [OF ok] by (simp add: ids_ok_def)
  have t: "coord_ok ?t \<and> goal_set ?t = goal_set s \<and> delegation_set ?t = delegation_set s"
    by (rule stale_decisions [OF ok])
      (use get_workspace_Inr [OF ws] dist in \<open>auto simp: decision_set_def distinct_map_filter\<close>)
  then have t_dist: "distinct (map dl_id (delegations ?t))" using coord_okD(1) by (simp add: ids_ok_def)
  have "advances I ?t s' \<and> goal_set s' = goal_set ?t" unfolding s'
    by (rule cancelled_delegations) (use get_workspace_Inr [OF ws1] t t_dist open' in
        \<open>auto simp: delegation_set_def distinct_map_filter\<close>)
  moreover have "advances I s ?t" using t by (intro advances_same) simp_all
  ultimately show ?thesis using t advances_trans by metis
qed

definition finished :: "delegation \<Rightarrow> delegation" where
  "finished d = d\<lparr>dl_state := Dg_completed, dl_revision := dl_revision d + 1\<rparr>"

lemma accept_delegation_InrD:
  assumes "accept_delegation si i d s = Inr s'" "coord_ok s" "d \<in> delegation_set s"
  shows "s' = save_delegation (finished d) s" "reviewed s d"
proof -
  from assms(1) obtain ws r where ws: "get_workspace si i s = Inr ws" and r: "last_ready d (ws_reports ws) = Some r"
    and rev: "assertApprovedReview si d (rt_candidateHead r) (rt_candidatePath r) (rt_candidateDigest r) s = Inr ()"
    and s': "s' = save_delegation (finished d) s"
    by (auto simp: accept_delegation_def rbind_eq_Inr finished_def split: option.splits)
  show "s' = save_delegation (finished d) s" by (rule s')
  from r have rl: "filter (\<lambda>r. rt_delegationId r = dl_id d \<and> rt_kind r = Rk_ready) (ws_reports ws) \<noteq> []"
    "r = last (filter (\<lambda>r. rt_delegationId r = dl_id d \<and> rt_kind r = Rk_ready) (ws_reports ws))"
    by (auto simp: last_ready_def Let_def split: if_splits)
  from last_in_set [OF rl(1)] have ready: "r \<in> report_set s" "rt_delegationId r = dl_id d" "rt_kind r = Rk_ready"
    using get_workspace_Inr [OF ws] unfolding rl(2) [symmetric] by auto
  from rev obtain wr where wr: "get_workspace si (dl_goalId d) s = Inr wr"
    by (auto simp: assertApprovedReview_def rbind_eq_Inr)
  let ?rs = "independent_reviews d (rt_candidateHead r) (rt_candidatePath r) (rt_candidateDigest r) (ws_reports wr)"
  have q: "?rs \<noteq> []"
    and l: "rpc_reviewOutcome (rt_command (last ?rs)) = Some Rv_approved" "rpc_evidence (rt_command (last ?rs)) \<noteq> []"
    using rev by (simp_all add: assertApprovedReview_def wr Let_def)
  from last_in_set [OF q] have "last ?rs \<in> report_set s" "rt_delegationId (last ?rs) = dl_id d"
    "rt_kind (last ?rs) = Rk_review" "rt_memberId (last ?rs) \<noteq> dl_memberId d"
    "same_candidate (rt_candidateHead r) (rt_candidatePath r) (rt_candidateDigest r) (last ?rs)"
    using get_workspace_Inr [OF wr] unfolding independent_reviews_def by auto
  moreover have "rt_memberId r = dl_memberId d"
    using coord_okD(7) [OF assms(2)] ready assms(3) unfolding leads_ok_def by blast
  ultimately show "reviewed s d" unfolding reviewed_def using ready l by blast
qed

lemma accepted_delegations:
  "fold_r (accept_delegation si i) ds s = Inr s' \<Longrightarrow> coord_ok s \<Longrightarrow> set ds \<subseteq> delegation_set s \<Longrightarrow> distinct (map dl_id ds) \<Longrightarrow>
     \<forall>d\<in>set ds. dl_state d = Dg_ready \<and> (\<forall>g\<in>goal_set s. gl_id g = dl_goalId d \<longrightarrow> gl_state g \<noteq> Gs_completed) \<Longrightarrow>
     advances I s s' \<and> goal_set s' = goal_set s \<and>
     delegation_set s' = {x \<in> delegation_set s. dl_id x \<notin> dl_id ` set ds} \<union> finished ` set ds"
proof (induction ds arbitrary: s)
  case (Cons d ds)
  let ?t = "save_delegation (finished d) s"
  have d: "d \<in> delegation_set s" using Cons.prems(3) by simp
  obtain t where t: "accept_delegation si i d s = Inr t" "fold_r (accept_delegation si i) ds t = Inr s'"
    using Cons.prems(1) by (auto simp: rbind_eq_Inr)
  note acc = accept_delegation_InrD [OF t(1) Cons.prems(2) d]
  have approved: "\<exists>n\<in>decision_set s. approves n (finished d)"
  proof -
    have "dl_state d = Dg_ready" using Cons.prems(5) by simp
    then obtain n where "n \<in> decision_set s" "approves n d"
      using coord_okD(5) [OF Cons.prems(2)] d unfolding approved_ok_def by fastforce
    then show ?thesis by (auto simp: approves_def finished_def)
  qed
  have "coord_ok ?t"
  proof (rule update_delegation_ok [OF Cons.prems(2) d])
    show "reviewed s (finished d)" using acc(2) by (simp add: reviewed_def finished_def)
    show "active (finished d) \<Longrightarrow> active d" by (simp add: finished_def active_def inactive_def)
    fix g assume "g \<in> goal_set s" "gl_id g = dl_goalId d"
    then show "gl_state g \<noteq> Gs_completed" using Cons.prems(5) by simp
  qed (rule approved | simp add: finished_def)+
  moreover have "evolves I s ?t" by (rule evolves_delegation [OF d]) (simp_all add: finished_def)
  ultimately have adv: "advances I s ?t" by (simp add: advances_def)
  have dset: "delegation_set ?t = insert (finished d) {x \<in> delegation_set s. dl_id x \<noteq> dl_id d}" by (simp add: finished_def)
  have rest: "set ds \<subseteq> delegation_set ?t" unfolding dset
    using Cons.prems(3) distinct_head [OF Cons.prems(4)] by auto
  have ih: "advances I ?t s' \<and> goal_set s' = goal_set ?t \<and>
      delegation_set s' = {x \<in> delegation_set ?t. dl_id x \<notin> dl_id ` set ds} \<union> finished ` set ds"
    by (rule Cons.IH) (use t(2) acc(1) advances_ok [OF adv] rest Cons.prems(4,5) in simp_all)
  have "dl_id (finished d) \<notin> dl_id ` set ds" using Cons.prems(4) by (simp add: finished_def)
  then have "delegation_set s' = {x \<in> delegation_set s. dl_id x \<notin> dl_id ` set (d # ds)} \<union> finished ` set (d # ds)"
    using ih unfolding dset by auto
  then show ?case using ih advances_trans [OF adv] by simp
qed simp

lemma accept_goal_advances:
  assumes ok: "coord_ok s" and g: "g \<in> goal_set s" "gl_state g \<noteq> Gs_completed" and run: "accept_goal si g s = Inr s'"
  shows "advances I s s'" "goal_set s' = goal_set s"
    "\<forall>d\<in>delegation_set s'. dl_goalId d = gl_id g \<longrightarrow> inactive (dl_state d)"
    "\<exists>d\<in>delegation_set s'. dl_goalId d = gl_id g \<and> dl_state d = Dg_completed"
proof -
  from run obtain ws where ws: "get_workspace si (gl_id g) s = Inr ws" by (auto simp: accept_goal_def rbind_eq_Inr)
  let ?ds = "filter (\<lambda>d. dl_state d \<noteq> Dg_cancelled) (ws_delegations ws)"
  from run have ds: "?ds \<noteq> []" "list_all (\<lambda>d. dl_state d = Dg_ready) ?ds"
    and fold: "fold_r (accept_delegation si (gl_id g)) ?ds s = Inr s'"
    unfolding accept_goal_def ws by (auto simp: rbind_eq_Inr Let_def)
  have wd: "ws_delegations ws = filter (\<lambda>d. dl_goalId d = gl_id g) (delegations s)" using get_workspace_Inr [OF ws] by blast
  then have sub: "set ?ds = {d \<in> delegation_set s. dl_goalId d = gl_id g \<and> dl_state d \<noteq> Dg_cancelled}"
    by (auto simp: delegation_set_def)
  have only: "x = g" if "x \<in> goal_set s" "gl_id x = gl_id g" for x using coord_inj(1) [OF ok that(1) g(1) that(2)] .
  have "distinct (map dl_id ?ds)" using coord_okD(1) [OF ok] wd by (simp add: ids_ok_def distinct_map_filter)
  then have R: "advances I s s' \<and> goal_set s' = goal_set s \<and>
      delegation_set s' = {x \<in> delegation_set s. dl_id x \<notin> dl_id ` set ?ds} \<union> finished ` set ?ds"
    by (rule accepted_delegations [OF fold ok, rotated])
      (use sub ds(2) only g(2) in \<open>auto simp: list_all_iff wd\<close>)
  then show "advances I s s'" "goal_set s' = goal_set s" by simp_all
  show "\<forall>d\<in>delegation_set s'. dl_goalId d = gl_id g \<longrightarrow> inactive (dl_state d)"
  proof (intro ballI impI)
    fix d assume d: "d \<in> delegation_set s'" "dl_goalId d = gl_id g"
    then consider "d \<in> delegation_set s" "dl_id d \<notin> dl_id ` set ?ds" | "d \<in> finished ` set ?ds" using R by blast
    then show "inactive (dl_state d)"
    proof cases
      case 1
      then have "d \<notin> set ?ds" by blast
      then show ?thesis using 1 d(2) unfolding sub by (auto simp: inactive_def)
    next
      case 2
      then show ?thesis by (auto simp: finished_def inactive_def)
    qed
  qed
  obtain d where "d \<in> set ?ds" using ds(1) by (cases ?ds) auto
  then have "finished d \<in> delegation_set s'" "dl_goalId (finished d) = gl_id g" "dl_state (finished d) = Dg_completed"
    using R wd by (auto simp: finished_def)
  then show "\<exists>d\<in>delegation_set s'. dl_goalId d = gl_id g \<and> dl_state d = Dg_completed" by blast
qed

lemma control_allowed_open: "control_allowed a st \<Longrightarrow> st \<noteq> Gs_completed"
  by (cases a) (auto simp: control_allowed_def)

lemma control_InrD:
  "control_goal si c s = Inr (g', s') \<Longrightarrow> \<exists>(input :: control_command) g st s1 s3.
     get_goal (ct_id input) s = Inr g \<and> control_allowed (ct_action input) (gl_state g) \<and>
     control_outcome si (ct_action input) g s = Inr (st, s1) \<and>
     (if ct_action input = Ga_pause \<or> ct_action input = Ga_cancel
      then withdraw si (gl_id g) (ct_action input = Ga_cancel) (save_goal (controlled si st g) s1)
      else Inr (save_goal (controlled si st g) s1)) = Inr s3 \<and>
     g' = controlled si st g \<and>
     s' = notify si (''control:'' @ gl_id g @ '':'' @ show_nat (gl_revision g')) Nk_control (Some (gl_id g)) None None s3"
  unfolding control_goal_def
  by (clarsimp simp: rbind_eq_Inr Let_def split del: if_split) (intro exI conjI, (assumption | simp)+)

lemma control_advances:
  assumes ok: "coord_ok s" and run: "control_goal si c s = Inr (g', s')"
  shows "advances I s s'" "g' \<in> goal_set s'"
proof -
  from control_InrD [OF run] obtain input :: control_command and g st s1 s3 where g: "get_goal (ct_id input) s = Inr g"
    and allowed: "control_allowed (ct_action input) (gl_state g)"
    and st: "control_outcome si (ct_action input) g s = Inr (st, s1)"
    and s3: "(if ct_action input = Ga_pause \<or> ct_action input = Ga_cancel
      then withdraw si (gl_id g) (ct_action input = Ga_cancel) (save_goal (controlled si st g) s1)
      else Inr (save_goal (controlled si st g) s1)) = Inr s3"
    and g': "g' = controlled si st g"
    and s': "s' = notify si (''control:'' @ gl_id g @ '':'' @ show_nat (gl_revision g')) Nk_control (Some (gl_id g)) None None s3"
    by (elim exE conjE)
  note s3 = s3 [folded g']
  have gs: "g \<in> goal_set s" using get_goal_Inr [OF g] by simp
  note open' = control_allowed_open [OF allowed]
  have budget: "gl_turnsUsed g \<le> gr_maxForemanTurns (gl_grant g)"
    using coord_okD(4) [OF ok] gs unfolding budgets_ok_def by blast
  have s1: "advances I s s1 \<and> goal_set s1 = goal_set s \<and> (st = Gs_completed \<longrightarrow> ct_action input = Ga_accept \<and>
      (\<forall>d\<in>delegation_set s1. dl_goalId d = gl_id g \<longrightarrow> inactive (dl_state d)) \<and>
      (\<exists>d\<in>delegation_set s1. dl_goalId d = gl_id g \<and> dl_state d = Dg_completed))"
  proof (cases "ct_action input = Ga_accept")
    case True
    then have "accept_goal si g s = Inr s1" using st by (auto simp: control_outcome_def rbind_eq_Inr)
    from accept_goal_advances [OF ok gs open' this] show ?thesis using True by blast
  next
    case False
    then have "s1 = s \<and> st \<noteq> Gs_completed" using st by (cases "ct_action input") (auto simp: control_outcome_def rbind_eq_Inr)
    then show ?thesis using ok by simp
  qed
  have "coord_ok (save_goal g' s1)"
  proof (rule save_goal_ok)
    show "coord_ok s1" using s1 advances_ok by blast
    show "g \<in> goal_set s1" using s1 gs by simp
    assume "gl_state g' = Gs_completed"
    then have "st = Gs_completed" by (simp add: g' controlled_def)
    then show "(\<forall>d\<in>delegation_set s1. dl_goalId d = gl_id g \<longrightarrow> inactive (dl_state d)) \<and>
        (\<exists>d\<in>delegation_set s1. dl_goalId d = gl_id g \<and> dl_state d = Dg_completed)" using s1 by simp
  qed (simp_all add: g' controlled_def budget)
  moreover have "evolves I s1 (save_goal g' s1)"
  proof (rule evolves_goal)
    show "g \<in> goal_set s1" using s1 gs by simp
  qed (simp_all add: g' controlled_def)
  ultimately have t: "advances I s (save_goal g' s1)" using s1 advances_trans unfolding advances_def by blast
  have G: "goal_set (save_goal g' s1) = insert g' {x \<in> goal_set s. gl_id x \<noteq> gl_id g}" using s1 by (simp add: g' controlled_def)
  have "advances I (save_goal g' s1) s3 \<and> goal_set s3 = goal_set (save_goal g' s1)"
  proof (cases "ct_action input = Ga_pause \<or> ct_action input = Ga_cancel")
    case True
    then have "st \<noteq> Gs_completed" using s1 by auto
    then have all: "\<forall>x\<in>goal_set (save_goal g' s1). gl_id x = gl_id g \<longrightarrow> gl_state x \<noteq> Gs_completed"
      unfolding G by (simp add: g' controlled_def)
    have "withdraw si (gl_id g) (ct_action input = Ga_cancel) (save_goal g' s1) = Inr s3"
      using s3 unfolding if_P [OF True] .
    with advances_ok [OF t] all show ?thesis by (rule withdraw_advances)
  next
    case False
    have "s3 = save_goal g' s1" using s3 unfolding if_not_P [OF False] by (simp only: sum.inject)
    then show ?thesis using advances_refl [OF advances_ok [OF t]] by blast
  qed
  then have "advances I s s3" "g' \<in> goal_set s3" using advances_trans [OF t] G by auto
  then show "advances I s s'" "g' \<in> goal_set s'" unfolding s' advances_def evolves_def by simp_all
qed

subsection \<open>Fresh ids\<close>

text \<open>A random id is no id of a record, and no key of a decision mentions it.\<close>

definition fresh_id :: "goals_db \<Rightarrow> string \<Rightarrow> bool" where
  "fresh_id s i \<longleftrightarrow> parse_identifier i = Inr i \<and> i \<notin> gl_id ` goal_set s \<and> i \<notin> dl_id ` delegation_set s \<and>
     i \<notin> rt_id ` report_set s \<and> i \<notin> dn_id ` decision_set s \<and>
     list_all (\<lambda>r. pred_option (\<lambda>k. \<not> sublist i k) (cr_key r)) (gs_decisions s)"

subsection \<open>Proposing and asking\<close>

lemma put_goal_advances:
  assumes ok: "coord_ok s" and new: "gl_id g \<notin> gl_id ` goal_set s" "gl_id g \<in> I"
    and g: "gl_turnsUsed g \<le> gr_maxForemanTurns (gl_grant g)" "gl_state g \<noteq> Gs_completed"
  shows "advances I s (s\<lparr>gs_goals := coord_save gl_id g k dg (gs_goals s)\<rparr>)" (is "advances I s ?t")
proof -
  have "coord_ok ?t"
  proof (rule put_goal_ok [OF ok])
    fix x assume "x \<in> goal_set s" "gl_id x = gl_id g"
    then show "gl_grant x = gl_grant g" using new(1) by (metis imageI)
  qed (use g in simp_all)
  moreover have "evolves I s ?t" unfolding evolves_def set_puts set_frame using new(2) by blast
  ultimately show ?thesis by (simp add: advances_def)
qed

lemma propose_advances:
  assumes ok: "coord_ok s" and fresh: "fresh_id s (ids 0)" and run: "propose si ids who c s = Inr (g, s')"
  shows "advances {ids 0} s s'"
proof -
  from run consider "s' = s" | f and input :: propose_command and origin sourceText k dg where
      "approve_new_goal si (new_goal si f (ids 0) input origin sourceText)
         (store_new_goal si (new_goal si f (ids 0) input origin sourceText) k dg s) = Inr (g, s')"
    unfolding propose_def by (auto simp: rbind_eq_Inr Let_def split: option.splits)
  then show ?thesis
  proof cases
    case 1
    then show ?thesis using ok by simp
  next
    case 2
    let ?g = "new_goal si f (ids 0) input origin sourceText"
    have "advances {ids 0} s (s\<lparr>gs_goals := coord_save gl_id ?g (Some k) (Some dg) (gs_goals s)\<rparr>)"
      by (rule put_goal_advances [OF ok]) (use fresh in \<open>simp_all add: new_goal_def fresh_id_def\<close>)
    then have t: "advances {ids 0} s (store_new_goal si ?g k dg s)"
      unfolding store_new_goal_def advances_def evolves_def by simp
    from 2 consider "s' = store_new_goal si ?g k dg s" | c1 s2 where
        "control_goal si c1 (store_new_goal si ?g k dg s) = Inr (g, s2)"
        "s' = recordAutomaticApproval g ''approve-goal'' (gl_id ?g) s2"
      by (auto simp: approve_new_goal_def rbind_eq_Inr split: if_splits)
    then show ?thesis
    proof cases
      case 1
      then show ?thesis using t by simp
    next
      case 2
      have "advances {ids 0} s s2" by (rule advances_trans [OF t control_advances(1) [OF advances_ok [OF t] 2(1)]])
      then show ?thesis unfolding 2(2) advances_def evolves_def by simp
    qed
  qed
qed

lemma ask_advances:
  assumes ok: "coord_ok s" and fresh: "i \<notin> dn_id ` decision_set s" and run: "ask si i q kind s = Inr (dn, s')"
  shows "advances I s s'" "goal_set s' = goal_set s" "delegation_set s' = delegation_set s"
proof -
  let ?key = "''question:'' @ qc_goalId q @ '':'' @ or_goal (qc_delegationId q) @ '':'' @ qc_requestId q"
  let ?sha = "si_sha si (In_question q)"
  from run obtain ex where ex: "coord_existing ?key ?sha (gs_decisions s) = Inr ex"
    by (auto simp: ask_def rbind_eq_Inr Let_def)
  have "coord_ok s' \<and> goal_set s' = goal_set s \<and> delegation_set s' = delegation_set s"
  proof (cases ex)
    case (Some e)
    then have "s' = s" using run ex by (simp add: ask_def rbind_eq_Inr Let_def)
    then show ?thesis using ok by simp
  next
    case None
    then obtain g where gg: "get_goal (qc_goalId q) s = Inr g"
      and owner: "(case qc_delegationId q of None \<Rightarrow> Inr ()
               | Some i \<Rightarrow> rbind (get_delegation i s) (\<lambda>d. check (dl_goalId d = gl_id g) goal_conflict)) = Inr ()"
      and s': "s' = notify si (''decision:'' @ i) Nk_decision (Some (gl_id g)) (qc_delegationId q) (Some i)
           (s\<lparr>gs_decisions := coord_save dn_id dn (Some ?key) (Some ?sha) (gs_decisions s)\<rparr>)"
      and d: "dn = \<lparr>dn_id = i, dn_command = q, dn_kind = kind, dn_state = Dn_pending, dn_revision = 0,
                dn_goalRevision = gl_revision g, dn_answer = None, dn_decidedBy = None,
                dn_createdAt = si_now si, dn_resolvedAt = None\<rparr>"
      using run ex by (auto simp: ask_def rbind_eq_Inr Let_def)
    note g = get_goal_Inr [OF gg]
    have "coord_ok (s\<lparr>gs_decisions := coord_save dn_id dn (Some ?key) (Some ?sha) (gs_decisions s)\<rparr>)"
    proof (rule put_decision_ok [OF ok])
      show "dn_goalId dn \<in> gl_id ` goal_set s" by (rule image_eqI [of _ _ g]) (use g in \<open>simp_all add: d\<close>)
      fix x assume "x \<in> decision_set s" "dn_id x = dn_id dn"
      then show "dn_state x \<noteq> Dn_resolved" using fresh by (auto simp: d)
    next
      fix j assume "dn_delegationId dn = Some j"
      then obtain x where "get_delegation j s = Inr x" "dl_goalId x = gl_id g"
        using owner by (auto simp: d rbind_eq_Inr)
      then show "\<exists>x\<in>delegation_set s. dl_id x = j \<and> dl_goalId x = dn_goalId dn"
        using get_delegation_Inr g by (auto simp: d)
    qed (simp add: d)
    then show ?thesis unfolding s' by simp
  qed
  then show "advances I s s'" "goal_set s' = goal_set s" "delegation_set s' = delegation_set s"
    by (auto intro: advances_same)
qed

subsection \<open>Resolving\<close>

definition policy_may :: "string \<Rightarrow> decision \<Rightarrow> goals_db \<Rightarrow> bool" where
  "policy_may who dn s \<longleftrightarrow>
     (by_policy who \<longrightarrow> (\<forall>g\<in>goal_set s. gl_id g = dn_goalId dn \<longrightarrow> gr_approvalMode (gl_grant g) = Autonomous_approval))"

lemma save_commutes: "save_decision n (save_delegation d s) = save_delegation d (save_decision n s)"
  by (simp add: save_decision_def save_delegation_def)

lemma resolve_saves:
  assumes ok: "coord_ok s" and dn: "dn \<in> decision_set s" "dn_state dn = Dn_pending"
    and g: "g \<in> goal_set s" "gl_id g = dn_goalId dn" "gl_state g \<noteq> Gs_completed"
    and d1: "dn' = resolved_decision si who answer dn"
    and may: "policy_may who dn s"
    and run: "(if dn_kind dn = Dk_delegation then resolve_delegation si dn answer s else Inr s) = Inr s1"
  shows "advances I s (save_decision dn' s1)" "goal_set s1 = goal_set s"
proof -
  have dec: "coord_ok (save_decision dn' s)"
    by (rule save_decision_ok [OF ok dn(1)]) (use dn(2) may in \<open>auto simp: d1 resolved_decision_def policy_may_def\<close>)
  have "advances I s (save_decision dn' s1) \<and> goal_set s1 = goal_set s"
  proof (cases "dn_kind dn = Dk_delegation")
    case False
    then show ?thesis using run dec by (auto intro: advances_same)
  next
    case True
    then obtain i d where i: "dn_delegationId dn = Some i" and d: "get_delegation i s = Inr d" and st: "dl_state d = Dg_proposed"
      and s1: "s1 = save_delegation (d\<lparr>dl_state := if answer = ''approve'' then Dg_queued else Dg_cancelled,
                   dl_revision := dl_revision d + 1\<rparr>) s" (is "s1 = save_delegation ?d s")
      using run by (auto simp: resolve_delegation_def rbind_eq_Inr split: option.splits)
    note ds = get_delegation_Inr [OF d]
    obtain d2 where "d2 \<in> delegation_set s" "dl_id d2 = i" "dl_goalId d2 = dn_goalId dn"
      using coord_okD(9) [OF ok] dn(1) i unfolding asked_ok_def by blast
    then have goal: "dl_goalId d = dn_goalId dn" using coord_inj(2) [OF ok, of d2 d] ds by simp
    have "coord_ok (save_delegation ?d (save_decision dn' s))"
    proof (rule update_delegation_ok [OF dec])
      show "d \<in> delegation_set (save_decision dn' s)" using ds by simp
      show "active ?d \<Longrightarrow> active d" using st by (simp add: active_def inactive_def)
      assume "dl_state ?d \<noteq> Dg_proposed" "dl_state ?d \<noteq> Dg_cancelled"
      then have "answer = ''approve''" by (auto split: if_splits)
      then have "approves dn' ?d" using i ds goal True by (simp add: approves_def d1 resolved_decision_def)
      then show "\<exists>n\<in>decision_set (save_decision dn' s). approves n ?d" by simp
    next
      fix x assume "x \<in> goal_set (save_decision dn' s)" "gl_id x = dl_goalId d"
      then have "x = g" using coord_inj(1) [OF ok, of x g] g goal by simp
      then show "gl_state x \<noteq> Gs_completed" using g(3) by simp
    qed (auto split: if_splits)
    then have "coord_ok (save_decision dn' s1)" unfolding s1 save_commutes .
    moreover have "evolves I s s1" unfolding s1 by (rule evolves_delegation [of d]) (use ds in simp_all)
    then have "evolves I s (save_decision dn' s1)" unfolding evolves_def by simp
    ultimately show ?thesis unfolding advances_def by (simp add: s1)
  qed
  then show "advances I s (save_decision dn' s1)" "goal_set s1 = goal_set s" by simp_all
qed

lemma resolve_advances:
  assumes ok: "coord_ok s" and run: "resolve_decision si i k who c s = Inr (n, s')"
    and may: "\<And>dn. dn \<in> decision_set s \<Longrightarrow> parse_identifier (rv_id c) = Inr (dn_id dn) \<Longrightarrow> policy_may who dn s"
  shows "advances I s s'"
proof -
  from run obtain input :: resolve_command and dn where input: "parse_resolve c = Inr input"
    and dn: "coord_get dn_id (rv_id input) (gs_decisions s) = Inr dn"
    and rest: "s' = s \<or> (\<exists>g u s1 dn'. get_goal (dn_goalId dn) s = Inr g \<and> goal_running si Coordination g = Inr u \<and>
        dn_state dn = Dn_pending \<and>
        (if dn_kind dn = Dk_delegation then resolve_delegation si dn (rv_answer input) s else Inr s) = Inr s1 \<and>
        dn' = resolved_decision si who (rv_answer input) dn \<and>
        s' = snd (wake si i k g (notify si (''resolved:'' @ dn_id dn) Nk_decision (Some (gl_id g)) None (Some (dn_id dn))
                  (save_decision dn' s1))))"
    unfolding resolve_decision_def by (auto simp: rbind_eq_Inr Let_def simp del: if_split_asm split: if_split_asm)
  have dns: "dn \<in> decision_set s" "dn_id dn = rv_id input"
    using coord_get_Inr [OF dn] by (simp_all add: decision_set_def del: set_map)
  have "parse_identifier (rv_id c) = Inr (dn_id dn)" using input dns(2) by (auto simp: parse_resolve_def rbind_eq_Inr)
  from may [OF dns(1) this] have may': "policy_may who dn s" .
  from rest show ?thesis
  proof (elim disjE exE conjE)
    assume "s' = s" then show ?thesis using ok by simp
  next
    fix g u s1 dn' assume g: "get_goal (dn_goalId dn) s = Inr g" and r: "goal_running si Coordination g = Inr u"
      and st: "dn_state dn = Dn_pending"
      and s1: "(if dn_kind dn = Dk_delegation then resolve_delegation si dn (rv_answer input) s else Inr s) = Inr s1"
      and dn': "dn' = resolved_decision si who (rv_answer input) dn"
      and s': "s' = snd (wake si i k g (notify si (''resolved:'' @ dn_id dn) Nk_decision (Some (gl_id g)) None (Some (dn_id dn))
                  (save_decision dn' s1)))" (is "s' = snd (wake si i k g ?t)")
    note gs = get_goal_Inr [OF g]
    have "gl_state g \<noteq> Gs_completed" using goal_running_Inr [OF r] by simp
    note sv = resolve_saves [OF ok dns(1) st _ _ this dn' may' s1]
    have t: "advances I s ?t" using sv(1) gs unfolding advances_def evolves_def by simp
    have "g \<in> goal_set ?t" using gs sv(2) by simp
    from wake_advances(1) [OF advances_ok [OF t] this] show ?thesis unfolding s' using advances_trans [OF t] by blast
  qed
qed

lemma advances_frames [simp]:
  "advances I s (t\<lparr>gs_inbox := x1\<rparr>) = advances I s t" "advances I s (t\<lparr>gs_removed := x2\<rparr>) = advances I s t"
  "advances I s (t\<lparr>gs_audits := x3\<rparr>) = advances I s t" "advances I s (t\<lparr>gs_cursors := x4\<rparr>) = advances I s t"
  "advances I s (t\<lparr>gs_recovery := x5\<rparr>) = advances I s t" "advances I s (notify si k nk a b c t) = advances I s t"
  "advances I s (add_link i j t) = advances I s t" "advances I s (recordAutomaticApproval g y1 y2 t) = advances I s t"
  "advances I s (linkAction act t) = advances I s t"
  by (simp_all add: advances_def evolves_def)

subsection \<open>Delegating\<close>

lemma approve_queued:
  assumes "approved_plan si i input g s = Inr ()" "coord_ok s" "gl_id g = dlc_goalId input" "dl_command d = input"
  shows "\<exists>n\<in>decision_set s. approves n d"
proof -
  from assms(1) obtain dn who where dn: "coord_get dn_id i (gs_decisions s) = Inr dn" and
    "dn_kind dn = Dk_preparation" "dn_goalId dn = gl_id g" "dn_state dn = Dn_resolved" "dn_answer dn = Some ''approve''"
    "dn_decidedBy dn = Some who" "take (length (policy_id [])) who \<noteq> policy_id []"
    by (auto simp: approved_plan_def rbind_eq_Inr split: option.splits)
  then have "dn \<in> decision_set s" "approves dn d"
    using coord_get_Inr [OF dn] assms by (simp_all add: decision_set_def approves_def by_policy_def del: set_map)
  then show ?thesis by blast
qed

lemma unreserved:
  assumes "assessTeam si i s = Inr []" "getEffectiveGroupCheckout si i = Inr (Some c)"
    and "d \<in> delegation_set s" "active d"
  shows "dl_groupId d \<noteq> i" "dl_checkoutId d \<noteq> co_id c"
proof -
  have "d \<in> set (filter (\<lambda>d. \<not> inactive (dl_state d)) (delegations s))"
    using assms(3,4) by (simp add: delegation_set_def active_def)
  then show "dl_groupId d \<noteq> i" "dl_checkoutId d \<noteq> co_id c"
    using assms(1,2) by (auto simp: assessTeam_def rbind_eq_Inr Let_def list_ex_iff split: if_splits)
qed

lemma room_left:
  assumes "get_workspace si i s = Inr ws" "length (filter (\<lambda>d. \<not> inactive (dl_state d)) (ws_delegations ws)) < n"
  shows "card {d \<in> delegation_set s. active d \<and> dl_goalId d = i} < n"
proof -
  have "{d \<in> delegation_set s. active d \<and> dl_goalId d = i} = set (filter (\<lambda>d. \<not> inactive (dl_state d)) (ws_delegations ws))"
    using get_workspace_Inr [OF assms(1)] by (auto simp: delegation_set_def active_def)
  then show ?thesis using assms(2) card_length by (metis le_less_trans)
qed

lemma decide_advances:
  assumes ok: "coord_ok s" and fresh: "ids 1 \<notin> dn_id ` decision_set s" "parse_identifier (ids 1) = Inr (ids 1)"
    and new: "coord_existing (''question:'' @ dl_goalId d @ '':'' @ dl_id d @ '':'' @ dl_id d)
        (si_sha si (In_question (delegation_question d gn))) (gs_decisions s) = Inr None"
    and g: "g \<in> goal_set s" "gl_id g = dl_goalId d"
    and run: "decide_delegation si ids g gn d s = Inr (d', s')"
  shows "advances I s s'"
proof -
  let ?q = "delegation_question d gn"
  from run obtain dn s1 where ask: "ask si (ids 1) ?q Dk_delegation s = Inr (dn, s1)"
    by (auto simp: decide_delegation_def rbind_eq_Inr)
  let ?t = "notify si (''delegation:'' @ dl_id d) Nk_decision (Some (gl_id g)) (Some (dl_id d)) (Some (dn_id dn)) s1"
  from run ask have end': "s' = ?t \<or> automatic si g \<and> (\<exists>n s3. resolve_decision si (ids 2) (ids 3) (policy_id (gl_foremanId g))
        \<lparr>rv_id = dn_id dn, rv_expectedRevision = dn_revision dn, rv_requestId = ''auto:'' @ dn_id dn, rv_answer = ''approve''\<rparr>
        ?t = Inr (n, s3) \<and> s' = recordAutomaticApproval g ''approve-delegation'' (dl_id d) s3)"
    by (auto simp: decide_delegation_def rbind_eq_Inr Let_def split: if_splits)
  note asked = ask_advances(1) [OF ok fresh(1) ask, of I] ask_advances(2) [OF ok fresh(1) ask]
  have ex: "coord_existing (''question:'' @ qc_goalId ?q @ '':'' @ or_goal (qc_delegationId ?q) @ '':'' @ qc_requestId ?q)
        (si_sha si (In_question ?q)) (gs_decisions s) = Inr None"
    using new by (simp add: delegation_question_def or_goal_def)
  have dn: "dn_id dn = ids 1" "dn_goalId dn = gl_id g"
    using ask ex g(2) by (auto simp: ask_def rbind_eq_Inr Let_def delegation_question_def)
  have t: "advances I s ?t" using asked unfolding advances_def evolves_def by simp
  have gt: "g \<in> goal_set ?t" using asked(2) g by simp
  from end' show ?thesis
  proof (elim disjE conjE exE)
    assume "s' = ?t" then show ?thesis using t by simp
  next
    fix n s3 assume auto: "automatic si g" and r: "resolve_decision si (ids 2) (ids 3) (policy_id (gl_foremanId g))
        \<lparr>rv_id = dn_id dn, rv_expectedRevision = dn_revision dn, rv_requestId = ''auto:'' @ dn_id dn, rv_answer = ''approve''\<rparr>
        ?t = Inr (n, s3)" and s': "s' = recordAutomaticApproval g ''approve-delegation'' (dl_id d) s3"
    have dns: "dn \<in> decision_set ?t"
      using ask ex by (auto simp: ask_def rbind_eq_Inr Let_def)
    have "advances I ?t s3"
    proof (rule resolve_advances [OF advances_ok [OF t] r])
      fix n assume n: "n \<in> decision_set ?t" "parse_identifier (rv_id
        \<lparr>rv_id = dn_id dn, rv_expectedRevision = dn_revision dn, rv_requestId = ''auto:'' @ dn_id dn, rv_answer = ''approve''\<rparr>) = Inr (dn_id n)"
      then have "dn_id n = dn_id dn" using fresh(2) dn(1) by simp
      then have "n = dn" using coord_inj(4) [OF advances_ok [OF t] n(1) dns] by simp
      moreover have "x = g" if "x \<in> goal_set ?t" "gl_id x = gl_id g" for x
        using coord_inj(1) [OF advances_ok [OF t] that(1) gt that(2)] .
      ultimately show "policy_may (policy_id (gl_foremanId g)) n ?t"
        unfolding policy_may_def using auto dn(2) by (auto simp: automatic_def)
    qed
    from advances_trans [OF t this] show ?thesis unfolding s' advances_def evolves_def by simp
  qed
qed

lemma fresh_idD:
  assumes "fresh_id s i"
  shows "g \<in> goal_set s \<Longrightarrow> gl_id g \<noteq> i" "d \<in> delegation_set s \<Longrightarrow> dl_id d \<noteq> i"
    "r \<in> report_set s \<Longrightarrow> rt_id r \<noteq> i" "n \<in> decision_set s \<Longrightarrow> dn_id n \<noteq> i"
  using assms unfolding fresh_id_def by blast+

lemma key_absent:
  assumes "fresh_id s i" "sublist i k"
  shows "coord_existing k dg (gs_decisions s) = Inr None"
proof -
  have "cr_key r \<noteq> Some k" if "r \<in> set (gs_decisions s)" for r
    using assms that by (auto simp: fresh_id_def list_all_iff)
  then have "find_where (\<lambda>r. cr_key r = Some k) (gs_decisions s) = None" by (simp add: find_where_None_iff)
  then show ?thesis by (simp add: coord_existing_def)
qed

lemma new_delegation_fields [simp]:
  "dl_id (new_delegation si i q st c) = i" "dl_command (new_delegation si i q st c) = q"
  "dl_state (new_delegation si i q st c) = st" "dl_checkoutId (new_delegation si i q st c) = c"
  by (simp_all add: new_delegation_def)

lemma delegate_advances:
  assumes ok: "coord_ok s" and fresh: "fresh_id s (ids 0)" "fresh_id s (ids 1)"
    and run: "delegatePrepared si ids who c decisionId s = Inr (d', s')"
  shows "advances {ids 0} s s'"
proof -
  from run consider "s' = s" | input :: delegate_command and k dg g gr ck where
      "delegating_goal si who input decisionId s = Inr g" "delegating_team si input s = Inr (gr, ck)"
      "(if decisionId \<noteq> None
        then Inr (new_delegation si (ids 0) input (if decisionId = None then Dg_proposed else Dg_queued) (co_id ck),
          s\<lparr>gs_delegations := coord_save dl_id
              (new_delegation si (ids 0) input (if decisionId = None then Dg_proposed else Dg_queued) (co_id ck))
              (Some k) (Some dg) (gs_delegations s)\<rparr>)
        else decide_delegation si ids g (g_name gr)
          (new_delegation si (ids 0) input (if decisionId = None then Dg_proposed else Dg_queued) (co_id ck))
          (s\<lparr>gs_delegations := coord_save dl_id
              (new_delegation si (ids 0) input (if decisionId = None then Dg_proposed else Dg_queued) (co_id ck))
              (Some k) (Some dg) (gs_delegations s)\<rparr>)) = Inr (d', s')"
    unfolding delegatePrepared_def by (auto simp: rbind_eq_Inr Let_def split: option.splits split del: if_split)
  then show ?thesis
  proof cases
    case 1
    then show ?thesis using ok by simp
  next
    case 2
    let ?d = "new_delegation si (ids 0) input (if decisionId = None then Dg_proposed else Dg_queued) (co_id ck)"
    let ?t = "s\<lparr>gs_delegations := coord_save dl_id ?d (Some k) (Some dg) (gs_delegations s)\<rparr>"
    from 2(1) obtain ws where g: "get_goal (dlc_goalId input) s = Inr g" and run': "goal_running si Coordination g = Inr ()"
      and plan: "(case decisionId of None \<Rightarrow> Inr () | Some i \<Rightarrow> approved_plan si i input g s) = Inr ()"
      and ws: "get_workspace si (gl_id g) s = Inr ws"
      and room: "length (filter (\<lambda>d. \<not> inactive (dl_state d)) (ws_delegations ws)) < gr_maxTeamsPerGoal (gl_grant g)"
      by (auto simp: delegating_goal_def rbind_eq_Inr)
    from 2(2) have team: "assessTeam si (g_id gr) s = Inr []" "getEffectiveGroupCheckout si (g_id gr) = Inr (Some ck)"
      "g_id gr = dlc_groupId input"
      by (auto simp: delegating_team_def rbind_eq_Inr dest: find_where_SomeD split: option.splits)
    note gs = get_goal_Inr [OF g]
    have dl: "dl_id ?d = ids 0" "dl_command ?d = input" "dl_checkoutId ?d = co_id ck"
      "dl_state ?d = (if decisionId = None then Dg_proposed else Dg_queued)" by simp_all
    have okt: "coord_ok ?t"
    proof (rule add_delegation_ok [OF ok, of _ g])
      show "x \<in> delegation_set s \<Longrightarrow> dl_id x \<noteq> dl_id ?d" for x unfolding dl by (rule fresh_idD(2) [OF fresh(1)])
      show "g \<in> goal_set s" "gl_id g = dl_goalId ?d" using gs by (simp_all add: dl)
      show "gl_state g \<noteq> Gs_completed" using goal_running_Inr [OF run'] by simp
      show "x \<in> delegation_set s \<Longrightarrow> active x \<Longrightarrow> dl_groupId x \<noteq> dl_groupId ?d \<and> dl_checkoutId x \<noteq> dl_checkoutId ?d" for x
        using unreserved [OF team(1,2)] team(3) by (simp add: dl)
      show "card {x \<in> delegation_set s. active x \<and> dl_goalId x = gl_id g} < gr_maxTeamsPerGoal (gl_grant g)"
        by (rule room_left [OF ws room])
      assume "dl_state ?d \<noteq> Dg_proposed"
      then obtain i where "decisionId = Some i" by (auto simp: dl split: if_splits)
      then have "approved_plan si i input g s = Inr ()" using plan by simp
      then show "\<exists>n\<in>decision_set s. approves n ?d" by (rule approve_queued [OF _ ok]) (use gs in simp_all)
    qed (simp add: dl)
    have "evolves {ids 0} s ?t" unfolding evolves_def set_puts set_frame using dl(1) by auto
    then have t: "advances {ids 0} s ?t" using okt by (simp add: advances_def)
    show ?thesis
    proof (cases "decisionId = None")
      case False
      have "(?d, ?t) = (d', s')" using 2(3) unfolding if_P [OF False] by (rule sum.inject(2) [THEN iffD1])
      then have "snd (?d, ?t) = snd (d', s')" by (rule arg_cong)
      then have "?t = s'" unfolding snd_conv .
      then show ?thesis using t by simp
    next
      case True
      have decide: "decide_delegation si ids g (g_name gr) ?d ?t = Inr (d', s')" using 2(3) True by simp
      have "advances {ids 0} ?t s'"
      proof (rule decide_advances [OF okt _ _ _ _ _ decide])
        show "ids 1 \<notin> dn_id ` decision_set ?t" "parse_identifier (ids 1) = Inr (ids 1)" using fresh(2) by (simp_all add: fresh_id_def)
        have "coord_existing k' dg' (gs_decisions s) = Inr None" if "sublist (ids 0) k'" for k' dg' using key_absent [OF fresh(1) that] .
        moreover have "sublist (ids 0) (''question:'' @ dl_goalId ?d @ '':'' @ dl_id ?d @ '':'' @ dl_id ?d)"
          unfolding dl sublist_def
          by (rule exI [of _ "''question:'' @ dlc_goalId input @ '':''"], rule exI [of _ "'':'' @ ids 0"]) simp
        ultimately show "coord_existing (''question:'' @ dl_goalId ?d @ '':'' @ dl_id ?d @ '':'' @ dl_id ?d)
          (si_sha si (In_question (delegation_question ?d (g_name gr)))) (gs_decisions ?t) = Inr None" by simp
        show "g \<in> goal_set ?t" "gl_id g = dl_goalId ?d" using gs by (simp_all add: dl)
      qed
      then show ?thesis using advances_trans [OF t] by blast
    qed
  qed
qed

subsection \<open>Reporting\<close>

lemma await_advances:
  assumes ok: "coord_ok s" and g: "g \<in> goal_set s" and run: "await_acceptance si ids g s = Inr (g', s')"
  shows "advances I s s'" "g' \<in> goal_set s'"
proof -
  let ?g = "g\<lparr>gl_state := Gs_awaiting_acceptance, gl_revision := gl_revision g + 1\<rparr>"
  have "coord_ok (save_goal ?g s)"
  proof (rule save_goal_ok [OF ok g])
    show "gl_turnsUsed ?g \<le> gr_maxForemanTurns (gl_grant g)"
      using coord_okD(4) [OF ok] g unfolding budgets_ok_def by simp
  qed simp_all
  moreover have "evolves I s (save_goal ?g s)" by (rule evolves_goal [OF g]) simp_all
  ultimately have t: "advances I s (save_goal ?g s)" by (simp add: advances_def)
  have "?g \<in> goal_set (save_goal ?g s)" by simp
  note w = wake_advances(1) [OF advances_ok [OF t] this, where I = I and si = si and i = "ids 1" and k = "ids 2"]
    wake_advances(2) [OF advances_ok [OF t] this, where si = si and i = "ids 1" and k = "ids 2"]
  from run consider "g' = g" "s' = s" | "wake si (ids 1) (ids 2) ?g (save_goal ?g s) = (g', s')"
    by (auto simp: await_acceptance_def rbind_eq_Inr Let_def split: if_splits)
  then have "advances I s s' \<and> g' \<in> goal_set s'"
  proof cases
    case 1
    then show ?thesis using ok g by simp
  next
    case 2
    then show ?thesis using w advances_trans [OF t w(1)] by simp
  qed
  then show "advances I s s'" "g' \<in> goal_set s'" by simp_all
qed

lemma reported_fields [simp]:
  "dl_id (reported_delegation si lead q d) = dl_id d" "dl_command (reported_delegation si lead q d) = dl_command d"
  "dl_checkoutId (reported_delegation si lead q d) = dl_checkoutId d"
  "dl_state (reported_delegation si lead q d) = (if lead then reported_state (rpc_kind q) else dl_state d)"
  by (simp_all add: reported_delegation_def)

lemma reported_active: "\<not> inactive (reported_state k)" "reported_state k \<noteq> Dg_proposed"
  by (cases k; simp add: reported_state_def inactive_def)+

lemma file_report_advances:
  assumes ok: "coord_ok s" and fresh: "fresh_id s (ids 0)" and g: "g \<in> goal_set s" "gl_id g = dl_goalId d" "gl_state g = Gs_running"
    and d: "d \<in> delegation_set s" "dl_state d \<notin> {Dg_proposed, Dg_queued, Dg_cancelled, Dg_completed}"
    and q: "rpc_delegationId q = dl_id d" "rpc_kind q = Rk_ready \<Longrightarrow> mp_memberId who = dl_memberId d"
    and run: "file_report si ids who key sha g d q digest s = Inr (r, s')"
  shows "advances I s s'"
proof -
  let ?lead = "mp_memberId who = dl_memberId d"
  let ?r = "new_report si (ids 0) who q digest" and ?d = "reported_delegation si (mp_memberId who = dl_memberId d) q d"
  let ?s1 = "s\<lparr>gs_reports := coord_save rt_id ?r (Some key) (Some sha) (gs_reports s)\<rparr>"
  let ?s2 = "save_delegation ?d ?s1"
  from run obtain g1 s3 where aw: "await_acceptance si ids g ?s2 = Inr (g1, s3)"
    and s': "s' = (let s4 = notify si (''report:'' @ rt_id ?r) Nk_report (Some (gl_id g)) (Some (dl_id d)) None s3
         in if rpc_kind q \<in> {Rk_blocked, Rk_review} \<and> gl_state g1 = Gs_running
            then snd (wake si (ids 3) (ids 4) g1 s4) else s4)"
    by (auto simp: file_report_def rbind_eq_Inr Let_def split del: if_split)
  have s1: "coord_ok ?s1"
  proof (rule add_report_ok [OF ok _ d(1)])
    show "x \<in> report_set s \<Longrightarrow> rt_id x \<noteq> rt_id ?r" for x using fresh_idD(3) [OF fresh] by (simp add: new_report_def)
  qed (use q in \<open>simp_all add: new_report_def\<close>)
  have s2: "coord_ok ?s2"
  proof (rule update_delegation_ok [OF s1])
    show "d \<in> delegation_set ?s1" using d by simp
    show "active ?d \<Longrightarrow> active d" using d(2) by (simp add: active_def inactive_def)
    obtain n where n: "n \<in> decision_set s" "approves n d"
      using coord_okD(5) [OF ok] d unfolding approved_ok_def by blast
    then have "approves n ?d" by (simp add: approves_def)
    then show "\<exists>n\<in>decision_set ?s1. approves n ?d" using n by auto
    fix x assume "x \<in> goal_set ?s1" "gl_id x = dl_goalId d"
    then have "x = g" using coord_inj(1) [OF ok, of x g] g by simp
    then show "gl_state x \<noteq> Gs_completed" using g by simp
  next
    assume "dl_state ?d = Dg_completed"
    then have False using d(2) reported_active(1) [of "rpc_kind q"] by (auto simp: inactive_def split: if_splits)
    then show "reviewed ?s1 ?d" ..
  qed simp_all
  have "evolves I s ?s1" by (rule evolves_same) simp_all
  moreover have "evolves I ?s1 ?s2" by (rule evolves_delegation [of d]) (use d in simp_all)
  ultimately have t: "advances I s ?s2" using s2 evolves_trans unfolding advances_def by blast
  have "g \<in> goal_set ?s2" using g by simp
  note aws = await_advances [OF s2 this aw]
  let ?s4 = "notify si (''report:'' @ rt_id ?r) Nk_report (Some (gl_id g)) (Some (dl_id d)) None s3"
  have s4: "advances I s ?s4" using advances_trans [OF t aws(1)] unfolding advances_def evolves_def by simp
  have g4: "g1 \<in> goal_set ?s4" using aws(2) by simp
  show ?thesis
  proof (cases "rpc_kind q \<in> {Rk_blocked, Rk_review} \<and> gl_state g1 = Gs_running")
    case True
    have "s' = snd (wake si (ids 3) (ids 4) g1 ?s4)" using s' unfolding Let_def if_P [OF True] .
    then show ?thesis using advances_trans [OF s4 wake_advances(1) [OF advances_ok [OF s4] g4]] by simp
  next
    case False
    have "s' = ?s4" using s' unfolding Let_def if_not_P [OF False] .
    then show ?thesis using s4 by simp
  qed
qed

lemma report_lead: "report_checks si d g lead q s = Inr digest \<Longrightarrow> rpc_kind q = Rk_ready \<Longrightarrow> lead"
  by (auto simp: report_checks_def rbind_eq_Inr)

lemma report_advances:
  assumes ok: "coord_ok s" and fresh: "fresh_id s (ids 0)" and run: "report_delegation si ids who c s = Inr (r, s')"
  shows "advances I s s'"
proof -
  from run consider "s' = s" | input :: report_command and d g digest key sha where
      "get_delegation (rpc_delegationId input) s = Inr d" "get_goal (dl_goalId d) s = Inr g"
      "goal_running si Coordination g = Inr ()"
      "dl_state d \<notin> {Dg_proposed, Dg_queued, Dg_cancelled, Dg_completed}"
      "report_checks si d g (mp_memberId who = dl_memberId d) input s = Inr digest"
      "file_report si ids who key sha g d input digest s = Inr (r, s')"
    unfolding report_delegation_def by (auto simp: rbind_eq_Inr Let_def split: sum.splits option.splits)
  then show ?thesis
  proof cases
    case 1
    then show ?thesis using ok by simp
  next
    case 2
    show ?thesis
      by (rule file_report_advances [OF ok fresh _ _ _ _ 2(4) _ _ 2(6)])
        (use get_delegation_Inr [OF 2(1)] get_goal_Inr [OF 2(2)] goal_running_Inr [OF 2(3)] report_lead [OF 2(5)]
          in simp_all)
  qed
qed

subsection \<open>The other operations\<close>

lemma finish_advances: "coord_ok s \<Longrightarrow> finishReview si who i s = Inr (ws, s') \<Longrightarrow> advances I s s'"
  by (auto simp: finishReview_def rbind_eq_Inr Let_def intro!: advances_same)

lemma pause_goals_advances:
  "coord_ok s \<Longrightarrow> pause_goals si runId gs s = (s', u) \<Longrightarrow> advances I s s'"
proof (induction gs arbitrary: s)
  case (Cons g gs)
  show ?case
  proof (cases "pause_taken_over si runId g s")
    case (Inl e)
    then show ?thesis using Cons.prems by simp
  next
    case (Inr s1)
    then have "advances I s s1" using Cons.prems(1) control_advances(1)
      by (auto simp: pause_taken_over_def rbind_eq_Inr split: if_splits)
    then show ?thesis using Cons.IH [of s1] Cons.prems Inr advances_ok advances_trans by fastforce
  qed
qed simp

lemma takeover_advances: "coord_ok s \<Longrightarrow> pauseForTakeover si runId s = (s', u) \<Longrightarrow> advances I s s'"
  using pause_goals_advances by (auto simp: pauseForTakeover_def split: sum.splits)

lemma recovery_advances: "coord_ok s \<Longrightarrow> authorizeRecovery si groupId memberId s = Inr (b, s') \<Longrightarrow> advances I s s'"
proof -
  assume ok: "coord_ok s" and run: "authorizeRecovery si groupId memberId s = Inr (b, s')"
  show "advances I s s'"
  proof (cases "working_delegation groupId s")
    case None
    then show ?thesis using run ok by (auto simp: authorizeRecovery_def Let_def split: option.splits)
  next
    case (Some d)
    then obtain g where "get_goal (dl_goalId d) s = Inr g"
      using run by (auto simp: authorizeRecovery_def rbind_eq_Inr Let_def)
    then show ?thesis using run Some ok
      by (auto simp: authorizeRecovery_def count_recovery_def rbind_eq_Inr Let_def split: if_splits)
  qed
qed

lemma service_create_advances:
  "coord_ok s \<Longrightarrow> service_create si mk who c k s = Inr (db1, a, s') \<Longrightarrow>
     coord_ok s' \<and> goal_set s' = goal_set s \<and> delegation_set s' = delegation_set s \<and> report_set s' = report_set s \<and>
     decision_set s' = decision_set s"
  by (auto simp: service_create_def rbind_eq_Inr)

lemma check_in_advances:
  assumes ok: "coord_ok s" and run: "checkIn si mk who c s = Inr (db1, a, s')"
  shows "advances I s s'"
proof -
  from run consider "s' = s" | p q key a1 i s1 where
      "service_create si mk p q key s = Inr (db1, a1, s1)" "s' = add_link (a_id a1) i s1"
    unfolding checkIn_def by (auto simp: rbind_eq_Inr Let_def split: option.splits)
  then show ?thesis
  proof cases
    case 1
    then show ?thesis using ok by simp
  next
    case 2
    then show ?thesis using service_create_advances [OF ok 2(1)] by (simp add: advances_same)
  qed
qed

lemma remove_goal_advances: "coord_ok s \<Longrightarrow> remove_goal si i n cancel s = Inr s' \<Longrightarrow> advances I s s'"
  by (auto simp: remove_goal_def rbind_eq_Inr dest: control_advances(1) [where I = I] split: if_splits)

subsection \<open>Resetting\<close>

lemma evolves_purge: "evolves I s (purge_goal g s)"
  unfolding evolves_def purged_sets by blast

lemma purge_goals_advances: "coord_ok s \<Longrightarrow> advances I s (foldl (\<lambda>t g. purge_goal g t) s gs)"
proof (induction gs arbitrary: s)
  case (Cons g gs)
  have "advances I s (purge_goal g s)" using purge_goal_ok [OF Cons.prems] evolves_purge by (simp add: advances_def)
  then show ?case using Cons.IH [of "purge_goal g s"] advances_ok advances_trans by fastforce
qed simp

lemma purge_all_advances: "coord_ok s \<Longrightarrow> advances I s (purge_all scope s)"
proof (cases "scope = Rsc_all")
  case True
  assume "coord_ok s"
  moreover have "evolves I s (purge_all scope s)" by (simp add: evolves_def purge_all_def True coord_sets)
  ultimately show ?thesis using purge_all_ok by (simp add: advances_def)
qed (simp add: purge_all_def)

lemma reset_advances:
  assumes ok: "coord_ok s" and run: "resetState si who confirmation scope s = Inr (db1, n, s')"
  shows "advances I s s'"
proof -
  from run obtain gs x3 where
    "s' = (purge_all scope (foldl (\<lambda>t g. purge_goal g t) s gs))\<lparr>gs_audits := x3\<rparr>"
    by (auto simp: resetState_def rbind_eq_Inr Let_def)
  moreover have "advances I s (purge_all scope (foldl (\<lambda>t g. purge_goal g t) s gs))"
    using purge_goals_advances [OF ok] purge_all_advances advances_ok advances_trans by blast
  ultimately show ?thesis by simp
qed

subsection \<open>The supervision pass\<close>

text \<open>
  What a pass holds on to may be outdated: a listed goal or delegation agrees with the stored one of its id
  only on what never changes.
\<close>

definition goal_listed :: "goals_db \<Rightarrow> goal \<Rightarrow> bool" where
  "goal_listed s g \<longleftrightarrow> gl_turnsUsed g \<le> gr_maxForemanTurns (gl_grant g) \<and>
     (\<forall>x\<in>goal_set s. gl_id x = gl_id g \<longrightarrow> gl_grant x = gl_grant g)"

definition delegation_listed :: "goals_db \<Rightarrow> delegation \<Rightarrow> bool" where
  "delegation_listed s d \<longleftrightarrow> (\<forall>x\<in>delegation_set s. dl_id x = dl_id d \<longrightarrow>
     dl_command x = dl_command d \<and> dl_checkoutId x = dl_checkoutId d)"

lemma listed_stays:
  assumes "evolves I s t"
  shows "goal_listed s g \<Longrightarrow> gl_id g \<notin> I \<Longrightarrow> goal_listed t g"
    "delegation_listed s d \<Longrightarrow> dl_id d \<notin> I \<Longrightarrow> delegation_listed t d"
  using assms unfolding evolves_def goal_listed_def delegation_listed_def by metis+

lemma tick_block_advances:
  assumes ok: "coord_ok s" and g: "goal_listed s g" "gl_id g \<in> I"
  shows "advances I s (tick_block si g s)"
proof -
  let ?g = "g\<lparr>gl_state := Gs_blocked, gl_revision := gl_revision g + 1\<rparr>"
  have "coord_ok (save_goal ?g s)" unfolding save_goal_def
    by (rule put_goal_ok [OF ok]) (use g(1) in \<open>simp_all add: goal_listed_def\<close>)
  moreover have "evolves I s (save_goal ?g s)" unfolding evolves_def set_saves set_frame using g(2) by auto
  ultimately have "advances I s (save_goal ?g s)" by (simp add: advances_def)
  then show ?thesis using ok by (simp add: tick_block_def)
qed

lemma first_review_advances: "coord_ok s \<Longrightarrow> tick_first_review si ids g ds s = Inr s' \<Longrightarrow> advances I s s'"
  by (auto simp: tick_first_review_def rbind_eq_Inr dest!: get_goal_Inr intro: wake_advances(1) split: if_splits)

lemma handoff_InrD:
  assumes "service_create si mk (Foreman f r n k i j v) c key s = Inr (db1, a, s')"
  shows "\<exists>g d. g \<in> goal_set s \<and> gl_state g = Gs_running \<and> d \<in> delegation_set s \<and> dl_id d = j \<and> dl_goalId d = gl_id g \<and>
    dl_state d \<in> {Dg_queued, Dg_offered, Dg_accepted, Dg_working, Dg_blocked}"
proof -
  from assms obtain input :: create_command where "authorizeHandoff si s (Foreman f r n k i j v) input = Inr ()"
    by (auto simp: service_create_def create_action_def assertCreate_def service_policy_def rbind_eq_Inr forbidden_def split: if_splits)
  then obtain g d where "get_goal i s = Inr g" "goal_running si Coordination g = Inr ()" "get_delegation j s = Inr d"
    "dl_goalId d = gl_id g" "dl_state d \<in> {Dg_queued, Dg_offered, Dg_accepted, Dg_working, Dg_blocked}"
    by (auto simp: authorizeHandoff_def rbind_eq_Inr)
  then show ?thesis using get_goal_Inr get_delegation_Inr goal_running_Inr by blast
qed

lemma offer_advances:
  assumes ok: "coord_ok s" and d: "delegation_listed s d" and run: "offer_delegation si mk run prompt g d s = Inr (db1, s')"
  shows "advances I s s'"
proof -
  from run consider "s' = s" | f r n k i v c key a s1 t gn where
      "service_create si mk (Foreman f r n k i (dl_id d) v) c key s = Inr (db1, a, s1)"
      "s' = add_link (a_id a) (dl_id d) (save_delegation
              (d\<lparr>dl_state := Dg_offered, dl_revision := dl_revision d + 1, dl_actionId := Some (a_id a),
                 dl_runId := Some t, dl_generation := Some gn, dl_nextCheckAt := si_now si + 900000\<rparr>) s1)"
    unfolding offer_delegation_def
    by (auto simp: rbind_eq_Inr handoff_principal_def split: option.splits if_splits)
  then show ?thesis
  proof cases
    case 1
    then show ?thesis using ok by simp
  next
    case 2
    let ?d = "d\<lparr>dl_state := Dg_offered, dl_revision := dl_revision d + 1, dl_actionId := Some (a_id a),
                 dl_runId := Some t, dl_generation := Some gn, dl_nextCheckAt := si_now si + 900000\<rparr>"
    note s1 = service_create_advances [OF ok 2(1)]
    from handoff_InrD [OF 2(1)] obtain x d0 where x: "x \<in> goal_set s" "gl_state x = Gs_running"
      and d0: "d0 \<in> delegation_set s" "dl_id d0 = dl_id d" "dl_goalId d0 = gl_id x"
        "dl_state d0 \<in> {Dg_queued, Dg_offered, Dg_accepted, Dg_working, Dg_blocked}" by blast
    have same: "dl_command d = dl_command d0" "dl_checkoutId d = dl_checkoutId d0"
      using d d0(1,2) unfolding delegation_listed_def by simp_all
    have ds: "d0 \<in> delegation_set s1" using s1 d0 by simp
    have "coord_ok (save_delegation ?d s1)"
    proof (rule update_delegation_ok [of s1 d0])
      show "coord_ok s1" using s1 by blast
      show "active ?d \<Longrightarrow> active d0" using d0(4) by (auto simp: active_def inactive_def)
      obtain n where n: "n \<in> decision_set s" "approves n d0"
        using coord_okD(5) [OF ok] d0(1,4) unfolding approved_ok_def by fastforce
      then have "approves n ?d" using d0(2) same by (simp add: approves_def)
      then show "\<exists>n\<in>decision_set s1. approves n ?d" using n s1 by auto
      fix y assume "y \<in> goal_set s1" "gl_id y = dl_goalId d0"
      then have "y = x" using coord_inj(1) [OF ok, of y x] x s1 d0(3) by simp
      then show "gl_state y \<noteq> Gs_completed" using x by simp
    qed (use ds d0(2) same in simp_all)
    moreover have "evolves I s1 (save_delegation ?d s1)" by (rule evolves_delegation [OF ds]) (use d0(2) same in simp_all)
    moreover have "evolves I s s1" using s1 by (intro evolves_same) simp_all
    ultimately have "advances I s (save_delegation ?d s1)" using evolves_trans unfolding advances_def by blast
    then show ?thesis unfolding 2(2) by simp
  qed
qed

lemma notice_advances:
  assumes ok: "coord_ok s" and run: "notice_decision si mk run prompt g d n s = Inr (db1, s')"
  shows "advances I s s'"
proof -
  from run consider "s' = s" | who c key a s1 where
      "service_create si mk who c key s = Inr (db1, a, s1)" "s' = add_link (a_id a) (dl_id d) s1"
    unfolding notice_decision_def by (auto simp: rbind_eq_Inr split: option.splits if_splits)
  then show ?thesis
  proof cases
    case 1
    then show ?thesis using ok by simp
  next
    case 2
    then show ?thesis using service_create_advances [OF ok 2(1)] by (simp add: advances_same)
  qed
qed

lemma review_due_advances:
  assumes ok: "coord_ok s" and run: "review_due si ids key g d s = Inr s'"
  shows "advances I s s'"
proof -
  from run consider "s' = s" | g1 d1 at where "get_goal (gl_id g) s = Inr g1"
      "get_delegation (dl_id d) (snd (wake si (ids 0) (ids 1) g1 s)) = Inr d1"
      "advances I s s' = advances I s (save_delegation (d1\<lparr>dl_nextCheckAt := at\<rparr>) (snd (wake si (ids 0) (ids 1) g1 s)))"
    unfolding review_due_def by (auto simp: rbind_eq_Inr Let_def split: if_splits)
  then show ?thesis
  proof cases
    case 1
    then show ?thesis using ok by simp
  next
    case 2
    let ?s1 = "snd (wake si (ids 0) (ids 1) g1 s)" and ?d = "d1\<lparr>dl_nextCheckAt := at\<rparr>"
    have g1: "g1 \<in> goal_set s" using get_goal_Inr [OF 2(1)] by simp
    have t: "advances I s ?s1" by (rule wake_advances(1) [OF ok g1])
    have d1: "d1 \<in> delegation_set ?s1" using get_delegation_Inr [OF 2(2)] by simp
    have "coord_ok (save_delegation ?d ?s1)"
    proof (rule update_delegation_ok [OF advances_ok [OF t] d1])
      assume "dl_state ?d \<noteq> Dg_proposed" "dl_state ?d \<noteq> Dg_cancelled"
      then obtain n where n: "n \<in> decision_set ?s1" "approves n d1"
        using coord_okD(5) [OF advances_ok [OF t]] d1 unfolding approved_ok_def by auto
      then have "approves n ?d" by (simp add: approves_def)
      then show "\<exists>n\<in>decision_set ?s1. approves n ?d" using n(1) by blast
    next
      assume "dl_state ?d = Dg_completed"
      then have "reviewed ?s1 d1" using coord_okD(8) [OF advances_ok [OF t]] d1 unfolding completed_ok_def by simp
      then show "reviewed ?s1 ?d" by (simp add: reviewed_def)
    qed (simp_all add: active_def)
    moreover have "evolves I ?s1 (save_delegation ?d ?s1)" by (rule evolves_delegation [OF d1]) simp_all
    ultimately have "advances I ?s1 (save_delegation ?d ?s1)" by (simp add: advances_def)
    then show ?thesis using 2(3) advances_trans [OF t] by blast
  qed
qed

end
