(* ===== verification/Foreman_Machine.thy ===== *)
theory Foreman_Machine
  imports Foreman_Moves
begin

text \<open>
  The goal service and its supervision pass as a machine over arbitrary interleavings, and the proof that
  every step keeps the invariant.
\<close>

subsection \<open>The machine\<close>

text \<open>
  The service with its supervision pass. Between any two steps the rest of the daemon may have changed in
  any way, so each step reads a site of its own. Each operation is one transaction and one step; an
  operation that fails changes nothing and is no step. The pass keeps the goals it has still to visit, the
  goal it visits, and the delegations it listed for it.
\<close>

record supervision =
  su_db :: goals_db
  su_todo :: "goal list"
  su_current :: "goal option"
  su_delegates :: "delegation list"

definition coordination0 :: supervision where
  "coordination0 = \<lparr>su_db = goals0, su_todo = [], su_current = None, su_delegates = []\<rparr>"

text \<open>The result of \<open>randomUUID()\<close> is an id nothing has.\<close>

definition new_id :: "supervision \<Rightarrow> string \<Rightarrow> bool" where
  "new_id u i \<longleftrightarrow> fresh_id (su_db u) i \<and> i \<notin> gl_id ` set (su_todo u) \<and> i \<notin> dl_id ` set (su_delegates u)"

inductive coord_step :: "supervision \<Rightarrow> supervision \<Rightarrow> bool" where
  goal_proposed: "new_id u (ids 0) \<Longrightarrow> propose si ids who c (su_db u) = Inr (g, s') \<Longrightarrow> coord_step u (u\<lparr>su_db := s'\<rparr>)"
| goal_controlled: "control_goal si c (su_db u) = Inr (g, s') \<Longrightarrow> coord_step u (u\<lparr>su_db := s'\<rparr>)"
| goal_accepted_by_policy: "acceptAutonomously si who i n (su_db u) = Inr (g, s') \<Longrightarrow> coord_step u (u\<lparr>su_db := s'\<rparr>)"
| question_asked: "new_id u (ids 0) \<Longrightarrow> question si ids asker' q (su_db u) = Inr (dn, s') \<Longrightarrow> coord_step u (u\<lparr>su_db := s'\<rparr>)"
| preparation_asked: "new_id u (ids 0) \<Longrightarrow> requestPreparationApproval si ids who q (su_db u) = Inr (dn, s') \<Longrightarrow>
    coord_step u (u\<lparr>su_db := s'\<rparr>)"
| decision_resolved: "\<not> by_policy operatorId \<Longrightarrow> resolve_decision si i k operatorId r (su_db u) = Inr (dn, s') \<Longrightarrow>
    coord_step u (u\<lparr>su_db := s'\<rparr>)"
| team_delegated: "new_id u (ids 0) \<Longrightarrow> new_id u (ids 1) \<Longrightarrow>
    delegatePrepared si ids who dc decisionId (su_db u) = Inr (d, s') \<Longrightarrow> coord_step u (u\<lparr>su_db := s'\<rparr>)"
| work_reported: "new_id u (ids 0) \<Longrightarrow> report_delegation si ids member rc (su_db u) = Inr (r', s') \<Longrightarrow>
    coord_step u (u\<lparr>su_db := s'\<rparr>)"
| review_finished: "finishReview si who i (su_db u) = Inr (ws, s') \<Longrightarrow> coord_step u (u\<lparr>su_db := s'\<rparr>)"
| terminal_taken_over: "pauseForTakeover si runId (su_db u) = (s', outcome) \<Longrightarrow> coord_step u (u\<lparr>su_db := s'\<rparr>)"
| recovery_decided: "authorizeRecovery si groupId memberId (su_db u) = Inr (b, s') \<Longrightarrow> coord_step u (u\<lparr>su_db := s'\<rparr>)"
| member_checked_in_on: "checkIn si mk who kc (su_db u) = Inr (db1, a, s') \<Longrightarrow> coord_step u (u\<lparr>su_db := s'\<rparr>)"
| action_linked: "coord_step u (u\<lparr>su_db := linkAction a (su_db u)\<rparr>)"
| notes_acknowledged: "acknowledge_notes consumer n (su_db u) = Inr (m, s') \<Longrightarrow> coord_step u (u\<lparr>su_db := s'\<rparr>)"
| state_reset: "resetState si operatorId confirmation scope (su_db u) = Inr (db1, n, s') \<Longrightarrow> coord_step u (u\<lparr>su_db := s'\<rparr>)"
| goal_removed: "remove_goal si i n cancel (su_db u) = Inr s' \<Longrightarrow> coord_step u (u\<lparr>su_db := s'\<rparr>)"
| pass_started: "su_todo u = [] \<Longrightarrow> su_delegates u = [] \<Longrightarrow> tick_goals (su_db u) = Inr gs \<Longrightarrow>
    coord_step u (u\<lparr>su_todo := gs\<rparr>)"
| pass_blocked_goal: "su_delegates u = [] \<Longrightarrow> su_todo u = g # gs \<Longrightarrow> isl (goal_running si Coordination g) \<Longrightarrow>
    coord_step u (u\<lparr>su_todo := gs, su_db := tick_block si g (su_db u)\<rparr>)"
| pass_visited_goal: "su_delegates u = [] \<Longrightarrow> su_todo u = g # gs \<Longrightarrow> \<not> isl (goal_running si Coordination g) \<Longrightarrow>
    tick_delegates si g (tick_offline si g (su_db u)) = Inr ds \<Longrightarrow>
    tick_first_review si ids g ds (tick_offline si g (su_db u)) = Inr s' \<Longrightarrow>
    coord_step u (u\<lparr>su_todo := gs, su_current := Some g, su_delegates := ds, su_db := s'\<rparr>)"
| pass_failed: "coord_step u (u\<lparr>su_todo := [], su_delegates := []\<rparr>)"
| delegation_offered: "su_current u = Some g \<Longrightarrow> su_delegates u = d # ds \<Longrightarrow> dl_state d = Dg_queued \<Longrightarrow>
    offer_delegation si mk run prompt g d (su_db u) = Inr (db1, s') \<Longrightarrow> coord_step u (u\<lparr>su_db := s'\<rparr>)"
| decision_noticed: "su_current u = Some g \<Longrightarrow> su_delegates u = d # ds \<Longrightarrow>
    dl_state d \<in> {Dg_accepted, Dg_working, Dg_blocked} \<Longrightarrow> get_workspace si (gl_id g) (su_db u) = Inr ws \<Longrightarrow>
    dn \<in> set (notice_due d ws) \<Longrightarrow> notice_decision si mk run prompt g d dn (su_db u) = Inr (db1, s') \<Longrightarrow>
    coord_step u (u\<lparr>su_db := s'\<rparr>)"
| review_called: "su_current u = Some g \<Longrightarrow> su_delegates u = d # ds \<Longrightarrow> dl_state d \<noteq> Dg_proposed \<Longrightarrow>
    review_due si ids key g d (su_db u) = Inr s' \<Longrightarrow> coord_step u (u\<lparr>su_db := s', su_delegates := ds\<rparr>)"
| delegation_failed: "su_current u = Some g \<Longrightarrow> su_delegates u = d # ds \<Longrightarrow>
    coord_step u (u\<lparr>su_db := tick_problem si g d (su_db u), su_delegates := ds\<rparr>)"
| delegation_passed: "su_delegates u = d # ds \<Longrightarrow> coord_step u (u\<lparr>su_delegates := ds\<rparr>)"

inductive_cases coord_stepE: "coord_step u v"

definition supervised :: "supervision \<Rightarrow> bool" where
  "supervised u \<longleftrightarrow> coord_ok (su_db u) \<and> list_all (goal_listed (su_db u)) (su_todo u) \<and>
     distinct (map gl_id (su_todo u)) \<and> list_all (delegation_listed (su_db u)) (su_delegates u)"

lemma supervised0: "supervised coordination0"
  by (simp add: supervised_def coordination0_def goals0_def) (rule empty_ok; simp add: coord_sets)

lemma supervised_advances:
  assumes u: "supervised u" and t: "advances I (su_db u) s'"
    and I: "\<And>i. i \<in> I \<Longrightarrow> i \<notin> gl_id ` set (su_todo u) \<and> i \<notin> dl_id ` set (su_delegates u)"
  shows "supervised (u\<lparr>su_db := s'\<rparr>)"
proof -
  have ev: "evolves I (su_db u) s'" using t by (simp add: advances_def)
  have goals: "goal_listed s' g" if "g \<in> set (su_todo u)" for g
  proof (rule listed_stays(1) [OF ev])
    show "goal_listed (su_db u) g" using u that by (simp add: supervised_def list_all_iff)
    show "gl_id g \<notin> I" using I that by blast
  qed
  have delegates: "delegation_listed s' d" if "d \<in> set (su_delegates u)" for d
  proof (rule listed_stays(2) [OF ev])
    show "delegation_listed (su_db u) d" using u that by (simp add: supervised_def list_all_iff)
    show "dl_id d \<notin> I" using I that by blast
  qed
  show ?thesis using u advances_ok [OF t] goals delegates by (simp add: supervised_def list_all_iff)
qed

lemma supervised_keeps: "supervised u \<Longrightarrow> advances {} (su_db u) s' \<Longrightarrow> supervised (u\<lparr>su_db := s'\<rparr>)"
  by (erule (1) supervised_advances) blast

lemma supervised_new:
  "supervised u \<Longrightarrow> new_id u i \<Longrightarrow> advances {i} (su_db u) s' \<Longrightarrow> supervised (u\<lparr>su_db := s'\<rparr>)"
  by (erule supervised_advances) (auto simp: new_id_def)

lemma supervised_ok: "supervised u \<Longrightarrow> coord_ok (su_db u)"
  by (simp add: supervised_def)

lemma supervised_rest:
  "supervised u \<Longrightarrow> su_delegates u = d # ds \<Longrightarrow> supervised (u\<lparr>su_delegates := ds\<rparr>)"
  by (simp add: supervised_def)

lemma listed_stored:
  assumes "coord_ok s"
  shows "x \<in> goal_set s \<Longrightarrow> goal_listed s x" "d \<in> delegation_set s \<Longrightarrow> delegation_listed s d"
  using coord_inj [OF assms] coord_okD(4) [OF assms]
  unfolding goal_listed_def delegation_listed_def budgets_ok_def by blast+

lemma parse_list_validate: "parse_list validateGoal gs = Inr gs' \<Longrightarrow> gs' = gs"
  by (induction gs arbitrary: gs') (auto simp: rbind_eq_Inr validateGoal_def)

lemma tick_goals_Inr:
  "tick_goals s = Inr gs \<Longrightarrow> set gs \<subseteq> goal_set s \<and> (coord_ok s \<longrightarrow> distinct (map gl_id gs))"
  by (auto simp: tick_goals_def list_goals_def rbind_eq_Inr goal_set_def dest!: parse_list_validate
      intro!: distinct_map_filter dest: coord_okD(1) [unfolded ids_ok_def])

lemma ask_step:
  "supervised u \<Longrightarrow> new_id u i \<Longrightarrow> ask si i q k (su_db u) = Inr (dn, s') \<Longrightarrow> supervised (u\<lparr>su_db := s'\<rparr>)"
  by (rule supervised_keeps, assumption, rule ask_advances(1) [OF supervised_ok])
    (simp_all add: new_id_def fresh_id_def)

lemma offline_frame [simp]:
  "goal_set (tick_offline si g s) = goal_set s" "delegation_set (tick_offline si g s) = delegation_set s"
  "coord_ok (tick_offline si g s) = coord_ok s"
  by (simp_all add: tick_offline_def Let_def)

lemma tick_delegates_Inr: "tick_delegates si g s = Inr ds \<Longrightarrow> set ds \<subseteq> delegation_set s"
  by (auto simp: tick_delegates_def rbind_eq_Inr delegation_set_def dest!: get_workspace_Inr)

lemma accepted_automatically:
  "acceptAutonomously si who i n s = Inr (g, s') \<Longrightarrow> coord_ok s \<Longrightarrow> advances I s s'"
  by (auto simp: acceptAutonomously_def rbind_eq_Inr dest: control_advances(1) [where I = I])

lemma asked_step:
  "supervised u \<Longrightarrow> new_id u (ids 0) \<Longrightarrow> question si ids asker' q (su_db u) = Inr (dn, s') \<Longrightarrow> supervised (u\<lparr>su_db := s'\<rparr>)"
  "supervised u \<Longrightarrow> new_id u (ids 0) \<Longrightarrow> requestPreparationApproval si ids who q (su_db u) = Inr (dn, s') \<Longrightarrow>
     supervised (u\<lparr>su_db := s'\<rparr>)"
  by (auto simp: question_def requestPreparationApproval_def rbind_eq_Inr intro: ask_step)

lemma acknowledged: "acknowledge_notes c n s = Inr (m, s') \<Longrightarrow> coord_ok s \<Longrightarrow> advances I s s'"
  by (auto simp: acknowledge_notes_def rbind_eq_Inr Let_def)

lemma blocked_goal_step:
  assumes u: "supervised u" and todo: "su_todo u = g # gs" and none: "su_delegates u = []"
  shows "supervised (u\<lparr>su_todo := gs, su_db := tick_block si g (su_db u)\<rparr>)"
proof -
  let ?v = "u\<lparr>su_todo := gs\<rparr>"
  have v: "supervised ?v" using u todo by (simp add: supervised_def)
  have "gl_id g \<notin> gl_id ` set gs" using u todo by (simp add: supervised_def)
  moreover have "advances {gl_id g} (su_db u) (tick_block si g (su_db u))"
    by (rule tick_block_advances [OF supervised_ok [OF u]]) (use u todo in \<open>simp_all add: supervised_def\<close>)
  then have "advances {gl_id g} (su_db ?v) (tick_block si g (su_db u))" by simp
  ultimately have "supervised (?v\<lparr>su_db := tick_block si g (su_db u)\<rparr>)"
    by (intro supervised_advances [OF v]) (auto simp: none)
  then show ?thesis by simp
qed

lemma visited_goal_step:
  assumes u: "supervised u" and todo: "su_todo u = g # gs"
    and ds: "tick_delegates si g (tick_offline si g (su_db u)) = Inr ds"
    and run: "tick_first_review si ids g ds (tick_offline si g (su_db u)) = Inr s'"
  shows "supervised (u\<lparr>su_todo := gs, su_current := Some g, su_delegates := ds, su_db := s'\<rparr>)"
proof -
  have ok: "coord_ok (tick_offline si g (su_db u))" using u by (simp add: supervised_def)
  have t: "advances {} (tick_offline si g (su_db u)) s'" by (rule first_review_advances [OF ok run])
  have "list_all (delegation_listed (su_db u)) ds"
    unfolding list_all_iff using tick_delegates_Inr [OF ds] listed_stored(2) [OF supervised_ok [OF u]] by auto
  then have v: "supervised (u\<lparr>su_todo := gs, su_current := Some g, su_delegates := ds\<rparr>)" (is "supervised ?v")
    using u todo by (simp add: supervised_def)
  have "advances {} (su_db ?v) s'" using t by (simp add: advances_def evolves_def)
  from supervised_keeps [OF v this] show ?thesis by simp
qed

lemma coord_step_keeps: "coord_step u v \<Longrightarrow> supervised u \<Longrightarrow> supervised v"
proof (induction rule: coord_step.induct)
  case (goal_proposed u ids si who c g s')
  then have "fresh_id (su_db u) (ids 0)" by (simp add: new_id_def)
  from propose_advances [OF supervised_ok [OF goal_proposed.prems] this goal_proposed.hyps(2)]
  show ?case by (rule supervised_new [OF goal_proposed.prems goal_proposed.hyps(1)])
next
  case goal_controlled
  then show ?case by (intro supervised_keeps) (auto intro: control_advances(1) supervised_ok)
next
  case goal_accepted_by_policy
  then show ?case by (intro supervised_keeps) (auto intro: accepted_automatically supervised_ok)
next
  case question_asked
  then show ?case by (intro asked_step(1))
next
  case preparation_asked
  then show ?case by (intro asked_step(2))
next
  case (decision_resolved operatorId si i k r u dn s')
  have "advances {} (su_db u) s'"
    by (rule resolve_advances [OF supervised_ok [OF decision_resolved.prems] decision_resolved.hyps(2)])
      (simp add: policy_may_def decision_resolved.hyps(1))
  then show ?case by (rule supervised_keeps [OF decision_resolved.prems])
next
  case (team_delegated u ids si who dc decisionId d s')
  then have "fresh_id (su_db u) (ids 0)" "fresh_id (su_db u) (ids 1)" by (simp_all add: new_id_def)
  from delegate_advances [OF supervised_ok [OF team_delegated.prems] this team_delegated.hyps(3)]
  show ?case by (rule supervised_new [OF team_delegated.prems team_delegated.hyps(1)])
next
  case (work_reported u ids si member rc r' s')
  then have "fresh_id (su_db u) (ids 0)" by (simp add: new_id_def)
  from report_advances [OF supervised_ok [OF work_reported.prems] this work_reported.hyps(2)]
  show ?case by (rule supervised_keeps [OF work_reported.prems])
next
  case review_finished
  then show ?case by (intro supervised_keeps) (auto intro: finish_advances supervised_ok)
next
  case terminal_taken_over
  then show ?case by (intro supervised_keeps) (auto intro: takeover_advances supervised_ok)
next
  case recovery_decided
  then show ?case by (intro supervised_keeps) (auto intro: recovery_advances supervised_ok)
next
  case member_checked_in_on
  then show ?case by (intro supervised_keeps) (auto intro: check_in_advances supervised_ok)
next
  case action_linked
  then show ?case by (intro supervised_keeps) (auto intro: supervised_ok)
next
  case notes_acknowledged
  then show ?case by (intro supervised_keeps) (auto intro: acknowledged supervised_ok)
next
  case state_reset
  then show ?case by (intro supervised_keeps) (auto intro: reset_advances supervised_ok)
next
  case goal_removed
  then show ?case by (intro supervised_keeps) (auto intro: remove_goal_advances supervised_ok)
next
  case (pass_started u gs)
  then have "list_all (goal_listed (su_db u)) gs"
    unfolding list_all_iff using tick_goals_Inr [OF pass_started.hyps(3)] listed_stored(1) supervised_ok by blast
  then show ?case using pass_started tick_goals_Inr [OF pass_started.hyps(3)] by (simp add: supervised_def)
next
  case pass_blocked_goal
  then show ?case by (intro blocked_goal_step)
next
  case pass_visited_goal
  then show ?case by (intro visited_goal_step)
next
  case pass_failed
  then show ?case by (simp add: supervised_def)
next
  case (delegation_offered u g d ds si mk run prompt db1 s')
  have "delegation_listed (su_db u) d" using delegation_offered by (simp add: supervised_def)
  from offer_advances [OF supervised_ok [OF delegation_offered.prems] this delegation_offered.hyps(4)]
  show ?case by (rule supervised_keeps [OF delegation_offered.prems])
next
  case decision_noticed
  then show ?case by (intro supervised_keeps) (auto intro: notice_advances supervised_ok)
next
  case (review_called u g d ds si ids key s')
  have "supervised (u\<lparr>su_db := s'\<rparr>)"
    by (rule supervised_keeps [OF review_called.prems review_due_advances
        [OF supervised_ok [OF review_called.prems] review_called.hyps(4)]])
  from supervised_rest [OF this] show ?case using review_called.hyps(2) by simp
next
  case (delegation_failed u g d ds si)
  have "supervised (u\<lparr>su_db := tick_problem si g d (su_db u)\<rparr>)"
    by (rule supervised_keeps [OF delegation_failed.prems])
      (simp add: tick_problem_def supervised_ok [OF delegation_failed.prems])
  from supervised_rest [OF this] show ?case using delegation_failed.hyps(2) by simp
next
  case delegation_passed
  then show ?case by (intro supervised_rest)
qed

interpretation coordination: moving_machine coord_step supervised "\<lambda>u v. supervised v"
  by unfold_locales (auto intro: coord_step_keeps)

lemma reachable_ok: "coord_step\<^sup>*\<^sup>* coordination0 u \<Longrightarrow> coord_ok (su_db u)"
  using coordination.steps_move supervised0 supervised_ok by blast

end
