(* ===== verification/Foreman_Properties.thy ===== *)
theory Foreman_Properties
  imports Foreman_Machine "HOL-Library.Code_Target_Nat"
begin

text \<open>
  What the Foreman's goal service guarantees of every run of the machine of \<open>Foreman_Machine\<close>: an accepted
  goal was reviewed, a team and a checkout serve one live delegation, and work starts only once it is
  approved. A run from a proposal to its acceptance shows that the states the theorems speak of are reached.
\<close>

lemma pred_option_code [code]: "pred_option p None = True" "pred_option p (Some x) = p x"
  by simp_all

subsection \<open>A goal from its proposal to its acceptance\<close>

text \<open>A team of an accountable member and a peer, both idle, with a Foreman under an autonomous policy.\<close>

definition team_member_row :: "string \<Rightarrow> membership_row" where
  "team_member_row i = \<lparr>m_id = ''ms'' @ i, m_groupId = ''g'', m_memberId = i, m_agentProfileId = ''p'', m_alias = i,
     m_roleId = None, m_order = 0, m_active = True, m_joinedAt = 0, m_removedAt = None\<rparr>"

definition team_hash :: string where "team_hash = replicate 64 CHR ''a''"

definition team_run :: "string \<Rightarrow> run_owner \<Rightarrow> run" where
  "team_run i who = \<lparr>r_id = i, r_owner = who, r_agentProfileId = ''p'', r_checkoutId = Some ''co'',
     r_resolvedWorkingDirectory = None, r_generation = 1, r_status = Rs_running, r_desiredState = Ds_running,
     r_recoveryPhase = Rp_idle, r_recoveryAttempts = 0, r_recoveryNotBefore = None, r_recoveryReason = None,
     r_launchKind = Lk_fresh, r_requestedModel = None, r_requestedModelSource = Ms_provider_default,
     r_effectiveModel = None, r_nativeSessionId = None, r_recoveryOutcome = None, r_terminal = None,
     r_startedAt = 0, r_stoppedAt = None\<rparr>"

definition team_status :: "string \<Rightarrow> reducer_state" where
  "team_status i = (createAgentStatusReducerState i 1 0)\<lparr>st_state := St_idle, st_processState := Ps_present,
     st_processFingerprint := Some team_hash, st_transportLease := Some 45000, st_reporterLease := Some 45000,
     st_reporterEpoch := Some ''ep'', st_authorityKind := Ak_reporter, st_staleAuthority := False,
     st_interactiveReady := True\<rparr>"

definition team_session :: reporter_session where
  "team_session = \<lparr>rs_id = ''session'', rs_providerId = ''pi'', rs_adapterId = ''pi'', rs_reporterId = ''rep'',
     rs_source = Src_pi, rs_protocolVersion = 2, rs_reporterVersion = ''1'', rs_runId = ''runm'', rs_generation = 1,
     rs_reporterEpoch = ''ep'', rs_sourceSequence = 0, rs_nativeSessionId = None, rs_readinessCoverage = Rc_full,
     rs_processFingerprint = Some team_hash, rs_openedAt = 0, rs_leaseExpiresAt = 45000, rs_revokedAt = None,
     rs_closedAt = None\<rparr>"

definition team_db :: db where
  "team_db = empty_db\<lparr>
     db_groups := [\<lparr>g_id = ''g'', g_name = ''team'', g_order = 0, g_membershipRevision = 1, g_messageSequence = 0,
        g_createdAt = 0, g_updatedAt = 0\<rparr>],
     db_memberships := [team_member_row ''m'', team_member_row ''n''],
     db_profiles := [\<lparr>ap_id = ''p'', ap_agentType = ''pi''\<rparr>],
     db_foremen := [\<lparr>f_id = ''f'', f_agentProfileId = ''p'', f_enabled = True, f_authorityRevision = 1\<rparr>],
     db_runs := [team_run ''runm'' (MemberRun ''g'' ''m''), team_run ''runn'' (MemberRun ''g'' ''n''),
       team_run ''runf'' (ForemanRun ''f'')],
     db_statuses := [(''runm'', team_status ''runm''), (''runn'', team_status ''runn'')],
     db_sessions := [team_session]\<rparr>"

definition team_grant :: grant where
  "team_grant = \<lparr>gr_mode = Bounded, gr_approvalMode = Autonomous_approval, gr_maxActiveGoals = 1, gr_maxTeamsPerGoal = 2,
     gr_maxConcurrentActions = 4, gr_maxGoalHours = 24, gr_maxForemanTurns = 3, gr_maxLines = 200, gr_maxBytes = 200,
     gr_idlePrompt = True, gr_maxPerIncident = 2, gr_restartDelegatedAgents = True, gr_maxAttemptsPerIncident = 2,
     gr_maxAttemptsPerGoal = 6, gr_cooldownSeconds = 120\<rparr>"

definition team_head :: string where "team_head = replicate 40 CHR ''a''"

definition team_site :: site where
  "team_site = \<lparr>si_db = team_db, si_foreman = Some \<lparr>fc_id = ''f'', fc_enabled = True, fc_reviewIntervalSeconds = 300,
       fc_autonomy = team_grant\<rparr>,
     si_checkouts = [\<lparr>co_id = ''co'', co_repositoryId = ''r'', co_bare = False, co_head = Some team_head, co_dirty = False\<rparr>],
     si_primaryCheckout = None, si_groupCheckout = (\<lambda>_. Some ''co''), si_checkoutRevision = (\<lambda>_. 0), si_snapshot = Inr (),
     si_controlled = (\<lambda>_. False), si_candidate = (\<lambda>_ _ _. Inr team_hash), si_origin = (\<lambda>_. Inr None),
     si_escapes = (\<lambda>_ _. Inr ()), si_sha = (\<lambda>_. team_hash), si_operatorText = (\<lambda>_. None),
     si_conversationOwner = (\<lambda>_. None), si_prepPlan = (\<lambda>_. None), si_prepList = (\<lambda>_. []),
     si_prepRecovery = (\<lambda>_ _. None), si_now = 1000\<rparr>"

definition step_ids :: "string \<Rightarrow> uuids" where "step_ids p n = p @ show_nat n"

definition team_goal_command :: propose_command where
  "team_goal_command = \<lparr>pc_requestId = ''q1'', pc_title = ''Title'', pc_objective = ''Goal'', pc_constraints = [],
     pc_sourceMessageId = None, pc_sourceConversationIds = None\<rparr>"

definition team_foreman :: foreman_principal where
  "team_foreman = \<lparr>fp_foremanId = ''f'', fp_runId = ''runf'', fp_generation = 1, fp_authorityRevision = 1\<rparr>"

definition team_delegate_command :: delegate_command where
  "team_delegate_command = \<lparr>dlc_requestId = ''q2'', dlc_goalId = ''goal0'', dlc_expectedRevision = 1, dlc_groupId = ''g'',
     dlc_memberId = ''m'', dlc_expectedMembershipRevision = 1, dlc_expectedCheckoutRevision = 0,
     dlc_rationale = ''Fits'', dlc_brief = ''Do it''\<rparr>"

definition team_report :: "string \<Rightarrow> report_kind \<Rightarrow> review_outcome option \<Rightarrow> report_command" where
  "team_report q k o' = \<lparr>rpc_requestId = q, rpc_delegationId = ''work0'', rpc_kind = k, rpc_reviewOutcome = o',
     rpc_summary = ''Done'', rpc_evidence = [''tests''], rpc_candidateHead = Some team_head, rpc_candidatePath = None,
     rpc_nextCheckSeconds = 900\<rparr>"

definition team_principal :: "string \<Rightarrow> member_principal" where
  "team_principal i = \<lparr>mp_groupId = ''g'', mp_memberId = i, mp_runId = ''run'' @ i, mp_generation = 1\<rparr>"

definition team_maker :: action_maker where
  "team_maker = \<lparr>am_actionId = ''a1'', am_daemonEpoch = 1, am_digest = (\<lambda>_ _. team_hash), am_conversations = None\<rparr>"

definition proposed_db :: goals_db where
  "proposed_db = snd (projr (propose team_site (step_ids ''goal'') None team_goal_command goals0))"

definition delegated_db :: goals_db where
  "delegated_db = snd (projr (delegatePrepared team_site (step_ids ''work'') team_foreman team_delegate_command None proposed_db))"

definition team_goal :: goal where "team_goal = hd (goals_of delegated_db)"
definition team_delegation :: delegation where "team_delegation = hd (delegations delegated_db)"

definition offered_db :: goals_db where
  "offered_db = snd (projr (offer_delegation team_site team_maker (team_run ''runf'' (ForemanRun ''f''))
     ''Take it'' team_goal team_delegation delegated_db))"

definition peer_reviewed_db :: goals_db where
  "peer_reviewed_db = snd (projr (report_delegation team_site (step_ids ''review'') (team_principal ''n'')
     (team_report ''q3'' Rk_review (Some Rv_approved)) offered_db))"

definition ready_db :: goals_db where
  "ready_db = snd (projr (report_delegation team_site (step_ids ''ready'') (team_principal ''m'')
     (team_report ''q4'' Rk_ready None) peer_reviewed_db))"

definition accepted_db :: goals_db where
  "accepted_db = snd (projr (control_goal team_site \<lparr>ct_id = ''goal0'', ct_expectedRevision = 2, ct_action = Ga_accept\<rparr> ready_db))"

definition idle :: "goals_db \<Rightarrow> supervision" where
  "idle s = \<lparr>su_db = s, su_todo = [], su_current = None, su_delegates = []\<rparr>"

definition visiting :: "goals_db \<Rightarrow> supervision" where
  "visiting s = \<lparr>su_db = s, su_todo = [], su_current = Some team_goal, su_delegates = [team_delegation]\<rparr>"

lemma idle_simps [simp]: "su_db (idle s) = s" "su_todo (idle s) = []" "su_delegates (idle s) = []"
  "(idle s)\<lparr>su_db := t\<rparr> = idle t" "(idle s)\<lparr>su_db := t, su_todo := gs\<rparr> = (idle t)\<lparr>su_todo := gs\<rparr>"
  by (simp_all add: idle_def)

lemma visiting_simps [simp]: "su_db (visiting s) = s" "su_todo (visiting s) = []" "su_current (visiting s) = Some team_goal"
  "su_delegates (visiting s) = [team_delegation]" "(visiting s)\<lparr>su_db := t\<rparr> = visiting t"
  by (simp_all add: visiting_def)

lemma idle_new: "fresh_id s i \<Longrightarrow> new_id (idle s) i"
  by (simp add: new_id_def)

lemma visiting_new: "fresh_id s i \<Longrightarrow> i \<noteq> dl_id team_delegation \<Longrightarrow> new_id (visiting s) i"
  by (simp add: new_id_def)

lemma ran: "\<not> isl r \<Longrightarrow> r = Inr (fst (projr r), snd (projr r))"
  by (cases r) auto

text \<open>The whole run is evaluated once: each operation succeeds, and what the machine asks holds before it.\<close>

definition ran_to :: "('a \<times> goals_db) result \<Rightarrow> (goals_db \<Rightarrow> bool) \<Rightarrow> bool" where
  "ran_to r P = (case r of Inl _ \<Rightarrow> False | Inr (_, s) \<Rightarrow> P s)"

lemma ran_to_iff: "ran_to r P \<longleftrightarrow> \<not> isl r \<and> P (snd (projr r))"
  by (auto simp: ran_to_def split: sum.splits)

lemma team_run:
  "fresh_id goals0 (step_ids ''goal'' 0) \<and>
   ran_to (propose team_site (step_ids ''goal'') None team_goal_command goals0) (\<lambda>s1.
     fresh_id s1 (step_ids ''work'' 0) \<and> fresh_id s1 (step_ids ''work'' 1) \<and>
   ran_to (delegatePrepared team_site (step_ids ''work'') team_foreman team_delegate_command None s1) (\<lambda>s2.
     let g = hd (goals_of s2); d = hd (delegations s2) in
     tick_goals s2 = Inr [g] \<and> \<not> isl (goal_running team_site Coordination g) \<and>
     tick_delegates team_site g (tick_offline team_site g s2) = Inr [d] \<and>
     tick_first_review team_site (step_ids ''wake'') g [d] (tick_offline team_site g s2) = Inr s2 \<and>
     dl_state d = Dg_queued \<and>
     step_ids ''review'' 0 \<noteq> dl_id d \<and> step_ids ''ready'' 0 \<noteq> dl_id d \<and>
   ran_to (offer_delegation team_site team_maker (team_run ''runf'' (ForemanRun ''f'')) ''Take it'' g d s2) (\<lambda>s3.
     fresh_id s3 (step_ids ''review'' 0) \<and> dl_state (hd (delegations s3)) = Dg_offered \<and>
     delegations s3 \<noteq> [] \<and> goals_of s3 \<noteq> [] \<and>
   ran_to (report_delegation team_site (step_ids ''review'') (team_principal ''n'')
       (team_report ''q3'' Rk_review (Some Rv_approved)) s3) (\<lambda>s4.
     fresh_id s4 (step_ids ''ready'' 0) \<and>
   ran_to (report_delegation team_site (step_ids ''ready'') (team_principal ''m'') (team_report ''q4'' Rk_ready None) s4) (\<lambda>s5.
   ran_to (control_goal team_site \<lparr>ct_id = ''goal0'', ct_expectedRevision = 2, ct_action = Ga_accept\<rparr> s5) (\<lambda>s6.
     goals_of s6 \<noteq> [] \<and> gl_state (hd (goals_of s6)) = Gs_completed))))))"
  by code_simp

lemmas team_facts = team_run [unfolded ran_to_iff Let_def, folded proposed_db_def, folded delegated_db_def,
  folded team_goal_def team_delegation_def, folded offered_db_def, folded peer_reviewed_db_def, folded ready_db_def,
  folded accepted_db_def]

lemma team_proposes: "coord_step (idle goals0) (idle proposed_db)"
proof -
  have "\<not> isl (propose team_site (step_ids ''goal'') None team_goal_command goals0)" "fresh_id goals0 (step_ids ''goal'' 0)"
    using team_facts by blast+
  from coord_step.goal_proposed [where ids = "step_ids ''goal''", OF idle_new [OF this(2)], unfolded idle_simps,
      OF ran [OF this(1), folded proposed_db_def]]
  show ?thesis .
qed

lemma team_delegates: "coord_step (idle proposed_db) (idle delegated_db)"
proof -
  have run: "\<not> isl (delegatePrepared team_site (step_ids ''work'') team_foreman team_delegate_command None proposed_db)"
    and new: "fresh_id proposed_db (step_ids ''work'' 0)" "fresh_id proposed_db (step_ids ''work'' 1)"
    using team_facts by blast+
  from coord_step.team_delegated [OF new [THEN idle_new], unfolded idle_simps, OF ran [OF run, folded delegated_db_def]]
  show ?thesis .
qed

lemma team_visited: "coord_step\<^sup>*\<^sup>* (idle delegated_db) (visiting delegated_db)"
proof -
  have facts: "tick_goals delegated_db = Inr [team_goal]" "\<not> isl (goal_running team_site Coordination team_goal)"
    "tick_delegates team_site team_goal (tick_offline team_site team_goal delegated_db) = Inr [team_delegation]"
    "tick_first_review team_site (step_ids ''wake'') team_goal [team_delegation]
       (tick_offline team_site team_goal delegated_db) = Inr delegated_db" using team_facts by blast+
  have "coord_step (idle delegated_db) ((idle delegated_db)\<lparr>su_todo := [team_goal]\<rparr>)" (is "coord_step _ ?u")
    by (rule coord_step.pass_started) (simp_all add: facts)
  moreover have "coord_step ?u (?u\<lparr>su_todo := [], su_current := Some team_goal, su_delegates := [team_delegation],
      su_db := delegated_db\<rparr>)"
    by (rule coord_step.pass_visited_goal [where si = team_site and ids = "step_ids ''wake''"]) (simp_all add: facts)
  then have "coord_step ?u (visiting delegated_db)" by (simp add: visiting_def idle_def)
  ultimately show ?thesis by (blast intro: converse_rtranclp_into_rtranclp)
qed

lemma team_offered: "coord_step (visiting delegated_db) (visiting offered_db)"
proof -
  have run: "\<not> isl (offer_delegation team_site team_maker (team_run ''runf'' (ForemanRun ''f'')) ''Take it'' team_goal
      team_delegation delegated_db)" and queued: "dl_state team_delegation = Dg_queued" using team_facts by blast+
  from coord_step.delegation_offered [of "visiting delegated_db", unfolded visiting_simps, OF refl refl queued
      ran [OF run, folded offered_db_def]]
  show ?thesis .
qed

lemma team_reported:
  assumes "\<not> isl (report_delegation team_site ids member rc s)" "fresh_id s (ids 0)" "ids 0 \<noteq> dl_id team_delegation"
  shows "coord_step (visiting s) (visiting (snd (projr (report_delegation team_site ids member rc s))))"
  using coord_step.work_reported [where ids = ids, OF visiting_new [OF assms(2,3)], unfolded visiting_simps,
      OF ran [OF assms(1)]] .

lemma team_reviewed: "coord_step (visiting offered_db) (visiting peer_reviewed_db)"
  unfolding peer_reviewed_db_def using team_facts by (intro team_reported) blast+

lemma team_ready: "coord_step (visiting peer_reviewed_db) (visiting ready_db)"
  unfolding ready_db_def using team_facts by (intro team_reported) blast+

lemma team_accepted: "coord_step (visiting ready_db) (visiting accepted_db)"
proof -
  have "\<not> isl (control_goal team_site \<lparr>ct_id = ''goal0'', ct_expectedRevision = 2, ct_action = Ga_accept\<rparr> ready_db)"
    using team_facts by blast
  note run = ran [OF this, folded accepted_db_def]
  from coord_step.goal_controlled [of _ _ "visiting ready_db", unfolded visiting_simps, OF run] show ?thesis .
qed

lemma start_idle: "coordination0 = idle goals0"
  by (simp add: coordination0_def idle_def)

lemma offered_reachable: "coord_step\<^sup>*\<^sup>* coordination0 (visiting offered_db)"
  unfolding start_idle using team_proposes team_delegates team_visited team_offered by force

lemma accepted_reachable: "coord_step\<^sup>*\<^sup>* coordination0 (visiting accepted_db)"
  using offered_reachable team_reviewed team_ready team_accepted by (blast intro: rtranclp.rtrancl_into_rtrancl)

text \<open>
  C4. A completed goal was completed by its teams: it has a completed delegation, and each of its delegations is
  either cancelled or completed, where another member than the accountable one approved, with evidence, the
  very candidate the accountable member reported ready.
\<close>

theorem accepted_goals_reviewed:
  assumes "coord_step\<^sup>*\<^sup>* coordination0 u" "g \<in> set (goals_of (su_db u))" "gl_state g = Gs_completed"
  shows "(\<exists>d\<in>set (delegations (su_db u)). dl_goalId d = gl_id g \<and> dl_state d = Dg_completed) \<and>
    (\<forall>d\<in>set (delegations (su_db u)). dl_goalId d = gl_id g \<longrightarrow>
       dl_state d = Dg_cancelled \<or> (dl_state d = Dg_completed \<and> reviewed (su_db u) d))"
  using coord_okD(8) [OF reachable_ok [OF assms(1)]] assms(2,3)
  unfolding completed_ok_def coord_sets inactive_def by blast

theorem accepted_goals_reviewed_witness:
  "\<exists>g\<in>set (goals_of accepted_db). gl_state g = Gs_completed \<and>
     (\<exists>d\<in>set (delegations accepted_db). dl_goalId d = gl_id g \<and> dl_state d = Dg_completed)"
proof -
  have "goals_of accepted_db \<noteq> []" and finished: "gl_state (hd (goals_of accepted_db)) = Gs_completed" using team_facts by blast+
  then have g: "hd (goals_of accepted_db) \<in> set (goals_of accepted_db)" by (intro hd_in_set)
  show ?thesis
    using accepted_goals_reviewed [OF accepted_reachable, unfolded visiting_simps, OF g finished] g finished by blast
qed

text \<open>
  C5. Two delegations that are not over never share a group or a checkout, and no goal has more live
  delegations than its grant allows, in every reachable state.
\<close>

theorem teams_reserved_once:
  assumes "coord_step\<^sup>*\<^sup>* coordination0 u"
  shows "(\<forall>d\<in>set (delegations (su_db u)). \<forall>d'\<in>set (delegations (su_db u)).
      dl_id d \<noteq> dl_id d' \<longrightarrow> \<not> inactive (dl_state d) \<longrightarrow> \<not> inactive (dl_state d') \<longrightarrow>
      dl_groupId d \<noteq> dl_groupId d' \<and> dl_checkoutId d \<noteq> dl_checkoutId d') \<and>
    (\<forall>g\<in>set (goals_of (su_db u)).
      card {d \<in> set (delegations (su_db u)). \<not> inactive (dl_state d) \<and> dl_goalId d = gl_id g} \<le>
        gr_maxTeamsPerGoal (gl_grant g))"
  using coord_okD(3,4) [OF reachable_ok [OF assms]] unfolding reserved_ok_def budgets_ok_def coord_sets active_def by blast

theorem teams_reserved_once_witness:
  "hd (goals_of offered_db) \<in> set (goals_of offered_db) \<and>
   card {d \<in> set (delegations offered_db). \<not> inactive (dl_state d) \<and> dl_goalId d = gl_id (hd (goals_of offered_db))} \<le>
     gr_maxTeamsPerGoal (gl_grant (hd (goals_of offered_db)))"
proof -
  have "goals_of offered_db \<noteq> []" using team_facts by blast
  then have g: "hd (goals_of offered_db) \<in> set (goals_of offered_db)" by (rule hd_in_set)
  show ?thesis using teams_reserved_once [OF offered_reachable, unfolded visiting_simps] g by blast
qed

text \<open>
  C6. A delegation past its proposal, unless it was cancelled, rests on a resolved decision that approves it: one
  about the delegation itself, or one of an operator about the preparation of the goal. Who decided is recorded,
  and the policy decides only about delegations, and only where the goal's grant says so.
\<close>

theorem delegations_are_approved:
  assumes "coord_step\<^sup>*\<^sup>* coordination0 u" "d \<in> set (delegations (su_db u))"
    "dl_state d \<noteq> Dg_proposed" "dl_state d \<noteq> Dg_cancelled"
  shows "\<exists>n\<in>set (decisions_of (su_db u)). approves n d \<and> (\<exists>who. dn_decidedBy n = Some who \<and>
    (by_policy who \<longrightarrow> dn_kind n = Dk_delegation \<and>
       (\<exists>g\<in>set (goals_of (su_db u)). gl_id g = dl_goalId d \<and> gr_approvalMode (gl_grant g) = Autonomous_approval)))"
proof -
  note ok = reachable_ok [OF assms(1)]
  obtain n where n: "n \<in> decision_set (su_db u)" "approves n d"
    using coord_okD(5) [OF ok] assms(2-4) unfolding approved_ok_def delegation_set_def by blast
  then have r: "dn_state n = Dn_resolved" "dn_goalId n = dl_goalId d" by (simp_all add: approves_def)
  obtain who where who: "dn_decidedBy n = Some who" "by_policy who \<longrightarrow>
      (\<forall>g\<in>goal_set (su_db u). gl_id g = dn_goalId n \<longrightarrow> gr_approvalMode (gl_grant g) = Autonomous_approval)"
    using coord_okD(6) [OF ok] n(1) r(1) unfolding decided_ok_def by blast
  have "dl_goalId d \<in> gl_id ` goal_set (su_db u)"
    using coord_okD(2) [OF ok] assms(2) unfolding refs_ok_def delegation_set_def by blast
  then obtain g where g: "dl_goalId d = gl_id g" "g \<in> goal_set (su_db u)" by (rule imageE)
  have "by_policy who \<Longrightarrow> dn_kind n = Dk_delegation" using n(2) who(1) by (auto simp: approves_def)
  then show ?thesis using n who g r unfolding coord_sets by (intro bexI [of _ n]) auto
qed

theorem delegations_are_approved_witness:
  "\<exists>n\<in>set (decisions_of offered_db). approves n (hd (delegations offered_db))"
proof -
  have "delegations offered_db \<noteq> []" and offered: "dl_state (hd (delegations offered_db)) = Dg_offered"
    using team_facts by blast+
  then have d: "hd (delegations offered_db) \<in> set (delegations offered_db)" by (intro hd_in_set)
  have "dl_state (hd (delegations offered_db)) \<noteq> Dg_proposed" "dl_state (hd (delegations offered_db)) \<noteq> Dg_cancelled"
    by (simp_all add: offered)
  from delegations_are_approved [OF offered_reachable, unfolded visiting_simps, OF d this] show ?thesis by blast
qed

end
