(* ===== verification/Provider_Types.thy ===== *)
theory Provider_Types
  imports Action_Scheduler
begin

text \<open>
  The provider status protocol, \<open>packages/contracts/src/provider-status.ts\<close>, with the identities of
  \<open>provider-runtime.ts\<close> it builds on: fences, bindings, processes, the claims of the status sources, the
  events of a reporter and its turn cycles. The enums it shares with \<open>status.ts\<close>
  value for value are those of \<open>Status_Types\<close>. Its schemas never trim, so each is a predicate.
\<close>

subsection \<open>Identities\<close>

definition plain_text :: "nat \<Rightarrow> string \<Rightarrow> bool" where
  "plain_text n s \<longleftrightarrow> 1 \<le> length s \<and> length s \<le> n"

text \<open>An optional field is checked where it is present.\<close>

fun if_present :: "('a \<Rightarrow> bool) \<Rightarrow> 'a option \<Rightarrow> bool" where
  "if_present p None = True"
| "if_present p (Some x) = p x"

definition open_identity :: "string \<Rightarrow> bool" where
  "open_identity s \<longleftrightarrow> plain_text 128 s \<and> joined_runs (\<lambda>c. c = CHR ''.'' \<or> c = CHR ''-'') False s"

definition dotted_identity :: "string \<Rightarrow> bool" where
  "dotted_identity s \<longleftrightarrow>
     plain_text 128 s \<and> joined_runs (\<lambda>c. c = CHR ''.'' \<or> c = CHR ''_'' \<or> c = CHR ''-'') False s"

text \<open>
  What the pipeline reads of \<open>RunProviderBinding\<close>; the authority fence of a record is its binding with the
  process that speaks.
\<close>

record provider_binding =
  bi_id :: string
  bi_runId :: string
  bi_generation :: nat
  bi_integrationId :: string
  bi_providerId :: string
  bi_adapterId :: string
  bi_snapshotDigest :: string
  bi_statusPolicyDigest :: string

record authority_fence =
  fn_bindingId :: string
  fn_runId :: string
  fn_generation :: nat
  fn_providerId :: string
  fn_snapshotDigest :: string
  fn_process :: string

definition fence_ok :: "authority_fence \<Rightarrow> bool" where
  "fence_ok f \<longleftrightarrow>
     plain_text 128 (fn_runId f) \<and> 0 < fn_generation f \<and> plain_text 128 (fn_bindingId f) \<and>
     open_identity (fn_providerId f) \<and> is_digest (fn_snapshotDigest f) \<and> is_digest (fn_process f)"

text \<open>A process the daemon recognised in a pane.\<close>

record incarnation =
  ic_digest :: string
  ic_bindingId :: string
  ic_runId :: string
  ic_generation :: nat
  ic_providerId :: string
  ic_snapshotDigest :: string
  ic_paneId :: string
  ic_foregroundPgid :: nat
  ic_leaderPid :: nat
  ic_pidStartIdentity :: string
  ic_observedAt :: timestamp
  ic_endedAt :: "timestamp option"

definition incarnation_ok :: "incarnation \<Rightarrow> bool" where
  "incarnation_ok p \<longleftrightarrow>
     is_digest (ic_digest p) \<and> plain_text 128 (ic_runId p) \<and> 0 < ic_generation p \<and>
     plain_text 128 (ic_bindingId p) \<and> open_identity (ic_providerId p) \<and> is_digest (ic_snapshotDigest p) \<and>
     plain_text 128 (ic_paneId p) \<and> 0 < ic_foregroundPgid p \<and> 0 < ic_leaderPid p \<and>
     plain_text 128 (ic_pidStartIdentity p)"

subsection \<open>Claims\<close>

datatype claim_source = Cs_process | Cs_reporter | Cs_status_api | Cs_screen | Cs_osc

datatype claim_type =
  Ct_process_liveness | Ct_semantic_state | Ct_phase | Ct_outcome | Ct_exact_wait | Ct_fatal_failure
| Ct_observer_health

record claim =
  cl_id :: string
  cl_fence :: authority_fence
  cl_policyDigest :: string
  cl_source :: claim_source
  cl_sourceId :: string
  cl_sourceSessionId :: "string option"
  cl_sourceManifestDigest :: "string option"
  cl_claimType :: claim_type
  cl_semanticState :: "agent_status_state option"
  cl_phase :: "agent_status_phase option"
  cl_outcome :: "agent_status_outcome option"
  cl_processState :: "process_state option"
  cl_waitRequestId :: "string option"
  cl_confidence :: agent_status_confidence
  cl_reasonCode :: string
  cl_sourceSequence :: nat
  cl_sourceOccurredAt :: "timestamp option"
  cl_receivedAt :: timestamp
  cl_expiresAt :: "timestamp option"

text \<open>The field a type of claim must carry.\<close>

fun required_field :: "claim_type \<Rightarrow> claim \<Rightarrow> bool" where
  "required_field Ct_process_liveness c = (cl_processState c \<noteq> None)"
| "required_field Ct_semantic_state c = (cl_semanticState c \<noteq> None)"
| "required_field Ct_phase c = (cl_phase c \<noteq> None)"
| "required_field Ct_outcome c = (cl_outcome c \<noteq> None)"
| "required_field Ct_exact_wait c = (cl_waitRequestId c \<noteq> None)"
| "required_field Ct_fatal_failure c = (cl_semanticState c \<noteq> None)"
| "required_field Ct_observer_health c = True"

definition claim_rules :: "claim \<Rightarrow> bool" where
  "claim_rules c \<longleftrightarrow>
     required_field (cl_claimType c) c \<and>
     (cl_source c = Cs_screen \<or> cl_source c = Cs_osc \<longrightarrow>
        cl_confidence c \<noteq> Cf_high \<and> cl_claimType c \<notin> {Ct_outcome, Ct_exact_wait, Ct_fatal_failure}) \<and>
     (cl_source c = Cs_process \<longrightarrow> cl_claimType c = Ct_process_liveness)"

definition claim_ok :: "claim \<Rightarrow> bool" where
  "claim_ok c \<longleftrightarrow>
     plain_text 128 (cl_id c) \<and> fence_ok (cl_fence c) \<and> is_digest (cl_policyDigest c) \<and>
     plain_text 128 (cl_sourceId c) \<and> if_present (plain_text 128) (cl_sourceSessionId c) \<and>
     if_present is_digest (cl_sourceManifestDigest c) \<and> if_present (plain_text 128) (cl_waitRequestId c) \<and>
     dotted_identity (cl_reasonCode c) \<and> claim_rules c"

subsection \<open>Reporter events and turn cycles\<close>

record provider_event_data =
  pd_waitKind :: "wait_kind option"
  pd_summary :: "string option"
  pd_transportId :: "string option"
  pd_errorClass :: "string option"
  pd_fatal :: "bool option"
  pd_effectiveModel :: "string option"
  pd_nativeSessionHandle :: "string option"

record provider_event =
  pe_version :: nat
  pe_eventId :: string
  pe_integrationId :: string
  pe_providerId :: string
  pe_adapterId :: string
  pe_snapshotDigest :: string
  pe_process :: string
  pe_reporterSessionId :: string
  pe_reporterId :: string
  pe_source :: string
  pe_reporterEpoch :: string
  pe_runId :: string
  pe_generation :: nat
  pe_sourceSequence :: nat
  pe_event :: event_kind
  pe_occurredAt :: "timestamp option"
  pe_rootSessionId :: "string option"
  pe_turnId :: "string option"
  pe_operationId :: "string option"
  pe_requestId :: "string option"
  pe_data :: provider_event_data

definition provider_event_data_ok :: "provider_event_data \<Rightarrow> bool" where
  "provider_event_data_ok d \<longleftrightarrow>
     if_present (plain_text 512) (pd_summary d) \<and> if_present (plain_text 128) (pd_transportId d) \<and>
     if_present (plain_text 128) (pd_errorClass d) \<and> if_present (plain_text 256) (pd_effectiveModel d) \<and>
     if_present (plain_text 128) (pd_nativeSessionHandle d)"

definition provider_event_rules :: "provider_event \<Rightarrow> bool" where
  "provider_event_rules e \<longleftrightarrow>
     (pe_event e \<in> {Ev_tool_started, Ev_tool_finished, Ev_tool_failed} \<longrightarrow> pe_operationId e \<noteq> None) \<and>
     (pe_event e \<in> {Ev_wait_opened, Ev_wait_closed} \<longrightarrow> pe_requestId e \<noteq> None) \<and>
     (pe_event e = Ev_wait_opened \<longrightarrow>
        pd_waitKind (pe_data e) \<noteq> None \<and> pd_summary (pe_data e) \<noteq> None \<and> pd_transportId (pe_data e) \<noteq> None)"

definition provider_event_ok :: "provider_event \<Rightarrow> bool" where
  "provider_event_ok e \<longleftrightarrow>
     pe_version e = 3 \<and> plain_text 128 (pe_eventId e) \<and> dotted_identity (pe_integrationId e) \<and>
     open_identity (pe_providerId e) \<and> open_identity (pe_adapterId e) \<and> is_digest (pe_snapshotDigest e) \<and>
     is_digest (pe_process e) \<and> plain_text 128 (pe_reporterSessionId e) \<and> plain_text 128 (pe_reporterId e) \<and>
     open_identity (pe_source e) \<and> plain_text 128 (pe_reporterEpoch e) \<and> plain_text 128 (pe_runId e) \<and>
     0 < pe_generation e \<and> 0 < pe_sourceSequence e \<and> if_present (plain_text 128) (pe_rootSessionId e) \<and>
     if_present (plain_text 128) (pe_turnId e) \<and> if_present (plain_text 128) (pe_operationId e) \<and>
     if_present (plain_text 128) (pe_requestId e) \<and> provider_event_data_ok (pe_data e) \<and>
     provider_event_rules e"

datatype cycle_state = Cy_open | Cy_waiting | Cy_settling | Cy_closed | Cy_abandoned

record turn_cycle =
  tc_id :: string
  tc_bindingId :: string
  tc_runId :: string
  tc_generation :: nat
  tc_providerId :: string
  tc_snapshotDigest :: string
  tc_process :: string
  tc_reporterSessionId :: string
  tc_rootSessionId :: string
  tc_turnId :: string
  tc_state :: cycle_state
  tc_openToolCount :: nat
  tc_openWaitCount :: nat
  tc_completionRevision :: nat
  tc_openedAt :: timestamp
  tc_settledAt :: "timestamp option"
  tc_closedAt :: "timestamp option"

definition cycle_ok :: "turn_cycle \<Rightarrow> bool" where
  "cycle_ok c \<longleftrightarrow>
     plain_text 128 (tc_id c) \<and> plain_text 128 (tc_runId c) \<and> 0 < tc_generation c \<and>
     plain_text 128 (tc_bindingId c) \<and> open_identity (tc_providerId c) \<and> is_digest (tc_snapshotDigest c) \<and>
     is_digest (tc_process c) \<and> plain_text 128 (tc_reporterSessionId c) \<and> plain_text 128 (tc_rootSessionId c) \<and>
     plain_text 128 (tc_turnId c) \<and> tc_openToolCount c \<le> 10000 \<and> tc_openWaitCount c \<le> 10000"

end
