(* ===== verification/Provider_Store.thy ===== *)
theory Provider_Store
  imports Provider_Types
begin

text \<open>
  The repositories of the provider status pipeline over their SQLite tables: the processes of a binding
  (\<open>provider-process-incarnation-repository.ts\<close>), the admission of reporter events
  (\<open>provider-reporter-event-admission.ts\<close>), the claims of the status sources
  (\<open>provider-status-claim-repository.ts\<close>) and the turn cycles of a reporter
  (\<open>provider-turn-cycle-repository.ts\<close>).

  SHA-256 over canonical JSON is a parameter. The constraints of \<open>provider-platform-schema.ts\<close> that an
  insert can violate are its guards. A process and a turn cycle carry the provider of their binding, which
  the queries read by a join. An operation whose last read fails after its writes keeps them: it
  returns the tables beside its result.
\<close>

subsection \<open>Tables\<close>

record reporter_row =
  rw_id :: string
  rw_bindingId :: string
  rw_runId :: string
  rw_generation :: nat
  rw_snapshotDigest :: string
  rw_process :: string
  rw_reporterId :: string
  rw_sourceId :: string
  rw_reporterEpoch :: string
  rw_rootSessionId :: "string option"
  rw_active :: bool

record reporter_fence =
  rf_recordId :: string
  rf_bindingId :: string
  rf_runId :: string
  rf_generation :: nat
  rf_snapshotDigest :: string
  rf_process :: string

record event_receipt =
  er_eventId :: string
  er_bindingId :: string
  er_reporterSessionId :: string
  er_reporterEpoch :: string
  er_sourceSequence :: nat
  er_event :: event_kind
  er_payloadDigest :: string
  er_acceptedAt :: timestamp

text \<open>The open tools and waits of a turn cycle: \<open>(cycle_id, operation_id or request_id, opened_at)\<close>.\<close>

type_synonym open_row = "string \<times> string \<times> timestamp"

record provider_db =
  pv_bindings :: "provider_binding list"
  pv_processes :: "incarnation list"
  pv_fences :: "reporter_fence list"
  pv_sessions :: "reporter_row list"
  pv_receipts :: "event_receipt list"
  pv_claims :: "claim list"
  pv_cycles :: "turn_cycle list"
  pv_tools :: "open_row list"
  pv_waits :: "open_row list"

definition bound :: "string \<Rightarrow> string \<Rightarrow> nat \<Rightarrow> string \<Rightarrow> provider_db \<Rightarrow> bool" where
  "bound i runId generation snapshot d \<longleftrightarrow>
     list_ex (\<lambda>b. bi_id b = i \<and> bi_runId b = runId \<and> bi_generation b = generation \<and> bi_snapshotDigest b = snapshot)
       (pv_bindings d)"

definition process_known :: "string \<Rightarrow> string \<Rightarrow> string \<Rightarrow> provider_db \<Rightarrow> bool" where
  "process_known process bindingId snapshot d \<longleftrightarrow>
     list_ex (\<lambda>p. ic_digest p = process \<and> ic_bindingId p = bindingId \<and> ic_snapshotDigest p = snapshot)
       (pv_processes d)"

subsection \<open>Processes\<close>

definition active_process :: "string \<Rightarrow> string \<Rightarrow> provider_db \<Rightarrow> incarnation option result" where
  "active_process bindingId paneId d =
     (case find_where (\<lambda>p. ic_bindingId p = bindingId \<and> ic_paneId p = paneId \<and> ic_endedAt p = None) (pv_processes d) of
        None \<Rightarrow> Inr None
      | Some p \<Rightarrow> if incarnation_ok p then Inr (Some p) else Inl SchemaError)"

definition new_incarnation ::
  "(string \<times> string \<times> string \<times> nat \<times> nat \<times> string \<Rightarrow> string) \<Rightarrow> provider_binding \<Rightarrow> string \<Rightarrow> process_identity \<Rightarrow>
   timestamp \<Rightarrow> incarnation" where
  "new_incarnation sha b paneId obs observedAt =
     \<lparr>ic_digest = sha (bi_id b, bi_snapshotDigest b, paneId, pi_foregroundPgid obs, pi_leaderPid obs,
        pi_pidStartIdentity obs),
      ic_bindingId = bi_id b, ic_runId = bi_runId b, ic_generation = bi_generation b,
      ic_providerId = bi_providerId b, ic_snapshotDigest = bi_snapshotDigest b, ic_paneId = paneId,
      ic_foregroundPgid = pi_foregroundPgid obs, ic_leaderPid = pi_leaderPid obs,
      ic_pidStartIdentity = pi_pidStartIdentity obs, ic_observedAt = observedAt, ic_endedAt = None\<rparr>"

definition record_incarnation ::
  "(string \<times> string \<times> string \<times> nat \<times> nat \<times> string \<Rightarrow> string) \<Rightarrow> provider_binding \<Rightarrow> string \<Rightarrow> process_identity \<Rightarrow>
   timestamp \<Rightarrow> provider_db \<Rightarrow> (incarnation \<times> provider_db) result" where
  "record_incarnation sha b paneId obs observedAt d =
     (let p = new_incarnation sha b paneId obs observedAt in
      if pi_expectedProviderMatch obs \<noteq> Pm_match
      then Inl (PlainError ''Observed process does not match the pinned provider snapshot'')
      else if \<not> incarnation_ok p then Inl SchemaError
      else rbind (active_process (bi_id b) paneId d) (\<lambda>current.
        if map_option ic_digest current = Some (ic_digest p) then Inr (the current, d)
        else
          let ended = (case current of
                None \<Rightarrow> pv_processes d
              | Some c \<Rightarrow> update_where (\<lambda>q. ic_digest q = ic_digest c \<and> ic_endedAt q = None)
                  (\<lambda>q. q\<lparr>ic_endedAt := Some observedAt\<rparr>) (pv_processes d))
          in if list_ex (\<lambda>q. ic_digest q = ic_digest p) ended
                \<or> \<not> bound (bi_id b) (bi_runId b) (bi_generation b) (bi_snapshotDigest b) d
             then Inl ConstraintError
             else Inr (p, d\<lparr>pv_processes := ended @ [p]\<rparr>)))"

subsection \<open>Admission of reporter events\<close>

text \<open>The reporter capability of the pinned snapshot.\<close>

datatype root_policy = Root_single | Root_qualified | Root_none

record reporter_capability =
  rk_driverId :: "string option"
  rk_sourceId :: "string option"
  rk_events :: "event_kind list option"
  rk_rootSessionPolicy :: "root_policy option"

record adapter_snapshot =
  as_digest :: string
  as_reporter :: "reporter_capability option"

definition matches_binding :: "provider_binding \<Rightarrow> adapter_snapshot \<Rightarrow> provider_event \<Rightarrow> bool" where
  "matches_binding b snapshot e \<longleftrightarrow>
     pe_runId e = bi_runId b \<and> pe_generation e = bi_generation b \<and> pe_integrationId e = bi_integrationId b \<and>
     pe_providerId e = bi_providerId b \<and> pe_adapterId e = bi_adapterId b \<and>
     pe_snapshotDigest e = bi_snapshotDigest b \<and> as_digest snapshot = bi_snapshotDigest b"

definition capability_admits :: "reporter_capability \<Rightarrow> provider_event \<Rightarrow> bool" where
  "capability_admits r e \<longleftrightarrow>
     rk_driverId r = Some (pe_reporterId e) \<and> rk_sourceId r = Some (pe_source e) \<and>
     (case rk_events r of None \<Rightarrow> False | Some es \<Rightarrow> pe_event e \<in> set es)"

definition process_alive :: "provider_binding \<Rightarrow> string \<Rightarrow> provider_db \<Rightarrow> bool" where
  "process_alive b process d \<longleftrightarrow>
     list_ex (\<lambda>p. ic_digest p = process \<and> ic_bindingId p = bi_id b \<and> ic_runId p = bi_runId b \<and>
       ic_generation p = bi_generation b \<and> ic_snapshotDigest p = bi_snapshotDigest b \<and> ic_endedAt p = None)
       (pv_processes d)"

definition reporter_fenced :: "provider_binding \<Rightarrow> provider_event \<Rightarrow> provider_db \<Rightarrow> bool" where
  "reporter_fenced b e d \<longleftrightarrow>
     list_ex (\<lambda>f. rf_recordId f = pe_reporterSessionId e \<and> rf_bindingId f = bi_id b \<and> rf_runId f = bi_runId b \<and>
       rf_generation f = bi_generation b \<and> rf_snapshotDigest f = bi_snapshotDigest b \<and> rf_process f = pe_process e)
       (pv_fences d)"

definition admitted_session :: "provider_binding \<Rightarrow> provider_event \<Rightarrow> provider_db \<Rightarrow> reporter_row option" where
  "admitted_session b e d =
     find_where (\<lambda>s. rw_id s = pe_reporterSessionId e \<and> rw_bindingId s = bi_id b \<and> rw_runId s = bi_runId b \<and>
       rw_generation s = bi_generation b \<and> rw_snapshotDigest s = bi_snapshotDigest b \<and> rw_process s = pe_process e \<and>
       rw_reporterId s = pe_reporterId e \<and> rw_sourceId s = pe_source e \<and> rw_reporterEpoch s = pe_reporterEpoch e \<and>
       rw_active s) (pv_sessions d)"

definition same_stream :: "string \<Rightarrow> provider_event \<Rightarrow> event_receipt \<Rightarrow> bool" where
  "same_stream bindingId e r \<longleftrightarrow>
     er_bindingId r = bindingId \<and> er_reporterSessionId r = pe_reporterSessionId e \<and>
     er_reporterEpoch r = pe_reporterEpoch e"

definition new_receipt ::
  "(provider_event \<Rightarrow> string) \<Rightarrow> provider_binding \<Rightarrow> timestamp \<Rightarrow> provider_event \<Rightarrow> event_receipt" where
  "new_receipt sha b acceptedAt e =
     \<lparr>er_eventId = pe_eventId e, er_bindingId = bi_id b, er_reporterSessionId = pe_reporterSessionId e,
      er_reporterEpoch = pe_reporterEpoch e, er_sourceSequence = pe_sourceSequence e, er_event = pe_event e,
      er_payloadDigest = sha e, er_acceptedAt = acceptedAt\<rparr>"

text \<open>The receipts decide last: a known id is a duplicate, a new one must continue its stream.\<close>

definition receive ::
  "(provider_event \<Rightarrow> string) \<Rightarrow> provider_binding \<Rightarrow> timestamp \<Rightarrow> provider_event \<Rightarrow> provider_db \<Rightarrow>
   ((provider_event \<times> bool) \<times> provider_db) result" where
  "receive sha b acceptedAt e d =
     (case find_where (\<lambda>r. er_eventId r = pe_eventId e) (pv_receipts d) of
        Some r \<Rightarrow>
          if er_payloadDigest r \<noteq> sha e then Inl (PlainError ''Reporter event ID was reused with a different payload'')
          else Inr ((e, True), d)
      | None \<Rightarrow>
          if list_ex (\<lambda>r. same_stream (bi_id b) e r \<and> pe_sourceSequence e \<le> er_sourceSequence r) (pv_receipts d)
          then Inl (PlainError ''Reporter event source sequence is reordered'')
          else if length (sha e) \<noteq> 64 then Inl ConstraintError
          else Inr ((e, False), d\<lparr>pv_receipts := pv_receipts d @ [new_receipt sha b acceptedAt e]\<rparr>))"

definition admit ::
  "(provider_event \<Rightarrow> string) \<Rightarrow> provider_binding \<Rightarrow> adapter_snapshot \<Rightarrow> provider_event \<Rightarrow> timestamp \<Rightarrow>
   provider_db \<Rightarrow> ((provider_event \<times> bool) \<times> provider_db) result" where
  "admit sha b snapshot e acceptedAt d =
     (if \<not> provider_event_ok e then Inl SchemaError
      else if \<not> matches_binding b snapshot e
      then Inl (PlainError ''Reporter event does not match the immutable run binding'')
      else case as_reporter snapshot of
        None \<Rightarrow> Inl (PlainError ''Reporter event is not admitted by the pinned reporter capability'')
      | Some r \<Rightarrow>
          if \<not> capability_admits r e
          then Inl (PlainError ''Reporter event is not admitted by the pinned reporter capability'')
          else if rk_rootSessionPolicy r = Some Root_qualified \<and>
              pe_event e \<notin> {Ev_reporter_ready, Ev_heartbeat} \<and> pe_rootSessionId e = None
          then Inl (PlainError ''Reporter event requires a qualified root session'')
          else if \<not> process_alive b (pe_process e) d
          then Inl (PlainError ''Reporter process incarnation is not authoritative'')
          else if \<not> reporter_fenced b e d
          then Inl (PlainError ''Reporter session is not authoritative for the run binding'')
          else case admitted_session b e d of
            None \<Rightarrow> Inl (PlainError ''Reporter session identity or epoch is not active'')
          | Some s \<Rightarrow>
              if rk_rootSessionPolicy r = Some Root_qualified \<and> rw_rootSessionId s = None
              then Inl (PlainError ''Qualified reporter session has no admitted root identity'')
              else if pe_rootSessionId e \<noteq> None \<and> pe_rootSessionId e \<noteq> rw_rootSessionId s
              then Inl (PlainError ''Reporter event root session does not match its admitted session'')
              else receive sha b acceptedAt e d)"

subsection \<open>Claims\<close>

fun claim_source_name :: "claim_source \<Rightarrow> string" where
  "claim_source_name Cs_process = ''process''"
| "claim_source_name Cs_reporter = ''reporter''"
| "claim_source_name Cs_status_api = ''status-api''"
| "claim_source_name Cs_screen = ''screen''"
| "claim_source_name Cs_osc = ''osc''"

fun claim_type_name :: "claim_type \<Rightarrow> string" where
  "claim_type_name Ct_process_liveness = ''process-liveness''"
| "claim_type_name Ct_semantic_state = ''semantic-state''"
| "claim_type_name Ct_phase = ''phase''"
| "claim_type_name Ct_outcome = ''outcome''"
| "claim_type_name Ct_exact_wait = ''exact-wait''"
| "claim_type_name Ct_fatal_failure = ''fatal-failure''"
| "claim_type_name Ct_observer_health = ''observer-health''"

definition claim_authority :: "claim \<Rightarrow> provider_db \<Rightarrow> bool" where
  "claim_authority c d \<longleftrightarrow>
     list_ex (\<lambda>b. bi_id b = fn_bindingId (cl_fence c) \<and> bi_runId b = fn_runId (cl_fence c) \<and>
       bi_generation b = fn_generation (cl_fence c) \<and> bi_providerId b = fn_providerId (cl_fence c) \<and>
       bi_snapshotDigest b = fn_snapshotDigest (cl_fence c) \<and> bi_statusPolicyDigest b = cl_policyDigest c \<and>
       list_ex (\<lambda>p. ic_bindingId p = bi_id b \<and> ic_snapshotDigest p = bi_snapshotDigest b \<and>
         ic_digest p = fn_process (cl_fence c) \<and> ic_endedAt p = None) (pv_processes d)) (pv_bindings d)"

text \<open>The key of a claim: its binding, its source and what it is about.\<close>

definition claim_key :: "claim \<Rightarrow> string \<times> claim_source \<times> string \<times> claim_type" where
  "claim_key c = (fn_bindingId (cl_fence c), cl_source c, cl_sourceId c, cl_claimType c)"

definition claim_value ::
  "claim \<Rightarrow> agent_status_state option \<times> agent_status_phase option \<times> agent_status_outcome option \<times>
     process_state option \<times> string option" where
  "claim_value c = (cl_semanticState c, cl_phase c, cl_outcome c, cl_processState c, cl_waitRequestId c)"

definition same_meaning :: "claim \<Rightarrow> claim \<Rightarrow> bool" where
  "same_meaning a b \<longleftrightarrow>
     cl_fence a = cl_fence b \<and> cl_policyDigest a = cl_policyDigest b \<and> cl_source a = cl_source b \<and>
     cl_sourceId a = cl_sourceId b \<and> cl_sourceSessionId a = cl_sourceSessionId b \<and>
     cl_sourceManifestDigest a = cl_sourceManifestDigest b \<and> cl_claimType a = cl_claimType b \<and>
     claim_value a = claim_value b \<and> cl_confidence a = cl_confidence b \<and> cl_reasonCode a = cl_reasonCode b \<and>
     cl_expiresAt a = cl_expiresAt b"

definition current_claim :: "claim \<Rightarrow> provider_db \<Rightarrow> claim option result" where
  "current_claim c d =
     (case find_where (\<lambda>r. claim_key r = claim_key c) (pv_claims d) of
        None \<Rightarrow> Inr None
      | Some r \<Rightarrow> if claim_ok r then Inr (Some r) else Inl SchemaError)"

text \<open>
  The update writes every column but the key and those of the fence and the policy: the row keeps the
  process and the policy it was inserted under.
\<close>

definition rewritten_claim :: "claim \<Rightarrow> claim \<Rightarrow> claim" where
  "rewritten_claim c r = c\<lparr>cl_fence := cl_fence r, cl_policyDigest := cl_policyDigest r\<rparr>"

definition record_claim :: "claim \<Rightarrow> provider_db \<Rightarrow> ((claim \<times> bool) \<times> provider_db) result" where
  "record_claim c d =
     (if \<not> claim_ok c then Inl SchemaError
      else if \<not> claim_authority c d then Inl (PlainError ''Status claim authority fence is not current'')
      else rbind (current_claim c d) (\<lambda>existing.
        case existing of
          Some r \<Rightarrow>
            if cl_sourceSequence c \<le> cl_sourceSequence r
            then Inl (PlainError ''Status claim source sequence is reordered'')
            else if same_meaning r c then Inr ((r, False), d)
            else if list_ex (\<lambda>q. cl_id q = cl_id c \<and> claim_key q \<noteq> claim_key c) (pv_claims d) then Inl ConstraintError
            else Inr ((c, True), d\<lparr>pv_claims := update_where (\<lambda>q. claim_key q = claim_key c) (rewritten_claim c) (pv_claims d)\<rparr>)
        | None \<Rightarrow>
            if list_ex (\<lambda>q. cl_id q = cl_id c) (pv_claims d) then Inl ConstraintError
            else Inr ((c, True), d\<lparr>pv_claims := pv_claims d @ [c]\<rparr>)))"

fun parse_claims :: "claim list \<Rightarrow> claim list result" where
  "parse_claims [] = Inr []"
| "parse_claims (c # cs) = (if claim_ok c then rbind (parse_claims cs) (\<lambda>cs'. Inr (c # cs')) else Inl SchemaError)"

definition list_claims :: "string \<Rightarrow> nat \<Rightarrow> provider_db \<Rightarrow> claim list result" where
  "list_claims runId generation d =
     parse_claims (sort_key (\<lambda>c. (claim_source_name (cl_source c), cl_sourceId c, claim_type_name (cl_claimType c)))
       (filter (\<lambda>c. fn_runId (cl_fence c) = runId \<and> fn_generation (cl_fence c) = generation) (pv_claims d)))"

subsection \<open>Turn cycles\<close>

definition live :: "turn_cycle \<Rightarrow> bool" where
  "live c \<longleftrightarrow> tc_state c \<in> {Cy_open, Cy_waiting, Cy_settling}"

definition turn_event :: "event_kind \<Rightarrow> bool" where
  "turn_event k \<longleftrightarrow> k \<in> {Ev_turn_started, Ev_turn_waiting, Ev_turn_settled, Ev_tool_started, Ev_tool_finished,
     Ev_tool_failed, Ev_wait_opened, Ev_wait_closed}"

definition find_cycle :: "string \<Rightarrow> string \<Rightarrow> string \<Rightarrow> string \<Rightarrow> provider_db \<Rightarrow> turn_cycle option" where
  "find_cycle bindingId session root turn d =
     find_where (\<lambda>c. tc_bindingId c = bindingId \<and> tc_reporterSessionId c = session \<and> tc_rootSessionId c = root \<and>
       tc_turnId c = turn) (pv_cycles d)"

definition parsed_cycle :: "turn_cycle option \<Rightarrow> turn_cycle option result" where
  "parsed_cycle c =
     (case c of None \<Rightarrow> Inr None | Some r \<Rightarrow> if cycle_ok r then Inr (Some r) else Inl SchemaError)"

definition current_for_event :: "provider_binding \<Rightarrow> provider_event \<Rightarrow> provider_db \<Rightarrow> turn_cycle option result" where
  "current_for_event b e d =
     (case (pe_rootSessionId e, pe_turnId e) of
        (Some root, Some turn) \<Rightarrow> parsed_cycle (find_cycle (bi_id b) (pe_reporterSessionId e) root turn d)
      | _ \<Rightarrow> Inr None)"

definition get_cycle :: "string \<Rightarrow> provider_db \<Rightarrow> turn_cycle option result" where
  "get_cycle i d = parsed_cycle (find_where (\<lambda>c. tc_id c = i) (pv_cycles d))"

definition abandon :: "timestamp \<Rightarrow> (turn_cycle \<Rightarrow> bool) \<Rightarrow> turn_cycle list \<Rightarrow> turn_cycle list" where
  "abandon at p = update_where (\<lambda>c. p c \<and> live c) (\<lambda>c. c\<lparr>tc_state := Cy_abandoned, tc_closedAt := Some at\<rparr>)"

text \<open>The highest completion revision of a binding, 0 without cycles.\<close>

definition last_completion :: "string \<Rightarrow> turn_cycle list \<Rightarrow> nat" where
  "last_completion bindingId cs = foldr max (map tc_completionRevision (filter (\<lambda>c. tc_bindingId c = bindingId) cs)) 0"

definition new_cycle ::
  "(string \<times> string \<times> string \<times> string \<Rightarrow> string) \<Rightarrow> provider_binding \<Rightarrow> provider_event \<Rightarrow> string \<Rightarrow> string \<Rightarrow> timestamp \<Rightarrow>
   nat \<Rightarrow> turn_cycle" where
  "new_cycle sha b e root turn at revision =
     \<lparr>tc_id = ''turn-cycle-'' @ take 48 (sha (bi_id b, pe_reporterSessionId e, root, turn)),
      tc_bindingId = bi_id b, tc_runId = bi_runId b, tc_generation = bi_generation b, tc_providerId = bi_providerId b,
      tc_snapshotDigest = bi_snapshotDigest b, tc_process = pe_process e,
      tc_reporterSessionId = pe_reporterSessionId e, tc_rootSessionId = root, tc_turnId = turn, tc_state = Cy_open,
      tc_openToolCount = 0, tc_openWaitCount = 0, tc_completionRevision = revision, tc_openedAt = at,
      tc_settledAt = None, tc_closedAt = None\<rparr>"

text \<open>
  A turn starts: in one transaction the other live cycles of the root session are abandoned and the cycle of
  this turn is inserted unless it exists.
\<close>

definition start_turn ::
  "(string \<times> string \<times> string \<times> string \<Rightarrow> string) \<Rightarrow> provider_binding \<Rightarrow> provider_event \<Rightarrow> string \<Rightarrow> string \<Rightarrow> timestamp \<Rightarrow>
   provider_db \<Rightarrow> provider_db result" where
  "start_turn sha b e root turn at d =
     (let cs = abandon at (\<lambda>c. tc_bindingId c = bi_id b \<and> tc_reporterSessionId c = pe_reporterSessionId e \<and>
            tc_rootSessionId c = root \<and> tc_turnId c \<noteq> turn) (pv_cycles d)
      in rbind (current_for_event b e (d\<lparr>pv_cycles := cs\<rparr>)) (\<lambda>existing.
           case existing of
             Some _ \<Rightarrow> Inr (d\<lparr>pv_cycles := cs\<rparr>)
           | None \<Rightarrow>
               let c = new_cycle sha b e root turn at (last_completion (bi_id b) cs)
               in if list_ex (\<lambda>q. tc_id q = tc_id c) cs
                     \<or> \<not> bound (bi_id b) (bi_runId b) (bi_generation b) (bi_snapshotDigest b) d
                     \<or> \<not> process_known (pe_process e) (bi_id b) (bi_snapshotDigest b) d
                  then Inl ConstraintError
                  else Inr (d\<lparr>pv_cycles := cs @ [c]\<rparr>)))"

text \<open>\<open>INSERT OR IGNORE\<close> of an open row, and its deletion: the rows afterwards, \<open>None\<close> where none changed.\<close>

definition insert_open :: "string \<Rightarrow> string \<Rightarrow> timestamp \<Rightarrow> open_row list \<Rightarrow> open_row list option" where
  "insert_open cycle i at rows =
     (if list_ex (\<lambda>r. fst r = cycle \<and> fst (snd r) = i) rows then None else Some (rows @ [(cycle, i, at)]))"

definition delete_open :: "string \<Rightarrow> string \<Rightarrow> open_row list \<Rightarrow> open_row list option" where
  "delete_open cycle i rows =
     (if list_ex (\<lambda>r. fst r = cycle \<and> fst (snd r) = i) rows
      then Some (delete_where (\<lambda>r. fst r = cycle \<and> fst (snd r) = i) rows) else None)"

text \<open>What one event does to its cycle: the open tools and waits, their counts, and the next state.\<close>

definition turn_work ::
  "provider_event \<Rightarrow> turn_cycle \<Rightarrow> timestamp \<Rightarrow> provider_db \<Rightarrow> ((nat \<times> nat \<times> cycle_state) \<times> provider_db) result" where
  "turn_work e c at d =
     (if pe_event e = Ev_tool_started
      then (case insert_open (tc_id c) (the (pe_operationId e)) at (pv_tools d) of
              None \<Rightarrow> Inl (PlainError ''Reporter tool identity is already open'')
            | Some rows \<Rightarrow> Inr ((tc_openToolCount c + 1, tc_openWaitCount c, tc_state c), d\<lparr>pv_tools := rows\<rparr>))
      else if pe_event e = Ev_tool_finished \<or> pe_event e = Ev_tool_failed
      then (case delete_open (tc_id c) (the (pe_operationId e)) (pv_tools d) of
              None \<Rightarrow> Inl (PlainError ''Reporter tool closure does not match open work'')
            | Some rows \<Rightarrow> Inr ((tc_openToolCount c - 1, tc_openWaitCount c, tc_state c), d\<lparr>pv_tools := rows\<rparr>))
      else if pe_event e = Ev_wait_opened
      then (case insert_open (tc_id c) (the (pe_requestId e)) at (pv_waits d) of
              None \<Rightarrow> Inl (PlainError ''Reporter wait identity is already open'')
            | Some rows \<Rightarrow> Inr ((tc_openToolCount c, tc_openWaitCount c + 1, Cy_waiting), d\<lparr>pv_waits := rows\<rparr>))
      else if pe_event e = Ev_wait_closed
      then (case delete_open (tc_id c) (the (pe_requestId e)) (pv_waits d) of
              None \<Rightarrow> Inl (PlainError ''Reporter wait closure does not match an open wait'')
            | Some rows \<Rightarrow>
                let n = tc_openWaitCount c - 1
                in Inr ((tc_openToolCount c, n, if tc_state c = Cy_waiting \<and> n = 0 then Cy_open else tc_state c),
                     d\<lparr>pv_waits := rows\<rparr>))
      else if pe_event e = Ev_turn_waiting then Inr ((tc_openToolCount c, tc_openWaitCount c, Cy_waiting), d)
      else if pe_event e = Ev_turn_settled then Inr ((tc_openToolCount c, tc_openWaitCount c, Cy_settling), d)
      else Inr ((tc_openToolCount c, tc_openWaitCount c, tc_state c), d))"

definition moved_cycle ::
  "provider_event \<Rightarrow> timestamp \<Rightarrow> nat \<times> nat \<times> cycle_state \<Rightarrow> turn_cycle \<Rightarrow> turn_cycle" where
  "moved_cycle e at w c =
     (case w of (tools, waits, state) \<Rightarrow>
        let closes = (state = Cy_settling \<and> tools = 0 \<and> waits = 0)
        in c\<lparr>tc_state := if closes then Cy_closed else state, tc_openToolCount := tools, tc_openWaitCount := waits,
             tc_completionRevision := tc_completionRevision c + (if closes then 1 else 0),
             tc_settledAt := if pe_event e = Ev_turn_settled then Some at else tc_settledAt c,
             tc_closedAt := if closes then Some at else None\<rparr>)"

definition apply_to_cycle ::
  "provider_event \<Rightarrow> turn_cycle \<Rightarrow> timestamp \<Rightarrow> provider_db \<Rightarrow> provider_db result" where
  "apply_to_cycle e c at d =
     rbind (turn_work e c at d) (\<lambda>(w, d').
       Inr (d'\<lparr>pv_cycles := update_where (\<lambda>q. tc_id q = tc_id c \<and> live q) (moved_cycle e at w) (pv_cycles d')\<rparr>))"

definition apply_turn_event ::
  "(string \<times> string \<times> string \<times> string \<Rightarrow> string) \<Rightarrow> provider_binding \<Rightarrow> provider_event \<times> bool \<Rightarrow> timestamp \<Rightarrow>
   provider_db \<Rightarrow> provider_db \<times> turn_cycle option result" where
  "apply_turn_event sha b admission now d =
     (case admission of (e, duplicate) \<Rightarrow>
      let at = (case pe_occurredAt e of None \<Rightarrow> now | Some t \<Rightarrow> t) in
      if duplicate then (d, current_for_event b e d)
      else if pe_event e = Ev_session_ended
      then (d\<lparr>pv_cycles := abandon at (\<lambda>c. tc_bindingId c = bi_id b \<and> tc_reporterSessionId c = pe_reporterSessionId e)
              (pv_cycles d)\<rparr>, Inr None)
      else if \<not> turn_event (pe_event e) then (d, Inr None)
      else case (pe_rootSessionId e, pe_turnId e) of
        (Some root, Some turn) \<Rightarrow>
          if pe_event e = Ev_turn_started
          then (case start_turn sha b e root turn at d of
                  Inl err \<Rightarrow> (d, Inl err)
                | Inr d' \<Rightarrow> (d', current_for_event b e d'))
          else (case current_for_event b e d of
                  Inl err \<Rightarrow> (d, Inl err)
                | Inr found \<Rightarrow>
                    (case found of
                       None \<Rightarrow> (d, Inl (PlainError ''Reporter event has no open root turn cycle''))
                     | Some c \<Rightarrow>
                         if \<not> live c then (d, Inl (PlainError ''Reporter event has no open root turn cycle''))
                         else case apply_to_cycle e c at d of
                           Inl err \<Rightarrow> (d, Inl err)
                         | Inr d' \<Rightarrow> (d', get_cycle (tc_id c) d')))
      | _ \<Rightarrow> (d, Inl (PlainError ''Reporter turn-cycle event requires root session and turn identity'')))"

end
