(* ===== verification/Provider_Machine.thy ===== *)
theory Provider_Machine
  imports Provider_Store
begin

text \<open>
  What the repositories of the pipeline keep, whatever events and observations arrive: the invariant of their
  tables, one lemma per operation, and the machine of all of them.
\<close>

subsection \<open>The invariant\<close>

definition work_of :: "string \<Rightarrow> open_row list \<Rightarrow> nat" where
  "work_of i rows = length (filter (\<lambda>r. fst r = i) rows)"

definition rows_ok :: "turn_cycle list \<Rightarrow> open_row list \<Rightarrow> bool" where
  "rows_ok cs rows \<longleftrightarrow> distinct (map (\<lambda>r. (fst r, fst (snd r))) rows) \<and> fst ` set rows \<subseteq> tc_id ` set cs"

definition lineage :: "turn_cycle \<Rightarrow> string \<times> string \<times> string" where
  "lineage c = (tc_bindingId c, tc_reporterSessionId c, tc_rootSessionId c)"

text \<open>
  Of two cycles of one root session the earlier is over, and if it was completed the later one counts on from
  it.
\<close>

definition successive :: "turn_cycle \<Rightarrow> turn_cycle \<Rightarrow> bool" where
  "successive c c' \<longleftrightarrow> (lineage c = lineage c' \<longrightarrow> \<not> live c \<and>
     (tc_state c = Cy_closed \<longrightarrow>
        tc_completionRevision c < tc_completionRevision c' + (if tc_state c' = Cy_closed then 0 else 1)))"

definition times_ok :: "turn_cycle \<Rightarrow> bool" where
  "times_ok c \<longleftrightarrow>
     (tc_state c = Cy_closed \<longrightarrow>
        tc_openToolCount c = 0 \<and> tc_openWaitCount c = 0 \<and> tc_settledAt c \<noteq> None \<and> tc_closedAt c \<noteq> None) \<and>
     (tc_state c = Cy_settling \<longrightarrow> tc_settledAt c \<noteq> None) \<and> (live c \<longrightarrow> tc_closedAt c = None)"

definition cycles_ok :: "provider_db \<Rightarrow> bool" where
  "cycles_ok d \<longleftrightarrow>
     distinct (map tc_id (pv_cycles d)) \<and> sorted_wrt successive (pv_cycles d) \<and>
     rows_ok (pv_cycles d) (pv_tools d) \<and> rows_ok (pv_cycles d) (pv_waits d) \<and>
     (\<forall>c\<in>set (pv_cycles d). times_ok c \<and> tc_openToolCount c = work_of (tc_id c) (pv_tools d) \<and>
        tc_openWaitCount c = work_of (tc_id c) (pv_waits d))"

lemma live_simps [simp]:
  "tc_state c = Cy_closed \<Longrightarrow> \<not> live c" "tc_state c = Cy_abandoned \<Longrightarrow> \<not> live c"
  by (simp_all add: live_def)

subsection \<open>Open work\<close>

lemma work_of_simps [simp]:
  "work_of i (rows @ [(j, k, t)]) = work_of i rows + (if i = j then 1 else 0)" "work_of i [] = 0"
  by (simp_all add: work_of_def)

lemma insert_open_Some:
  assumes "insert_open c i at rows = Some rows'" "rows_ok cs rows" "c \<in> tc_id ` set cs"
  shows "rows_ok cs rows'" "rows' = rows @ [(c, i, at)]"
proof -
  have none: "\<not> list_ex (\<lambda>r. fst r = c \<and> fst (snd r) = i) rows" and rows': "rows' = rows @ [(c, i, at)]"
    using assms(1) by (simp_all add: insert_open_def split: if_splits)
  from none have "(c, i) \<notin> set (map (\<lambda>r. (fst r, fst (snd r))) rows)" by (auto simp: list_ex_iff)
  then show "rows_ok cs rows'" using assms(2,3) rows' by (simp add: rows_ok_def)
  show "rows' = rows @ [(c, i, at)]" by (rule rows')
qed

lemma work_of_delete_other: "j \<noteq> c \<Longrightarrow> work_of j (delete_where (\<lambda>r. fst r = c \<and> fst (snd r) = i) rows) = work_of j rows"
  by (induction rows) (auto simp: work_of_def delete_where_def)

lemma work_of_delete:
  "distinct (map (\<lambda>r. (fst r, fst (snd r))) rows) \<Longrightarrow> list_ex (\<lambda>r. fst r = c \<and> fst (snd r) = i) rows \<Longrightarrow>
   work_of c rows = Suc (work_of c (delete_where (\<lambda>r. fst r = c \<and> fst (snd r) = i) rows))"
proof (induction rows)
  case (Cons r rows)
  show ?case
  proof (cases "fst r = c \<and> fst (snd r) = i")
    case True
    then have "filter (\<lambda>r. \<not> (fst r = c \<and> fst (snd r) = i)) rows = rows"
      using Cons.prems(1) unfolding filter_id_conv by (auto simp: image_iff)
    then show ?thesis using True by (simp add: work_of_def delete_where_def)
  next
    case False
    then show ?thesis using Cons by (auto simp: work_of_def delete_where_def)
  qed
qed simp

lemma delete_open_Some:
  assumes "delete_open c i rows = Some rows'" "rows_ok cs rows"
  shows "rows_ok cs rows'" "work_of c rows = Suc (work_of c rows')" "\<And>j. j \<noteq> c \<Longrightarrow> work_of j rows' = work_of j rows"
proof -
  have ex: "list_ex (\<lambda>r. fst r = c \<and> fst (snd r) = i) rows"
    and rows': "rows' = delete_where (\<lambda>r. fst r = c \<and> fst (snd r) = i) rows"
    using assms(1) by (simp_all add: delete_open_def split: if_splits)
  show "rows_ok cs rows'" using assms(2) unfolding rows' rows_ok_def delete_where_def
    by (auto intro: distinct_map_filter)
  show "work_of c rows = Suc (work_of c rows')"
    unfolding rows' by (rule work_of_delete [OF _ ex]) (use assms(2) in \<open>simp add: rows_ok_def\<close>)
  show "\<And>j. j \<noteq> c \<Longrightarrow> work_of j rows' = work_of j rows" unfolding rows' by (rule work_of_delete_other)
qed

lemma turn_work_cases:
  assumes "turn_work e c at d = Inr (w, d')"
  obtains (tool_opened) rows where "insert_open (tc_id c) (the (pe_operationId e)) at (pv_tools d) = Some rows"
      "w = (tc_openToolCount c + 1, tc_openWaitCount c, tc_state c)" "d' = d\<lparr>pv_tools := rows\<rparr>"
  | (tool_closed) rows where "delete_open (tc_id c) (the (pe_operationId e)) (pv_tools d) = Some rows"
      "w = (tc_openToolCount c - 1, tc_openWaitCount c, tc_state c)" "d' = d\<lparr>pv_tools := rows\<rparr>"
  | (wait_opened) rows where "insert_open (tc_id c) (the (pe_requestId e)) at (pv_waits d) = Some rows"
      "w = (tc_openToolCount c, tc_openWaitCount c + 1, Cy_waiting)" "d' = d\<lparr>pv_waits := rows\<rparr>"
  | (wait_closed) rows st where "delete_open (tc_id c) (the (pe_requestId e)) (pv_waits d) = Some rows"
      "w = (tc_openToolCount c, tc_openWaitCount c - 1, st)" "st = tc_state c \<or> st = Cy_open" "d' = d\<lparr>pv_waits := rows\<rparr>"
  | (turned) st where "w = (tc_openToolCount c, tc_openWaitCount c, st)" "d' = d"
      "st = tc_state c \<or> st = Cy_waiting \<or> (st = Cy_settling \<and> pe_event e = Ev_turn_settled)"
proof -
  consider (a) "pe_event e = Ev_tool_started" | (b) "pe_event e \<in> {Ev_tool_finished, Ev_tool_failed}"
    | (c) "pe_event e = Ev_wait_opened" | (d) "pe_event e = Ev_wait_closed"
    | (f) "pe_event e \<notin> {Ev_tool_started, Ev_tool_finished, Ev_tool_failed, Ev_wait_opened, Ev_wait_closed}" by blast
  then show ?thesis
  proof cases
    case a
    then obtain rows where "insert_open (tc_id c) (the (pe_operationId e)) at (pv_tools d) = Some rows"
      "w = (tc_openToolCount c + 1, tc_openWaitCount c, tc_state c)" "d' = d\<lparr>pv_tools := rows\<rparr>"
      using assms by (auto simp: turn_work_def split: option.splits)
    then show ?thesis by (rule tool_opened)
  next
    case b
    then obtain rows where "delete_open (tc_id c) (the (pe_operationId e)) (pv_tools d) = Some rows"
      "w = (tc_openToolCount c - 1, tc_openWaitCount c, tc_state c)" "d' = d\<lparr>pv_tools := rows\<rparr>"
      using assms by (auto simp: turn_work_def split: option.splits)
    then show ?thesis by (rule tool_closed)
  next
    case c
    then obtain rows where "insert_open (tc_id c) (the (pe_requestId e)) at (pv_waits d) = Some rows"
      "w = (tc_openToolCount c, tc_openWaitCount c + 1, Cy_waiting)" "d' = d\<lparr>pv_waits := rows\<rparr>"
      using assms by (auto simp: turn_work_def split: option.splits)
    then show ?thesis by (rule wait_opened)
  next
    case d
    let ?n = "tc_openWaitCount c - 1"
    from d obtain rows where rows: "delete_open (tc_id c) (the (pe_requestId e)) (pv_waits d) = Some rows"
      "w = (tc_openToolCount c, ?n, if tc_state c = Cy_waiting \<and> ?n = 0 then Cy_open else tc_state c)" "d' = d\<lparr>pv_waits := rows\<rparr>"
      using assms by (auto simp: turn_work_def Let_def split del: if_split split: option.splits)
    show ?thesis by (rule wait_closed [OF rows(1,2) _ rows(3)]) simp
  next
    case f
    then have "w = (tc_openToolCount c, tc_openWaitCount c, if pe_event e = Ev_turn_waiting then Cy_waiting
        else if pe_event e = Ev_turn_settled then Cy_settling else tc_state c)" "d' = d"
      using assms by (auto simp: turn_work_def split: if_splits)
    then show ?thesis by (rule turned) simp
  qed
qed

text \<open>What one event does to the open work of its cycle keeps the counts, and the state stays a live one.\<close>

definition counted :: "turn_cycle \<Rightarrow> nat \<times> nat \<times> cycle_state \<Rightarrow> provider_db \<Rightarrow> provider_db \<Rightarrow> bool" where
  "counted c w d d' \<longleftrightarrow>
     pv_cycles d' = pv_cycles d \<and> rows_ok (pv_cycles d) (pv_tools d') \<and> rows_ok (pv_cycles d) (pv_waits d') \<and>
     fst w = work_of (tc_id c) (pv_tools d') \<and> fst (snd w) = work_of (tc_id c) (pv_waits d') \<and>
     (\<forall>j. j \<noteq> tc_id c \<longrightarrow> work_of j (pv_tools d') = work_of j (pv_tools d) \<and> work_of j (pv_waits d') = work_of j (pv_waits d))"

lemma turn_work_counted:
  assumes run: "turn_work e c at d = Inr (w, d')" and ok: "cycles_ok d" and c: "c \<in> set (pv_cycles d)"
  shows "counted c w d d'"
proof -
  have k: "tc_id c \<in> tc_id ` set (pv_cycles d)" using c by blast
  have ro: "rows_ok (pv_cycles d) (pv_tools d)" "rows_ok (pv_cycles d) (pv_waits d)"
    and n: "tc_openToolCount c = work_of (tc_id c) (pv_tools d)" "tc_openWaitCount c = work_of (tc_id c) (pv_waits d)"
    using ok c by (simp_all add: cycles_ok_def)
  from run show ?thesis
  proof (cases rule: turn_work_cases)
    case (tool_opened rows)
    then show ?thesis using insert_open_Some [OF tool_opened(1) ro(1) k] ro(2) n by (simp add: counted_def)
  next
    case (tool_closed rows)
    then show ?thesis using delete_open_Some [OF tool_closed(1) ro(1)] ro(2) n by (simp add: counted_def)
  next
    case (wait_opened rows)
    then show ?thesis using insert_open_Some [OF wait_opened(1) ro(2) k] ro(1) n by (simp add: counted_def)
  next
    case (wait_closed rows)
    then show ?thesis using delete_open_Some [OF wait_closed(1) ro(2)] ro(1) n by (simp add: counted_def)
  next
    case turned
    then show ?thesis using ro n by (simp add: counted_def)
  qed
qed

lemma turn_work_state:
  assumes "turn_work e c at d = Inr ((tools, waits, st), d')" "live c"
  shows "st \<in> {Cy_open, Cy_waiting, Cy_settling}"
    "st = Cy_settling \<Longrightarrow> pe_event e = Ev_turn_settled \<or> tc_state c = Cy_settling"
  using assms(1) by (cases rule: turn_work_cases; use assms(2) in \<open>auto simp: live_def\<close>)+

subsection \<open>Turns\<close>

lemma sorted_wrt_update_where:
  assumes "sorted_wrt R rs"
    and "\<And>x y. x \<in> set rs \<Longrightarrow> y \<in> set rs \<Longrightarrow> R x y \<Longrightarrow> R (if p x then f x else x) (if p y then f y else y)"
  shows "sorted_wrt R (update_where p f rs)"
  unfolding update_where_def sorted_wrt_map by (rule sorted_wrt_mono_rel [OF _ assms(1)]) (rule assms(2))

definition abandoned :: "timestamp \<Rightarrow> turn_cycle \<Rightarrow> turn_cycle" where
  "abandoned at c = c\<lparr>tc_state := Cy_abandoned, tc_closedAt := Some at\<rparr>"

lemma abandoned_simps [simp]:
  "tc_id (abandoned at c) = tc_id c" "lineage (abandoned at c) = lineage c" "tc_state (abandoned at c) = Cy_abandoned"
  "tc_openToolCount (abandoned at c) = tc_openToolCount c" "tc_openWaitCount (abandoned at c) = tc_openWaitCount c"
  "tc_completionRevision (abandoned at c) = tc_completionRevision c" "times_ok (abandoned at c)"
  by (simp_all add: abandoned_def lineage_def times_ok_def live_def)

lemma abandon_alt: "abandon at p cs = update_where (\<lambda>c. p c \<and> live c) (abandoned at) cs"
  by (simp add: abandon_def abandoned_def [abs_def])

lemma abandon_keeps:
  assumes "cycles_ok d"
  shows "cycles_ok (d\<lparr>pv_cycles := abandon at p (pv_cycles d)\<rparr>)"
proof -
  define cs where "cs = abandon at p (pv_cycles d)"
  have ids: "map tc_id cs = map tc_id (pv_cycles d)" unfolding cs_def abandon_alt by (rule map_update_where) simp
  then have idset: "tc_id ` set cs = tc_id ` set (pv_cycles d)" by (metis set_map)
  have sorted: "sorted_wrt successive cs"
    unfolding cs_def abandon_alt
  proof (rule sorted_wrt_update_where)
    show "sorted_wrt successive (pv_cycles d)" using assms by (simp add: cycles_ok_def)
    fix x y assume "successive x y"
    then show "successive (if p x \<and> live x then abandoned at x else x) (if p y \<and> live y then abandoned at y else y)"
      by (auto simp: successive_def live_def)
  qed
  have "times_ok c \<and> tc_openToolCount c = work_of (tc_id c) (pv_tools d) \<and> tc_openWaitCount c = work_of (tc_id c) (pv_waits d)"
    if "c \<in> set cs" for c
    using assms that unfolding cs_def abandon_alt set_update_where cycles_ok_def by auto
  moreover have "distinct (map tc_id cs)" "rows_ok cs (pv_tools d)" "rows_ok cs (pv_waits d)"
    using assms by (simp_all add: ids idset cycles_ok_def rows_ok_def)
  ultimately have "cycles_ok (d\<lparr>pv_cycles := cs\<rparr>)" using sorted by (simp add: cycles_ok_def)
  then show ?thesis by (simp add: cs_def)
qed

lemma abandon_over: "x \<in> set (abandon at p cs) \<Longrightarrow> p x \<Longrightarrow> \<not> live x"
  unfolding abandon_alt set_update_where by (auto simp: live_def)

lemma last_completion_ge: "c \<in> set cs \<Longrightarrow> tc_bindingId c = i \<Longrightarrow> tc_completionRevision c \<le> last_completion i cs"
  unfolding last_completion_def by (induction cs) auto

lemma current_for_event_None:
  assumes "current_for_event b e d = Inr None" "pe_rootSessionId e = Some root" "pe_turnId e = Some turn" "c \<in> set (pv_cycles d)"
  shows "\<not> (tc_bindingId c = bi_id b \<and> tc_reporterSessionId c = pe_reporterSessionId e \<and> tc_rootSessionId c = root \<and>
     tc_turnId c = turn)"
  using assms by (auto simp: current_for_event_def parsed_cycle_def find_cycle_def find_where_None_iff split: option.splits if_splits)

lemma start_turn_keeps:
  assumes run: "start_turn sha b e root turn at d = Inr d'" and ok: "cycles_ok d"
    and ids: "pe_rootSessionId e = Some root" "pe_turnId e = Some turn"
  shows "cycles_ok d'"
proof -
  let ?p = "\<lambda>c. tc_bindingId c = bi_id b \<and> tc_reporterSessionId c = pe_reporterSessionId e \<and> tc_rootSessionId c = root \<and>
    tc_turnId c \<noteq> turn"
  let ?d = "d\<lparr>pv_cycles := abandon at ?p (pv_cycles d)\<rparr>"
  let ?c = "new_cycle sha b e root turn at (last_completion (bi_id b) (pv_cycles ?d))"
  have ok1: "cycles_ok ?d" by (rule abandon_keeps [OF ok])
  have "d' = ?d \<or> (current_for_event b e ?d = Inr None \<and> tc_id ?c \<notin> tc_id ` set (pv_cycles ?d) \<and>
      d' = ?d\<lparr>pv_cycles := pv_cycles ?d @ [?c]\<rparr>)"
    using run by (auto simp: start_turn_def Let_def rbind_eq_Inr list_ex_iff split: option.splits if_splits)
  then show ?thesis
  proof
    assume new: "current_for_event b e ?d = Inr None \<and> tc_id ?c \<notin> tc_id ` set (pv_cycles ?d) \<and>
      d' = ?d\<lparr>pv_cycles := pv_cycles ?d @ [?c]\<rparr>"
    have none: "work_of (tc_id ?c) rows = 0" if "rows_ok (pv_cycles ?d) rows" for rows
      using that new unfolding rows_ok_def work_of_def by (auto simp: filter_empty_conv)
    have "successive x ?c" if x: "x \<in> set (pv_cycles ?d)" for x
    proof -
      have "\<not> live x" if "lineage x = lineage ?c"
      proof -
        have same: "tc_bindingId x = bi_id b" "tc_reporterSessionId x = pe_reporterSessionId e" "tc_rootSessionId x = root"
          using that by (simp_all add: lineage_def new_cycle_def)
        then have "tc_turnId x \<noteq> turn" using current_for_event_None [OF _ ids x] new by blast
        then show ?thesis using abandon_over [of x at ?p] x same by simp
      qed
      then show ?thesis using last_completion_ge [OF x]
        by (auto simp: successive_def lineage_def new_cycle_def less_Suc_eq_le)
    qed
    moreover have "times_ok ?c" "tc_openToolCount ?c = 0" "tc_openWaitCount ?c = 0"
      by (simp_all add: times_ok_def new_cycle_def)
    ultimately show ?thesis using ok1 new none
      by (auto simp: cycles_ok_def sorted_wrt_append rows_ok_def simp del: work_of_simps)
  qed (use ok1 in simp)
qed

lemma moved_times:
  assumes "times_ok c" "live c" "st \<in> {Cy_open, Cy_waiting, Cy_settling}"
    "st = Cy_settling \<Longrightarrow> pe_event e = Ev_turn_settled \<or> tc_state c = Cy_settling"
  shows "times_ok (moved_cycle e at (tools, waits, st) c)"
  using assms by (auto simp: times_ok_def moved_cycle_def Let_def live_def)

lemma moved_simps [simp]:
  "tc_id (moved_cycle e at w c) = tc_id c" "lineage (moved_cycle e at w c) = lineage c"
  "tc_openToolCount (moved_cycle e at w c) = fst w" "tc_openWaitCount (moved_cycle e at w c) = fst (snd w)"
  by (simp_all add: moved_cycle_def lineage_def Let_def split: prod.split)

lemma moved_successive:
  assumes "successive x y" "st \<in> {Cy_open, Cy_waiting, Cy_settling}" "live y"
  shows "successive x (moved_cycle e at (tools, waits, st) y)"
  using assms by (auto simp: successive_def moved_cycle_def Let_def lineage_def live_def)

lemma live_successive: "successive x y \<Longrightarrow> live x \<Longrightarrow> lineage x \<noteq> lineage y"
  by (auto simp: successive_def)

lemma apply_to_cycle_keeps:
  assumes run: "apply_to_cycle e c at d = Inr d'" and ok: "cycles_ok d" and c: "c \<in> set (pv_cycles d)" "live c"
  shows "cycles_ok d'"
proof -
  obtain tools waits st d1 where w: "turn_work e c at d = Inr ((tools, waits, st), d1)"
    and d': "d' = d1\<lparr>pv_cycles := update_where (\<lambda>q. tc_id q = tc_id c \<and> live q) (moved_cycle e at (tools, waits, st)) (pv_cycles d1)\<rparr>"
    using run by (auto simp: apply_to_cycle_def rbind_eq_Inr)
  have cnt: "counted c (tools, waits, st) d d1" by (rule turn_work_counted [OF w ok c(1)])
  note st = turn_work_state [OF w c(2)]
  define f where "f = moved_cycle e at (tools, waits, st)"
  define p where "p q \<longleftrightarrow> tc_id q = tc_id c \<and> live q" for q
  define cs where "cs = update_where p f (pv_cycles d)"
  have only: "q = c" if "q \<in> set (pv_cycles d)" "tc_id q = tc_id c" for q
    using ok c(1) that by (auto simp: cycles_ok_def distinct_map dest: inj_onD)
  have pc: "p q \<longleftrightarrow> q = c" if "q \<in> set (pv_cycles d)" for q
    using that only c by (auto simp: p_def)
  have ids: "map tc_id cs = map tc_id (pv_cycles d)" unfolding cs_def by (rule map_update_where) (simp add: f_def)
  then have idset: "tc_id ` set cs = tc_id ` set (pv_cycles d)" by (metis set_map)
  have sorted: "sorted_wrt successive cs" unfolding cs_def
  proof (rule sorted_wrt_update_where)
    show "sorted_wrt successive (pv_cycles d)" using ok by (simp add: cycles_ok_def)
    fix x y assume xy: "x \<in> set (pv_cycles d)" "y \<in> set (pv_cycles d)" "successive x y"
    have "successive (f x) z" if "p x" "lineage z = lineage y" for z
      using live_successive [OF xy(3)] that by (auto simp: p_def f_def successive_def)
    moreover have "successive x (f y)" if "p y"
      unfolding f_def using that by (intro moved_successive [OF xy(3) st(1)]) (simp add: p_def)
    ultimately show "successive (if p x then f x else x) (if p y then f y else y)"
      using xy(3) by (auto simp: f_def)
  qed
  have q: "times_ok q \<and> tc_openToolCount q = work_of (tc_id q) (pv_tools d1) \<and> tc_openWaitCount q = work_of (tc_id q) (pv_waits d1)"
    if "q \<in> set cs" for q
  proof (cases "q = f c")
    case True
    have "times_ok c" using ok c(1) by (simp add: cycles_ok_def)
    then have "times_ok (f c)" unfolding f_def by (rule moved_times [OF _ c(2) st])
    then show ?thesis using True cnt by (simp add: f_def counted_def)
  next
    case False
    then have q: "q \<in> set (pv_cycles d)" "q \<noteq> c" using that pc unfolding cs_def set_update_where by auto
    then have "tc_id q \<noteq> tc_id c" using only by blast
    then show ?thesis using ok cnt q by (simp add: cycles_ok_def counted_def)
  qed
  have cs: "pv_cycles d' = cs" "pv_tools d' = pv_tools d1" "pv_waits d' = pv_waits d1"
    using cnt by (simp_all add: d' cs_def p_def [abs_def] f_def counted_def)
  have "distinct (map tc_id cs)" using ok by (simp add: ids cycles_ok_def)
  moreover have "rows_ok cs (pv_tools d1)" "rows_ok cs (pv_waits d1)"
    using cnt by (simp_all add: counted_def rows_ok_def idset)
  ultimately show ?thesis unfolding cycles_ok_def cs using sorted q by blast
qed

lemma parsed_cycle_Some: "parsed_cycle r = Inr (Some c) \<Longrightarrow> r = Some c"
  by (auto simp: parsed_cycle_def split: option.splits if_splits)

lemma current_for_event_Some: "current_for_event b e d = Inr (Some c) \<Longrightarrow> c \<in> set (pv_cycles d)"
  by (auto simp: current_for_event_def find_cycle_def split: option.splits dest!: parsed_cycle_Some find_where_SomeD)

lemma apply_turn_event_keeps:
  assumes "cycles_ok d"
  shows "cycles_ok (fst (apply_turn_event sha b admission now d))"
  using assms
  by (auto simp: apply_turn_event_def Let_def split: prod.splits option.splits sum.splits
      intro: abandon_keeps start_turn_keeps apply_to_cycle_keeps dest: current_for_event_Some)

subsection \<open>The other tables\<close>

definition stream_of :: "event_receipt \<Rightarrow> string \<times> string \<times> string" where
  "stream_of r = (er_bindingId r, er_reporterSessionId r, er_reporterEpoch r)"

definition receipts_ok :: "provider_db \<Rightarrow> bool" where
  "receipts_ok d \<longleftrightarrow>
     distinct (map er_eventId (pv_receipts d)) \<and>
     sorted_wrt (\<lambda>r r'. stream_of r = stream_of r' \<longrightarrow> er_sourceSequence r < er_sourceSequence r') (pv_receipts d)"

definition processes_ok :: "provider_db \<Rightarrow> bool" where
  "processes_ok d \<longleftrightarrow>
     distinct (map ic_digest (pv_processes d)) \<and>
     (\<forall>p\<in>set (pv_processes d). \<forall>q\<in>set (pv_processes d).
        ic_endedAt p = None \<and> ic_endedAt q = None \<and> ic_bindingId p = ic_bindingId q \<and> ic_paneId p = ic_paneId q \<longrightarrow> p = q)"

definition claims_ok :: "provider_db \<Rightarrow> bool" where
  "claims_ok d \<longleftrightarrow>
     distinct (map cl_id (pv_claims d)) \<and> distinct (map claim_key (pv_claims d)) \<and> list_all claim_ok (pv_claims d)"

definition pipeline_ok :: "provider_db \<Rightarrow> bool" where
  "pipeline_ok d \<longleftrightarrow> cycles_ok d \<and> receipts_ok d \<and> processes_ok d \<and> claims_ok d"

lemma distinct_key: "distinct (map f xs) \<Longrightarrow> x \<in> set xs \<Longrightarrow> y \<in> set xs \<Longrightarrow> f x = f y \<Longrightarrow> x = y"
  by (metis distinct_map inj_onD)

text \<open>Receipts are only added, a process that ended stays as it is, and a claim never goes back.\<close>

definition pipeline_moves :: "provider_db \<Rightarrow> provider_db \<Rightarrow> bool" where
  "pipeline_moves d d' \<longleftrightarrow>
     pipeline_ok d' \<and> (\<exists>rs. pv_receipts d' = pv_receipts d @ rs) \<and>
     (\<forall>r\<in>set (pv_claims d). \<exists>r'\<in>set (pv_claims d'). claim_key r' = claim_key r \<and> cl_sourceSequence r \<le> cl_sourceSequence r') \<and>
     (\<forall>p\<in>set (pv_processes d). ic_endedAt p \<noteq> None \<longrightarrow> p \<in> set (pv_processes d'))"

lemma pipeline_moves_refl: "pipeline_ok d \<Longrightarrow> pipeline_moves d d"
  by (auto simp: pipeline_moves_def)

lemma pipeline_moves_trans:
  assumes "pipeline_moves d d1" "pipeline_moves d1 d2"
  shows "pipeline_moves d d2"
proof -
  have "\<exists>r'\<in>set (pv_claims d2). claim_key r' = claim_key r \<and> cl_sourceSequence r \<le> cl_sourceSequence r'"
    if r: "r \<in> set (pv_claims d)" for r
  proof -
    obtain r1 where "r1 \<in> set (pv_claims d1)" "claim_key r1 = claim_key r" "cl_sourceSequence r \<le> cl_sourceSequence r1"
      using assms(1) r unfolding pipeline_moves_def by blast
    moreover then obtain r2 where "r2 \<in> set (pv_claims d2)" "claim_key r2 = claim_key r1" "cl_sourceSequence r1 \<le> cl_sourceSequence r2"
      using assms(2) unfolding pipeline_moves_def by blast
    ultimately show ?thesis by (metis le_trans)
  qed
  moreover have "\<exists>rs. pv_receipts d2 = pv_receipts d @ rs"
    using assms unfolding pipeline_moves_def by force
  ultimately show ?thesis using assms unfolding pipeline_moves_def by blast
qed

text \<open>The rows after the active process of the pane, if any, was ended.\<close>

definition ended_rows :: "incarnation option \<Rightarrow> timestamp \<Rightarrow> incarnation list \<Rightarrow> incarnation list" where
  "ended_rows current at rows = (case current of None \<Rightarrow> rows
     | Some c \<Rightarrow> update_where (\<lambda>q. ic_digest q = ic_digest c \<and> ic_endedAt q = None) (\<lambda>q. q\<lparr>ic_endedAt := Some at\<rparr>) rows)"

lemma ended_rows_mem:
  "q \<in> set (ended_rows current at rows) \<Longrightarrow> ic_endedAt q = None \<Longrightarrow>
     q \<in> set rows \<and> (\<forall>c. current = Some c \<longrightarrow> ic_digest q \<noteq> ic_digest c)"
  "p \<in> set rows \<Longrightarrow> ic_endedAt p \<noteq> None \<Longrightarrow> p \<in> set (ended_rows current at rows)"
  "map ic_digest (ended_rows current at rows) = map ic_digest rows"
  by (auto simp: ended_rows_def set_update_where map_update_where split: option.splits)

lemma record_incarnation_cases:
  assumes "record_incarnation sha b paneId obs at d = Inr (p, d')"
  obtains (known) "d' = d"
  | (new) current ps where "active_process (bi_id b) paneId d = Inr current" "ps = ended_rows current at (pv_processes d)"
      "ic_digest (new_incarnation sha b paneId obs at) \<notin> ic_digest ` set ps"
      "d' = d\<lparr>pv_processes := ps @ [new_incarnation sha b paneId obs at]\<rparr>"
proof -
  obtain current where cur: "active_process (bi_id b) paneId d = Inr current"
    using assms by (auto simp: record_incarnation_def Let_def rbind_eq_Inr split: if_splits)
  show ?thesis
  proof (cases "map_option ic_digest current = Some (ic_digest (new_incarnation sha b paneId obs at))")
    case True
    then show ?thesis using assms cur known by (simp add: record_incarnation_def Let_def split: if_splits)
  next
    case False
    then have "ic_digest (new_incarnation sha b paneId obs at) \<notin> ic_digest ` set (ended_rows current at (pv_processes d))"
      "d' = d\<lparr>pv_processes := ended_rows current at (pv_processes d) @ [new_incarnation sha b paneId obs at]\<rparr>"
      using assms cur by (auto simp: record_incarnation_def Let_def list_ex_iff ended_rows_def split: if_splits)
    then show ?thesis by (rule new [OF cur refl])
  qed
qed

lemma active_process_Inr:
  "active_process bindingId paneId d = Inr None \<Longrightarrow> q \<in> set (pv_processes d) \<Longrightarrow>
     ic_bindingId q = bindingId \<Longrightarrow> ic_paneId q = paneId \<Longrightarrow> ic_endedAt q \<noteq> None"
  "active_process bindingId paneId d = Inr (Some c) \<Longrightarrow>
     c \<in> set (pv_processes d) \<and> ic_bindingId c = bindingId \<and> ic_paneId c = paneId \<and> ic_endedAt c = None"
  by (auto simp: active_process_def find_where_None_iff split: option.splits if_splits dest!: find_where_SomeD)

lemma record_incarnation_moves:
  assumes run: "record_incarnation sha b paneId obs at d = Inr (p, d')" and ok: "pipeline_ok d"
  shows "pipeline_moves d d'"
  using run
proof (cases rule: record_incarnation_cases)
  case known
  then show ?thesis using ok by (simp add: pipeline_moves_refl)
next
  case (new current ps)
  have pr: "distinct (map ic_digest (pv_processes d))" "\<And>p q. p \<in> set (pv_processes d) \<Longrightarrow> q \<in> set (pv_processes d) \<Longrightarrow>
      ic_endedAt p = None \<Longrightarrow> ic_endedAt q = None \<Longrightarrow> ic_bindingId p = ic_bindingId q \<Longrightarrow> ic_paneId p = ic_paneId q \<Longrightarrow> p = q"
    using ok by (auto simp: pipeline_ok_def processes_ok_def)
  have none: "ic_bindingId q \<noteq> bi_id b \<or> ic_paneId q \<noteq> paneId" if q: "q \<in> set ps" "ic_endedAt q = None" for q
  proof (cases current)
    case None
    then show ?thesis using ended_rows_mem(1) q new(1,2) active_process_Inr(1) by blast
  next
    case (Some c)
    note c = active_process_Inr(2) [OF new(1) [unfolded Some]]
    show ?thesis using ended_rows_mem(1) [OF q(1) [unfolded new(2)] q(2)] c pr(2) [of q c] q(2) Some by auto
  qed
  have unique: "p = q" if "p \<in> set ps" "q \<in> set ps" "ic_endedAt p = None" "ic_endedAt q = None"
    "ic_bindingId p = ic_bindingId q" "ic_paneId p = ic_paneId q" for p q
    using that pr(2) ended_rows_mem(1) unfolding new(2) by blast
  define r where "r = new_incarnation sha b paneId obs at"
  have r: "ic_bindingId r = bi_id b" "ic_paneId r = paneId" "ic_digest r \<notin> ic_digest ` set ps"
    using new(3) by (simp_all add: r_def new_incarnation_def)
  have "distinct (map ic_digest ps)" using pr(1) by (simp add: new(2) ended_rows_mem(3))
  then have "processes_ok (d\<lparr>pv_processes := ps @ [r]\<rparr>)"
    using unique none r unfolding processes_ok_def by fastforce
  then show ?thesis using ok ended_rows_mem(2) [of _ "pv_processes d" current at] unfolding new(4) r_def [symmetric]
    by (auto simp: pipeline_moves_def pipeline_ok_def cycles_ok_def receipts_ok_def claims_ok_def new(2))
qed

lemma admit_cases:
  assumes "admit sha b snapshot e at d = Inr ((e', dup), d')"
  shows "receive sha b at e d = Inr ((e', dup), d')"
  using assms by (auto simp: admit_def split: if_splits option.splits)

lemma receive_cases:
  assumes "receive sha b at e d = Inr ((e', dup), d')"
  obtains (duplicate) r where "e' = e" "dup" "d' = d" "r \<in> set (pv_receipts d)" "er_eventId r = pe_eventId e" "er_payloadDigest r = sha e"
  | (new) "e' = e" "\<not> dup" "d' = d\<lparr>pv_receipts := pv_receipts d @ [new_receipt sha b at e]\<rparr>"
    "pe_eventId e \<notin> er_eventId ` set (pv_receipts d)"
    "\<And>r. r \<in> set (pv_receipts d) \<Longrightarrow> same_stream (bi_id b) e r \<Longrightarrow> er_sourceSequence r < pe_sourceSequence e"
proof (cases "find_where (\<lambda>r. er_eventId r = pe_eventId e) (pv_receipts d)")
  case None
  then have "pe_eventId e \<notin> er_eventId ` set (pv_receipts d)" by (auto simp: find_where_None_iff)
  moreover have "\<not> list_ex (\<lambda>r. same_stream (bi_id b) e r \<and> pe_sourceSequence e \<le> er_sourceSequence r) (pv_receipts d)"
    "e' = e" "\<not> dup" "d' = d\<lparr>pv_receipts := pv_receipts d @ [new_receipt sha b at e]\<rparr>"
    using assms None by (auto simp: receive_def split: if_splits)
  ultimately show ?thesis using new by (simp add: list_ex_iff not_le)
next
  case (Some r)
  then show ?thesis using assms duplicate [of r] by (auto simp: receive_def split: if_splits dest!: find_where_SomeD)
qed

lemma admit_moves:
  assumes run: "admit sha b snapshot e at d = Inr ((e', dup), d')" and ok: "pipeline_ok d"
  shows "pipeline_moves d d'"
  using admit_cases [OF run]
proof (cases rule: receive_cases)
  case duplicate
  then show ?thesis using ok by (simp add: pipeline_moves_refl)
next
  case new
  have "receipts_ok d'"
    using ok new unfolding pipeline_ok_def receipts_ok_def
    by (auto simp: sorted_wrt_append stream_of_def new_receipt_def same_stream_def)
  then show ?thesis using ok new
    by (auto simp: pipeline_moves_def pipeline_ok_def cycles_ok_def processes_ok_def claims_ok_def)
qed

lemma rewritten_key: "claim_key r = claim_key c \<Longrightarrow> claim_key (rewritten_claim c r) = claim_key r"
  by (simp add: claim_key_def rewritten_claim_def)

lemma rewritten_ok: "claim_ok c \<Longrightarrow> claim_ok r \<Longrightarrow> claim_ok (rewritten_claim c r)"
proof -
  have "required_field t (rewritten_claim c r) = required_field t c" for t
    by (cases t) (simp_all add: rewritten_claim_def)
  then show "claim_ok c \<Longrightarrow> claim_ok r \<Longrightarrow> claim_ok (rewritten_claim c r)"
    by (simp add: claim_ok_def claim_rules_def rewritten_claim_def)
qed

lemma record_claim_cases:
  assumes "record_claim c d = Inr ((c', changed), d')"
  obtains (same) "d' = d"
  | (rewritten) r where "r \<in> set (pv_claims d)" "claim_key r = claim_key c" "cl_sourceSequence r < cl_sourceSequence c" "claim_ok c"
      "\<And>q. q \<in> set (pv_claims d) \<Longrightarrow> cl_id q = cl_id c \<Longrightarrow> claim_key q = claim_key c"
      "d' = d\<lparr>pv_claims := update_where (\<lambda>q. claim_key q = claim_key c) (rewritten_claim c) (pv_claims d)\<rparr>"
  | (added) "claim_ok c" "claim_key c \<notin> claim_key ` set (pv_claims d)" "cl_id c \<notin> cl_id ` set (pv_claims d)"
      "d' = d\<lparr>pv_claims := pv_claims d @ [c]\<rparr>"
proof (cases "find_where (\<lambda>r. claim_key r = claim_key c) (pv_claims d)")
  case None
  then have "claim_key c \<notin> claim_key ` set (pv_claims d)" unfolding find_where_None_iff by auto
  moreover have "claim_ok c" "\<not> list_ex (\<lambda>q. cl_id q = cl_id c) (pv_claims d)" "d' = d\<lparr>pv_claims := pv_claims d @ [c]\<rparr>"
    using assms None by (simp_all add: record_claim_def current_claim_def split: if_splits) blast
  moreover from this(2) have "cl_id c \<notin> cl_id ` set (pv_claims d)" unfolding list_ex_iff by force
  ultimately show ?thesis using added by blast
next
  case (Some r)
  note r = find_where_SomeD [OF Some]
  show ?thesis
  proof (cases "same_meaning r c")
    case True
    then have "d' = d" using assms Some by (simp add: record_claim_def current_claim_def split: if_splits)
    then show ?thesis by (rule same)
  next
    case False
    then have *: "claim_ok c" "cl_sourceSequence r < cl_sourceSequence c"
      "\<not> list_ex (\<lambda>q. cl_id q = cl_id c \<and> claim_key q \<noteq> claim_key c) (pv_claims d)"
      "d' = d\<lparr>pv_claims := update_where (\<lambda>q. claim_key q = claim_key c) (rewritten_claim c) (pv_claims d)\<rparr>"
      using assms Some by (auto simp: record_claim_def current_claim_def not_le split: if_splits)
    from *(3) have "\<And>q. q \<in> set (pv_claims d) \<Longrightarrow> cl_id q = cl_id c \<Longrightarrow> claim_key q = claim_key c"
      unfolding list_ex_iff by blast
    then show ?thesis using rewritten r *(1,2,4) by blast
  qed
qed

lemma record_claim_moves:
  assumes run: "record_claim c d = Inr ((c', changed), d')" and ok: "pipeline_ok d"
  shows "pipeline_moves d d'"
  using run
proof (cases rule: record_claim_cases)
  case same
  then show ?thesis using ok by (simp add: pipeline_moves_refl)
next
  case (rewritten r)
  let ?p = "\<lambda>q. claim_key q = claim_key c"
  let ?cs = "update_where ?p (rewritten_claim c) (pv_claims d)"
  have dist: "distinct (map cl_id (pv_claims d))" "distinct (map claim_key (pv_claims d))" "list_all claim_ok (pv_claims d)"
    using ok by (simp_all add: pipeline_ok_def claims_ok_def)
  have "map claim_key ?cs = map claim_key (pv_claims d)"
    unfolding update_where_def by (simp add: rewritten_key)
  moreover have "distinct (map cl_id ?cs)"
    unfolding update_where_def map_map
  proof (rule distinct_map [THEN iffD2], intro conjI inj_onI)
    show "distinct (pv_claims d)" using dist(1) by (simp add: distinct_map)
    fix x y assume xy: "x \<in> set (pv_claims d)" "y \<in> set (pv_claims d)"
      and "(cl_id \<circ> (\<lambda>r. if ?p r then rewritten_claim c r else r)) x = (cl_id \<circ> (\<lambda>r. if ?p r then rewritten_claim c r else r)) y"
    then have "(?p x \<and> ?p y) \<or> cl_id x = cl_id y"
      using rewritten(5) by (auto simp: rewritten_claim_def split: if_splits)
    then have "claim_key x = claim_key y \<or> cl_id x = cl_id y" by auto
    then show "x = y" using distinct_key [OF dist(1) xy] distinct_key [OF dist(2) xy] by blast
  qed
  moreover have "list_all claim_ok ?cs"
    using dist(3) rewritten(4) by (auto simp: list_all_iff set_update_where rewritten_ok)
  ultimately have "claims_ok d'" using rewritten(6) dist by (simp add: claims_ok_def)
  moreover have "\<exists>q'\<in>set ?cs. claim_key q' = claim_key q \<and> cl_sourceSequence q \<le> cl_sourceSequence q'"
    if q: "q \<in> set (pv_claims d)" for q
  proof (cases "?p q")
    case True
    then have "q = r" using distinct_key [OF dist(2) q rewritten(1)] rewritten(2) by simp
    moreover have "rewritten_claim c r \<in> set ?cs" using rewritten(1,2) by (auto simp: set_update_where)
    ultimately show ?thesis using rewritten(2,3) by (intro bexI [of _ "rewritten_claim c r"]) (simp_all add: rewritten_key, simp add: rewritten_claim_def)
  next
    case False
    then show ?thesis using q by (auto simp: set_update_where intro!: bexI [of _ q])
  qed
  ultimately show ?thesis using ok rewritten(6)
    by (auto simp: pipeline_moves_def pipeline_ok_def cycles_ok_def receipts_ok_def processes_ok_def)
next
  case added
  then have "claims_ok d'" using ok by (auto simp: pipeline_ok_def claims_ok_def)
  then show ?thesis using ok added
    by (auto simp: pipeline_moves_def pipeline_ok_def cycles_ok_def receipts_ok_def processes_ok_def)
qed

definition other_tables :: "provider_db \<Rightarrow> event_receipt list \<times> claim list \<times> incarnation list" where
  "other_tables d = (pv_receipts d, pv_claims d, pv_processes d)"

lemma turn_frames:
  "turn_work e c at d = Inr (w, d') \<Longrightarrow> other_tables d' = other_tables d"
  "start_turn sha b e root turn at d = Inr d' \<Longrightarrow> other_tables d' = other_tables d"
  by (cases "pe_event e", auto simp: turn_work_def Let_def other_tables_def split: prod.splits bool.splits)
    (auto simp: start_turn_def Let_def rbind_eq_Inr other_tables_def split: option.splits if_splits)

lemma other_tables_cycles [simp]: "other_tables (d\<lparr>pv_cycles := cs\<rparr>) = other_tables d"
  by (simp add: other_tables_def)

lemma apply_to_cycle_frame: "apply_to_cycle e c at d = Inr d' \<Longrightarrow> other_tables d' = other_tables d"
  by (auto simp: apply_to_cycle_def rbind_eq_Inr dest: turn_frames(1))

lemma apply_turn_event_frame: "other_tables (fst (apply_turn_event sha b a now d)) = other_tables d"
  by (simp add: apply_turn_event_def Let_def split: prod.split option.split sum.split)
    (blast dest: turn_frames(2) apply_to_cycle_frame)

lemma apply_turn_event_moves: "pipeline_ok d \<Longrightarrow> pipeline_moves d (fst (apply_turn_event sha b a now d))"
  using apply_turn_event_frame [of sha b a now d]
  by (auto simp: pipeline_moves_def pipeline_ok_def receipts_ok_def processes_ok_def claims_ok_def other_tables_def
      apply_turn_event_keeps)

subsection \<open>The machine\<close>

text \<open>
  The pipeline over arbitrary interleavings. Its digests, clocks and inputs are arguments of each step; an event
  is applied with whatever the caller says of its admission; and the rest of the daemon may change bindings,
  fences and sessions at any time.
\<close>

definition providers0 :: provider_db where
  "providers0 = \<lparr>pv_bindings = [], pv_processes = [], pv_fences = [], pv_sessions = [], pv_receipts = [], pv_claims = [],
     pv_cycles = [], pv_tools = [], pv_waits = []\<rparr>"

inductive pipeline_step :: "provider_db \<Rightarrow> provider_db \<Rightarrow> bool" where
  process_seen: "record_incarnation sha b paneId obs at d = Inr (p, d') \<Longrightarrow> pipeline_step d d'"
| event_admitted: "admit sha' b snapshot e at d = Inr ((e', dup), d') \<Longrightarrow> pipeline_step d d'"
| event_applied: "apply_turn_event sha'' b admission at d = (d', found) \<Longrightarrow> pipeline_step d d'"
| claim_recorded: "record_claim c d = Inr ((c', changed), d') \<Longrightarrow> pipeline_step d d'"
| elsewhere: "pipeline_step d (d\<lparr>pv_bindings := bs, pv_fences := fs, pv_sessions := ss\<rparr>)"

inductive_cases pipeline_stepE: "pipeline_step d d'"

lemma pipeline_step_moves: "pipeline_step d d' \<Longrightarrow> pipeline_ok d \<Longrightarrow> pipeline_moves d d'"
proof (induction rule: pipeline_step.induct)
  case (event_applied sha'' b admission at d d' found)
  then show ?case using apply_turn_event_moves [of d sha'' b admission at] by simp
next
  case (elsewhere d bs fs ss)
  then show ?case by (auto simp: pipeline_moves_def pipeline_ok_def cycles_ok_def receipts_ok_def processes_ok_def claims_ok_def)
qed (blast intro: record_incarnation_moves admit_moves record_claim_moves)+

interpretation pipeline: moving_machine pipeline_step pipeline_ok pipeline_moves
proof
  show "pipeline_ok d'" if "pipeline_moves d d'" for d d' using that by (simp add: pipeline_moves_def)
qed (fact pipeline_step_moves pipeline_moves_refl pipeline_moves_trans)+

lemma providers0_ok: "pipeline_ok providers0"
  by (simp add: pipeline_ok_def cycles_ok_def receipts_ok_def processes_ok_def claims_ok_def rows_ok_def providers0_def)

lemma pipeline_reachable: "pipeline_step\<^sup>*\<^sup>* providers0 d \<Longrightarrow> pipeline_ok d"
  using pipeline.steps_inv providers0_ok by blast

end
