(* ===== verification/Provider_Properties.thy ===== *)
theory Provider_Properties
  imports Provider_Machine "HOL-Library.Code_Target_Nat"
begin

text \<open>
  What the provider pipeline guarantees of every reachable state, on the machine of \<open>Provider_Machine\<close>, with a
  run of the pipeline that reaches the states the theorems speak of.
\<close>

subsection \<open>A turn from the process to its completion\<close>

definition hex64 :: "char \<Rightarrow> string" where "hex64 c = replicate 64 c"

definition demo_binding :: provider_binding where
  "demo_binding = \<lparr>bi_id = ''binding-1'', bi_runId = ''run-1'', bi_generation = 1, bi_integrationId = ''pi'',
     bi_providerId = ''pi'', bi_adapterId = ''pi'', bi_snapshotDigest = hex64 (CHR ''a''),
     bi_statusPolicyDigest = hex64 (CHR ''b'')\<rparr>"

definition demo_process :: "nat \<Rightarrow> process_identity" where
  "demo_process pid = \<lparr>pi_foregroundPgid = pid, pi_leaderPid = pid, pi_pidStartIdentity = ''1'', pi_executableFingerprint = ''x'',
     pi_argvFingerprint = ''x'', pi_processFingerprint = ''x'', pi_expectedProviderMatch = Pm_match, pi_wrapperChain = []\<rparr>"

definition demo_sha :: "string \<times> string \<times> string \<times> nat \<times> nat \<times> string \<Rightarrow> string" where
  "demo_sha x = (case x of (_, _, _, pid, _, _) \<Rightarrow> hex64 (char_of (48 + pid)))"

definition demo_snapshot :: adapter_snapshot where
  "demo_snapshot = \<lparr>as_digest = hex64 (CHR ''a''), as_reporter = Some \<lparr>rk_driverId = Some ''rep'', rk_sourceId = Some ''pi'',
     rk_events = Some [Ev_turn_started, Ev_tool_started, Ev_tool_finished, Ev_turn_settled],
     rk_rootSessionPolicy = Some Root_qualified\<rparr>\<rparr>"

definition demo_event :: "nat \<Rightarrow> event_kind \<Rightarrow> provider_event" where
  "demo_event n k = \<lparr>pe_version = 3, pe_eventId = ''event-'' @ show_nat n, pe_integrationId = ''pi'', pe_providerId = ''pi'',
     pe_adapterId = ''pi'', pe_snapshotDigest = hex64 (CHR ''a''), pe_process = hex64 (CHR ''1''),
     pe_reporterSessionId = ''session'', pe_reporterId = ''rep'', pe_source = ''pi'', pe_reporterEpoch = ''epoch'',
     pe_runId = ''run-1'', pe_generation = 1, pe_sourceSequence = n, pe_event = k, pe_occurredAt = Some (int n),
     pe_rootSessionId = Some ''root'', pe_turnId = Some ''turn'', pe_operationId = Some ''op'', pe_requestId = None,
     pe_data = \<lparr>pd_waitKind = None, pd_summary = None, pd_transportId = None, pd_errorClass = None, pd_fatal = None,
       pd_effectiveModel = None, pd_nativeSessionHandle = None\<rparr>\<rparr>"

definition demo_tables :: "provider_db \<Rightarrow> provider_db" where
  "demo_tables d = d\<lparr>pv_bindings := [demo_binding],
     pv_fences := [\<lparr>rf_recordId = ''session'', rf_bindingId = ''binding-1'', rf_runId = ''run-1'', rf_generation = 1,
       rf_snapshotDigest = hex64 (CHR ''a''), rf_process = hex64 (CHR ''1'')\<rparr>],
     pv_sessions := [\<lparr>rw_id = ''session'', rw_bindingId = ''binding-1'', rw_runId = ''run-1'', rw_generation = 1,
       rw_snapshotDigest = hex64 (CHR ''a''), rw_process = hex64 (CHR ''1''), rw_reporterId = ''rep'', rw_sourceId = ''pi'',
       rw_reporterEpoch = ''epoch'', rw_rootSessionId = Some ''root'', rw_active = True\<rparr>]\<rparr>"

definition payload_sha :: "provider_event \<Rightarrow> string" where "payload_sha e = hex64 (CHR ''c'')"
definition cycle_sha :: "string \<times> string \<times> string \<times> string \<Rightarrow> string" where "cycle_sha k = hex64 (CHR ''d'')"

text \<open>Each event is admitted and applied; an error stops the run.\<close>

definition feed :: "provider_db result \<Rightarrow> provider_event \<Rightarrow> provider_db result" where
  "feed r e = rbind r (\<lambda>d. rbind (admit payload_sha demo_binding demo_snapshot e 0 d) (\<lambda>(a, d1).
     case apply_turn_event cycle_sha demo_binding a 0 d1 of (d2, Inl err) \<Rightarrow> Inl err | (d2, Inr _) \<Rightarrow> Inr d2))"

definition demo_start :: "provider_db result" where
  "demo_start = rbind (record_incarnation demo_sha demo_binding ''%1'' (demo_process 1) 0 (demo_tables providers0))
     (\<lambda>(_, d). Inr d)"

definition demo_events :: "provider_event list" where
  "demo_events = [demo_event 1 Ev_turn_started, demo_event 2 Ev_tool_started, demo_event 3 Ev_turn_settled,
     demo_event 4 Ev_tool_finished]"

definition demo_db :: provider_db where "demo_db = projr (foldl feed demo_start demo_events)"

lemma demo_tables_step: "pipeline_step d (demo_tables d)"
  unfolding demo_tables_def by (rule elsewhere)

lemma feed_steps:
  assumes "feed r e = Inr d'"
  shows "\<exists>d. r = Inr d \<and> pipeline_step\<^sup>*\<^sup>* d d'"
proof -
  obtain d p where d: "r = Inr d" "admit payload_sha demo_binding demo_snapshot e 0 d = Inr p"
    and rest: "(case p of (a, d1) \<Rightarrow> case apply_turn_event cycle_sha demo_binding a 0 d1 of
        (d2, Inl err) \<Rightarrow> Inl err | (d2, Inr _) \<Rightarrow> Inr d2) = Inr d'"
    using assms unfolding feed_def rbind_eq_Inr by blast
  obtain e' dup d1 where p: "p = ((e', dup), d1)" by (cases p) auto
  obtain d2 w where ap: "apply_turn_event cycle_sha demo_binding (e', dup) 0 d1 = (d2, w)" by fastforce
  have "d2 = d'" using rest by (cases w) (simp_all add: p ap)
  then have "pipeline_step d1 d'" using event_applied [OF ap] by simp
  moreover have "pipeline_step d d1" using event_admitted d(2) unfolding p by blast
  ultimately show ?thesis using d(1) by (blast intro: rtranclp.intros)
qed

lemma feeds_steps: "foldl feed r es = Inr d' \<Longrightarrow> \<exists>d. r = Inr d \<and> pipeline_step\<^sup>*\<^sup>* d d'"
proof (induction es arbitrary: r)
  case (Cons e es)
  then obtain d1 where d1: "feed r e = Inr d1" "pipeline_step\<^sup>*\<^sup>* d1 d'" by auto
  then show ?case using feed_steps [OF d1(1)] rtranclp_trans [of pipeline_step _ d1 d'] by blast
qed simp

lemma demo_start_reachable: "demo_start = Inr d \<Longrightarrow> pipeline_step\<^sup>*\<^sup>* providers0 d"
proof -
  assume "demo_start = Inr d"
  then obtain p where "record_incarnation demo_sha demo_binding ''%1'' (demo_process 1) 0 (demo_tables providers0) = Inr (p, d)"
    unfolding demo_start_def by (auto simp: rbind_eq_Inr)
  then have "pipeline_step (demo_tables providers0) d" by (rule process_seen)
  with demo_tables_step [of providers0] show "pipeline_step\<^sup>*\<^sup>* providers0 d" by (blast intro: rtranclp.intros)
qed

lemma demo_facts:
  "case foldl feed demo_start demo_events of Inl _ \<Rightarrow> False | Inr d \<Rightarrow>
     (case pv_cycles d of [c] \<Rightarrow> tc_state c = Cy_closed \<and> tc_completionRevision c = 1 | _ \<Rightarrow> False)"
  by code_simp

lemma demo_reachable: "pipeline_step\<^sup>*\<^sup>* providers0 demo_db"
proof -
  have "foldl feed demo_start demo_events = Inr demo_db" using demo_facts unfolding demo_db_def by (auto split: sum.splits)
  then show ?thesis using feeds_steps demo_start_reachable by (meson rtranclp_trans)
qed

subsection \<open>Turn cycles\<close>

lemma work_of_card: "distinct (map (\<lambda>r. (fst r, fst (snd r))) rows) \<Longrightarrow> work_of i rows = card {k. \<exists>t. (i, k, t) \<in> set rows}"
proof (induction rows)
  case (Cons r rows)
  obtain j k t where r: "r = (j, k, t)" by (cases r)
  have fin: "finite {k. \<exists>t. (i, k, t) \<in> set rows}"
    by (rule finite_subset [of _ "(\<lambda>r. fst (snd r)) ` set rows"]) force+
  show ?case
  proof (cases "j = i")
    case True
    have "{l. \<exists>t. (i, l, t) \<in> set (r # rows)} = insert k {l. \<exists>t. (i, l, t) \<in> set rows}" using r True by auto
    moreover have "k \<notin> {l. \<exists>t. (i, l, t) \<in> set rows}" using Cons.prems r True by force
    ultimately show ?thesis using Cons fin r True by (simp add: work_of_def)
  next
    case False
    then have "{l. \<exists>t. (i, l, t) \<in> set (r # rows)} = {l. \<exists>t. (i, l, t) \<in> set rows}" using r by auto
    then show ?thesis using Cons r False by (simp add: work_of_def)
  qed
qed (simp add: work_of_def)

lemma sorted_wrt_pair: "sorted_wrt R xs \<Longrightarrow> x \<in> set xs \<Longrightarrow> y \<in> set xs \<Longrightarrow> x \<noteq> y \<Longrightarrow> R x y \<or> R y x"
  by (induction xs) auto

text \<open>
  C40. The open tools and waits a turn cycle counts are those recorded for it, a completed cycle has none, at
  most one cycle of a root session is live, and no two completed cycles of a root session carry the same
  completion revision, in every reachable state of the pipeline.
\<close>

theorem turn_cycles_consistent:
  assumes "pipeline_step\<^sup>*\<^sup>* providers0 d" "c \<in> set (pv_cycles d)"
  shows "tc_openToolCount c = card {i. \<exists>t. (tc_id c, i, t) \<in> set (pv_tools d)} \<and>
    tc_openWaitCount c = card {i. \<exists>t. (tc_id c, i, t) \<in> set (pv_waits d)} \<and>
    (tc_state c = Cy_closed \<longrightarrow>
       tc_openToolCount c = 0 \<and> tc_openWaitCount c = 0 \<and> tc_settledAt c \<noteq> None \<and> tc_closedAt c \<noteq> None) \<and>
    (\<forall>c'\<in>set (pv_cycles d). c' \<noteq> c \<and> tc_bindingId c' = tc_bindingId c \<and> tc_reporterSessionId c' = tc_reporterSessionId c \<and>
       tc_rootSessionId c' = tc_rootSessionId c \<longrightarrow>
         \<not> (live c \<and> live c') \<and>
         (tc_state c = Cy_closed \<and> tc_state c' = Cy_closed \<longrightarrow> tc_completionRevision c \<noteq> tc_completionRevision c'))"
proof -
  have ok: "cycles_ok d" using pipeline_reachable [OF assms(1)] by (simp add: pipeline_ok_def)
  have c: "times_ok c" "tc_openToolCount c = work_of (tc_id c) (pv_tools d)"
    "tc_openWaitCount c = work_of (tc_id c) (pv_waits d)" using ok assms(2) by (simp_all add: cycles_ok_def)
  have rows: "distinct (map (\<lambda>r. (fst r, fst (snd r))) (pv_tools d))" "distinct (map (\<lambda>r. (fst r, fst (snd r))) (pv_waits d))"
    using ok by (simp_all add: cycles_ok_def rows_ok_def)
  have two: "\<not> (live c \<and> live c') \<and>
      (tc_state c = Cy_closed \<and> tc_state c' = Cy_closed \<longrightarrow> tc_completionRevision c \<noteq> tc_completionRevision c')"
    if c': "c' \<in> set (pv_cycles d)" "c' \<noteq> c" "lineage c' = lineage c" for c'
  proof -
    have "successive c c' \<or> successive c' c"
      using sorted_wrt_pair [of successive "pv_cycles d" c c'] ok assms(2) c'(1,2) by (auto simp: cycles_ok_def)
    then show ?thesis using c'(3) unfolding successive_def by auto
  qed
  show ?thesis
  proof (intro conjI ballI impI)
    fix c' assume c': "c' \<in> set (pv_cycles d)" and h: "c' \<noteq> c \<and> tc_bindingId c' = tc_bindingId c \<and>
      tc_reporterSessionId c' = tc_reporterSessionId c \<and> tc_rootSessionId c' = tc_rootSessionId c"
    then have t: "\<not> (live c \<and> live c') \<and>
      (tc_state c = Cy_closed \<and> tc_state c' = Cy_closed \<longrightarrow> tc_completionRevision c \<noteq> tc_completionRevision c')"
      by (intro two) (simp_all add: lineage_def)
    show "\<not> (live c \<and> live c')" using t by blast
    show "tc_completionRevision c \<noteq> tc_completionRevision c'" if "tc_state c = Cy_closed \<and> tc_state c' = Cy_closed"
      using t that by blast
  qed (use c work_of_card [OF rows(1)] work_of_card [OF rows(2)] in \<open>simp_all add: times_ok_def\<close>)
qed

theorem turn_cycles_consistent_witness:
  "tc_openToolCount (hd (pv_cycles demo_db)) = 0 \<and> tc_state (hd (pv_cycles demo_db)) = Cy_closed \<and>
   tc_settledAt (hd (pv_cycles demo_db)) \<noteq> None"
proof -
  have "pv_cycles demo_db \<noteq> [] \<and> tc_state (hd (pv_cycles demo_db)) = Cy_closed"
    using demo_facts unfolding demo_db_def by (auto split: sum.splits list.splits)
  then show ?thesis using turn_cycles_consistent [OF demo_reachable hd_in_set] by blast
qed

subsection \<open>Admission\<close>

text \<open>
  Once an event was admitted, its id is never admitted as a new event again, whatever happens in between: a
  repetition is reported as a duplicate of the same payload and changes nothing. Nor is an event of the same
  session and epoch admitted with a source sequence that is not higher.
\<close>

lemma reporter_events_admitted_once:
  assumes "pipeline_step\<^sup>*\<^sup>* providers0 d" "admit sha b snapshot e at d = Inr ((e', False), d1)"
    "pipeline_step\<^sup>*\<^sup>* d1 d2" "admit sha' b' snapshot' f at' d2 = Inr ((f', dup), d3)"
  shows "(pe_eventId f = pe_eventId e \<longrightarrow> dup \<and> d3 = d2 \<and> sha' f = sha e) \<and>
    (bi_id b' = bi_id b \<and> pe_reporterSessionId f = pe_reporterSessionId e \<and> pe_reporterEpoch f = pe_reporterEpoch e \<and>
       pe_sourceSequence f \<le> pe_sourceSequence e \<longrightarrow> dup \<and> d3 = d2)"
proof -
  have "pipeline_ok d1" using pipeline_reachable assms(1,2) event_admitted by (meson rtranclp.rtrancl_into_rtrancl)
  then have moves: "pipeline_moves d1 d2" "pipeline_ok d2"
    using pipeline.steps_move pipeline.steps_inv assms(3) by blast+
  have "d1 = d\<lparr>pv_receipts := pv_receipts d @ [new_receipt sha b at e]\<rparr>"
    using admit_cases [OF assms(2)] by (cases rule: receive_cases) simp_all
  then have mem: "new_receipt sha b at e \<in> set (pv_receipts d2)" (is "?r \<in> _")
    using moves(1) by (auto simp: pipeline_moves_def)
  have r: "er_eventId ?r = pe_eventId e" "er_payloadDigest ?r = sha e" "er_sourceSequence ?r = pe_sourceSequence e"
    "er_bindingId ?r = bi_id b" "er_reporterSessionId ?r = pe_reporterSessionId e" "er_reporterEpoch ?r = pe_reporterEpoch e"
    by (simp_all add: new_receipt_def)
  from admit_cases [OF assms(4)] show ?thesis
  proof (cases rule: receive_cases)
    case (duplicate r')
    have "distinct (map er_eventId (pv_receipts d2))" using moves(2) by (simp add: pipeline_ok_def receipts_ok_def)
    then have "r' = ?r" if "pe_eventId f = pe_eventId e" using distinct_key mem duplicate(4,5) r(1) that by metis
    then show ?thesis using duplicate r(2) by auto
  next
    case new
    have "pe_eventId f \<noteq> pe_eventId e" using new(4) mem r(1) by (metis imageI)
    moreover have "\<not> same_stream (bi_id b') f ?r \<or> pe_sourceSequence e < pe_sourceSequence f"
      using new(5) [OF mem] r(3) by auto
    ultimately show ?thesis using r by (auto simp: same_stream_def)
  qed
qed

end
