(* ===== verification/Screen_Stabilizer.thy ===== *)
theory Screen_Stabilizer
  imports Status_Types
begin

text \<open>
  \<open>provider-observation-stabilizer.ts\<close>: which of the states a classifier reads off the screen are published,
  and which captures are still about the current screen.
\<close>

subsection \<open>The screen stabilizer\<close>

datatype screen_state = Ss_idle | Ss_working | Ss_blocked | Ss_unknown

record screen_signal =
  sg_state :: screen_state
  sg_visibleIdle :: bool
  sg_visibleWorking :: bool
  sg_visibleBlocker :: bool

datatype screen_reason = Sr_startup_grace | Sr_idle_confirmation | Sr_idle_confirmed | Sr_idle_cap | Sr_changed | Sr_unchanged

record screen_decision =
  sx_publish :: bool
  sx_signal :: screen_signal
  sx_reason :: screen_reason

record stabilizer =
  sb_processStartedAt :: int
  sb_published :: screen_signal
  sb_pendingIdleStartedAt :: "int option"
  sb_lastIdleConfirmationAt :: "int option"
  sb_idleConfirmations :: nat

definition STARTUP_GRACE_MS :: int where "STARTUP_GRACE_MS = 3000"
definition IDLE_CONFIRMATION_INTERVAL_MS :: int where "IDLE_CONFIRMATION_INTERVAL_MS = 100"
definition IDLE_CONFIRMATIONS :: nat where "IDLE_CONFIRMATIONS = 3"
definition IDLE_CONFIRMATION_CAP_MS :: int where "IDLE_CONFIRMATION_CAP_MS = 700"

definition unknown_signal :: screen_signal where
  "unknown_signal = \<lparr>sg_state = Ss_unknown, sg_visibleIdle = False, sg_visibleWorking = False, sg_visibleBlocker = False\<rparr>"

definition new_stabilizer :: stabilizer where
  "new_stabilizer = \<lparr>sb_processStartedAt = 0, sb_published = unknown_signal, sb_pendingIdleStartedAt = None,
     sb_lastIdleConfirmationAt = None, sb_idleConfirmations = 0\<rparr>"

definition clearPendingIdle :: "stabilizer \<Rightarrow> stabilizer" where
  "clearPendingIdle s = s\<lparr>sb_pendingIdleStartedAt := None, sb_lastIdleConfirmationAt := None, sb_idleConfirmations := 0\<rparr>"

definition resetForProcess :: "int \<Rightarrow> stabilizer \<Rightarrow> stabilizer" where
  "resetForProcess startedAt s =
     clearPendingIdle (s\<lparr>sb_processStartedAt := startedAt, sb_published := unknown_signal\<rparr>)"

text \<open>Idle without anything on the screen that shows it, right after work: the prompt may only be redrawn.\<close>

definition plain_idle :: "screen_signal \<Rightarrow> bool" where
  "plain_idle x \<longleftrightarrow> sg_state x = Ss_idle \<and> \<not> sg_visibleIdle x \<and> \<not> sg_visibleBlocker x"

definition held_back :: "screen_reason \<Rightarrow> stabilizer \<Rightarrow> screen_decision \<times> stabilizer" where
  "held_back reason s = (\<lparr>sx_publish = False, sx_signal = sb_published s, sx_reason = reason\<rparr>, s)"

definition published :: "screen_reason \<Rightarrow> screen_signal \<Rightarrow> stabilizer \<Rightarrow> screen_decision \<times> stabilizer" where
  "published reason x s =
     (\<lparr>sx_publish = True, sx_signal = x, sx_reason = reason\<rparr>, clearPendingIdle (s\<lparr>sb_published := x\<rparr>))"

definition confirm_idle :: "screen_signal \<Rightarrow> int \<Rightarrow> stabilizer \<Rightarrow> screen_decision \<times> stabilizer" where
  "confirm_idle x now s =
     (case sb_pendingIdleStartedAt s of
        None \<Rightarrow> held_back Sr_idle_confirmation
          (s\<lparr>sb_pendingIdleStartedAt := Some now, sb_lastIdleConfirmationAt := Some now, sb_idleConfirmations := 1\<rparr>)
      | Some startedAt \<Rightarrow>
          if IDLE_CONFIRMATION_CAP_MS \<le> now - startedAt then published Sr_idle_cap x s
          else if now - (case sb_lastIdleConfirmationAt s of None \<Rightarrow> 0 | Some t \<Rightarrow> t) < IDLE_CONFIRMATION_INTERVAL_MS
          then held_back Sr_idle_confirmation s
          else let s' = s\<lparr>sb_lastIdleConfirmationAt := Some now, sb_idleConfirmations := sb_idleConfirmations s + 1\<rparr>
               in if sb_idleConfirmations s' < IDLE_CONFIRMATIONS then held_back Sr_idle_confirmation s'
                  else published Sr_idle_confirmed x s')"

definition observe_screen :: "screen_signal \<Rightarrow> int \<Rightarrow> stabilizer \<Rightarrow> screen_decision \<times> stabilizer" where
  "observe_screen x now s =
     (if now - sb_processStartedAt s < STARTUP_GRACE_MS \<and> sg_state x \<noteq> Ss_working \<and> sg_state x \<noteq> Ss_blocked
      then held_back Sr_startup_grace (clearPendingIdle s)
      else if sg_state (sb_published s) = Ss_working \<and> plain_idle x then confirm_idle x now s
      else if sb_published s = x then held_back Sr_unchanged (clearPendingIdle s)
      else published Sr_changed x s)"

subsection \<open>Captures\<close>

text \<open>
  A capture carries the count of changes its key had when it began, and is accepted while the count and the
  fence are still the same.
\<close>

record capture_token =
  ct_key :: string
  ct_dirtySequence :: nat
  ct_fenceDigest :: string

type_synonym dirty_sequences = "string \<Rightarrow> nat option"

definition dirty_count :: "string \<Rightarrow> dirty_sequences \<Rightarrow> nat" where
  "dirty_count key m = (case m key of None \<Rightarrow> 0 | Some n \<Rightarrow> n)"

definition markDirty :: "string \<Rightarrow> dirty_sequences \<Rightarrow> nat \<times> dirty_sequences" where
  "markDirty key m = (let next = dirty_count key m + 1 in (next, m(key \<mapsto> next)))"

definition beginCapture :: "string \<Rightarrow> string \<Rightarrow> dirty_sequences \<Rightarrow> capture_token" where
  "beginCapture key fenceDigest m = \<lparr>ct_key = key, ct_dirtySequence = dirty_count key m, ct_fenceDigest = fenceDigest\<rparr>"

definition accepts :: "capture_token \<Rightarrow> string \<Rightarrow> dirty_sequences \<Rightarrow> bool" where
  "accepts token current m \<longleftrightarrow> ct_fenceDigest token = current \<and> ct_dirtySequence token = dirty_count (ct_key token) m"

definition clear_key :: "string \<Rightarrow> dirty_sequences \<Rightarrow> dirty_sequences" where
  "clear_key key m = m(key := None)"

subsection \<open>Idle is confirmed\<close>

text \<open>The observations of one process, as the stabilizer gets them: a signal and its time.\<close>

definition watch :: "int \<Rightarrow> (screen_signal \<times> int) list \<Rightarrow> stabilizer" where
  "watch startedAt obs = foldl (\<lambda>s (x, now). snd (observe_screen x now s)) (resetForProcess startedAt new_stabilizer) obs"

lemma watch_snoc: "watch startedAt (obs @ [(x, now)]) = snd (observe_screen x now (watch startedAt obs))"
  by (simp add: watch_def)

text \<open>
  While idle is pending, the latest observations are all plain idle, the first of them at the time it became
  pending, and each confirmation lies at least the interval after the one before.
\<close>

definition pending_ok :: "(screen_signal \<times> int) list \<Rightarrow> stabilizer \<Rightarrow> bool" where
  "pending_ok obs s \<longleftrightarrow>
     (\<forall>t0. sb_pendingIdleStartedAt s = Some t0 \<longrightarrow>
        (\<exists>pre x mid t1. obs = pre @ (x, t0) # mid \<and> list_all (\<lambda>(y, _). plain_idle y) ((x, t0) # mid) \<and>
           sb_lastIdleConfirmationAt s = Some t1 \<and> 1 \<le> sb_idleConfirmations s \<and>
           sb_idleConfirmations s < IDLE_CONFIRMATIONS \<and> sb_idleConfirmations s \<le> Suc (length mid) \<and>
           int (sb_idleConfirmations s - 1) * IDLE_CONFIRMATION_INTERVAL_MS \<le> t1 - t0))"

lemma cleared [simp]: "pending_ok obs (clearPendingIdle s)"
  by (simp add: pending_ok_def clearPendingIdle_def)

lemma confirm_keeps:
  assumes ok: "pending_ok obs s" and x: "plain_idle x"
  shows "pending_ok (obs @ [(x, now)]) (snd (confirm_idle x now s))"
proof (cases "sb_pendingIdleStartedAt s")
  case None
  then have "snd (confirm_idle x now s) =
      s\<lparr>sb_pendingIdleStartedAt := Some now, sb_lastIdleConfirmationAt := Some now, sb_idleConfirmations := 1\<rparr>"
    by (simp add: confirm_idle_def held_back_def)
  moreover have "obs @ [(x, now)] = obs @ (x, now) # []" by simp
  ultimately show ?thesis using x unfolding pending_ok_def by (fastforce simp: IDLE_CONFIRMATIONS_def)
next
  case (Some t0)
  then obtain pre y mid t1 where obs: "obs = pre @ (y, t0) # mid" "list_all (\<lambda>(y, _). plain_idle y) ((y, t0) # mid)"
    and t1: "sb_lastIdleConfirmationAt s = Some t1" "1 \<le> sb_idleConfirmations s"
      "sb_idleConfirmations s < IDLE_CONFIRMATIONS" "sb_idleConfirmations s \<le> Suc (length mid)"
      "int (sb_idleConfirmations s - 1) * IDLE_CONFIRMATION_INTERVAL_MS \<le> t1 - t0"
    using ok unfolding pending_ok_def by blast
  have longer: "obs @ [(x, now)] = pre @ (y, t0) # (mid @ [(x, now)])" "list_all (\<lambda>(y, _). plain_idle y) ((y, t0) # (mid @ [(x, now)]))"
    using obs x by simp_all
  let ?s = "s\<lparr>sb_lastIdleConfirmationAt := Some now, sb_idleConfirmations := sb_idleConfirmations s + 1\<rparr>"
  have kept: "pending_ok (obs @ [(x, now)]) s"
    unfolding pending_ok_def using longer t1 Some
    by (intro allI impI exI [of _ pre] exI [of _ y] exI [of _ "mid @ [(x, now)]"] exI [of _ t1]) auto
  have counted: "pending_ok (obs @ [(x, now)]) ?s"
    if "IDLE_CONFIRMATION_INTERVAL_MS \<le> now - t1" "sb_idleConfirmations s + 1 < IDLE_CONFIRMATIONS"
    unfolding pending_ok_def using longer t1 Some that
    by (intro allI impI exI [of _ pre] exI [of _ y] exI [of _ "mid @ [(x, now)]"] exI [of _ now])
      (auto simp: IDLE_CONFIRMATION_INTERVAL_MS_def)
  show ?thesis
    using Some t1(1) kept counted by (auto simp: confirm_idle_def held_back_def published_def Let_def)
qed

lemma watch_pending: "pending_ok obs (watch startedAt obs)"
proof (induction obs rule: rev_induct)
  case Nil
  then show ?case by (simp add: watch_def resetForProcess_def)
next
  case (snoc ob obs)
  obtain x now where ob: "ob = (x, now)" by (cases ob)
  show ?case unfolding ob watch_snoc
    using confirm_keeps [OF snoc.IH] by (auto simp: observe_screen_def held_back_def published_def)
qed

text \<open>
  After work, plain idle is published only at the end of a stretch of plain idle observations that began at
  least 200 ms before, and it was seen at least three times unless the stretch lasted 700 ms.
\<close>

lemma idle_needs_confirmation:
  assumes "sg_state (sb_published (watch startedAt obs)) = Ss_working" "plain_idle x"
    "sx_publish (fst (observe_screen x now (watch startedAt obs)))"
  shows "\<exists>pre y t0 mid. obs = pre @ (y, t0) # mid \<and> list_all (\<lambda>(z, _). plain_idle z) ((y, t0) # mid) \<and>
     200 \<le> now - t0 \<and> (mid \<noteq> [] \<or> 700 \<le> now - t0)"
proof -
  let ?s = "watch startedAt obs"
  have pub: "sx_publish (fst (confirm_idle x now ?s))"
    using assms by (auto simp: observe_screen_def held_back_def split: if_splits)
  then obtain t0 where t0: "sb_pendingIdleStartedAt ?s = Some t0"
    by (auto simp: confirm_idle_def held_back_def split: option.splits)
  then obtain pre y mid t1 where obs: "obs = pre @ (y, t0) # mid" "list_all (\<lambda>(y, _). plain_idle y) ((y, t0) # mid)"
    and t1: "sb_lastIdleConfirmationAt ?s = Some t1" "1 \<le> sb_idleConfirmations ?s"
      "sb_idleConfirmations ?s < IDLE_CONFIRMATIONS" "sb_idleConfirmations ?s \<le> Suc (length mid)"
      "int (sb_idleConfirmations ?s - 1) * IDLE_CONFIRMATION_INTERVAL_MS \<le> t1 - t0"
    using watch_pending [of obs startedAt] unfolding pending_ok_def by blast
  have "700 \<le> now - t0 \<or> (100 \<le> now - t1 \<and> sb_idleConfirmations ?s = 2)"
    using pub t0 t1 by (auto simp: confirm_idle_def held_back_def Let_def IDLE_CONFIRMATION_CAP_MS_def
      IDLE_CONFIRMATION_INTERVAL_MS_def IDLE_CONFIRMATIONS_def split: if_splits)
  then have "200 \<le> now - t0 \<and> (mid \<noteq> [] \<or> 700 \<le> now - t0)"
    using t1(4,5) by (auto simp: IDLE_CONFIRMATION_INTERVAL_MS_def)
  then show ?thesis using obs by blast
qed

end
