(* ===== verification/Spec2Isabelle.thy ===== *)
theory Spec2Isabelle
  imports Action_Properties Mail_Properties Topology_Properties Canonical_Roundtrip Terminal_Properties
    Foreman_Properties Provider_Properties Screen_Stabilizer
begin

text \<open>
  A verification development of the nanasa daemon: a service that runs coding agents in terminals, tracks
  what they do, carries messages and actions between them, and lets a Foreman hand goals to teams of them.

  \<^bold>\<open>The program.\<close> The daemon (\<open>apps/daemon/src\<close>) keeps its state in one SQLite database behind \<open>NanasaStore\<close>
  (\<open>store.ts\<close>). Reporters inside the agents send events, which \<open>agent-status-reducer.ts\<close> folds into a status
  per run. Principals ask for actions (a prompt, a wait, a reply, a cancellation); the action services admit
  them, and the scheduler brings each to the agent's terminal when its status allows. Members of a group
  exchange messages, whose deliveries a dispatcher types into terminals. The topology services keep the groups
  and members of the store equal to a configuration file. Viewers type into terminals through leases. The
  Foreman's goal service plans goals, reserves teams, and supervises their work by reports, decisions and
  reviews. The provider pipeline (\<open>providers/\<close>) binds a run to the snapshot of its provider and arbitrates the
  claims of its status sources. The contracts (\<open>packages/contracts/src\<close>) are the schemas all parts share.

  \<^bold>\<open>Theories.\<close> Each is in the order of the code it models; the definitions keep the names of its functions.

  \<^item> \<open>Nanasa_Prelude\<close>: results (\<open>error + 'a\<close>, one constructor per way an operation ends), timestamps, tables,
    JavaScript helpers, and the locales \<open>keyed_table\<close>, \<open>invariant_machine\<close>, \<open>monotone_machine\<close>,
    \<open>absorbing_machine\<close> and \<open>moving_machine\<close>, each interpreted on the components below.
  \<^item> \<open>Status_Types\<close>, \<open>Status_Reducer\<close>: \<open>status.ts\<close> and \<open>agent-status-reducer.ts\<close>, with the reducer's invariant,
    its refinement of a set-based specification of open work, and its leases.
  \<^item> \<open>Store_Types\<close>, \<open>Action_Schemas\<close>, \<open>Store_Core\<close>, \<open>Store_Actions\<close>, \<open>Store_Status\<close>, \<open>Store_Runs\<close>,
    \<open>Store_Idempotency\<close>: the rows of the store, the schemas they are read through, and its operations on
    actions, status, reporter sessions, runs and idempotency keys.
  \<^item> \<open>Action_Services\<close>, \<open>Action_Scheduler\<close>, \<open>Action_Retirement\<close>, \<open>Action_Protocol\<close>, \<open>World\<close>,
    \<open>Action_Properties\<close>: the services of \<open>actions/\<close>, the scheduler cut into the stretches between its awaits,
    what the Foreman's reset, clean-up and withdrawals do to actions, what each operation does to actions and
    attempts, and all of them as one machine whose steps interleave freely.
  \<^item> \<open>Store_Messages\<close>, \<open>Store_Deliveries\<close>, \<open>Store_Groups\<close>, \<open>Mail_Protocol\<close>, \<open>Mail_World\<close>, \<open>Mail_Properties\<close>:
    submission with its causation and retention, deliveries and \<open>delivery-dispatcher.ts\<close>, groups and
    memberships, and their machine.
  \<^item> \<open>Topology_Services\<close>, \<open>Topology_Convergence\<close>, \<open>Topology_Properties\<close>: \<open>topology-service.ts\<close>,
    \<open>topology-order-service.ts\<close>, \<open>config-repository.ts\<close> and what a reconciliation achieves.
  \<^item> \<open>Canonical_Json\<close>, \<open>Canonical_Roundtrip\<close>: \<open>canonical-json.ts\<close>, the text every digest is taken of.
  \<^item> \<open>Terminal_Control\<close>, \<open>Terminal_Properties\<close>: \<open>terminal-control-service.ts\<close>, \<open>terminal-input-arbiter.ts\<close>.
  \<^item> \<open>Foreman_Types\<close>, \<open>Foreman_Teams\<close>, \<open>Foreman_Goals\<close>, \<open>Foreman_Records\<close>, \<open>Foreman_Moves\<close>,
    \<open>Foreman_Machine\<close>, \<open>Foreman_Properties\<close>: \<open>foreman-goal-service.ts\<close> with the contracts of
    \<open>delegation.ts\<close>; its records as four sets, the invariant over them, one lemma \<open>..._advances\<close> per
    operation, the machine of the service with its supervision pass, and its guarantees.
  \<^item> \<open>Provider_Types\<close>, \<open>Provider_Store\<close>, \<open>Provider_Machine\<close>, \<open>Provider_Properties\<close>: \<open>provider-status.ts\<close> and the
    repositories of \<open>providers/\<close> (processes, admission of reporter events, claims, turn cycles), the invariant of
    their tables and their machine \<open>pipeline_step\<close>.
  \<^item> \<open>Screen_Stabilizer\<close>: \<open>provider-observation-stabilizer.ts\<close>; idle after work is published only when confirmed.

  \<^bold>\<open>State and steps.\<close> A database is a record of tables, a table the list of its rows in insertion order. One
  transaction or one synchronous stretch between two awaits is one function on that record, its result an error
  or a value with the new state; where a failing operation keeps some of its writes, the state stands beside the
  result. The machines (\<open>world_step\<close>, \<open>mail_step\<close>, \<open>front_step\<close>, \<open>coord_step\<close>, \<open>pipeline_step\<close>) take these functions in any order
  with arbitrary arguments: clocks, ids, late answers and concurrent callers are arguments of a step, so the
  invariants hold over every interleaving. What a machine does not own is a parameter that may differ at every
  step (the \<open>site\<close> of the Foreman: checkouts, configuration, terminals).

  \<^bold>\<open>What is shown.\<close> Actions: at most one attempt each, settled states stay and the other final states are
  left only for superseded by a reset or a clean-up, what holds at a terminal write, no write after a commit, no
  replayed event, one open session per run. Messages: well-formed rows, exact cycle
  search, bounded automated replies, pages, retention, fan-out, back-off, final deliveries, fenced claims.
  Idempotency of commands and requests. Topology: reconciliation is idempotent and makes the members the
  configured ones; the services of the order do what they say or leave the store alone. Canonical JSON: the
  reader accepts the writer's text and terminates. Terminals: one writer at a time, bounded viewers, takeover,
  automated input in order. Status: well-formed, an open wait rules until it is released, the open work is that
  of a specification. Foreman: teams and checkouts are reserved once, work is approved before it starts,
  accepted goals were reviewed. Provider pipeline: turn cycles agree with the
  open work recorded for them, an admitted event is not admitted again.

  \<^bold>\<open>Bounds and fuel.\<close> Only the JSON reader uses fuel: \<open>2 * length input + 2\<close> calls, since each consumes a unit or
  returns after at most two; \<open>parse_terminates\<close> shows the exhausted fuel is never the result. The walk to the
  causes of a message is a total function by the measure of unvisited rows. Limits of the code (attempts,
  viewers, hops, replies, retention, page sizes) are definitions with the source's values.

  \<^bold>\<open>Idealisations.\<close> Strings are ASCII and compare as lists; canonical JSON works on UTF-16 units with the engine's
  normalisation and number printing as parameters; its round trips are stated for the default options, without
  set-like paths, and the engine's stack limit on deeply nested text is ignored. Callbacks of the terminal
  service (\<open>onTakeover\<close>, the audit) are taken to return. Timestamps are milliseconds. JavaScript's order of
  integer-like object keys is not modelled. Random ids are parameters that are fresh where a machine needs it.
  SHA-256 is a parameter, without hypotheses. The texts of prompts and notifications are left out.

  \<^bold>\<open>Not modelled.\<close> PTYs, tmux and the terminal gateway's framing; git, the file system and digests of files; HTTP,
  MCP and CLI transport; the deletion of action rows with their group, which the action machine leaves out (its
  properties speak of stored actions); extension hosting and the installation of releases; the portal. The Foreman's own run,
  channel and the preparation of teams: what the goal service reads of them is a parameter. What stopping a run
  does to the store is a parameter of the topology services. The asynchronous reply of the open wait service.
  Of the provider pipeline the arbiter, the projection of the effective status and the extensions' side.
\<close>

end
